(* ===== verification/Prelude.thy ===== *)
theory Prelude
  imports Main "HOL-Library.Char_ord" "HOL-Library.List_Lexorder"
begin

text \<open>
  What every component theory shares: Python strings (kept as their UTF-8 bytes), ordered
  dictionaries (association lists in insertion order), and computations that read and write
  a state and may raise. The collections declared here carry the component proofs:
  \<open>dict_simps\<close> for dictionaries, \<open>comp_simps\<close> to evaluate a computation on a state, and
  \<open>keeps_intros\<close> for facts that hold along a whole computation.
\<close>

named_theorems dict_simps \<open>rewriting ordered dictionaries\<close>
named_theorems comp_simps \<open>running a computation on a state\<close>

section \<open>Python strings\<close>

text \<open>
  A Python \<open>str\<close> is modelled by its UTF-8 encoding. \<open>py_len\<close> counts code points, as
  Python's \<open>len\<close> does: every byte but the continuation bytes (128 to 191) starts one.
\<close>

definition is_continuation :: "char \<Rightarrow> bool" where
  "is_continuation c = (let n = (of_char c :: nat) in 128 \<le> n \<and> n < 192)"

definition py_len :: "string \<Rightarrow> nat" where
  "py_len s = length (filter (\<lambda>c. \<not> is_continuation c) s)"

lemma py_len_append [simp]: "py_len (s @ t) = py_len s + py_len t"
  by (simp add: py_len_def)

text \<open>ASCII classes and case mapping (\<open>str.lower\<close> on the ASCII letters).\<close>

definition is_digit :: "char \<Rightarrow> bool" where
  "is_digit c = (let n = (of_char c :: nat) in 48 \<le> n \<and> n \<le> 57)"

definition is_lower :: "char \<Rightarrow> bool" where
  "is_lower c = (let n = (of_char c :: nat) in 97 \<le> n \<and> n \<le> 122)"

definition is_upper :: "char \<Rightarrow> bool" where
  "is_upper c = (let n = (of_char c :: nat) in 65 \<le> n \<and> n \<le> 90)"

definition is_lower_hex :: "char \<Rightarrow> bool" where
  "is_lower_hex c = (let n = (of_char c :: nat) in is_digit c \<or> (97 \<le> n \<and> n \<le> 102))"

definition is_space :: "char \<Rightarrow> bool" where
  "is_space c = (let n = (of_char c :: nat) in n = 32 \<or> (9 \<le> n \<and> n \<le> 13))"

definition lower_char :: "char \<Rightarrow> char" where
  "lower_char c = (if is_upper c then char_of ((of_char c :: nat) + 32) else c)"

definition lower :: "string \<Rightarrow> string" where
  "lower s = map lower_char s"

fun starts_with :: "string \<Rightarrow> string \<Rightarrow> bool" where
  "starts_with [] s = True"
| "starts_with (p # ps) [] = False"
| "starts_with (p # ps) (c # s) = (p = c \<and> starts_with ps s)"

fun contains :: "string \<Rightarrow> string \<Rightarrow> bool" where
  "contains n [] = (n = [])"
| "contains n (c # s) = (starts_with n (c # s) \<or> contains n s)"

lemma starts_with_append: "starts_with p s = (\<exists>r. s = p @ r)"
  by (induction p s rule: starts_with.induct) auto

text \<open>\<open>str.strip()\<close>, and \<open>sep.join(parts)\<close>.\<close>

definition lstrip :: "string \<Rightarrow> string" where
  "lstrip s = dropWhile is_space s"

definition rstrip :: "string \<Rightarrow> string" where
  "rstrip s = rev (dropWhile is_space (rev s))"

definition strip :: "string \<Rightarrow> string" where
  "strip s = rstrip (lstrip s)"

fun join :: "string \<Rightarrow> string list \<Rightarrow> string" where
  "join sep [] = []"
| "join sep [x] = x"
| "join sep (x # y # ys) = x @ sep @ join sep (y # ys)"

lemma lstrip_idem [simp]: "lstrip (lstrip s) = lstrip s"
  by (simp add: lstrip_def)

lemma rstrip_idem [simp]: "rstrip (rstrip s) = rstrip s"
  by (simp add: rstrip_def)

text \<open>Decimal rendering of a number, as \<open>str(n)\<close> does.\<close>

fun decimal :: "nat \<Rightarrow> string" where
  "decimal n =
     (if n < 10 then [char_of (48 + n)] else decimal (n div 10) @ [char_of (48 + n mod 10)])"

declare decimal.simps [simp del]

section \<open>Ordered dictionaries\<close>

text \<open>
  A Python \<open>dict\<close> keeps insertion order; assigning to a present key keeps its place.
  \<open>dict_put\<close> is \<open>d[k] = v\<close>, \<open>dict_setdefault\<close> is \<open>d.setdefault(k, v)\<close>.
\<close>

type_synonym ('k, 'v) dict = "('k \<times> 'v) list"

fun dict_put :: "'k \<Rightarrow> 'v \<Rightarrow> ('k, 'v) dict \<Rightarrow> ('k, 'v) dict" where
  "dict_put k v [] = [(k, v)]"
| "dict_put k v ((k', v') # d) = (if k = k' then (k, v) # d else (k', v') # dict_put k v d)"

definition dict_setdefault :: "'k \<Rightarrow> 'v \<Rightarrow> ('k, 'v) dict \<Rightarrow> ('k, 'v) dict" where
  "dict_setdefault k v d = (if map_of d k = None then d @ [(k, v)] else d)"

definition dict_keys :: "('k, 'v) dict \<Rightarrow> 'k list" where
  "dict_keys d = map fst d"

definition dict_values :: "('k, 'v) dict \<Rightarrow> 'v list" where
  "dict_values d = map snd d"

lemma map_of_dict_put [dict_simps]: "map_of (dict_put k v d) = (map_of d)(k \<mapsto> v)"
  by (induction k v d rule: dict_put.induct) auto

lemma map_of_dict_setdefault [dict_simps]:
  "map_of (dict_setdefault k v d) = (if map_of d k = None then (map_of d)(k \<mapsto> v) else map_of d)"
  by (auto simp: dict_setdefault_def map_add_def fun_eq_iff split: option.splits)

lemma keys_dict_put [dict_simps]:
  "dict_keys (dict_put k v d) = (if k \<in> set (dict_keys d) then dict_keys d else dict_keys d @ [k])"
  by (induction k v d rule: dict_put.induct) (auto simp: dict_keys_def)

lemma keys_dict_setdefault [dict_simps]:
  "dict_keys (dict_setdefault k v d) =
     (if k \<in> set (dict_keys d) then dict_keys d else dict_keys d @ [k])"
  by (auto simp: dict_setdefault_def dict_keys_def map_of_eq_None_iff)

lemma set_dict_keys: "set (dict_keys d) = dom (map_of d)"
  by (simp add: dict_keys_def dom_map_of_conv_image_fst)

lemma set_dict_put: "(j, q) \<in> set (dict_put k v d) \<Longrightarrow> (j = k \<and> q = v) \<or> (j, q) \<in> set d"
  by (induction k v d rule: dict_put.induct) (auto split: if_splits)

lemma distinct_dict_put [simp, intro]:
  "distinct (dict_keys d) \<Longrightarrow> distinct (dict_keys (dict_put k v d))"
  by (simp add: keys_dict_put)

lemma distinct_dict_setdefault [simp, intro]:
  "distinct (dict_keys d) \<Longrightarrow> distinct (dict_keys (dict_setdefault k v d))"
  by (simp add: keys_dict_setdefault)

lemma dict_put_absent: "map_of d k = None \<Longrightarrow> dict_put k v d = d @ [(k, v)]"
  by (induction k v d rule: dict_put.induct) (auto split: if_splits)

lemma map_le_dict_put: "map_of d k = None \<Longrightarrow> map_of d \<subseteq>\<^sub>m map_of (dict_put k v d)"
  by (auto simp: map_of_dict_put map_le_def)

lemma map_le_Some: "m \<subseteq>\<^sub>m n \<Longrightarrow> m k = Some v \<Longrightarrow> n k = Some v"
  by (metis domI map_le_def)

lemma length_dict_values [simp]: "length (dict_values d) = length (dict_keys d)"
  by (simp add: dict_values_def dict_keys_def)

section \<open>Lists\<close>

text \<open>\<open>max(xs, key=f)\<close>: the first element with the greatest key, None on the empty list.\<close>

fun max_by :: "('a \<Rightarrow> 'k::linorder) \<Rightarrow> 'a list \<Rightarrow> 'a option" where
  "max_by f [] = None"
| "max_by f (x # xs) =
     (case max_by f xs of None \<Rightarrow> Some x | Some y \<Rightarrow> if f x < f y then Some y else Some x)"

lemma max_by_None [simp]: "max_by f xs = None \<longleftrightarrow> xs = []"
  by (cases xs) (auto split: option.splits)

lemma max_by_in: "max_by f xs = Some x \<Longrightarrow> x \<in> set xs"
  by (induction xs arbitrary: x) (auto split: option.splits if_splits)

lemma max_by_ge: "max_by f xs = Some x \<Longrightarrow> y \<in> set xs \<Longrightarrow> f y \<le> f x"
proof (induction xs arbitrary: x)
  case Nil
  then show ?case by simp
next
  case (Cons z zs)
  show ?case
  proof (cases "max_by f zs")
    case None
    with Cons.prems show ?thesis by simp
  next
    case (Some w)
    with Cons.prems Cons.IH[OF Some] show ?thesis
      by (auto split: if_splits dest: less_imp_le)
  qed
qed

text \<open>The last element that satisfies a test (\<open>for x in reversed(xs): if p(x): ...\<close>).\<close>

fun find_last :: "('a \<Rightarrow> bool) \<Rightarrow> 'a list \<Rightarrow> 'a option" where
  "find_last p [] = None"
| "find_last p (x # xs) =
     (case find_last p xs of None \<Rightarrow> if p x then Some x else None | Some y \<Rightarrow> Some y)"

lemma find_last_rev: "find_last p xs = find p (rev xs)"
proof -
  have "find p (ys @ zs) = (case find p ys of None \<Rightarrow> find p zs | Some y \<Rightarrow> Some y)" for ys zs
    by (induction ys) auto
  then show ?thesis
    by (induction xs) (auto split: option.splits)
qed

lemma find_last_None: "find_last p xs = None \<longleftrightarrow> (\<forall>x \<in> set xs. \<not> p x)"
  by (induction xs) (auto split: option.splits)

lemma find_last_Some: "find_last p xs = Some x \<Longrightarrow> x \<in> set xs \<and> p x"
  by (induction xs) (auto split: option.splits if_splits)

lemma find_last_append:
  "find_last p (xs @ ys) = (case find_last p ys of None \<Rightarrow> find_last p xs | Some y \<Rightarrow> Some y)"
  by (induction xs) (auto split: option.splits)

section \<open>Computations that raise\<close>

text \<open>
  A computation reads and writes a state \<open>'s\<close> and ends with a value (\<open>Inr\<close>) or an exception
  (\<open>Inl\<close>); the state written before an exception stays written, as in the source.
\<close>

type_synonym ('s, 'e, 'a) comp = "'s \<Rightarrow> ('e + 'a) \<times> 's"

definition ret :: "'a \<Rightarrow> ('s, 'e, 'a) comp" where
  "ret x = (\<lambda>s. (Inr x, s))"

definition raise :: "'e \<Rightarrow> ('s, 'e, 'a) comp" where
  "raise e = (\<lambda>s. (Inl e, s))"

definition andThen :: "('s, 'e, 'a) comp \<Rightarrow> ('a \<Rightarrow> ('s, 'e, 'b) comp) \<Rightarrow> ('s, 'e, 'b) comp" where
  "andThen m f = (\<lambda>s. case m s of (Inl e, s') \<Rightarrow> (Inl e, s') | (Inr x, s') \<Rightarrow> f x s')"

definition on_error :: "('s, 'e, 'a) comp \<Rightarrow> ('e \<Rightarrow> ('s, 'e, 'a) comp) \<Rightarrow> ('s, 'e, 'a) comp" where
  "on_error m h = (\<lambda>s. case m s of (Inl e, s') \<Rightarrow> h e s' | (Inr x, s') \<Rightarrow> (Inr x, s'))"

definition gets :: "('s \<Rightarrow> 'a) \<Rightarrow> ('s, 'e, 'a) comp" where
  "gets f = (\<lambda>s. (Inr (f s), s))"

definition modify :: "('s \<Rightarrow> 's) \<Rightarrow> ('s, 'e, unit) comp" where
  "modify f = (\<lambda>s. (Inr (), f s))"

definition require :: "bool \<Rightarrow> 'e \<Rightarrow> ('s, 'e, unit) comp" where
  "require b e = (if b then ret () else raise e)"

fun for_each :: "'a list \<Rightarrow> ('a \<Rightarrow> ('s, 'e, 'b) comp) \<Rightarrow> ('s, 'e, 'b list) comp" where
  "for_each [] f = ret []"
| "for_each (x # xs) f = andThen (f x) (\<lambda>y. andThen (for_each xs f) (\<lambda>ys. ret (y # ys)))"

lemma ret_run [comp_simps]: "ret x s = (Inr x, s)"
  by (simp add: ret_def)

lemma raise_run [comp_simps]: "raise e s = (Inl e, s)"
  by (simp add: raise_def)

lemma gets_run [comp_simps]: "gets f s = (Inr (f s), s)"
  by (simp add: gets_def)

lemma modify_run [comp_simps]: "modify f s = (Inr (), f s)"
  by (simp add: modify_def)

lemma andThen_run [comp_simps]:
  "andThen m f s = (case m s of (Inl e, s') \<Rightarrow> (Inl e, s') | (Inr x, s') \<Rightarrow> f x s')"
  by (simp add: andThen_def)

lemma on_error_run [comp_simps]:
  "on_error m h s = (case m s of (Inl e, s') \<Rightarrow> h e s' | (Inr x, s') \<Rightarrow> (Inr x, s'))"
  by (simp add: on_error_def)

lemma require_run [comp_simps]: "require b e s = (if b then (Inr (), s) else (Inl e, s))"
  by (simp add: require_def comp_simps)

lemma ret_andThen [simp]: "andThen (ret x) f = f x"
  by (simp add: fun_eq_iff comp_simps)

lemma andThen_ret [simp]: "andThen m ret = m"
  by (auto simp: fun_eq_iff comp_simps split: sum.splits prod.splits)

lemma andThen_assoc: "andThen (andThen m f) g = andThen m (\<lambda>x. andThen (f x) g)"
  by (auto simp: fun_eq_iff comp_simps split: sum.splits prod.splits)

lemma raise_andThen [simp]: "andThen (raise e) f = raise e"
  by (simp add: fun_eq_iff comp_simps)

section \<open>What a computation keeps\<close>

text \<open>
  \<open>moves P Q m\<close>: run from a state in \<open>P\<close>, \<open>m\<close> ends in a state in \<open>Q\<close>, whether it returns or
  raises. \<open>keeps P m\<close> is \<open>moves P P m\<close>. The rules below decompose a handler into its
  primitive operations, so that an invariant is proved once per primitive.
\<close>

definition moves :: "('s \<Rightarrow> bool) \<Rightarrow> ('s \<Rightarrow> bool) \<Rightarrow> ('s, 'e, 'a) comp \<Rightarrow> bool" where
  "moves P Q m \<longleftrightarrow> (\<forall>s. P s \<longrightarrow> Q (snd (m s)))"

abbreviation keeps :: "('s \<Rightarrow> bool) \<Rightarrow> ('s, 'e, 'a) comp \<Rightarrow> bool" where
  "keeps P m \<equiv> moves P P m"

named_theorems keeps_intros \<open>decomposing a computation to show what it keeps\<close>

lemma movesI: "(\<And>s. P s \<Longrightarrow> Q (snd (m s))) \<Longrightarrow> moves P Q m"
  by (simp add: moves_def)

lemma movesD: "moves P Q m \<Longrightarrow> P s \<Longrightarrow> Q (snd (m s))"
  by (simp add: moves_def)

lemma moves_weaken:
  "moves P Q m \<Longrightarrow> (\<And>s. P' s \<Longrightarrow> P s) \<Longrightarrow> (\<And>s. Q s \<Longrightarrow> Q' s) \<Longrightarrow> moves P' Q' m"
  by (auto simp: moves_def)

lemma keeps_ret [keeps_intros]: "keeps P (ret x)"
  by (simp add: moves_def comp_simps)

lemma keeps_raise [keeps_intros]: "keeps P (raise e)"
  by (simp add: moves_def comp_simps)

lemma keeps_gets [keeps_intros]: "keeps P (gets f)"
  by (simp add: moves_def comp_simps)

lemma keeps_require [keeps_intros]: "keeps P (require b e)"
  by (simp add: moves_def comp_simps)

lemma moves_andThen:
  assumes "moves P Q m" "\<And>x. moves Q R (f x)" "\<And>s. Q s \<Longrightarrow> R s"
  shows "moves P R (andThen m f)"
  using assms by (fastforce simp: moves_def comp_simps split: sum.splits prod.splits)

lemma keeps_andThen [keeps_intros]:
  "keeps P m \<Longrightarrow> (\<And>x. keeps P (f x)) \<Longrightarrow> keeps P (andThen m f)"
  by (rule moves_andThen)

lemma moves_andThen_keep:
  assumes "keeps P m" "\<And>x. moves P Q (f x)" "\<And>s. P s \<Longrightarrow> Q s"
  shows "moves P Q (andThen m f)"
  using assms by (rule moves_andThen)

lemma moves_gets_andThen:
  assumes "\<And>x. moves (\<lambda>s. P s \<and> f s = x) Q (g x)"
  shows "moves P Q (andThen (gets f) g)"
  using assms by (fastforce simp: moves_def comp_simps)

lemma keeps_on_error [keeps_intros]:
  "keeps P m \<Longrightarrow> (\<And>e. keeps P (h e)) \<Longrightarrow> keeps P (on_error m h)"
  by (fastforce simp: moves_def comp_simps split: sum.splits prod.splits)

lemma keeps_for_each [keeps_intros]:
  "(\<And>x. x \<in> set xs \<Longrightarrow> keeps P (f x)) \<Longrightarrow> keeps P (for_each xs f)"
  by (induction xs) (auto intro!: keeps_ret keeps_andThen)

lemma keeps_if [keeps_intros]:
  "(b \<Longrightarrow> keeps P m) \<Longrightarrow> (\<not> b \<Longrightarrow> keeps P n) \<Longrightarrow> keeps P (if b then m else n)"
  by simp

lemma keeps_option [keeps_intros]:
  "(x = None \<Longrightarrow> keeps P m) \<Longrightarrow> (\<And>y. x = Some y \<Longrightarrow> keeps P (f y)) \<Longrightarrow>
   keeps P (case x of None \<Rightarrow> m | Some y \<Rightarrow> f y)"
  by (cases x) auto

lemma keeps_sum [keeps_intros]:
  "(\<And>y. keeps P (f y)) \<Longrightarrow> (\<And>y. keeps P (g y)) \<Longrightarrow>
   keeps P (case x of Inl y \<Rightarrow> f y | Inr y \<Rightarrow> g y)"
  by (cases x) auto

section \<open>Triples\<close>

text \<open>
  \<open>triple P m Q E\<close>: run from a state in \<open>P\<close>, \<open>m\<close> either returns \<open>x\<close> in a state in \<open>Q x\<close> or
  raises in a state in \<open>E\<close>.
\<close>

definition triple ::
    "('s \<Rightarrow> bool) \<Rightarrow> ('s, 'e, 'a) comp \<Rightarrow> ('a \<Rightarrow> 's \<Rightarrow> bool) \<Rightarrow> ('s \<Rightarrow> bool) \<Rightarrow> bool" where
  "triple P m Q E \<longleftrightarrow>
     (\<forall>s. P s \<longrightarrow> (\<forall>e t. m s = (Inl e, t) \<longrightarrow> E t) \<and> (\<forall>x t. m s = (Inr x, t) \<longrightarrow> Q x t))"

lemma tripleD: "triple P m Q E \<Longrightarrow> P s \<Longrightarrow> m s = (Inl e, t) \<Longrightarrow> E t"
  "triple P m Q E \<Longrightarrow> P s \<Longrightarrow> m s = (Inr x, t) \<Longrightarrow> Q x t"
  unfolding triple_def by blast+

lemma triple_weaken:
  "triple P m Q E \<Longrightarrow> (\<And>s. P' s \<Longrightarrow> P s) \<Longrightarrow> (\<And>x s. Q x s \<Longrightarrow> Q' x s) \<Longrightarrow> (\<And>s. E s \<Longrightarrow> E' s) \<Longrightarrow>
   triple P' m Q' E'"
  unfolding triple_def by blast

lemma triple_ret: "(\<And>s. P s \<Longrightarrow> Q x s) \<Longrightarrow> triple P (ret x) Q E"
  by (simp add: triple_def comp_simps)

lemma triple_raise: "(\<And>s. P s \<Longrightarrow> E s) \<Longrightarrow> triple P (raise e) Q E"
  by (simp add: triple_def comp_simps)

lemma triple_modify: "(\<And>s. P s \<Longrightarrow> Q () (f s)) \<Longrightarrow> triple P (modify f) Q E"
  by (simp add: triple_def comp_simps)

lemma triple_andThen:
  "triple P m R E \<Longrightarrow> (\<And>x. triple (R x) (f x) Q E) \<Longrightarrow> triple P (andThen m f) Q E"
  by (fastforce simp: triple_def comp_simps split: prod.splits sum.splits)

lemma triple_gets:
  "(\<And>x. triple (\<lambda>s. P s \<and> f s = x) (g x) Q E) \<Longrightarrow> triple P (andThen (gets f) g) Q E"
  by (fastforce simp: triple_def comp_simps split: prod.splits sum.splits)

lemma triple_value: "(\<And>s. P s \<Longrightarrow> Q (f s) s) \<Longrightarrow> triple P (gets f) Q E"
  by (simp add: triple_def comp_simps)

lemma triple_if:
  "(b \<Longrightarrow> triple P m Q E) \<Longrightarrow> (\<not> b \<Longrightarrow> triple P n Q E) \<Longrightarrow> triple P (if b then m else n) Q E"
  by simp

lemma triple_require: "(\<And>s. P s \<Longrightarrow> b \<Longrightarrow> Q () s) \<Longrightarrow> (\<And>s. P s \<Longrightarrow> E s) \<Longrightarrow> triple P (require b e) Q E"
  by (simp add: triple_def comp_simps)

lemma keeps_triple: "keeps P m \<Longrightarrow> triple P m (\<lambda>_. P) P"
  unfolding triple_def moves_def by (metis snd_conv)

lemma triple_moves: "triple P m (\<lambda>_. Q) Q \<Longrightarrow> moves P Q m"
  unfolding triple_def moves_def by (metis obj_sumE prod.collapse)

end
