(* ===== verification/Schema_Base.thy ===== *)
theory Schema_Base
  imports Prelude "HOL-Library.Word"
begin

unbundle bit_operations_syntax

text \<open>
  The strict base types of \<open>shared/review_schemas/review_schemas/base.py\<close> and the error
  taxonomy of \<open>errors.py\<close>. A constrained alias is a bool-valued predicate on the value
  (\<open>StoryId\<close>, \<open>RunId\<close>, \<open>text_ok\<close>, ...); a literal union is a \<open>datatype\<close>. Instants
  are integers (microseconds, timezone-aware by construction); a UUID is its 128 bits.
\<close>

section \<open>Identifiers and texts\<close>

type_synonym instant = int
type_synonym uuid = "128 word"

definition all_digits :: "string \<Rightarrow> bool" where
  "all_digits s = list_all is_digit s"

definition StoryId :: "string \<Rightarrow> bool" where
  "StoryId s =
     (((starts_with ''story-'' s \<and> length (drop 6 s) = 2 \<and> all_digits (drop 6 s)) \<or>
       (starts_with ''ado-'' s \<and> 1 \<le> length (drop 4 s) \<and> length (drop 4 s) \<le> 8 \<and>
        all_digits (drop 4 s))) \<and>
      5 \<le> length s \<and> length s \<le> 12)"

text \<open>The 8-4-4-4-12 lowercase hexadecimal body shared by the four id patterns.\<close>

fun hex_groups :: "nat list \<Rightarrow> string \<Rightarrow> bool" where
  "hex_groups [] s = (s = [])"
| "hex_groups [n] s = (length s = n \<and> list_all is_lower_hex s)"
| "hex_groups (n # m # ns) s =
     (length (take n s) = n \<and> list_all is_lower_hex (take n s) \<and>
      starts_with ''-'' (drop n s) \<and> hex_groups (m # ns) (drop (Suc n) s))"

definition prefixed_uuid :: "string \<Rightarrow> string \<Rightarrow> bool" where
  "prefixed_uuid p s = (starts_with p s \<and> hex_groups [8, 4, 4, 4, 12] (drop (length p) s))"

definition RunId :: "string \<Rightarrow> bool" where
  "RunId s = (prefixed_uuid ''run-'' s \<and> length s = 40)"

definition SessionId :: "string \<Rightarrow> bool" where
  "SessionId s = (prefixed_uuid ''sess-'' s \<and> length s = 41)"

definition ArtifactId :: "string \<Rightarrow> bool" where
  "ArtifactId s = (prefixed_uuid ''art-'' s \<and> length s = 40)"

definition AgentRunId :: "string \<Rightarrow> bool" where
  "AgentRunId s = (prefixed_uuid ''arun-'' s \<and> length s = 41)"

text \<open>
  \<open>Text\<close> and \<open>ShortText\<close> strip surrounding whitespace and bound the length of what is left:
  \<open>Text\<close> maps the raw value to the stored one (None: a validation error).
\<close>

definition bounded_text :: "nat \<Rightarrow> string \<Rightarrow> string option" where
  "bounded_text n s = (let t = strip s in if 1 \<le> py_len t \<and> py_len t \<le> n then Some t else None)"

definition Text :: "string \<Rightarrow> string option" where
  "Text s = bounded_text 20000 s"

definition ShortText :: "string \<Rightarrow> string option" where
  "ShortText s = bounded_text 500 s"

definition text_ok :: "string \<Rightarrow> bool" where
  "text_ok s = (Text s = Some s)"

definition short_text_ok :: "string \<Rightarrow> bool" where
  "short_text_ok s = (ShortText s = Some s)"

definition Sha256 :: "string \<Rightarrow> bool" where
  "Sha256 s = (length s = 64 \<and> list_all is_lower_hex s)"

definition HttpsUrl :: "string \<Rightarrow> bool" where
  "HttpsUrl s = (starts_with ''https://'' s \<and> 9 \<le> py_len s \<and> py_len s \<le> 4096)"

text \<open>
  \<open>uuid.UUID.version\<close>: the four version bits, defined only for the RFC 4122 variant
  (the two top bits of byte 8 are 10).
\<close>

definition uuid_version :: "uuid \<Rightarrow> nat option" where
  "uuid_version u =
     (if unat (drop_bit 62 u AND 3) = 2 then Some (unat (drop_bit 76 u AND 15)) else None)"

definition is_uuid4 :: "uuid \<Rightarrow> bool" where
  "is_uuid4 u = (uuid_version u = Some 4)"

section \<open>Literal unions\<close>

datatype story_source = Azure | Mock
datatype report_format = Md | Pdf
datatype perspective = Business | Engineering
datatype artifact_type =
    StoryArtifact | ReviewBusiness | ReviewEngineering | SynthesisArtifact
  | FinalizedReviewArtifact | ReportMd | ReportPdf
datatype session_state = Active | Parked | Finalizing | Completed
datatype turn_outcome = Continue | Park | Finalize
datatype record_state = Pending | Running | Succeeded | Failed
datatype severity = Info | Minor | Major | Blocker
datatype content_type = ApplicationJson | TextMarkdown | ApplicationPdf

definition save_artifact_type :: "artifact_type \<Rightarrow> bool" where
  "save_artifact_type t = (t \<noteq> ReportMd \<and> t \<noteq> ReportPdf)"

fun report_type :: "report_format \<Rightarrow> artifact_type" where
  "report_type Md = ReportMd"
| "report_type Pdf = ReportPdf"

fun review_type :: "perspective \<Rightarrow> artifact_type" where
  "review_type Business = ReviewBusiness"
| "review_type Engineering = ReviewEngineering"

text \<open>The wire spelling of the literals (used in keys, sort orders and rendered text).\<close>

fun artifact_type_name :: "artifact_type \<Rightarrow> string" where
  "artifact_type_name StoryArtifact = ''story''"
| "artifact_type_name ReviewBusiness = ''review-business''"
| "artifact_type_name ReviewEngineering = ''review-engineering''"
| "artifact_type_name SynthesisArtifact = ''synthesis''"
| "artifact_type_name FinalizedReviewArtifact = ''finalized-review''"
| "artifact_type_name ReportMd = ''report-md''"
| "artifact_type_name ReportPdf = ''report-pdf''"

fun perspective_name :: "perspective \<Rightarrow> string" where
  "perspective_name Business = ''business''"
| "perspective_name Engineering = ''engineering''"

fun severity_name :: "severity \<Rightarrow> string" where
  "severity_name Info = ''info''"
| "severity_name Minor = ''minor''"
| "severity_name Major = ''major''"
| "severity_name Blocker = ''blocker''"

fun severity_rank :: "severity \<Rightarrow> nat" where
  "severity_rank Info = 0"
| "severity_rank Minor = 1"
| "severity_rank Major = 2"
| "severity_rank Blocker = 3"

instantiation severity :: linorder
begin

definition less_eq_severity :: "severity \<Rightarrow> severity \<Rightarrow> bool" where
  "less_eq_severity a b = (severity_rank a \<le> severity_rank b)"

definition less_severity :: "severity \<Rightarrow> severity \<Rightarrow> bool" where
  "less_severity a b = (severity_rank a < severity_rank b)"

instance
proof
  fix a b c :: severity
  show "a \<le> b \<Longrightarrow> b \<le> a \<Longrightarrow> a = b"
    by (cases a; cases b) (simp_all add: less_eq_severity_def)
qed (auto simp: less_eq_severity_def less_severity_def)

end

section \<open>Errors\<close>

datatype error_code =
    UNAUTHENTICATED | FORBIDDEN | VALIDATION_ERROR | STORY_NOT_FOUND | SESSION_NOT_FOUND
  | ARTIFACT_NOT_FOUND | SESSION_LOCKED | SESSION_READ_ONLY | STORY_SESSION_ACTIVE
  | NOT_FINALIZING | REPORT_NOT_READY | IDEMPOTENCY_KEY_REUSED | DELEGATION_VALIDATION
  | DEADLINE_EXCEEDED | UPSTREAM_UNAVAILABLE | RENDER_FAILED | REPORT_RENDER_FAILED
  | FINAL_REVIEW_INVALID

text \<open>
  \<open>ErrorBody\<close>. The correlation id is an echo of the request and the message is prose.
\<close>

record ErrorBody =
  eb_code :: error_code
  eb_message :: string
  eb_agent :: "string option"
  eb_correlation :: uuid
  eb_retryable :: bool
  eb_retry_after :: "nat option"

definition valid_ErrorBody :: "ErrorBody \<Rightarrow> bool" where
  "valid_ErrorBody e =
     (Text (eb_message e) \<noteq> None \<and> is_uuid4 (eb_correlation e) \<and>
      (case eb_agent e of None \<Rightarrow> True | Some a \<Rightarrow> ShortText a \<noteq> None) \<and>
      (case eb_retry_after e of None \<Rightarrow> True | Some n \<Rightarrow> 1 \<le> n \<and> n \<le> 3600) \<and>
      eb_retryable e = (eb_retry_after e \<noteq> None))"

end
