(* ===== verification/Schema_Review.thy ===== *)
theory Schema_Review
  imports Schema_Base
begin

text \<open>
  The domain models of \<open>shared/review_schemas/review_schemas/\<close>: \<open>review.py\<close>, \<open>synthesis.py\<close>,
  \<open>facilitator.py\<close> and \<open>judge.py\<close>. Each pydantic class is a record with the source's fields
  (prefixed by the class), and a predicate \<open>valid_<Class>\<close> that holds exactly when the class's
  field constraints and its \<open>model_validator\<close> accept the (already stripped) values.
\<close>

section \<open>Stories and reviews\<close>

record StorySummary =
  ss_story_id :: string
  ss_title :: string
  ss_status :: string

record StoryComment =
  sc_author :: string
  sc_text :: string
  sc_created_at :: instant

datatype relation = Related | Depends

record ContextStory =
  cs_story_id :: string
  cs_title :: string
  cs_relation :: relation
  cs_description :: string
  cs_acceptance_criteria :: "string list"
  cs_comments :: "StoryComment list"

record StoryDetail = StorySummary +
  sd_description :: string
  sd_acceptance_criteria :: "string list"
  sd_epic_context :: string
  sd_roadmap_context :: string
  sd_comments :: "StoryComment list"
  sd_context_stories :: "ContextStory list"

definition valid_StorySummary :: "'a StorySummary_scheme \<Rightarrow> bool" where
  "valid_StorySummary s =
     (StoryId (ss_story_id s) \<and> short_text_ok (ss_title s) \<and> short_text_ok (ss_status s))"

definition valid_StoryComment :: "StoryComment \<Rightarrow> bool" where
  "valid_StoryComment c = (short_text_ok (sc_author c) \<and> text_ok (sc_text c))"

definition valid_ContextStory :: "ContextStory \<Rightarrow> bool" where
  "valid_ContextStory c =
     (StoryId (cs_story_id c) \<and> short_text_ok (cs_title c) \<and> text_ok (cs_description c) \<and>
      list_all text_ok (cs_acceptance_criteria c) \<and> length (cs_acceptance_criteria c) \<le> 100 \<and>
      list_all valid_StoryComment (cs_comments c) \<and> length (cs_comments c) \<le> 50)"

definition valid_StoryDetail :: "StoryDetail \<Rightarrow> bool" where
  "valid_StoryDetail s =
     (valid_StorySummary s \<and> text_ok (sd_description s) \<and>
      list_all text_ok (sd_acceptance_criteria s) \<and> length (sd_acceptance_criteria s) \<le> 100 \<and>
      text_ok (sd_epic_context s) \<and> text_ok (sd_roadmap_context s) \<and>
      list_all valid_StoryComment (sd_comments s) \<and> length (sd_comments s) \<le> 50 \<and>
      list_all valid_ContextStory (sd_context_stories s) \<and> length (sd_context_stories s) \<le> 5)"

record Finding =
  fd_id :: string
  fd_title :: string
  fd_description :: string
  fd_severity :: severity
  fd_category :: string
  fd_suggestion :: "string option"
  fd_references_po_question :: bool

text \<open>The pattern \<open>^[XY]-[1-9][0-9]*$\<close> of finding and conflict ids.\<close>

definition numbered_id :: "char list \<Rightarrow> string \<Rightarrow> bool" where
  "numbered_id letters s =
     (case s of
        c # d # n # ns \<Rightarrow>
          c \<in> set letters \<and> d = CHR ''-'' \<and> is_digit n \<and> n \<noteq> CHR ''0'' \<and> list_all is_digit ns
      | _ \<Rightarrow> False)"

definition category_ok :: "string \<Rightarrow> bool" where
  "category_ok s =
     (case s of [] \<Rightarrow> False
      | c # cs \<Rightarrow> is_lower c \<and> list_all (\<lambda>x. is_lower x \<or> is_digit x \<or> x = CHR ''-'') cs \<and>
          length s \<le> 64)"

definition opt_ok :: "('a \<Rightarrow> bool) \<Rightarrow> 'a option \<Rightarrow> bool" where
  "opt_ok p x = (case x of None \<Rightarrow> True | Some y \<Rightarrow> p y)"

definition valid_Finding :: "Finding \<Rightarrow> bool" where
  "valid_Finding f =
     (numbered_id ''BE'' (fd_id f) \<and> length (fd_id f) \<le> 32 \<and> short_text_ok (fd_title f) \<and>
      text_ok (fd_description f) \<and> category_ok (fd_category f) \<and> opt_ok text_ok (fd_suggestion f))"

record ReviewReport =
  rr_perspective :: perspective
  rr_story_id :: string
  rr_summary :: string
  rr_findings :: "Finding list"
  rr_risks :: "string list"
  rr_questions_for_po :: "string list"
  rr_based_on_extra_context :: "string option"
  rr_previous_review_version :: "int option"

definition finding_prefix_matches_perspective :: "ReviewReport \<Rightarrow> bool" where
  "finding_prefix_matches_perspective r =
     (let prefix = (if rr_perspective r = Business then ''B-'' else ''E-'')
      in list_all (\<lambda>f. starts_with prefix (fd_id f)) (rr_findings r))"

definition valid_ReviewReport :: "ReviewReport \<Rightarrow> bool" where
  "valid_ReviewReport r =
     (StoryId (rr_story_id r) \<and> text_ok (rr_summary r) \<and>
      list_all valid_Finding (rr_findings r) \<and> length (rr_findings r) \<le> 200 \<and>
      list_all text_ok (rr_risks r) \<and> length (rr_risks r) \<le> 100 \<and>
      list_all text_ok (rr_questions_for_po r) \<and> length (rr_questions_for_po r) \<le> 100 \<and>
      opt_ok text_ok (rr_based_on_extra_context r) \<and>
      opt_ok (\<lambda>v. 1 \<le> v) (rr_previous_review_version r) \<and>
      finding_prefix_matches_perspective r)"

section \<open>Artifact references and the synthesis report\<close>

record ConflictItem =
  ci_id :: string
  ci_description :: string
  ci_business_refs :: "string list"
  ci_engineering_refs :: "string list"
  ci_needs_po_clarification :: bool

definition valid_ConflictItem :: "ConflictItem \<Rightarrow> bool" where
  "valid_ConflictItem c =
     (numbered_id ''C'' (ci_id c) \<and> length (ci_id c) \<le> 32 \<and> text_ok (ci_description c) \<and>
      list_all short_text_ok (ci_business_refs c) \<and> 1 \<le> length (ci_business_refs c) \<and>
      length (ci_business_refs c) \<le> 100 \<and>
      list_all short_text_ok (ci_engineering_refs c) \<and> 1 \<le> length (ci_engineering_refs c) \<and>
      length (ci_engineering_refs c) \<le> 100)"

record ArtifactReference =
  ar_artifact_id :: string
  ar_story_run_id :: string
  ar_type :: artifact_type
  ar_perspective :: "perspective option"
  ar_version :: nat
  ar_created_at :: instant
  ar_content_type :: content_type
  ar_checksum_sha256 :: string
  ar_is_latest :: bool

fun expected_perspective :: "artifact_type \<Rightarrow> perspective option" where
  "expected_perspective ReviewBusiness = Some Business"
| "expected_perspective ReviewEngineering = Some Engineering"
| "expected_perspective _ = None"

fun expected_content_type :: "artifact_type \<Rightarrow> content_type" where
  "expected_content_type ReportMd = TextMarkdown"
| "expected_content_type ReportPdf = ApplicationPdf"
| "expected_content_type _ = ApplicationJson"

definition valid_ArtifactReference :: "ArtifactReference \<Rightarrow> bool" where
  "valid_ArtifactReference a =
     (ArtifactId (ar_artifact_id a) \<and> RunId (ar_story_run_id a) \<and> 1 \<le> ar_version a \<and>
      Sha256 (ar_checksum_sha256 a) \<and>
      ar_perspective a = expected_perspective (ar_type a) \<and>
      ar_content_type a = expected_content_type (ar_type a))"

text \<open>\<open>inputs\<close> is a dictionary from perspective to reference.\<close>

record SynthesisReport =
  sr_story_id :: string
  sr_summary :: string
  sr_merged_findings :: "Finding list"
  sr_conflicts :: "ConflictItem list"
  sr_questions_for_po :: "string list"
  sr_resolved_from_previous :: "string list"
  sr_inputs :: "(perspective, ArtifactReference) dict"

definition validate_paired_inputs :: "SynthesisReport \<Rightarrow> bool" where
  "validate_paired_inputs r =
     (set (dict_keys (sr_inputs r)) = {Business, Engineering} \<and>
      list_all (\<lambda>(p, ref). ar_type ref = review_type p \<and> ar_perspective ref = Some p) (sr_inputs r) \<and>
      length (remdups (map ar_story_run_id (dict_values (sr_inputs r)))) = 1)"

definition valid_SynthesisReport :: "SynthesisReport \<Rightarrow> bool" where
  "valid_SynthesisReport r =
     (StoryId (sr_story_id r) \<and> text_ok (sr_summary r) \<and>
      list_all valid_Finding (sr_merged_findings r) \<and> length (sr_merged_findings r) \<le> 400 \<and>
      list_all valid_ConflictItem (sr_conflicts r) \<and> length (sr_conflicts r) \<le> 200 \<and>
      list_all text_ok (sr_questions_for_po r) \<and> length (sr_questions_for_po r) \<le> 100 \<and>
      list_all short_text_ok (sr_resolved_from_previous r) \<and>
      length (sr_resolved_from_previous r) \<le> 400 \<and>
      list_all valid_ArtifactReference (dict_values (sr_inputs r)) \<and>
      distinct (dict_keys (sr_inputs r)) \<and> length (sr_inputs r) = 2 \<and>
      validate_paired_inputs r)"

section \<open>Facilitator output and the final review\<close>

datatype invoke = InvokeNone | InvokeBusiness | InvokeEngineering | InvokeBoth
datatype readiness = NeedsWork | ReviewRequested | Ready
datatype disposition = Resolved | Accepted | Unresolved | Reopened

record DelegationDecision =
  dd_invoke :: invoke
  dd_extra_context :: "string option"
  dd_reuse_previous :: bool
  dd_open_issues :: "string list"
  dd_readiness :: readiness

definition validate_combination :: "DelegationDecision \<Rightarrow> bool" where
  "validate_combination d =
     (\<not> (dd_reuse_previous d \<and> dd_invoke d \<noteq> InvokeNone) \<and>
      \<not> (dd_invoke d = InvokeNone \<and> dd_extra_context d \<noteq> None))"

definition valid_DelegationDecision :: "DelegationDecision \<Rightarrow> bool" where
  "valid_DelegationDecision d =
     (opt_ok text_ok (dd_extra_context d) \<and> list_all text_ok (dd_open_issues d) \<and>
      length (dd_open_issues d) \<le> 100 \<and> validate_combination d)"

record IssueDraft =
  id_issue :: string
  id_title :: string
  id_description :: string

record ResolutionDraft =
  rd_issue :: string
  rd_disposition :: disposition
  rd_explanation :: string

record ResolutionItem =
  ri_issue :: string
  ri_disposition :: disposition
  ri_explanation :: string
  ri_turn_number :: nat

definition valid_IssueDraft :: "IssueDraft \<Rightarrow> bool" where
  "valid_IssueDraft d = (text_ok (id_issue d) \<and> text_ok (id_title d) \<and> text_ok (id_description d))"

definition valid_ResolutionDraft :: "ResolutionDraft \<Rightarrow> bool" where
  "valid_ResolutionDraft r = (text_ok (rd_issue r) \<and> text_ok (rd_explanation r))"

definition valid_ResolutionItem :: "ResolutionItem \<Rightarrow> bool" where
  "valid_ResolutionItem r =
     (text_ok (ri_issue r) \<and> text_ok (ri_explanation r) \<and> 1 \<le> ri_turn_number r)"

record FacilitatorTurnOutput =
  fo_reply :: string
  fo_delegation :: DelegationDecision
  fo_resolutions :: "ResolutionDraft list"
  fo_new_issues :: "IssueDraft list"

definition resolutions_are_final :: "FacilitatorTurnOutput \<Rightarrow> bool" where
  "resolutions_are_final o1 =
     (dd_invoke (fo_delegation o1) = InvokeNone \<and> dd_reuse_previous (fo_delegation o1) \<longrightarrow>
        fo_resolutions o1 = [])"

definition new_issues_are_open :: "FacilitatorTurnOutput \<Rightarrow> bool" where
  "new_issues_are_open o1 =
     (let described = map id_issue (fo_new_issues o1) in
        distinct described \<and>
        list_all (\<lambda>i. i \<in> set (dd_open_issues (fo_delegation o1))) described \<and>
        (dd_invoke (fo_delegation o1) = InvokeNone \<and> dd_reuse_previous (fo_delegation o1) \<longrightarrow>
           fo_new_issues o1 = []))"

definition valid_FacilitatorTurnOutput :: "FacilitatorTurnOutput \<Rightarrow> bool" where
  "valid_FacilitatorTurnOutput o1 =
     (text_ok (fo_reply o1) \<and> valid_DelegationDecision (fo_delegation o1) \<and>
      list_all valid_ResolutionDraft (fo_resolutions o1) \<and> length (fo_resolutions o1) \<le> 100 \<and>
      list_all valid_IssueDraft (fo_new_issues o1) \<and> length (fo_new_issues o1) \<le> 100 \<and>
      resolutions_are_final o1 \<and> new_issues_are_open o1)"

datatype issue_source = FromSynthesis | FromFacilitator

record IssueEntry =
  ie_issue :: string
  ie_title :: string
  ie_description :: string
  ie_severity :: "severity option"
  ie_source :: issue_source

definition valid_IssueEntry :: "IssueEntry \<Rightarrow> bool" where
  "valid_IssueEntry e = (text_ok (ie_issue e) \<and> text_ok (ie_title e) \<and> text_ok (ie_description e))"

record FinalizedReview =
  fr_story_id :: string
  fr_story_run_id :: string
  fr_synthesis_reference :: ArtifactReference
  fr_issues :: "IssueEntry list"
  fr_resolutions :: "ResolutionItem list"
  fr_remaining_open_issues :: "string list"
  fr_po_accepted :: bool
  fr_final_turn_number :: nat
  fr_finalized_at :: instant

text \<open>
  \<open>latest_resolutions\<close>: one dictionary assignment per item, so an issue keeps its first place
  and its last item.
\<close>

fun latest_dict :: "ResolutionItem list \<Rightarrow> (string, ResolutionItem) dict \<Rightarrow> (string, ResolutionItem) dict"
where
  "latest_dict [] d = d"
| "latest_dict (r # rs) d = latest_dict rs (dict_put (ri_issue r) r d)"

definition latest_resolutions :: "ResolutionItem list \<Rightarrow> ResolutionItem list" where
  "latest_resolutions rs = dict_values (latest_dict rs [])"

definition settled :: "disposition \<Rightarrow> bool" where
  "settled d = (d = Resolved \<or> d = Accepted)"

definition validate_final_state :: "FinalizedReview \<Rightarrow> bool" where
  "validate_final_state f =
     (let catalog_ids = map ie_issue (fr_issues f);
          latest = latest_dict (fr_resolutions f) []
      in ar_type (fr_synthesis_reference f) = SynthesisArtifact \<and>
         ar_story_run_id (fr_synthesis_reference f) = fr_story_run_id f \<and>
         \<not> (fr_remaining_open_issues f \<noteq> [] \<and> \<not> fr_po_accepted f) \<and>
         distinct catalog_ids \<and>
         list_all (\<lambda>i. case map_of latest i of None \<Rightarrow> True | Some r \<Rightarrow> \<not> settled (ri_disposition r))
           (fr_remaining_open_issues f) \<and>
         list_all (\<lambda>i. i \<in> set catalog_ids) (dict_keys latest) \<and>
         list_all (\<lambda>i. i \<in> set catalog_ids) (fr_remaining_open_issues f))"

definition valid_FinalizedReview :: "FinalizedReview \<Rightarrow> bool" where
  "valid_FinalizedReview f =
     (StoryId (fr_story_id f) \<and> RunId (fr_story_run_id f) \<and>
      list_all valid_IssueEntry (fr_issues f) \<and> length (fr_issues f) \<le> 400 \<and>
      list_all valid_ResolutionItem (fr_resolutions f) \<and> length (fr_resolutions f) \<le> 200 \<and>
      list_all text_ok (fr_remaining_open_issues f) \<and> length (fr_remaining_open_issues f) \<le> 100 \<and>
      1 \<le> fr_final_turn_number f \<and> validate_final_state f)"

end
