(* ===== verification/Schema_Records.thy ===== *)
theory Schema_Records
  imports Schema_Review
begin

text \<open>
  The durable record models (\<open>shared/review_schemas/review_schemas/records.py\<close>), the MCP tool
  models (\<open>mcp.py\<close>), the conversation summary (\<open>facilitator.py\<close>) and the judge verdict
  (\<open>judge.py\<close>), each with the predicate its validators accept.
\<close>

section \<open>Durable records\<close>

record StoryRunRecord =
  sr_run_id :: string
  sr_run_story :: string
  sr_user_id :: uuid
  sr_state :: session_state
  sr_created_at :: instant
  sr_updated_at :: instant

record SessionRecord =
  se_session_id :: string
  se_story_run_id :: string
  se_story_id :: string
  se_user_id :: uuid
  se_state :: session_state
  se_requested_formats :: "report_format list"
  se_turn_count :: nat
  se_final_review_reference :: "ArtifactReference option"
  se_report_references :: "ArtifactReference list"
  se_created_at :: instant
  se_updated_at :: instant

definition valid_StoryRunRecord :: "StoryRunRecord \<Rightarrow> bool" where
  "valid_StoryRunRecord r =
     (RunId (sr_run_id r) \<and> StoryId (sr_run_story r) \<and> is_uuid4 (sr_user_id r))"

definition validate_formats_and_artifacts :: "SessionRecord \<Rightarrow> bool" where
  "validate_formats_and_artifacts s =
     (let report_formats = map ar_type (se_report_references s);
          expected_types = set (map report_type (se_requested_formats s))
      in distinct (se_requested_formats s) \<and>
         (case se_final_review_reference s of None \<Rightarrow> True
          | Some ref \<Rightarrow>
              ar_type ref = FinalizedReviewArtifact \<and> ar_story_run_id ref = se_story_run_id s) \<and>
         list_all (\<lambda>t. t = ReportMd \<or> t = ReportPdf) report_formats \<and>
         distinct report_formats \<and>
         \<not> (se_state s = Completed \<and>
            (se_final_review_reference s = None \<or> set report_formats \<noteq> expected_types)))"

definition valid_SessionRecord :: "SessionRecord \<Rightarrow> bool" where
  "valid_SessionRecord s =
     (SessionId (se_session_id s) \<and> RunId (se_story_run_id s) \<and> StoryId (se_story_id s) \<and>
      is_uuid4 (se_user_id s) \<and>
      1 \<le> length (se_requested_formats s) \<and> length (se_requested_formats s) \<le> 2 \<and>
      se_turn_count s \<le> 10 \<and>
      opt_ok valid_ArtifactReference (se_final_review_reference s) \<and>
      list_all valid_ArtifactReference (se_report_references s) \<and>
      length (se_report_references s) \<le> 2 \<and>
      validate_formats_and_artifacts s)"

record TurnRecord =
  tu_session_id :: string
  tu_turn_number :: nat
  tu_correlation_id :: uuid
  tu_state :: record_state
  tu_po_message :: "string option"
  tu_po_accepted :: bool
  tu_facilitator_reply :: "string option"
  tu_rationale_reply :: "string option"
  tu_delegation :: "DelegationDecision option"
  tu_resolutions :: "ResolutionItem list"
  tu_new_issues :: "IssueDraft list"
  tu_outcome :: "turn_outcome option"
  tu_produced :: "ArtifactReference list"
  tu_created_at :: instant
  tu_completed_at :: "instant option"

definition validate_turn_state :: "TurnRecord \<Rightarrow> bool" where
  "validate_turn_state t =
     (\<not> (tu_turn_number t > 1 \<and> tu_po_accepted t = (tu_po_message t \<noteq> None)) \<and>
      \<not> (tu_state t = Succeeded \<and> (tu_outcome t = None \<or> tu_completed_at t = None)))"

definition valid_TurnRecord :: "TurnRecord \<Rightarrow> bool" where
  "valid_TurnRecord t =
     (SessionId (tu_session_id t) \<and> 1 \<le> tu_turn_number t \<and> is_uuid4 (tu_correlation_id t) \<and>
      opt_ok text_ok (tu_po_message t) \<and> opt_ok text_ok (tu_facilitator_reply t) \<and>
      opt_ok text_ok (tu_rationale_reply t) \<and> opt_ok valid_DelegationDecision (tu_delegation t) \<and>
      list_all valid_ResolutionItem (tu_resolutions t) \<and> length (tu_resolutions t) \<le> 100 \<and>
      list_all valid_IssueDraft (tu_new_issues t) \<and> length (tu_new_issues t) \<le> 100 \<and>
      list_all valid_ArtifactReference (tu_produced t) \<and> length (tu_produced t) \<le> 20 \<and>
      validate_turn_state t)"

datatype agent = FacilitatorAgent | BusinessReviewer | EngineeringReviewer | SynthesisAgent

record AgentRunRecord =
  ag_run_id :: string
  ag_agent :: agent
  ag_version :: string
  ag_prompt_sha256 :: string
  ag_story_run_id :: string
  ag_session_id :: "string option"
  ag_correlation_id :: uuid
  ag_inputs :: "ArtifactReference list"
  ag_outputs :: "ArtifactReference list"
  ag_state :: record_state
  ag_transport_attempts :: nat
  ag_corrective_reprompts :: nat
  ag_started_at :: instant
  ag_finished_at :: "instant option"

definition validate_attempt_limits :: "AgentRunRecord \<Rightarrow> bool" where
  "validate_attempt_limits a =
     (\<not> (ag_agent a = FacilitatorAgent \<and> ag_transport_attempts a > 2) \<and>
      \<not> (ag_agent a \<noteq> FacilitatorAgent \<and> ag_corrective_reprompts a \<noteq> 0) \<and>
      \<not> ((ag_state a = Succeeded \<or> ag_state a = Failed) \<and> ag_finished_at a = None))"

definition valid_AgentRunRecord :: "AgentRunRecord \<Rightarrow> bool" where
  "valid_AgentRunRecord a =
     (AgentRunId (ag_run_id a) \<and> short_text_ok (ag_version a) \<and> Sha256 (ag_prompt_sha256 a) \<and>
      RunId (ag_story_run_id a) \<and> opt_ok SessionId (ag_session_id a) \<and>
      is_uuid4 (ag_correlation_id a) \<and>
      list_all valid_ArtifactReference (ag_inputs a) \<and> length (ag_inputs a) \<le> 20 \<and>
      list_all valid_ArtifactReference (ag_outputs a) \<and> length (ag_outputs a) \<le> 20 \<and>
      ag_transport_attempts a \<le> 3 \<and> ag_corrective_reprompts a \<le> 2 \<and>
      validate_attempt_limits a)"

record TurnLeaseRecord =
  tl_session_id :: string
  tl_token :: uuid
  tl_acquired_at :: instant
  tl_expires_at :: instant

section \<open>MCP tool models\<close>

text \<open>The union of the five content models; the constructor is \<open>type(content)\<close>.\<close>

datatype content =
    StoryContent StoryDetail
  | ReviewContent ReviewReport
  | SynthesisContent SynthesisReport
  | FinalContent FinalizedReview

text \<open>\<open>type(content) is CONTENT_MODEL_BY_TYPE[type]\<close>; report types have no content model.\<close>

fun content_model_matches :: "artifact_type \<Rightarrow> content \<Rightarrow> bool" where
  "content_model_matches StoryArtifact (StoryContent _) = True"
| "content_model_matches ReviewBusiness (ReviewContent _) = True"
| "content_model_matches ReviewEngineering (ReviewContent _) = True"
| "content_model_matches SynthesisArtifact (SynthesisContent _) = True"
| "content_model_matches FinalizedReviewArtifact (FinalContent _) = True"
| "content_model_matches _ _ = False"

fun valid_content :: "content \<Rightarrow> bool" where
  "valid_content (StoryContent s) = valid_StoryDetail s"
| "valid_content (ReviewContent r) = valid_ReviewReport r"
| "valid_content (SynthesisContent s) = valid_SynthesisReport s"
| "valid_content (FinalContent f) = valid_FinalizedReview f"

record SaveArtifactInput =
  sv_type :: artifact_type
  sv_run :: string
  sv_perspective :: "perspective option"
  sv_content :: content
  sv_key :: uuid

definition type_matches_content :: "SaveArtifactInput \<Rightarrow> bool" where
  "type_matches_content i =
     (content_model_matches (sv_type i) (sv_content i) \<and>
      sv_perspective i = expected_perspective (sv_type i) \<and>
      (case sv_content i of
         ReviewContent r \<Rightarrow> Some (rr_perspective r) = expected_perspective (sv_type i)
       | FinalContent f \<Rightarrow> fr_story_run_id f = sv_run i
       | _ \<Rightarrow> True))"

definition valid_SaveArtifactInput :: "SaveArtifactInput \<Rightarrow> bool" where
  "valid_SaveArtifactInput i =
     (save_artifact_type (sv_type i) \<and> RunId (sv_run i) \<and> valid_content (sv_content i) \<and>
      is_uuid4 (sv_key i) \<and> type_matches_content i)"

definition content_matches_reference :: "ArtifactReference \<Rightarrow> content \<Rightarrow> bool" where
  "content_matches_reference ref c = content_model_matches (ar_type ref) c"

record ListArtifactsInput =
  la_run :: string
  la_type :: "artifact_type option"
  la_perspective :: "perspective option"
  la_limit :: nat
  la_offset :: nat

definition filters_are_compatible :: "ListArtifactsInput \<Rightarrow> bool" where
  "filters_are_compatible i =
     (let expected = Option.bind (la_type i) expected_perspective
      in \<not> (la_type i \<in> {Some StoryArtifact, Some SynthesisArtifact, Some FinalizedReviewArtifact} \<and>
            la_perspective i \<noteq> None) \<and>
         \<not> (expected \<noteq> None \<and> \<not> (la_perspective i = None \<or> la_perspective i = expected)))"

definition valid_ListArtifactsInput :: "ListArtifactsInput \<Rightarrow> bool" where
  "valid_ListArtifactsInput i =
     (RunId (la_run i) \<and> opt_ok save_artifact_type (la_type i) \<and> 1 \<le> la_limit i \<and>
      la_limit i \<le> 500 \<and> filters_are_compatible i)"

record RenderReportInput =
  rp_run :: string
  rp_final :: ArtifactReference
  rp_format :: report_format

definition validate_final_review_reference :: "RenderReportInput \<Rightarrow> bool" where
  "validate_final_review_reference i =
     (ar_story_run_id (rp_final i) = rp_run i \<and> ar_type (rp_final i) = FinalizedReviewArtifact)"

definition valid_RenderReportInput :: "RenderReportInput \<Rightarrow> bool" where
  "valid_RenderReportInput i =
     (RunId (rp_run i) \<and> valid_ArtifactReference (rp_final i) \<and> validate_final_review_reference i)"

definition format_matches_reference :: "ArtifactReference \<Rightarrow> report_format \<Rightarrow> bool" where
  "format_matches_reference ref f = (ar_type ref = report_type f)"

section \<open>Conversation summary and judge verdict\<close>

record ConversationSummary =
  cv_story_id :: string
  cv_story_run_id :: string
  cv_summary :: string
  cv_unresolved_issues :: "string list"
  cv_decisions :: "string list"
  cv_artifact_references :: "ArtifactReference list"

definition valid_ConversationSummary :: "ConversationSummary \<Rightarrow> bool" where
  "valid_ConversationSummary c =
     (StoryId (cv_story_id c) \<and> RunId (cv_story_run_id c) \<and> text_ok (cv_summary c) \<and>
      list_all text_ok (cv_unresolved_issues c) \<and> length (cv_unresolved_issues c) \<le> 100 \<and>
      list_all text_ok (cv_decisions c) \<and> length (cv_decisions c) \<le> 100 \<and>
      list_all valid_ArtifactReference (cv_artifact_references c) \<and>
      length (cv_artifact_references c) \<le> 100)"

datatype judge_severity = JudgeMinor | JudgeMajor | JudgeBlocker
datatype judge_dimension = ReviewCoverage | Grounding | ConflictResolution | Delegation | FinalState

record JudgeIssue =
  ji_severity :: judge_severity
  ji_message :: string

record JudgeDimensionScore =
  jd_dimension :: judge_dimension
  jd_score :: int
  jd_rationale :: string

record JudgeResult =
  jr_case_id :: string
  jr_judge_model :: string
  jr_prompt_sha256 :: string
  jr_scores :: "JudgeDimensionScore list"
  jr_issues :: "JudgeIssue list"
  jr_comment :: string
  jr_passed :: bool

text \<open>
  \<open>sum(values) / len(values) >= 3.5\<close> on five small integers: the float quotient is compared
  with 7/2, which is \<open>2 * sum >= 7 * len\<close> exactly.
\<close>

definition judge_pass :: "JudgeResult \<Rightarrow> bool" where
  "judge_pass j =
     (let values = map jd_score (jr_scores j)
      in fold min values (hd values) \<ge> 3 \<and>
         2 * sum_list values \<ge> 7 * int (length values) \<and>
         \<not> list_ex (\<lambda>i. ji_severity i = JudgeBlocker) (jr_issues j))"

definition validate_pass_rule :: "JudgeResult \<Rightarrow> bool" where
  "validate_pass_rule j =
     (card (set (map jd_dimension (jr_scores j))) = 5 \<and> jr_passed j = judge_pass j)"

definition valid_JudgeResult :: "JudgeResult \<Rightarrow> bool" where
  "valid_JudgeResult j =
     (short_text_ok (jr_case_id j) \<and> short_text_ok (jr_judge_model j) \<and>
      Sha256 (jr_prompt_sha256 j) \<and> length (jr_scores j) = 5 \<and>
      list_all (\<lambda>s. 0 \<le> jd_score s \<and> jd_score s \<le> 4 \<and> text_ok (jd_rationale s)) (jr_scores j) \<and>
      list_all (\<lambda>i. text_ok (ji_message i)) (jr_issues j) \<and> length (jr_issues j) \<le> 100 \<and>
      text_ok (jr_comment j) \<and> validate_pass_rule j)"

text \<open>The pass rule in words: every score is 3 or 4, at least three are 4, and nothing blocks.\<close>

lemma fold_min_ge: "(fold min xs a \<ge> (b::int)) = (a \<ge> b \<and> list_all (\<lambda>x. x \<ge> b) xs)"
  by (induction xs arbitrary: a) auto

lemma sum_of_3_and_4:
  "list_all (\<lambda>x. x = 3 \<or> x = 4) (xs::int list) \<Longrightarrow>
   sum_list xs = 3 * int (length xs) + int (length (filter (\<lambda>x. x = 4) xs))"
  by (induction xs) auto

lemma judge_pass_iff:
  assumes "length (jr_scores j) = 5" "list_all (\<lambda>s. 0 \<le> jd_score s \<and> jd_score s \<le> 4) (jr_scores j)"
  shows "judge_pass j \<longleftrightarrow>
     list_all (\<lambda>s. jd_score s = 3 \<or> jd_score s = 4) (jr_scores j) \<and>
     3 \<le> length (filter (\<lambda>s. jd_score s = 4) (jr_scores j)) \<and>
     list_all (\<lambda>i. ji_severity i \<noteq> JudgeBlocker) (jr_issues j)"
proof -
  let ?v = "map jd_score (jr_scores j)"
  have ne: "jr_scores j \<noteq> []" using assms(1) by auto
  have ge3: "fold min ?v (hd ?v) \<ge> 3 \<longleftrightarrow> list_all (\<lambda>x. x \<ge> 3) ?v"
    using ne by (cases "jr_scores j") (auto simp: fold_min_ge)
  have "list_all (\<lambda>x. x \<ge> 3) ?v \<longleftrightarrow> list_all (\<lambda>s. jd_score s = 3 \<or> jd_score s = 4) (jr_scores j)"
    using assms(2) unfolding list_all_iff by force
  moreover have "2 * sum_list ?v \<ge> 7 * int (length ?v) \<longleftrightarrow>
      3 \<le> length (filter (\<lambda>s. jd_score s = 4) (jr_scores j))"
    if "list_all (\<lambda>s. jd_score s = 3 \<or> jd_score s = 4) (jr_scores j)"
  proof -
    have "list_all (\<lambda>x. x = 3 \<or> x = 4) ?v" using that by (simp add: list_all_iff)
    from sum_of_3_and_4[OF this] show ?thesis
      by (simp add: assms(1) filter_map o_def) arith
  qed
  ultimately show ?thesis
    unfolding judge_pass_def Let_def ge3 by (auto simp: list_all_iff list_ex_iff)
qed

end
