(* ===== verification/Resolutions.thy ===== *)
theory Resolutions
  imports Schema_Review
begin

text \<open>
  Facts about the latest-wins aggregation \<open>latest_resolutions\<close> of \<open>facilitator.py\<close> and the
  assembly of the decision state and of the final review from the turn records
  (\<open>orchestration/finalization.py\<close>: \<open>issue_catalog\<close>, \<open>aggregate_resolutions\<close>).
\<close>

section \<open>Latest-wins aggregation\<close>

lemma latest_dict_keys_distinct:
  "distinct (dict_keys d) \<Longrightarrow> distinct (dict_keys (latest_dict rs d))"
  by (induction rs d rule: latest_dict.induct) auto

lemma latest_dict_keys:
  "set (dict_keys (latest_dict rs d)) = set (dict_keys d) \<union> ri_issue ` set rs"
  by (induction rs d rule: latest_dict.induct) (auto simp: keys_dict_put)

text \<open>The value kept for an issue is the last item of the list that names it.\<close>

lemma map_of_latest_dict:
  "map_of (latest_dict rs d) i =
     (case find_last (\<lambda>r. ri_issue r = i) rs of None \<Rightarrow> map_of d i | Some r \<Rightarrow> Some r)"
  by (induction rs d rule: latest_dict.induct)
     (auto simp: map_of_dict_put split: option.splits)

lemma latest_dict_values_issue:
  "(i, r) \<in> set (latest_dict rs d) \<Longrightarrow> \<forall>(j, q) \<in> set d. ri_issue q = j \<Longrightarrow> ri_issue r = i"
proof (induction rs d arbitrary: i r rule: latest_dict.induct)
  case (1 d)
  then show ?case by auto
next
  case (2 x rs d)
  have "\<forall>(j, q) \<in> set (dict_put (ri_issue x) x d). ri_issue q = j"
    using "2.prems"(2) by (auto dest!: set_dict_put)
  with "2.IH" "2.prems"(1) show ?case by simp
qed

lemma latest_keys_are_issues: "map ri_issue (latest_resolutions rs) = dict_keys (latest_dict rs [])"
  using latest_dict_values_issue[of _ _ rs "[]"]
  by (auto simp: latest_resolutions_def dict_values_def dict_keys_def)

lemma distinct_latest_issues: "distinct (map ri_issue (latest_resolutions rs))"
  unfolding latest_keys_are_issues by (rule latest_dict_keys_distinct) (simp add: dict_keys_def)

lemma set_latest_issues: "ri_issue ` set (latest_resolutions rs) = ri_issue ` set rs"
proof -
  have "ri_issue ` set (latest_resolutions rs) = set (map ri_issue (latest_resolutions rs))" by simp
  also have "\<dots> = ri_issue ` set rs"
    by (simp only: latest_keys_are_issues latest_dict_keys) (simp add: dict_keys_def)
  finally show ?thesis .
qed

lemma latest_mem_iff:
  "r \<in> set (latest_resolutions rs) \<longleftrightarrow> find_last (\<lambda>q. ri_issue q = ri_issue r) rs = Some r"
proof -
  let ?d = "latest_dict rs []"
  have "distinct (dict_keys ?d)"
    by (rule latest_dict_keys_distinct) (simp add: dict_keys_def)
  then have dist: "distinct (map fst ?d)"
    by (simp only: dict_keys_def)
  have "r \<in> set (latest_resolutions rs) \<longleftrightarrow> (\<exists>i. (i, r) \<in> set ?d)"
    by (force simp: latest_resolutions_def dict_values_def)
  also have "\<dots> \<longleftrightarrow> (ri_issue r, r) \<in> set ?d"
    using latest_dict_values_issue[of _ r rs "[]"] by auto
  also have "\<dots> \<longleftrightarrow> map_of ?d (ri_issue r) = Some r"
    using dist by (simp add: map_of_eq_Some_iff)
  finally show ?thesis
    by (auto simp: map_of_latest_dict split: option.splits)
qed

text \<open>The order of the result is the order in which issues were first seen.\<close>

fun first_seen :: "'a list \<Rightarrow> 'a list" where
  "first_seen [] = []"
| "first_seen (x # xs) = x # filter (\<lambda>y. y \<noteq> x) (first_seen xs)"

lemma set_first_seen [simp]: "set (first_seen xs) = set xs"
  by (induction xs) auto

lemma latest_dict_keys_order:
  "dict_keys (latest_dict rs d) =
     dict_keys d @ filter (\<lambda>i. i \<notin> set (dict_keys d)) (first_seen (map ri_issue rs))"
proof (induction rs d rule: latest_dict.induct)
  case (1 d)
  then show ?case by simp
next
  case (2 r rs d)
  show ?case
    by (cases "ri_issue r \<in> set (dict_keys d)")
       (auto simp: "2.IH" keys_dict_put intro!: filter_cong)
qed

lemma latest_issues_order: "map ri_issue (latest_resolutions rs) = first_seen (map ri_issue rs)"
  unfolding latest_keys_are_issues latest_dict_keys_order by (simp add: dict_keys_def)

lemma find_last_find:
  assumes "distinct (map f xs)" "x \<in> set xs"
  shows "find_last (\<lambda>y. f y = f x) xs = Some x"
proof -
  obtain y where y: "find_last (\<lambda>y. f y = f x) xs = Some y"
    using assms(2) find_last_None[of "\<lambda>y. f y = f x" xs] by fastforce
  with find_last_Some[OF y] assms have "y = x"
    by (auto simp: distinct_map inj_on_def)
  with y show ?thesis by simp
qed

text \<open>Aggregating twice changes nothing, and a history can be aggregated in two stages.\<close>

lemma map_of_latest_append:
  "map_of (latest_dict (latest_resolutions xs @ ys) []) = map_of (latest_dict (xs @ ys) [])"
proof
  fix i
  have "find_last (\<lambda>r. ri_issue r = i) (latest_resolutions xs) = find_last (\<lambda>r. ri_issue r = i) xs"
  proof (cases "find_last (\<lambda>r. ri_issue r = i) xs")
    case None
    then have "i \<notin> ri_issue ` set (latest_resolutions xs)"
      unfolding set_latest_issues by (auto simp: find_last_None)
    then have "find_last (\<lambda>r. ri_issue r = i) (latest_resolutions xs) = None"
      by (auto simp: find_last_None)
    with None show ?thesis by simp
  next
    case (Some r)
    then have issue: "ri_issue r = i"
      by (auto dest: find_last_Some)
    with Some have "r \<in> set (latest_resolutions xs)"
      by (simp add: latest_mem_iff)
    then have "find_last (\<lambda>q. ri_issue q = ri_issue r) (latest_resolutions xs) = Some r"
      by (rule find_last_find[OF distinct_latest_issues])
    with issue Some show ?thesis by simp
  qed
  then have "find_last (\<lambda>r. ri_issue r = i) (latest_resolutions xs @ ys) =
             find_last (\<lambda>r. ri_issue r = i) (xs @ ys)"
    by (simp add: find_last_append split: option.splits)
  then show "map_of (latest_dict (latest_resolutions xs @ ys) []) i =
             map_of (latest_dict (xs @ ys) []) i"
    by (simp only: map_of_latest_dict)
qed

end
