(* ===== verification/Turn_Rules.thy ===== *)
theory Turn_Rules
  imports Schema_Records Resolutions
begin

text \<open>
  The turn-context rules a facilitator output must satisfy beyond its schema (D18, D19, D34),
  in both places they are written: \<open>shared/agent_kit/agent_kit/facilitator_input.py\<close> (local
  adapter) and \<open>orchestration/orchestration/ae_turn_validation.py\<close> (Agent Engine client). The
  \<open>raise\<close> of each rule is a value of \<open>turn_invalid\<close>, which carries what the message quotes.
  The corrective loops around them are in \<open>Facilitator_Adapter\<close> and \<open>Agent_Engine\<close>.
\<close>

section \<open>Requests\<close>

record DecisionState =
  ds_resolutions :: "ResolutionItem list"
  ds_open_issues :: "string list"

record FacilitatorRequest =
  fq_session_id :: string
  fq_turn_number :: nat
  fq_invocation_id :: uuid
  fq_po_message :: "string option"
  fq_synthesis_report :: SynthesisReport
  fq_synthesis_reference :: ArtifactReference
  fq_evidence :: "ArtifactReference list"
  fq_decision_state :: "DecisionState option"

definition valid_DecisionState :: "DecisionState \<Rightarrow> bool" where
  "valid_DecisionState d =
     (list_all valid_ResolutionItem (ds_resolutions d) \<and> length (ds_resolutions d) \<le> 200 \<and>
      list_all text_ok (ds_open_issues d) \<and> length (ds_open_issues d) \<le> 100)"

definition turn_and_message_agree :: "FacilitatorRequest \<Rightarrow> bool" where
  "turn_and_message_agree q =
     (\<not> (fq_turn_number q = 1 \<and> fq_po_message q \<noteq> None) \<and>
      \<not> (fq_turn_number q > 1 \<and> fq_po_message q = None) \<and>
      ar_type (fq_synthesis_reference q) = SynthesisArtifact \<and>
      list_all (\<lambda>ref. ar_story_run_id ref = ar_story_run_id (fq_synthesis_reference q))
        (fq_evidence q))"

definition valid_FacilitatorRequest :: "FacilitatorRequest \<Rightarrow> bool" where
  "valid_FacilitatorRequest q =
     (SessionId (fq_session_id q) \<and> 1 \<le> fq_turn_number q \<and> fq_turn_number q \<le> 10 \<and>
      opt_ok text_ok (fq_po_message q) \<and> valid_SynthesisReport (fq_synthesis_report q) \<and>
      valid_ArtifactReference (fq_synthesis_reference q) \<and>
      list_all valid_ArtifactReference (fq_evidence q) \<and>
      opt_ok valid_DecisionState (fq_decision_state q) \<and> turn_and_message_agree q)"

section \<open>The rules\<close>

text \<open>
  One constructor per \<open>raise\<close>. The retained-issue rule loops over a Python set and raises at
  whichever element comes first, so it carries every candidate.
\<close>

datatype turn_invalid =
    NotJson
  | SchemaInvalid
  | OpeningInvokes
  | OpeningFence string disposition
  | NeedsReopened string disposition nat
  | SettledAndRetained "string list"
  | NeedsDescriptor string

definition check_seq :: "('e + unit) \<Rightarrow> ('e + unit) \<Rightarrow> 'e + unit" where
  "check_seq a b = (case a of Inl e \<Rightarrow> Inl e | Inr _ \<Rightarrow> b)"

lemma check_seq_ok [simp]: "check_seq a b = Inr () \<longleftrightarrow> a = Inr () \<and> b = Inr ()"
  by (cases a) (auto simp: check_seq_def)

text \<open>\<open>for x in xs: if bad(x): raise err(x)\<close>.\<close>

fun check_each :: "('a \<Rightarrow> bool) \<Rightarrow> ('a \<Rightarrow> 'e) \<Rightarrow> 'a list \<Rightarrow> 'e + unit" where
  "check_each bad err [] = Inr ()"
| "check_each bad err (x # xs) = (if bad x then Inl (err x) else check_each bad err xs)"

lemma check_each_ok [simp]: "check_each bad err xs = Inr () \<longleftrightarrow> list_all (\<lambda>x. \<not> bad x) xs"
  by (induction xs) auto

lemma check_each_first:
  "check_each bad err xs = Inl e \<longleftrightarrow> (\<exists>x. find bad xs = Some x \<and> e = err x)"
  by (induction xs) auto

definition fenceable_ids :: "SynthesisReport \<Rightarrow> string list" where
  "fenceable_ids r =
     map fd_id (filter (\<lambda>f. fd_severity f = Info \<or> fd_severity f = Minor) (sr_merged_findings r))"

definition validate_opening_fence ::
    "FacilitatorTurnOutput \<Rightarrow> SynthesisReport \<Rightarrow> turn_invalid + unit" where
  "validate_opening_fence o1 report =
     (let fenceable = set (fenceable_ids report) in
        check_each (\<lambda>d. rd_disposition d \<noteq> Resolved \<or> rd_issue d \<notin> fenceable)
          (\<lambda>d. OpeningFence (rd_issue d) (rd_disposition d)) (fo_resolutions o1))"

definition validate_opening_turn ::
    "FacilitatorTurnOutput \<Rightarrow> SynthesisReport \<Rightarrow> turn_invalid + unit" where
  "validate_opening_turn o1 report =
     (if dd_invoke (fo_delegation o1) \<noteq> InvokeNone then Inl OpeningInvokes
      else validate_opening_fence o1 report)"

definition drafts_with :: "(disposition \<Rightarrow> bool) \<Rightarrow> FacilitatorTurnOutput \<Rightarrow> string list" where
  "drafts_with p o1 = map rd_issue (filter (\<lambda>d. p (rd_disposition d)) (fo_resolutions o1))"

definition validate_identifier_lifecycle ::
    "FacilitatorTurnOutput \<Rightarrow> DecisionState \<Rightarrow> turn_invalid + unit" where
  "validate_identifier_lifecycle o1 state =
     (let reopened = set (drafts_with (\<lambda>d. d = Reopened) o1);
          latest = map_of (latest_dict (ds_resolutions state) []);
          open_issues = dd_open_issues (fo_delegation o1);
          settled_now = set (drafts_with settled o1);
          retained = filter (\<lambda>i. i \<in> settled_now) open_issues
      in check_seq
           (check_each
              (\<lambda>i. case latest i of None \<Rightarrow> False
                   | Some r \<Rightarrow> settled (ri_disposition r) \<and> i \<notin> reopened)
              (\<lambda>i. case latest i of None \<Rightarrow> NeedsDescriptor i
                   | Some r \<Rightarrow> NeedsReopened i (ri_disposition r) (ri_turn_number r))
              open_issues)
           (if retained = [] then Inr () else Inl (SettledAndRetained retained)))"

definition synthesis_issue_ids :: "SynthesisReport \<Rightarrow> string set" where
  "synthesis_issue_ids r = set (map fd_id (sr_merged_findings r)) \<union> set (map ci_id (sr_conflicts r))"

definition known_issue_ids :: "FacilitatorRequest \<Rightarrow> string set" where
  "known_issue_ids q =
     synthesis_issue_ids (fq_synthesis_report q) \<union>
     (case fq_decision_state q of None \<Rightarrow> {}
      | Some d \<Rightarrow> set (map ri_issue (ds_resolutions d)) \<union> set (ds_open_issues d))"

definition validate_issue_descriptors ::
    "FacilitatorTurnOutput \<Rightarrow> FacilitatorRequest \<Rightarrow> turn_invalid + unit" where
  "validate_issue_descriptors o1 q =
     (let known = known_issue_ids q; described = set (map id_issue (fo_new_issues o1)) in
        check_each (\<lambda>i. i \<notin> known \<and> i \<notin> described) NeedsDescriptor
          (dd_open_issues (fo_delegation o1)))"

text \<open>\<open>validate_facilitator_turn\<close> of the orchestration mirror, helper by helper.\<close>

definition validate_facilitator_turn ::
    "FacilitatorTurnOutput \<Rightarrow> FacilitatorRequest \<Rightarrow> turn_invalid + unit" where
  "validate_facilitator_turn o1 q =
     check_seq
       (if fq_turn_number q = 1 then validate_opening_turn o1 (fq_synthesis_report q) else Inr ())
       (check_seq
          (case fq_decision_state q of None \<Rightarrow> Inr ()
           | Some d \<Rightarrow> validate_identifier_lifecycle o1 d)
          (validate_issue_descriptors o1 q))"

text \<open>
  \<open>validate_turn_output\<close> of agent_kit: the same rules, the first two blocks inlined, each
  condition as that file writes it (explicit loops that carry the exception out).
\<close>

fun adapter_fence_loop :: "string list \<Rightarrow> ResolutionDraft list \<Rightarrow> turn_invalid + unit" where
  "adapter_fence_loop fenceable [] = Inr ()"
| "adapter_fence_loop fenceable (d # ds) =
     (if rd_disposition d \<noteq> Resolved \<or> rd_issue d \<notin> set fenceable
      then Inl (OpeningFence (rd_issue d) (rd_disposition d))
      else adapter_fence_loop fenceable ds)"

fun adapter_reopen_loop ::
    "(string, ResolutionItem) dict \<Rightarrow> string list \<Rightarrow> string list \<Rightarrow> turn_invalid + unit" where
  "adapter_reopen_loop latest reopened [] = Inr ()"
| "adapter_reopen_loop latest reopened (i # is) =
     (case map_of latest i of
        None \<Rightarrow> adapter_reopen_loop latest reopened is
      | Some recorded \<Rightarrow>
          if ri_disposition recorded \<in> {Resolved, Accepted} \<and> i \<notin> set reopened
          then Inl (NeedsReopened i (ri_disposition recorded) (ri_turn_number recorded))
          else adapter_reopen_loop latest reopened is)"

fun adapter_descriptor_loop ::
    "string set \<Rightarrow> string list \<Rightarrow> string list \<Rightarrow> turn_invalid + unit" where
  "adapter_descriptor_loop known described [] = Inr ()"
| "adapter_descriptor_loop known described (i # is) =
     (if i \<notin> known \<and> i \<notin> set described then Inl (NeedsDescriptor i)
      else adapter_descriptor_loop known described is)"

definition validate_turn_output ::
    "FacilitatorTurnOutput \<Rightarrow> FacilitatorRequest \<Rightarrow> turn_invalid + unit" where
  "validate_turn_output o1 q =
     (let opening =
            (if fq_turn_number q = 1 then
               if dd_invoke (fo_delegation o1) \<noteq> InvokeNone then Inl OpeningInvokes
               else adapter_fence_loop (fenceable_ids (fq_synthesis_report q)) (fo_resolutions o1)
             else Inr ());
          open_issues = dd_open_issues (fo_delegation o1);
          lifecycle =
            (case fq_decision_state q of
               None \<Rightarrow> Inr ()
             | Some d \<Rightarrow>
                 (case adapter_reopen_loop (latest_dict (ds_resolutions d) [])
                         (drafts_with (\<lambda>x. x = Reopened) o1) open_issues of
                    Inl e \<Rightarrow> Inl e
                  | Inr _ \<Rightarrow>
                      (let retained = filter (\<lambda>i. i \<in> set (drafts_with settled o1)) open_issues
                       in if retained \<noteq> [] then Inl (SettledAndRetained retained) else Inr ())));
          descriptors =
            adapter_descriptor_loop (known_issue_ids q) (map id_issue (fo_new_issues o1)) open_issues
      in case opening of Inl e \<Rightarrow> Inl e
         | Inr _ \<Rightarrow> (case lifecycle of Inl e \<Rightarrow> Inl e | Inr _ \<Rightarrow> descriptors))"

lemma adapter_fence_loop_eq:
  "adapter_fence_loop fs ds =
     check_each (\<lambda>d. rd_disposition d \<noteq> Resolved \<or> rd_issue d \<notin> set fs)
       (\<lambda>d. OpeningFence (rd_issue d) (rd_disposition d)) ds"
  by (induction fs ds rule: adapter_fence_loop.induct) auto

lemma adapter_reopen_loop_eq:
  "adapter_reopen_loop latest reopened is =
     check_each
       (\<lambda>i. case map_of latest i of None \<Rightarrow> False
            | Some r \<Rightarrow> settled (ri_disposition r) \<and> i \<notin> set reopened)
       (\<lambda>i. case map_of latest i of None \<Rightarrow> NeedsDescriptor i
            | Some r \<Rightarrow> NeedsReopened i (ri_disposition r) (ri_turn_number r)) is"
  by (induction latest reopened "is" rule: adapter_reopen_loop.induct)
     (auto simp: settled_def split: option.splits)

lemma adapter_descriptor_loop_eq:
  "adapter_descriptor_loop known described is =
     check_each (\<lambda>i. i \<notin> known \<and> i \<notin> set described) NeedsDescriptor is"
  by (induction known described "is" rule: adapter_descriptor_loop.induct) auto

text \<open>C13. The orchestration mirror and the agent_kit validator accept and reject the same
  turn outputs, with the same rule reported first, on every request.\<close>

theorem turn_validators_agree: "validate_facilitator_turn o1 q = validate_turn_output o1 q"
  unfolding validate_facilitator_turn_def validate_turn_output_def validate_opening_turn_def
    validate_opening_fence_def validate_identifier_lifecycle_def validate_issue_descriptors_def
    adapter_fence_loop_eq adapter_reopen_loop_eq adapter_descriptor_loop_eq Let_def check_seq_def
  by (simp split: option.splits sum.splits)

text \<open>What an accepted output satisfies.\<close>

lemma validate_opening_fence_ok:
  "validate_opening_fence o1 r = Inr () \<longleftrightarrow>
     (\<forall>d \<in> set (fo_resolutions o1). rd_disposition d = Resolved \<and>
        (\<exists>f \<in> set (sr_merged_findings r). fd_id f = rd_issue d \<and> fd_severity f \<le> Minor))"
proof -
  have sev: "s = Info \<or> s = Minor \<longleftrightarrow> s \<le> Minor" for s
    by (cases s) (simp_all add: less_eq_severity_def)
  have "i \<in> set (fenceable_ids r) \<longleftrightarrow>
      (\<exists>f \<in> set (sr_merged_findings r). fd_id f = i \<and> fd_severity f \<le> Minor)" for i
    by (auto simp: fenceable_ids_def sev image_iff)
  then show ?thesis
    by (simp add: validate_opening_fence_def list_all_iff)
qed

lemma validate_identifier_lifecycle_ok:
  "validate_identifier_lifecycle o1 d = Inr () \<longleftrightarrow>
     (\<forall>i \<in> set (dd_open_issues (fo_delegation o1)).
        i \<notin> set (drafts_with settled o1) \<and>
        (\<forall>r. find_last (\<lambda>x. ri_issue x = i) (ds_resolutions d) = Some r \<longrightarrow>
             settled (ri_disposition r) \<longrightarrow> i \<in> set (drafts_with (\<lambda>x. x = Reopened) o1)))"
  by (auto simp: validate_identifier_lifecycle_def Let_def list_all_iff map_of_latest_dict
      filter_empty_conv split: option.splits)

lemma validate_issue_descriptors_ok:
  "validate_issue_descriptors o1 q = Inr () \<longleftrightarrow>
     set (dd_open_issues (fo_delegation o1)) \<subseteq> known_issue_ids q \<union> set (map id_issue (fo_new_issues o1))"
  by (auto simp: validate_issue_descriptors_def list_all_iff)

lemma validate_facilitator_turn_ok:
  "validate_facilitator_turn o1 q = Inr () \<longleftrightarrow>
     (fq_turn_number q = 1 \<longrightarrow> validate_opening_turn o1 (fq_synthesis_report q) = Inr ()) \<and>
     (\<forall>d. fq_decision_state q = Some d \<longrightarrow> validate_identifier_lifecycle o1 d = Inr ()) \<and>
     validate_issue_descriptors o1 q = Inr ()"
  by (auto simp: validate_facilitator_turn_def split: option.splits)

end
