(* ===== verification/Ids.thy ===== *)
theory Ids
  imports Schema_Base
begin

text \<open>
  Minting identifiers: \<open>str(uuid)\<close> as 8-4-4-4-12 lowercase hexadecimal digits, and the four
  prefixed ids built from it (\<open>f"run-{uuid4()}"\<close>, \<open>sess-\<close>, \<open>art-\<close>, \<open>arun-\<close>). Every minted id
  matches the pattern the schemas demand, and distinct UUIDs give distinct ids.
\<close>

definition hex_digit :: "uuid \<Rightarrow> char" where
  "hex_digit w = (let n = unat (w AND 15) in char_of (if n < 10 then 48 + n else 87 + n))"

definition hex_digits :: "uuid \<Rightarrow> string" where
  "hex_digits u = map (\<lambda>i. hex_digit (drop_bit (4 * i) u)) (rev [0..<32])"

definition uuid_str :: "uuid \<Rightarrow> string" where
  "uuid_str u =
     (let h = hex_digits u in
        take 8 h @ ''-'' @ take 4 (drop 8 h) @ ''-'' @ take 4 (drop 12 h) @ ''-'' @
        take 4 (drop 16 h) @ ''-'' @ drop 20 h)"

definition run_id_of :: "uuid \<Rightarrow> string" where
  "run_id_of u = ''run-'' @ uuid_str u"

definition session_id_of :: "uuid \<Rightarrow> string" where
  "session_id_of u = ''sess-'' @ uuid_str u"

definition artifact_id_of :: "uuid \<Rightarrow> string" where
  "artifact_id_of u = ''art-'' @ uuid_str u"

definition agent_run_id_of :: "uuid \<Rightarrow> string" where
  "agent_run_id_of u = ''arun-'' @ uuid_str u"

section \<open>Digits\<close>

lemma nibble_bound: "unat ((w :: uuid) AND 15) < 16"
proof -
  have "w AND 15 \<le> 15" by (rule word_and_le1)
  then have "unat (w AND 15) \<le> unat (15 :: uuid)" by (simp add: word_le_nat_alt)
  then show ?thesis by simp
qed

lemma hex_code_cases:
  assumes "n < 16"
  shows "is_lower_hex (char_of (if n < 10 then 48 + n else 87 + n :: nat))"
  using assms by (auto simp: is_lower_hex_def is_digit_def Let_def)

lemma hex_digit_lower [simp]: "is_lower_hex (hex_digit w)"
  unfolding hex_digit_def Let_def by (rule hex_code_cases[OF nibble_bound])

lemma hex_digit_inj:
  assumes "hex_digit v = hex_digit w"
  shows "v AND 15 = w AND 15"
proof -
  let ?c = "\<lambda>n::nat. if n < 10 then 48 + n else 87 + n"
  have code: "of_char (char_of (?c n) :: char) = ?c n" if "n < 16" for n
    using that by simp
  have inj: "?c m = ?c n \<Longrightarrow> m < 16 \<Longrightarrow> n < 16 \<Longrightarrow> m = n" for m n
    by (auto split: if_splits)
  from assms have "?c (unat (v AND 15)) = ?c (unat (w AND 15))"
    unfolding hex_digit_def Let_def using code[OF nibble_bound[of v]] code[OF nibble_bound[of w]]
    by metis
  then have "unat (v AND 15) = unat (w AND 15)"
    by (rule inj[OF _ nibble_bound nibble_bound])
  then show ?thesis by (simp only: word_unat_eq_iff)
qed

lemma length_hex_digits [simp]: "length (hex_digits u) = 32"
  by (simp add: hex_digits_def)

lemma hex_digits_lower: "list_all is_lower_hex (hex_digits u)"
  by (simp add: hex_digits_def list_all_iff)

lemma hex_digits_inj:
  assumes "hex_digits u = hex_digits v"
  shows "u = v"
proof (rule bit_word_eqI)
  fix n
  assume "n < LENGTH(128)"
  then have n': "n div 4 < 32" by simp
  from assms have "\<forall>i \<in> set (rev [0..<32]).
      hex_digit (drop_bit (4 * i) u) = hex_digit (drop_bit (4 * i) v)"
    unfolding hex_digits_def by (simp only: map_eq_conv)
  with n' have "hex_digit (drop_bit (4 * (n div 4)) u) = hex_digit (drop_bit (4 * (n div 4)) v)"
    by simp
  then have nib: "drop_bit (4 * (n div 4)) u AND 15 = drop_bit (4 * (n div 4)) v AND 15"
    by (rule hex_digit_inj)
  have fifteen: "(15 :: uuid) = mask 4"
    by (simp add: mask_eq_exp_minus_1)
  have sub: "bit w n = bit (drop_bit (4 * (n div 4)) w AND 15) (n mod 4)" for w :: uuid
    unfolding fifteen bit_and_iff bit_drop_bit_eq bit_mask_iff o_def
    using less_trans[of "n mod 4" 4 128] by (simp add: mult_div_mod_eq)
  show "bit u n = bit v n"
    by (simp only: sub[of u] sub[of v] nib)
qed

section \<open>The textual form\<close>

lemma length_uuid_str [simp]: "length (uuid_str u) = 36"
  by (simp add: uuid_str_def Let_def)

lemma list_all_take_drop:
  "list_all p xs \<Longrightarrow> list_all p (take n (drop m xs))" "list_all p xs \<Longrightarrow> list_all p (drop m xs)"
  "list_all p xs \<Longrightarrow> list_all p (take n xs)"
  by (auto simp: list_all_iff dest: in_set_takeD in_set_dropD)

lemma hex_groups_uuid_str: "hex_groups [8, 4, 4, 4, 12] (uuid_str u)"
proof -
  note parts = list_all_take_drop[OF hex_digits_lower[of u]]
  show ?thesis
    by (simp add: uuid_str_def Let_def parts starts_with_append)
qed

lemma five_groups:
  "h = take 8 h @ take 4 (drop 8 h) @ take 4 (drop 12 h) @ take 4 (drop 16 h) @ drop 20 h"
proof -
  have step: "take 4 (drop n h) @ drop (n + 4) h = drop n h" for n
    by (metis append_take_drop_id drop_drop add.commute)
  show ?thesis
    using step[of 8] step[of 12] step[of 16] append_take_drop_id[of 8 h] by simp
qed

lemma uuid_str_inj:
  assumes "uuid_str u = uuid_str v"
  shows "u = v"
proof -
  have digits: "hex_digits w = take 8 (uuid_str w) @ take 4 (drop 9 (uuid_str w)) @
      take 4 (drop 14 (uuid_str w)) @ take 4 (drop 19 (uuid_str w)) @ drop 24 (uuid_str w)" for w
    by (subst five_groups) (simp add: uuid_str_def Let_def)
  have "hex_digits u = hex_digits v"
    by (simp only: digits assms)
  then show ?thesis by (rule hex_digits_inj)
qed

lemma minted_ids:
  "RunId (run_id_of u)" "SessionId (session_id_of u)" "ArtifactId (artifact_id_of u)"
  "AgentRunId (agent_run_id_of u)"
  by (simp_all add: RunId_def SessionId_def ArtifactId_def AgentRunId_def run_id_of_def
      session_id_of_def artifact_id_of_def agent_run_id_of_def prefixed_uuid_def
      starts_with_append hex_groups_uuid_str del: hex_groups.simps)

lemma minted_inj:
  "run_id_of u = run_id_of v \<longleftrightarrow> u = v" "session_id_of u = session_id_of v \<longleftrightarrow> u = v"
  "artifact_id_of u = artifact_id_of v \<longleftrightarrow> u = v" "agent_run_id_of u = agent_run_id_of v \<longleftrightarrow> u = v"
  by (auto simp: run_id_of_def session_id_of_def artifact_id_of_def agent_run_id_of_def
      dest: uuid_str_inj)

lemma of_nat_uuid_inj: "n \<le> 1000 \<Longrightarrow> inj_on (of_nat :: nat \<Rightarrow> uuid) {..<n}"
  by (rule inj_on_inverseI[of _ unat]) (simp add: unat_of_nat take_bit_nat_eq_self)

end
