(* ===== verification/Idempotent_Store.thy ===== *)
theory Idempotent_Store
  imports Prelude
begin

text \<open>
  The contract between the orchestration and its two persistent stores (artifact records and
  rendered reports): writing under an idempotency key is safe to retry. \<open>good n s\<close> says the store
  is consistent and its id source has \<open>n\<close> more unused ids to give; \<open>holds s q r\<close> says the key of
  request \<open>q\<close> is bound, with \<open>q\<close>'s content, to the reference \<open>r\<close>. The lemmas here are proved
  once from the contract; the artifact and the report store interpret it.
\<close>

locale idempotent_store =
  fixes put :: "'q \<Rightarrow> 's \<Rightarrow> ('e + 'r \<times> bool) \<times> 's"
    and good :: "nat \<Rightarrow> 's \<Rightarrow> bool"
    and wf :: "'q \<Rightarrow> bool"
    and holds :: "'s \<Rightarrow> 'q \<Rightarrow> 'r \<Rightarrow> bool"
  assumes put_good: "good (Suc n) s \<Longrightarrow> wf q \<Longrightarrow> good n (snd (put q s))"
    and put_binds:
      "good (Suc n) s \<Longrightarrow> wf q \<Longrightarrow> fst (put q s) = Inr (r, c) \<Longrightarrow> holds (snd (put q s)) q r"
    and put_replays: "good (Suc n) s \<Longrightarrow> wf q \<Longrightarrow> holds s q r \<Longrightarrow> fst (put q s) = Inr (r, False)"
    and put_keeps: "good (Suc n) s \<Longrightarrow> wf q' \<Longrightarrow> holds s q r \<Longrightarrow> holds (snd (put q' s)) q r"
begin

definition puts :: "'q list \<Rightarrow> 's \<Rightarrow> 's" where
  "puts qs s = fold (\<lambda>q t. snd (put q t)) qs s"

lemma puts_good: "good (length qs + n) s \<Longrightarrow> list_all wf qs \<Longrightarrow> good n (puts qs s)"
  unfolding puts_def by (induction qs arbitrary: s) (auto simp: put_good)

lemma puts_keeps:
  "good (length qs + n) s \<Longrightarrow> list_all wf qs \<Longrightarrow> holds s q r \<Longrightarrow> holds (puts qs s) q r"
  unfolding puts_def by (induction qs arbitrary: s) (auto simp: put_good put_keeps)

text \<open>A retry after any later writes returns the reference of the first success.\<close>

lemma retry_returns_first:
  assumes "good (length qs + 2) s" "wf q" "list_all wf qs" "fst (put q s) = Inr (r, c)"
  shows "fst (put q (puts qs (snd (put q s)))) = Inr (r, False)"
proof -
  have g: "good (length qs + 1) (snd (put q s))" using assms by (simp add: put_good)
  have s: "good (Suc (length qs + 1)) s" using assms by simp
  have "holds (puts qs (snd (put q s))) q r"
    using puts_keeps[OF g assms(3)] put_binds[OF s assms(2,4)] by blast
  moreover have "good (Suc 0) (puts qs (snd (put q s)))"
    using puts_good[of qs 1] g assms(3) by simp
  ultimately show ?thesis
    using put_replays assms(2) by blast
qed

end

end
