(* ===== verification/Artifact_Store.thy ===== *)
theory Artifact_Store
  imports Schema_Records Ids Idempotent_Store "HOL-Library.Product_Lexorder" "HOL-Library.Multiset"
begin

text \<open>
  The artifact server's persistent store: \<open>GcsArtifactService\<close> of
  \<open>mcp_servers/artifact/artifact_mcp/storage.py\<close>. The bucket's two object families are two
  dictionaries: artifact records under (run, artifact id) and idempotency keys under
  (run, type, key). Every object is written with a generation-0 precondition. Each bucket
  access first consumes one unit of \<open>ao_budget\<close>: at 0 the server process dies there
  (\<open>ArtCrashed\<close>), so a statement over every budget covers a crash between any two accesses.
  \<open>uuid4()\<close> and the canonical checksum are parameters (\<open>art_env\<close>).
\<close>

section \<open>State and environment\<close>

record art_record =
  rec_reference :: ArtifactReference
  rec_content :: content

record art_state =
  ao_records :: "(string \<times> string, art_record) dict"
  ao_keys :: "(string \<times> artifact_type \<times> uuid, string) dict"
  ao_minted :: nat
  ao_clock :: instant
  ao_budget :: "nat option"

record art_env =
  av_uuid :: "nat \<Rightarrow> uuid"
  av_checksum :: "content \<Rightarrow> string"

datatype art_exc =
    ArtifactNotFound | IdempotencyKeyReused | PreconditionFailed | RecordInvalid | ArtCrashed

type_synonym 'a art = "(art_state, art_exc, 'a) comp"

section \<open>Bucket accesses\<close>

definition art_tick :: "unit art" where
  "art_tick =
     andThen (gets ao_budget) (\<lambda>b. case b of
         None \<Rightarrow> ret ()
       | Some n \<Rightarrow> if n = 0 then raise ArtCrashed else modify (\<lambda>s. s\<lparr>ao_budget := Some (n - 1)\<rparr>))"

definition new_artifact_id :: "art_env \<Rightarrow> string art" where
  "new_artifact_id env =
     andThen (gets ao_minted) (\<lambda>n.
     andThen (modify (\<lambda>s. s\<lparr>ao_minted := n + 1\<rparr>)) (\<lambda>_.
     ret (artifact_id_of (av_uuid env n))))"

definition read_or_none :: "string \<Rightarrow> string \<Rightarrow> art_record option art" where
  "read_or_none run aid =
     andThen art_tick (\<lambda>_. gets (\<lambda>s. map_of (ao_records s) (run, aid)))"

definition read_record :: "string \<Rightarrow> string \<Rightarrow> art_record art" where
  "read_record run aid =
     andThen (read_or_none run aid) (\<lambda>r. case r of None \<Rightarrow> raise ArtifactNotFound | Some x \<Rightarrow> ret x)"

definition write_record :: "string \<Rightarrow> art_record \<Rightarrow> unit art" where
  "write_record run r =
     andThen art_tick (\<lambda>_.
     andThen (gets (\<lambda>s. map_of (ao_records s) (run, ar_artifact_id (rec_reference r)))) (\<lambda>old.
     case old of
       Some _ \<Rightarrow> raise PreconditionFailed
     | None \<Rightarrow> modify (\<lambda>s. s\<lparr>ao_records :=
         dict_put (run, ar_artifact_id (rec_reference r)) r (ao_records s)\<rparr>)))"

definition claim_idempotency_key :: "SaveArtifactInput \<Rightarrow> string \<Rightarrow> string option art" where
  "claim_idempotency_key q aid =
     (let key = (sv_run q, sv_type q, sv_key q) in
        andThen art_tick (\<lambda>_.
        andThen (gets (\<lambda>s. map_of (ao_keys s) key)) (\<lambda>old.
        case old of
          Some winner \<Rightarrow> andThen art_tick (\<lambda>_. ret (Some winner))
        | None \<Rightarrow>
            andThen (modify (\<lambda>s. s\<lparr>ao_keys := dict_put key aid (ao_keys s)\<rparr>)) (\<lambda>_. ret None))))"

text \<open>\<open>list_blobs\<close> returns object names in order; within a run that is artifact-id order.\<close>

definition run_records :: "art_state \<Rightarrow> string \<Rightarrow> art_record list" where
  "run_records s run =
     map snd (sort_key (\<lambda>x. snd (fst x)) (filter (\<lambda>x. fst (fst x) = run) (ao_records s)))"

definition run_references :: "string \<Rightarrow> ArtifactReference list art" where
  "run_references run = andThen art_tick (\<lambda>_. gets (\<lambda>s. map rec_reference (run_records s run)))"

section \<open>Operations\<close>

definition next_version :: "string \<Rightarrow> artifact_type \<Rightarrow> perspective option \<Rightarrow> nat art" where
  "next_version run ty p =
     andThen (run_references run) (\<lambda>refs.
     ret (foldr max (map ar_version
       (filter (\<lambda>r. ar_type r = ty \<and> ar_perspective r = p) refs)) 0 + 1))"

definition new_reference ::
    "SaveArtifactInput \<Rightarrow> string \<Rightarrow> string \<Rightarrow> ArtifactReference art" where
  "new_reference q aid csum =
     andThen (next_version (sv_run q) (sv_type q) (sv_perspective q)) (\<lambda>v.
     andThen (gets ao_clock) (\<lambda>now.
     ret \<lparr>ar_artifact_id = aid, ar_story_run_id = sv_run q, ar_type = sv_type q,
          ar_perspective = sv_perspective q, ar_version = v, ar_created_at = now,
          ar_content_type = expected_content_type (sv_type q), ar_checksum_sha256 = csum,
          ar_is_latest = False\<rparr>))"

definition save_new :: "SaveArtifactInput \<Rightarrow> string \<Rightarrow> string \<Rightarrow> (ArtifactReference \<times> bool) art" where
  "save_new q aid csum =
     andThen (new_reference q aid csum) (\<lambda>ref.
     andThen (write_record (sv_run q) \<lparr>rec_reference = ref, rec_content = sv_content q\<rparr>) (\<lambda>_.
     ret (ref, True)))"

definition save :: "art_env \<Rightarrow> SaveArtifactInput \<Rightarrow> (ArtifactReference \<times> bool) art" where
  "save env q =
     (let csum = av_checksum env (sv_content q) in
        andThen (new_artifact_id env) (\<lambda>aid.
        andThen (claim_idempotency_key q aid) (\<lambda>winner.
        case winner of
          None \<Rightarrow> save_new q aid csum
        | Some w \<Rightarrow>
            andThen (read_or_none (sv_run q) w) (\<lambda>existing.
            case existing of
              Some r \<Rightarrow>
                if ar_checksum_sha256 (rec_reference r) = csum then ret (rec_reference r, False)
                else raise IdempotencyKeyReused
            | None \<Rightarrow> save_new q w csum))))"

definition get_artifact :: "string \<Rightarrow> string \<Rightarrow> (ArtifactReference \<times> content) art" where
  "get_artifact run aid =
     andThen (read_record run aid) (\<lambda>r.
     if content_matches_reference (rec_reference r) (rec_content r)
     then ret (rec_reference r, rec_content r) else raise RecordInvalid)"

definition sort_key_of :: "ArtifactReference \<Rightarrow> string \<times> string \<times> nat" where
  "sort_key_of r =
     (artifact_type_name (ar_type r),
      (case ar_perspective r of None \<Rightarrow> '''' | Some p \<Rightarrow> perspective_name p), ar_version r)"

fun latest_versions ::
    "ArtifactReference list \<Rightarrow> (artifact_type \<times> perspective option, nat) dict \<Rightarrow>
     (artifact_type \<times> perspective option, nat) dict" where
  "latest_versions [] d = d"
| "latest_versions (r # rs) d =
     (let key = (ar_type r, ar_perspective r);
          old = (case map_of d key of None \<Rightarrow> 0 | Some v \<Rightarrow> v)
      in latest_versions rs (dict_put key (max old (ar_version r)) d))"

definition list_matches :: "ListArtifactsInput \<Rightarrow> ArtifactReference \<Rightarrow> bool" where
  "list_matches q r =
     ((la_type q = None \<or> la_type q = Some (ar_type r)) \<and>
      (la_perspective q = None \<or> la_perspective q = ar_perspective r))"

definition list_artifacts :: "ListArtifactsInput \<Rightarrow> (ArtifactReference list \<times> nat) art" where
  "list_artifacts q =
     andThen (run_references (la_run q)) (\<lambda>refs.
       let filtered = sort_key sort_key_of (filter (list_matches q) refs);
           latest = latest_versions filtered [];
           page = take (la_limit q) (drop (la_offset q) filtered)
       in ret (map (\<lambda>r. r\<lparr>ar_is_latest :=
                 (map_of latest (ar_type r, ar_perspective r) = Some (ar_version r))\<rparr>) page,
               length filtered))"

section \<open>Growth: objects are written once and never rewritten\<close>

definition art_grows :: "art_state \<Rightarrow> art_state \<Rightarrow> bool" where
  "art_grows s t =
     (map_of (ao_records s) \<subseteq>\<^sub>m map_of (ao_records t) \<and> map_of (ao_keys s) \<subseteq>\<^sub>m map_of (ao_keys t))"

lemma art_grows_refl [simp, intro]: "art_grows s s"
  by (simp add: art_grows_def)

lemma art_grows_trans: "art_grows s t \<Longrightarrow> art_grows t u \<Longrightarrow> art_grows s u"
  by (auto simp: art_grows_def intro: map_le_trans)

lemma keeps_art_modify:
  "(\<And>s. P s \<Longrightarrow> P (f s)) \<Longrightarrow> keeps P (modify f)"
  by (simp add: moves_def comp_simps)

lemma art_grows_tick: "keeps (art_grows s0) art_tick"
  unfolding art_tick_def
  by (intro keeps_intros keeps_art_modify) (simp add: art_grows_def)

lemma art_grows_write: "keeps (art_grows s0) (write_record run r)"
  unfolding write_record_def
proof (rule keeps_andThen[OF art_grows_tick], rule moves_gets_andThen)
  fix old
  show "moves (\<lambda>s. art_grows s0 s \<and>
      map_of (ao_records s) (run, ar_artifact_id (rec_reference r)) = old) (art_grows s0)
    (case old of Some _ \<Rightarrow> raise PreconditionFailed
     | None \<Rightarrow> modify (\<lambda>s. s\<lparr>ao_records :=
         dict_put (run, ar_artifact_id (rec_reference r)) r (ao_records s)\<rparr>))"
    by (cases old)
       (auto simp: moves_def comp_simps art_grows_def intro: map_le_trans map_le_dict_put)
qed

lemma art_grows_claim: "keeps (art_grows s0) (claim_idempotency_key q aid)"
  unfolding claim_idempotency_key_def Let_def
proof (rule keeps_andThen[OF art_grows_tick], rule moves_gets_andThen)
  fix old
  have "keeps (art_grows s0) (andThen art_tick (\<lambda>_. ret (Some w)))" for w :: string
    by (intro keeps_intros art_grows_tick)
  then show "moves (\<lambda>s. art_grows s0 s \<and> map_of (ao_keys s) (sv_run q, sv_type q, sv_key q) = old)
      (art_grows s0)
      (case old of Some winner \<Rightarrow> andThen art_tick (\<lambda>_. ret (Some winner))
       | None \<Rightarrow> andThen (modify (\<lambda>s. s\<lparr>ao_keys :=
           dict_put (sv_run q, sv_type q, sv_key q) aid (ao_keys s)\<rparr>)) (\<lambda>_. ret None))"
    by (cases old)
       (auto simp: moves_def comp_simps art_grows_def intro: map_le_trans map_le_dict_put)
qed

lemma art_grows_save: "keeps (art_grows s0) (save env q)"
  unfolding save_def save_new_def new_reference_def next_version_def run_references_def
    new_artifact_id_def read_or_none_def Let_def
  by (intro keeps_intros art_grows_tick art_grows_write art_grows_claim keeps_art_modify)
     (simp_all add: art_grows_def)

section \<open>A save that is not interrupted\<close>

definition restart :: "art_state \<Rightarrow> art_state" where
  "restart s = s\<lparr>ao_budget := None\<rparr>"

definition made_reference :: "art_state \<Rightarrow> SaveArtifactInput \<Rightarrow> string \<Rightarrow> string \<Rightarrow> ArtifactReference"
where
  "made_reference s q aid csum =
     \<lparr>ar_artifact_id = aid, ar_story_run_id = sv_run q, ar_type = sv_type q,
      ar_perspective = sv_perspective q,
      ar_version = foldr max (map ar_version
        (filter (\<lambda>r. ar_type r = sv_type q \<and> ar_perspective r = sv_perspective q)
          (map rec_reference (run_records s (sv_run q))))) 0 + 1,
      ar_created_at = ao_clock s, ar_content_type = expected_content_type (sv_type q),
      ar_checksum_sha256 = csum, ar_is_latest = False\<rparr>"

definition minted :: "art_state \<Rightarrow> art_state" where
  "minted s = s\<lparr>ao_minted := ao_minted s + 1\<rparr>"

definition fresh_id :: "art_env \<Rightarrow> art_state \<Rightarrow> string" where
  "fresh_id env s = artifact_id_of (av_uuid env (ao_minted s))"

definition key_of :: "SaveArtifactInput \<Rightarrow> string \<times> artifact_type \<times> uuid" where
  "key_of q = (sv_run q, sv_type q, sv_key q)"

definition claimed :: "art_env \<Rightarrow> SaveArtifactInput \<Rightarrow> art_state \<Rightarrow> art_state" where
  "claimed env q s =
     (case map_of (ao_keys s) (key_of q) of
        None \<Rightarrow> (minted s)\<lparr>ao_keys := dict_put (key_of q) (fresh_id env s) (ao_keys s)\<rparr>
      | Some _ \<Rightarrow> minted s)"

definition recorded :: "SaveArtifactInput \<Rightarrow> string \<Rightarrow> string \<Rightarrow> art_state \<Rightarrow> art_state" where
  "recorded q aid csum s =
     s\<lparr>ao_records := dict_put (sv_run q, aid)
         \<lparr>rec_reference = made_reference s q aid csum, rec_content = sv_content q\<rparr> (ao_records s)\<rparr>"

lemmas art_ops = save_def save_new_def new_reference_def next_version_def run_references_def
  new_artifact_id_def read_or_none_def read_record_def write_record_def
  claim_idempotency_key_def art_tick_def Let_def

lemma save_new_run:
  assumes "ao_budget s = None"
  shows "save_new q aid csum s =
    (case map_of (ao_records s) (sv_run q, aid) of
       None \<Rightarrow> (Inr (made_reference s q aid csum, True), recorded q aid csum s)
     | Some _ \<Rightarrow> (Inl PreconditionFailed, s))"
  using assms
  by (simp add: art_ops comp_simps made_reference_def recorded_def split: option.split)

lemma run_records_frame [simp]:
  "run_records (s\<lparr>ao_keys := k\<rparr>) run = run_records s run"
  "run_records (s\<lparr>ao_minted := m\<rparr>) run = run_records s run"
  "run_records (s\<lparr>ao_budget := b\<rparr>) run = run_records s run"
  "run_records (minted s) run = run_records s run"
  by (simp_all add: run_records_def minted_def)

lemma claimed_simps [simp]:
  "ao_records (claimed env q s) = ao_records s" "ao_budget (claimed env q s) = ao_budget s"
  "ao_clock (claimed env q s) = ao_clock s" "ao_minted (claimed env q s) = ao_minted s + 1"
  "ao_keys (claimed env q s) =
     (case map_of (ao_keys s) (key_of q) of None \<Rightarrow> dict_put (key_of q) (fresh_id env s) (ao_keys s)
      | Some _ \<Rightarrow> ao_keys s)"
  by (simp_all add: claimed_def minted_def split: option.split)

text \<open>The artifact id the key points at once it is claimed.\<close>

definition target :: "art_env \<Rightarrow> SaveArtifactInput \<Rightarrow> art_state \<Rightarrow> string" where
  "target env q s = (case map_of (ao_keys s) (key_of q) of None \<Rightarrow> fresh_id env s | Some w \<Rightarrow> w)"

lemma save_run:
  assumes "ao_budget s = None"
  shows "save env q s =
    (let csum = av_checksum env (sv_content q); aid = target env q s; t = claimed env q s in
     case map_of (ao_records s) (sv_run q, aid) of
       None \<Rightarrow> (Inr (made_reference t q aid csum, True), recorded q aid csum t)
     | Some r \<Rightarrow>
         if map_of (ao_keys s) (key_of q) = None then (Inl PreconditionFailed, t)
         else if ar_checksum_sha256 (rec_reference r) = csum then (Inr (rec_reference r, False), t)
         else (Inl IdempotencyKeyReused, t))"
proof (cases "map_of (ao_keys s) (key_of q)")
  case None
  then show ?thesis
    using assms
    by (simp add: save_def new_artifact_id_def claim_idempotency_key_def art_tick_def comp_simps
        Let_def save_new_run target_def key_of_def fresh_id_def claimed_def minted_def
        split: option.split)
next
  case (Some w)
  then show ?thesis
    using assms
    by (simp add: save_def new_artifact_id_def claim_idempotency_key_def read_or_none_def
        art_tick_def comp_simps Let_def save_new_run target_def key_of_def claimed_def minted_def
        split: option.split)
qed

text \<open>With a crash, the state left behind is one of those the uninterrupted save goes through.\<close>

lemma tick_run:
  "ao_budget s = None \<Longrightarrow> art_tick s = (Inr (), s)"
  "ao_budget s = Some 0 \<Longrightarrow> art_tick s = (Inl ArtCrashed, s)"
  "ao_budget s = Some (Suc n) \<Longrightarrow> art_tick s = (Inr (), s\<lparr>ao_budget := Some n\<rparr>)"
  by (simp_all add: art_tick_def comp_simps)

lemma restart_simps [simp]:
  "restart (s\<lparr>ao_budget := b\<rparr>) = restart s" "restart (restart s) = restart s"
  "ao_budget (restart s) = None" "ao_records (restart s) = ao_records s"
  "ao_keys (restart s) = ao_keys s" "ao_minted (restart s) = ao_minted s"
  "ao_clock (restart s) = ao_clock s" "run_records (restart s) run = run_records s run"
  by (simp_all add: restart_def)

lemma restart_made [simp]: "made_reference (restart s) q aid csum = made_reference s q aid csum"
  by (simp add: made_reference_def)

lemma made_budget [simp]: "made_reference (s\<lparr>ao_budget := b\<rparr>) q aid csum = made_reference s q aid csum"
  by (simp add: made_reference_def)

lemma restart_recorded: "restart (recorded q aid csum s) = recorded q aid csum (restart s)"
  by (simp add: recorded_def restart_def made_reference_def run_records_def)

lemma save_new_crash:
  "restart (snd (save_new q aid csum s)) = restart s \<or>
   restart (snd (save_new q aid csum s)) = snd (save_new q aid csum (restart s))"
proof (cases "ao_budget s")
  case None
  then show ?thesis
    by (simp add: save_new_run restart_recorded split: option.split)
next
  case (Some n)
  then consider (z) "ao_budget s = Some 0" | (one) "ao_budget s = Some (Suc 0)"
    | (two) m where "ao_budget s = Some (Suc (Suc m))"
    by (cases n rule: nat.exhaust; metis nat.exhaust)
  then show ?thesis
  proof cases
    case z
    then show ?thesis
      by (simp add: save_new_def new_reference_def next_version_def run_references_def
          tick_run comp_simps)
  next
    case one
    then show ?thesis
      by (simp add: save_new_def new_reference_def next_version_def run_references_def
          write_record_def tick_run comp_simps)
  next
    case two
    then show ?thesis
      by (cases "map_of (ao_records s) (sv_run q, aid)")
         (simp_all add: save_new_def new_reference_def next_version_def run_references_def
          write_record_def tick_run comp_simps made_reference_def recorded_def restart_def
          run_records_def)
  qed
qed

lemma save_winner_crash:
  assumes "ao_budget s = Some n" "map_of (ao_keys s) (key_of q) = Some w"
  shows "(\<exists>b. snd (save env q s) = (minted s)\<lparr>ao_budget := b\<rparr>) \<or>
        (map_of (ao_records s) (sv_run q, w) = None \<and>
         (\<exists>b. snd (save env q s) =
           snd (save_new q w (av_checksum env (sv_content q)) ((minted s)\<lparr>ao_budget := b\<rparr>))))"
proof -
  note run = save_def new_artifact_id_def claim_idempotency_key_def read_or_none_def
    tick_run comp_simps Let_def minted_def key_of_def
  note asm = assms[unfolded key_of_def]
  consider (z) "n = 0" | (one) "n = Suc 0" | (two) "n = Suc (Suc 0)" | (more) m where "n = Suc (Suc (Suc m))"
    by (metis nat.exhaust)
  then show ?thesis
  proof cases
    case z
    then show ?thesis using asm by (intro disjI1 exI[of _ "Some 0"]) (simp add: run)
  next
    case one
    then show ?thesis using asm by (intro disjI1 exI[of _ "Some 0"]) (simp add: run)
  next
    case two
    then show ?thesis using asm by (intro disjI1 exI[of _ "Some 0"]) (simp add: run)
  next
    case more
    show ?thesis
    proof (cases "map_of (ao_records s) (sv_run q, w)")
      case None
      then show ?thesis
        using asm more by (intro disjI2 conjI exI[of _ "Some m"]) (simp_all add: run)
    next
      case (Some r)
      then show ?thesis
        using asm more by (intro disjI1 exI[of _ "Some m"]) (simp add: run)
    qed
  qed
qed

lemma save_crash_states:
  "restart (snd (save env q s)) = restart (minted s) \<or>
   restart (snd (save env q s)) = claimed env q (restart s) \<or>
   restart (snd (save env q s)) = snd (save env q (restart s))"
proof (cases "ao_budget s")
  case None
  then have "restart s = s" by (simp add: restart_def)
  moreover have "ao_budget (snd (save env q s)) = None"
    using None by (simp add: save_run Let_def recorded_def split: option.split)
  ultimately show ?thesis by (simp add: restart_def)
next
  case (Some n)
  have m: "restart (minted s) = minted (restart s)" by (simp add: restart_def minted_def)
  show ?thesis
  proof (cases "map_of (ao_keys s) (key_of q)")
    case None
    let ?t = "(minted s)\<lparr>ao_budget := Some (n - 1),
      ao_keys := dict_put (key_of q) (fresh_id env s) (ao_keys s)\<rparr>"
    have t: "restart ?t = claimed env q (restart s)"
      using None by (simp add: claimed_def restart_def minted_def fresh_id_def)
    have "snd (save env q s) = minted s \<or>
        snd (save env q s) = snd (save_new q (fresh_id env s) (av_checksum env (sv_content q)) ?t)"
      using None Some
      by (cases n) (simp_all add: save_def new_artifact_id_def claim_idempotency_key_def tick_run
          comp_simps Let_def minted_def fresh_id_def key_of_def)
    moreover have "snd (save env q (restart s)) =
        snd (save_new q (fresh_id env s) (av_checksum env (sv_content q)) (restart ?t))"
      using None unfolding t
      by (simp add: save_run save_new_run Let_def target_def fresh_id_def split: option.split)
    ultimately show ?thesis
      using save_new_crash[of q "fresh_id env s" "av_checksum env (sv_content q)" ?t] t
      by (metis)
  next
    case (Some w)
    have c: "claimed env q (restart s) = restart (minted s)"
      using Some by (simp add: claimed_def restart_def minted_def)
    have "(\<exists>b. snd (save env q s) = (minted s)\<lparr>ao_budget := b\<rparr>) \<or>
        (map_of (ao_records s) (sv_run q, w) = None \<and>
         (\<exists>b. snd (save env q s) =
           snd (save_new q w (av_checksum env (sv_content q)) ((minted s)\<lparr>ao_budget := b\<rparr>))))"
      using Some \<open>ao_budget s = Some n\<close>
      using save_winner_crash[of s n q w env] by blast
    moreover have "snd (save env q (restart s)) =
        snd (save_new q w (av_checksum env (sv_content q)) (restart (minted s)))"
      if "map_of (ao_records s) (sv_run q, w) = None"
      using Some that
      by (simp add: save_run save_new_run Let_def target_def c minted_def split: option.split)
    ultimately show ?thesis
      using save_new_crash[of q w "av_checksum env (sv_content q)"]
      by (metis restart_simps(1))
  qed
qed

end
