(* ===== verification/Artifact_Laws.thy ===== *)
theory Artifact_Laws
  imports Artifact_Store
begin

text \<open>
  What the artifact store guarantees: the bucket invariant \<open>art_inv\<close> of every reachable state
  (crashes included), the functional behaviour of save, get and list, contiguous versions, and
  the interpretation of the \<open>idempotent_store\<close> contract.
\<close>

section \<open>The bucket invariant\<close>

definition record_ok :: "art_env \<Rightarrow> string \<times> string \<Rightarrow> art_record \<Rightarrow> bool" where
  "record_ok env k r =
     (let ref = rec_reference r in
        ar_story_run_id ref = fst k \<and> ar_artifact_id ref = snd k \<and>
        ar_checksum_sha256 ref = av_checksum env (rec_content r) \<and>
        ar_perspective ref = expected_perspective (ar_type ref) \<and>
        ar_content_type ref = expected_content_type (ar_type ref) \<and>
        \<not> ar_is_latest ref \<and> content_model_matches (ar_type ref) (rec_content r))"

definition art_versions :: "art_state \<Rightarrow> string \<Rightarrow> artifact_type \<Rightarrow> perspective option \<Rightarrow> nat list" where
  "art_versions s run ty p =
     map ar_version (filter (\<lambda>r. ar_type r = ty \<and> ar_perspective r = p)
       (map rec_reference (run_records s run)))"

definition records_inv :: "art_env \<Rightarrow> art_state \<Rightarrow> bool" where
  "records_inv env s =
     (distinct (dict_keys (ao_records s)) \<and>
      (\<forall>(k, r) \<in> set (ao_records s). record_ok env k r \<and>
         (\<exists>key. map_of (ao_keys s) (fst k, ar_type (rec_reference r), key) = Some (snd k))))"

definition keys_inv :: "art_env \<Rightarrow> art_state \<Rightarrow> bool" where
  "keys_inv env s =
     (distinct (dict_keys (ao_keys s)) \<and> distinct (dict_values (ao_keys s)) \<and>
      (\<forall>aid \<in> set (dict_values (ao_keys s)).
         \<exists>n < ao_minted s. aid = artifact_id_of (av_uuid env n)))"

definition versions_inv :: "art_state \<Rightarrow> bool" where
  "versions_inv s =
     (\<forall>run ty p. set (art_versions s run ty p) = {1..length (art_versions s run ty p)})"

definition art_inv :: "art_env \<Rightarrow> art_state \<Rightarrow> bool" where
  "art_inv env s = (records_inv env s \<and> keys_inv env s \<and> versions_inv s)"

lemmas art_inv_defs = art_inv_def records_inv_def keys_inv_def versions_inv_def

definition empty_bucket :: "art_state" where
  "empty_bucket = \<lparr>ao_records = [], ao_keys = [], ao_minted = 0, ao_clock = 0, ao_budget = None\<rparr>"

lemma art_inv_empty: "art_inv env empty_bucket"
  by (simp add: art_inv_defs empty_bucket_def dict_keys_def dict_values_def art_versions_def
      run_records_def)

lemma art_inv_frame [simp]:
  "art_inv env (s\<lparr>ao_budget := b\<rparr>) = art_inv env s" "art_inv env (s\<lparr>ao_clock := c\<rparr>) = art_inv env s"
  by (simp_all add: art_inv_defs art_versions_def run_records_def)

lemma art_inv_restart [simp]: "art_inv env (restart s) = art_inv env s"
  by (simp add: restart_def)

lemma art_versions_frame [simp]:
  "art_versions (minted s) run ty p = art_versions s run ty p"
  "art_versions (s\<lparr>ao_keys := k\<rparr>) run ty p = art_versions s run ty p"
  by (simp_all add: art_versions_def)

lemma art_inv_minted: "art_inv env s \<Longrightarrow> art_inv env (minted s)"
  by (auto simp: art_inv_defs minted_def art_versions_def less_Suc_eq)

text \<open>The ids drawn so far and the next one are distinct UUIDs.\<close>

definition ids_left :: "art_env \<Rightarrow> nat \<Rightarrow> art_state \<Rightarrow> bool" where
  "ids_left env n s = inj_on (av_uuid env) {..<ao_minted s + n}"

abbreviation ids_fresh :: "art_env \<Rightarrow> art_state \<Rightarrow> bool" where
  "ids_fresh env s \<equiv> ids_left env 1 s"

lemma ids_left_restart [simp]: "ids_left env n (restart s) = ids_left env n s"
  by (simp add: ids_left_def)

lemma ids_left_mono: "ids_left env n s \<Longrightarrow> m \<le> n \<Longrightarrow> ids_left env m s"
  by (auto simp: ids_left_def intro: inj_on_subset)

lemma fresh_unused:
  assumes "ids_fresh env s" "art_inv env s"
  shows "fresh_id env s \<notin> set (dict_values (ao_keys s))" "map_of (ao_records s) (run, fresh_id env s) = None"
proof -
  show *: "fresh_id env s \<notin> set (dict_values (ao_keys s))"
    using assms by (fastforce simp: art_inv_defs fresh_id_def minted_inj ids_left_def inj_on_def)
  show "map_of (ao_records s) (run, fresh_id env s) = None"
  proof (rule ccontr)
    assume "\<not> ?thesis"
    then obtain r where "((run, fresh_id env s), r) \<in> set (ao_records s)"
      by (auto dest: map_of_SomeD)
    then obtain key where "map_of (ao_keys s) key = Some (fresh_id env s)"
      using assms(2) by (fastforce simp: art_inv_def records_inv_def)
    then show False
      using * by (auto simp: dict_values_def dest!: map_of_SomeD) force
  qed
qed

lemma art_inv_claimed:
  assumes "ids_fresh env s" "art_inv env s"
  shows "art_inv env (claimed env q s)"
proof (cases "map_of (ao_keys s) (key_of q)")
  case None
  note fresh = fresh_unused(1)[OF assms]
  have keys: "dict_put (key_of q) (fresh_id env s) (ao_keys s) = ao_keys s @ [(key_of q, fresh_id env s)]"
    using None by (rule dict_put_absent)
  have t: "claimed env q s = (minted s)\<lparr>ao_keys := ao_keys s @ [(key_of q, fresh_id env s)]\<rparr>"
    using None by (simp add: claimed_def keys)
  have mono: "map_of (ao_keys s @ [(key_of q, fresh_id env s)]) k = Some aid"
    if "map_of (ao_keys s) k = Some aid" for k aid
    using that by (simp add: map_add_Some_iff)
  have "key_of q \<notin> set (dict_keys (ao_keys s))"
    using None by (simp add: set_dict_keys domIff)
  then have "keys_inv env (claimed env q s)"
    using assms(2) fresh unfolding t
    by (auto simp: art_inv_def keys_inv_def dict_keys_def dict_values_def minted_def fresh_id_def
        less_Suc_eq)
  moreover have "records_inv env (claimed env q s)"
    using assms(2) mono unfolding t art_inv_def records_inv_def
    by (simp add: minted_def del: map_of_append) blast
  moreover have "versions_inv (claimed env q s)"
    using assms(2) unfolding t by (simp add: art_inv_def versions_inv_def)
  ultimately show ?thesis by (simp add: art_inv_def)
next
  case (Some w)
  with assms show ?thesis by (simp add: claimed_def art_inv_minted)
qed

text \<open>Appending a record whose version is next.\<close>

lemma run_records_put:
  assumes "map_of (ao_records s) (run, aid) = None"
  shows "mset (run_records (s\<lparr>ao_records := dict_put (run, aid) r (ao_records s)\<rparr>) run') =
    (if run' = run then add_mset r (mset (run_records s run')) else mset (run_records s run'))"
  using assms by (simp add: run_records_def dict_put_absent)

lemma art_versions_mset:
  "mset (art_versions s run ty p) =
     image_mset ar_version (filter_mset (\<lambda>r. ar_type r = ty \<and> ar_perspective r = p)
       (image_mset rec_reference (mset (run_records s run))))"
  by (simp add: art_versions_def mset_filter)

lemma art_versions_put:
  assumes "map_of (ao_records s) (run, aid) = None"
  shows "mset (art_versions (s\<lparr>ao_records := dict_put (run, aid) r (ao_records s)\<rparr>) run' ty p) =
    (if run' = run \<and> ar_type (rec_reference r) = ty \<and> ar_perspective (rec_reference r) = p
     then add_mset (ar_version (rec_reference r)) (mset (art_versions s run' ty p))
     else mset (art_versions s run' ty p))"
  unfolding art_versions_mset run_records_put[OF assms] by simp

lemma foldr_max_le: "\<forall>x \<in> set xs. x \<le> m \<Longrightarrow> foldr max xs 0 \<le> (m :: nat)"
  by (induction xs) auto

lemma foldr_max_ge: "x \<in> set xs \<Longrightarrow> x \<le> foldr max xs (0 :: nat)"
  by (induction xs) auto

lemma foldr_max_eq:
  assumes "x \<in> set vs"
  shows "foldr max vs (0 :: nat) = x \<longleftrightarrow> (\<forall>v \<in> set vs. v \<le> x)"
proof
  assume "foldr max vs 0 = x"
  then show "\<forall>v \<in> set vs. v \<le> x" using foldr_max_ge[of _ vs] by auto
next
  assume "\<forall>v \<in> set vs. v \<le> x"
  then show "foldr max vs 0 = x"
    by (intro antisym foldr_max_le foldr_max_ge assms)
qed

lemma foldr_max_range:
  assumes "set xs = {1..n}"
  shows "foldr max xs (0::nat) = n"
proof (rule antisym)
  show "foldr max xs 0 \<le> n" using assms by (intro foldr_max_le) simp
  show "n \<le> foldr max xs 0"
  proof (cases "n = 0")
    case False
    then have "n \<in> set xs" using assms by simp
    then show ?thesis by (rule foldr_max_ge)
  qed simp
qed

lemma made_version:
  assumes "art_inv env s"
  shows "ar_version (made_reference s q aid csum) =
    length (art_versions s (sv_run q) (sv_type q) (sv_perspective q)) + 1"
proof -
  have "set (art_versions s (sv_run q) (sv_type q) (sv_perspective q)) =
      {1..length (art_versions s (sv_run q) (sv_type q) (sv_perspective q))}"
    using assms by (simp only: art_inv_def versions_inv_def)
  from foldr_max_range[OF this] show ?thesis
    by (simp add: made_reference_def art_versions_def)
qed

lemma versions_ok_put:
  assumes inv: "art_inv env s" and new: "map_of (ao_records s) (sv_run q, aid) = None"
  shows "set (art_versions (recorded q aid csum s) run ty p) =
    {1..length (art_versions (recorded q aid csum s) run ty p)}"
proof -
  let ?ref = "made_reference s q aid csum"
  let ?old = "art_versions s run ty p" and ?new = "art_versions (recorded q aid csum s) run ty p"
  have fields: "ar_type ?ref = sv_type q" "ar_perspective ?ref = sv_perspective q"
    by (simp_all add: made_reference_def)
  have old: "set ?old = {1..length ?old}" using inv by (simp only: art_inv_def versions_inv_def)
  have m: "mset ?new = (if run = sv_run q \<and> sv_type q = ty \<and> sv_perspective q = p
      then add_mset (ar_version ?ref) (mset ?old) else mset ?old)"
    unfolding recorded_def using art_versions_put[OF new, of "\<lparr>rec_reference = ?ref, rec_content = sv_content q\<rparr>" run ty p]
    by (simp add: fields)
  show ?thesis
  proof (cases "run = sv_run q \<and> sv_type q = ty \<and> sv_perspective q = p")
    case True
    then have "ar_version ?ref = length ?old + 1" using made_version[OF inv, of q aid csum] by simp
    with True m have m': "mset ?new = mset ((length ?old + 1) # ?old)" by simp
    show ?thesis
      using mset_eq_setD[OF m'] mset_eq_length[OF m'] old by (auto simp: atLeastAtMostSuc_conv)
  next
    case False
    with m have m': "mset ?new = mset ?old" by (simp only: if_False)
    show ?thesis using mset_eq_setD[OF m'] mset_eq_length[OF m'] old by simp
  qed
qed

lemma art_inv_recorded:
  assumes inv: "art_inv env s" and new: "map_of (ao_records s) (sv_run q, aid) = None"
    and key: "map_of (ao_keys s) (key_of q) = Some aid" and wf: "type_matches_content q"
  shows "art_inv env (recorded q aid (av_checksum env (sv_content q)) s)"
proof -
  let ?csum = "av_checksum env (sv_content q)"
  let ?r = "\<lparr>rec_reference = made_reference s q aid ?csum, rec_content = sv_content q\<rparr>"
  have put: "dict_put (sv_run q, aid) ?r (ao_records s) = ao_records s @ [((sv_run q, aid), ?r)]"
    using new by (rule dict_put_absent)
  have notin: "(sv_run q, aid) \<notin> set (dict_keys (ao_records s))"
    using new by (simp add: set_dict_keys domIff)
  have ok: "record_ok env (sv_run q, aid) ?r"
    using wf by (simp add: record_ok_def made_reference_def type_matches_content_def)
  have bound: "\<exists>k. map_of (ao_keys s) (sv_run q, ar_type (rec_reference ?r), k) = Some aid"
    using key by (auto simp: made_reference_def key_of_def)
  show ?thesis
    unfolding art_inv_def
  proof (intro conjI)
    show "records_inv env (recorded q aid ?csum s)"
      using inv notin ok bound
      by (auto simp: recorded_def put art_inv_def records_inv_def dict_keys_def)
    show "keys_inv env (recorded q aid ?csum s)"
      using inv by (simp add: recorded_def art_inv_def keys_inv_def)
    show "versions_inv (recorded q aid ?csum s)"
      using versions_ok_put[OF inv new] by (simp only: versions_inv_def) blast
  qed
qed

section \<open>Save\<close>

text \<open>
  \<open>stored env s q ref\<close>: the key of \<open>q\<close> points at the recorded artifact \<open>ref\<close>; the checksum of its
  reference and the checksum of the content recorded with it are both that of \<open>q\<close>'s content.
\<close>

definition stored :: "art_env \<Rightarrow> art_state \<Rightarrow> SaveArtifactInput \<Rightarrow> ArtifactReference \<Rightarrow> bool" where
  "stored env s q ref =
     (map_of (ao_keys s) (key_of q) = Some (ar_artifact_id ref) \<and>
      ar_checksum_sha256 ref = av_checksum env (sv_content q) \<and>
      (case map_of (ao_records s) (sv_run q, ar_artifact_id ref) of
         None \<Rightarrow> False
       | Some r \<Rightarrow> rec_reference r = ref \<and> av_checksum env (rec_content r) = av_checksum env (sv_content q)))"

text \<open>The key of \<open>q\<close> is not bound to another content.\<close>

definition key_free_for :: "art_env \<Rightarrow> SaveArtifactInput \<Rightarrow> art_state \<Rightarrow> bool" where
  "key_free_for env q s =
     (case map_of (ao_keys s) (key_of q) of None \<Rightarrow> True
      | Some aid \<Rightarrow>
          (case map_of (ao_records s) (sv_run q, aid) of None \<Rightarrow> True
           | Some r \<Rightarrow> ar_checksum_sha256 (rec_reference r) = av_checksum env (sv_content q)))"

lemma key_free_frame [simp]:
  "key_free_for env q (restart s) = key_free_for env q s"
  "key_free_for env q (minted s) = key_free_for env q s"
  by (simp_all add: key_free_for_def restart_def minted_def split: option.split)

lemma stored_restart [simp]: "stored env (restart s) q ref = stored env s q ref"
  by (simp add: stored_def restart_def)

lemma target_fresh:
  assumes "ids_fresh env s" "art_inv env s" "map_of (ao_keys s) (key_of q) = None"
  shows "map_of (ao_records s) (sv_run q, target env q s) = None"
  using fresh_unused(2)[OF assms(1,2)] assms(3) by (simp add: target_def)

lemma claimed_key: "map_of (ao_keys (claimed env q s)) (key_of q) = Some (target env q s)"
  by (simp add: target_def map_of_dict_put split: option.split)

lemma art_inv_save_done:
  assumes "ids_fresh env s" "art_inv env s" "type_matches_content q" "ao_budget s = None"
  shows "art_inv env (snd (save env q s))"
proof -
  have c: "art_inv env (claimed env q s)" using assms by (simp add: art_inv_claimed)
  have "art_inv env (recorded q (target env q s) (av_checksum env (sv_content q)) (claimed env q s))"
    if "map_of (ao_records s) (sv_run q, target env q s) = None"
    using art_inv_recorded[OF c _ claimed_key assms(3)] that by simp
  with c show ?thesis
    by (simp add: save_run[OF assms(4)] Let_def split: option.split)
qed

lemma art_inv_save:
  assumes "ids_fresh env s" "art_inv env s" "type_matches_content q"
  shows "art_inv env (snd (save env q s))"
proof -
  have r: "art_inv env (restart s)" using assms(2) by simp
  have f: "ids_fresh env (restart s)" using assms(1) by simp
  have "art_inv env (restart (minted s))" using assms(2) by (simp add: art_inv_minted)
  moreover have "art_inv env (claimed env q (restart s))"
    by (rule art_inv_claimed[OF f r])
  moreover have "art_inv env (snd (save env q (restart s)))"
    by (rule art_inv_save_done[OF f r assms(3)]) simp
  ultimately have "art_inv env (restart (snd (save env q s)))"
    using save_crash_states[of env q s] by metis
  then show ?thesis by (simp only: art_inv_restart)
qed

lemma record_keyed: "art_inv env s \<Longrightarrow> map_of (ao_records s) k = Some r \<Longrightarrow> record_ok env k r"
  by (auto simp: art_inv_def records_inv_def dest!: map_of_SomeD)

lemma save_outcome:
  assumes "ids_fresh env s" "art_inv env s" "ao_budget s = None"
  shows "(\<exists>ref c. fst (save env q s) = Inr (ref, c) \<and> stored env (snd (save env q s)) q ref) \<or>
    fst (save env q s) = Inl IdempotencyKeyReused \<and> \<not> key_free_for env q s \<and>
    snd (save env q s) = minted s"
proof -
  let ?aid = "target env q s" and ?t = "claimed env q s"
  let ?csum = "av_checksum env (sv_content q)"
  show ?thesis
  proof (cases "map_of (ao_records s) (sv_run q, ?aid)")
    case None
    have "save env q s = (Inr (made_reference ?t q ?aid ?csum, True), recorded q ?aid ?csum ?t)"
      using None by (simp add: save_run[OF assms(3)] Let_def)
    moreover have "stored env (recorded q ?aid ?csum ?t) q (made_reference ?t q ?aid ?csum)"
      using claimed_key[of env q s]
      by (simp add: stored_def recorded_def map_of_dict_put made_reference_def)
    ultimately show ?thesis by auto
  next
    case (Some r)
    then have bound: "map_of (ao_keys s) (key_of q) = Some ?aid"
      using target_fresh[OF assms(1,2), of q] by (cases "map_of (ao_keys s) (key_of q)")
        (auto simp: target_def)
    then have t: "?t = minted s" by (simp add: claimed_def)
    have ok: "record_ok env (sv_run q, ?aid) r" using record_keyed[OF assms(2) Some] .
    show ?thesis
    proof (cases "ar_checksum_sha256 (rec_reference r) = ?csum")
      case True
      then have "save env q s = (Inr (rec_reference r, False), ?t)"
        using Some bound by (simp add: save_run[OF assms(3)] Let_def)
      moreover have "stored env ?t q (rec_reference r)"
        using Some bound ok True by (simp add: stored_def record_ok_def Let_def)
      ultimately show ?thesis by auto
    next
      case False
      then have "save env q s = (Inl IdempotencyKeyReused, ?t)"
        using Some bound by (simp add: save_run[OF assms(3)] Let_def)
      moreover have "\<not> key_free_for env q s"
        using False Some bound by (simp add: key_free_for_def)
      ultimately show ?thesis using t by simp
    qed
  qed
qed

lemma save_replays:
  assumes "ao_budget s = None" "stored env s q ref"
  shows "save env q s = (Inr (ref, False), minted s)"
  using assms
  by (auto simp: save_run Let_def stored_def target_def claimed_def split: option.splits)

lemma stored_grows: "art_grows s t \<Longrightarrow> stored env s q ref \<Longrightarrow> stored env t q ref"
  by (auto simp: stored_def art_grows_def split: option.splits dest: map_le_Some)

lemma stored_free: "art_grows s t \<Longrightarrow> stored env t q ref \<Longrightarrow> key_free_for env q s"
  by (auto simp: key_free_for_def stored_def art_grows_def split: option.splits
      dest!: map_le_Some[of "map_of (ao_keys s)" _ "key_of q"] map_le_Some[of "map_of (ao_records s)"])

lemma save_grows: "art_grows s (snd (save env q s))"
  using movesD[OF art_grows_save, of s s] by simp

lemma save_minted: "ao_minted (snd (save env q s)) = ao_minted s + 1"
proof -
  have fin: "ao_minted (snd (save env q (restart s))) = ao_minted s + 1"
    by (simp add: save_run Let_def recorded_def split: option.split)
  have early: "ao_minted (restart (minted s)) = ao_minted s + 1"
    "ao_minted (claimed env q (restart s)) = ao_minted s + 1"
    by (simp_all add: minted_def)
  have "ao_minted (restart (snd (save env q s))) = ao_minted s + 1"
    using save_crash_states[of env q s] fin early by metis
  then show ?thesis by simp
qed

section \<open>The store meets the idempotent contract\<close>

definition store_ready :: "art_env \<Rightarrow> nat \<Rightarrow> art_state \<Rightarrow> bool" where
  "store_ready env n s = (art_inv env s \<and> ids_left env n s)"

text \<open>A save writes its own content: every record it adds carries the content of the request.\<close>

definition adds_only :: "content \<Rightarrow> art_state \<Rightarrow> art_state \<Rightarrow> bool" where
  "adds_only c s t =
     (\<forall>k r. map_of (ao_records t) k = Some r \<longrightarrow> map_of (ao_records s) k = Some r \<or> rec_content r = c)"

lemma adds_only_tick: "keeps (adds_only c s) art_tick"
  unfolding art_tick_def
  by (intro keeps_intros keeps_art_modify) (simp add: adds_only_def)

lemma adds_only_write: "rec_content r = c \<Longrightarrow> keeps (adds_only c s) (write_record run r)"
  unfolding write_record_def
  by (intro keeps_intros keeps_art_modify adds_only_tick)
     (auto simp: adds_only_def map_of_dict_put)

lemma adds_only_save: "adds_only (sv_content q) s (snd (save env q s))"
proof -
  have "keeps (adds_only (sv_content q) s) (save env q)"
    unfolding save_def save_new_def new_reference_def next_version_def run_references_def
      new_artifact_id_def read_or_none_def claim_idempotency_key_def Let_def
    by (intro keeps_intros adds_only_tick adds_only_write keeps_art_modify) (simp_all add: adds_only_def)
  moreover have "adds_only (sv_content q) s s" by (simp add: adds_only_def)
  ultimately show ?thesis by (rule movesD)
qed

lemma adds_only_trans: "adds_only c s t \<Longrightarrow> adds_only c t u \<Longrightarrow> adds_only c s u"
  unfolding adds_only_def by blast

definition save_call :: "art_env \<Rightarrow> SaveArtifactInput \<Rightarrow> (ArtifactReference \<times> bool) art" where
  "save_call env q s = save env q (restart s)"

interpretation artifact_puts: idempotent_store "save_call env" "store_ready env" type_matches_content "stored env"
proof
  fix n s q
  assume g: "store_ready env (Suc n) s" and w: "type_matches_content q"
  have f: "ids_fresh env (restart s)" and i: "art_inv env (restart s)"
    using g ids_left_mono[of env "Suc n" s 1] by (simp_all add: store_ready_def)
  show "store_ready env n (snd (save_call env q s))"
    using art_inv_save[OF f i w] g
    by (simp add: store_ready_def save_call_def ids_left_def save_minted)
  fix r c
  assume "fst (save_call env q s) = Inr (r, c)"
  with save_outcome[OF f i, of q] show "stored env (snd (save_call env q s)) q r"
    by (auto simp: save_call_def)
next
  fix n s q r
  assume "stored env s q r"
  then have "stored env (restart s) q r" by (simp add: stored_def)
  then show "fst (save_call env q s) = Inr (r, False)"
    by (simp add: save_call_def save_replays)
next
  fix n s q q' r
  assume "stored env s q r"
  then have "stored env (restart s) q r" by (simp add: stored_def)
  then show "stored env (snd (save_call env q' s)) q r"
    using stored_grows[OF save_grows] by (simp add: save_call_def)
qed

section \<open>Reachable states\<close>

text \<open>
  Any sequence of saves, one after the other, each possibly cut short by a crash, at any times.
  This is the single writer the docstring of \<open>_new_reference\<close> in \<open>storage.py\<close> assumes (orchestration
  serializes the saves of a run). Saves that overlap are outside \<open>art_reach\<close>; the section on racing
  writers below says what remains true of them.
\<close>

inductive art_reach :: "art_env \<Rightarrow> art_state \<Rightarrow> bool" for env where
  art_init: "art_reach env empty_bucket"
| art_save: "art_reach env s \<Longrightarrow> type_matches_content q \<Longrightarrow>
    art_reach env (snd (save env q (s\<lparr>ao_budget := b, ao_clock := t\<rparr>)))"

inductive_cases art_saveE: "art_reach env s"

lemma art_reach_inv:
  "art_reach env s \<Longrightarrow> inj_on (av_uuid env) {..<ao_minted s} \<Longrightarrow> art_inv env s"
proof (induction rule: art_reach.induct)
  case art_init
  show ?case by (rule art_inv_empty)
next
  case (art_save s q t b)
  let ?s = "s\<lparr>ao_budget := b, ao_clock := t\<rparr>"
  have fresh: "ids_fresh env ?s"
    using art_save.prems by (simp add: ids_left_def save_minted)
  then have "inj_on (av_uuid env) {..<ao_minted s}"
    by (auto simp: ids_left_def intro: inj_on_subset)
  then have "art_inv env ?s" using art_save.IH by simp
  then show ?case using art_inv_save[OF fresh _ art_save.hyps(2)] by simp
qed

text \<open>C16. With one writer (saves follow one another, as the docstring of the code's
  _new_reference assumes), in every reachable state of the artifact store, crashes between any two bucket
  accesses included, the versions saved for one (run, type, perspective) are exactly 1..n, each
  once.\<close>

theorem artifact_versions_contiguous:
  assumes "art_reach env s" "inj_on (av_uuid env) {..<ao_minted s}"
  shows "set (art_versions s run ty p) = {1..length (art_versions s run ty p)} \<and>
    distinct (art_versions s run ty p)"
proof -
  have "set (art_versions s run ty p) = {1..length (art_versions s run ty p)}"
    using art_reach_inv[OF assms] by (simp only: art_inv_def versions_inv_def)
  moreover from this have "card (set (art_versions s run ty p)) = length (art_versions s run ty p)"
    by (simp only: card_atLeastAtMost diff_Suc_1)
  ultimately show ?thesis by (simp only: card_distinct)
qed

text \<open>C17. Whatever a save does, even when it crashes half-way, no stored record and no claimed
  key is ever changed or removed.\<close>

theorem artifacts_immutable:
  "map_of (ao_records s) \<subseteq>\<^sub>m map_of (ao_records (snd (save env q s))) \<and>
   map_of (ao_keys s) \<subseteq>\<^sub>m map_of (ao_keys (snd (save env q s)))"
  using save_grows[of s env q] by (simp only: art_grows_def)

subsection \<open>Racing writers\<close>

text \<open>
  Several server processes share the bucket. A save then takes its steps between those of others:
  it claims its key, numbers its reference from the list it reads (\<open>_new_reference\<close>) and writes the
  record later (\<open>_write_record\<close>), or never. The list holds the numbered records still unwritten.
\<close>

inductive art_race :: "art_env \<Rightarrow> art_state \<Rightarrow> (string \<times> art_record) list \<Rightarrow> bool" for env where
  race_start: "art_race env empty_bucket []"
| race_claim: "art_race env s ps \<Longrightarrow> art_race env (claimed env q s) ps"
| race_number: "art_race env s ps \<Longrightarrow>
    art_race env s ((sv_run q,
      \<lparr>rec_reference = made_reference (s\<lparr>ao_clock := t\<rparr>) q aid (av_checksum env (sv_content q)),
       rec_content = sv_content q\<rparr>) # ps)"
| race_write: "art_race env s (us @ (run, r) # vs) \<Longrightarrow>
    art_race env (snd (write_record run r (s\<lparr>ao_budget := b\<rparr>))) (us @ vs)"
| race_lost: "art_race env s (us @ p # vs) \<Longrightarrow> art_race env s (us @ vs)"

definition gap_free :: "art_state \<Rightarrow> (string \<times> art_record) list \<Rightarrow> bool" where
  "gap_free s ps =
     (\<forall>run ty pv. \<exists>n. set (art_versions s run ty pv) = {1..n} \<and>
        (\<forall>(k, r) \<in> set ps. k = run \<and> ar_type (rec_reference r) = ty \<and> ar_perspective (rec_reference r) = pv
           \<longrightarrow> ar_version (rec_reference r) \<in> {1..n + 1}))"

lemma gap_free_less: "gap_free s ps \<Longrightarrow> set qs \<subseteq> set ps \<Longrightarrow> gap_free s qs"
  unfolding gap_free_def by (meson subset_code(1))

lemma made_next:
  assumes "set (art_versions s (sv_run q) (sv_type q) (sv_perspective q)) = {1..n}"
  shows "ar_version (made_reference (s\<lparr>ao_clock := t\<rparr>) q aid csum) = n + 1"
  using foldr_max_range[OF assms] by (simp add: made_reference_def art_versions_def run_records_def)

lemma gap_free_number:
  assumes "gap_free s ps"
  shows "gap_free s ((sv_run q, \<lparr>rec_reference = made_reference (s\<lparr>ao_clock := t\<rparr>) q aid csum,
    rec_content = c\<rparr>) # ps)"
  unfolding gap_free_def
proof (intro allI)
  fix run ty pv
  let ?ref = "made_reference (s\<lparr>ao_clock := t\<rparr>) q aid csum"
  obtain n where n: "set (art_versions s run ty pv) = {1..n}"
    and old: "\<forall>(k, r) \<in> set ps. k = run \<and> ar_type (rec_reference r) = ty \<and>
      ar_perspective (rec_reference r) = pv \<longrightarrow> ar_version (rec_reference r) \<in> {1..n + 1}"
    using assms unfolding gap_free_def by meson
  have "ar_version ?ref = n + 1"
    if "sv_run q = run" "ar_type ?ref = ty" "ar_perspective ?ref = pv"
  proof (rule made_next)
    from that have "sv_run q = run" "sv_type q = ty" "sv_perspective q = pv"
      by (simp_all add: made_reference_def)
    with n show "set (art_versions s (sv_run q) (sv_type q) (sv_perspective q)) = {1..n}" by simp
  qed
  with n old show "\<exists>n. set (art_versions s run ty pv) = {1..n} \<and>
    (\<forall>(k, r) \<in> set ((sv_run q, \<lparr>rec_reference = ?ref, rec_content = c\<rparr>) # ps).
       k = run \<and> ar_type (rec_reference r) = ty \<and> ar_perspective (rec_reference r) = pv \<longrightarrow>
       ar_version (rec_reference r) \<in> {1..n + 1})"
    by (intro exI[of _ n]) simp
qed

lemma gap_free_write:
  assumes "gap_free s (us @ (run, r) # vs)"
    and new: "map_of (ao_records s) (run, aid) = None"
  shows "gap_free (s\<lparr>ao_records := dict_put (run, aid) r (ao_records s)\<rparr>) (us @ vs)"
  unfolding gap_free_def
proof (intro allI)
  fix k ty pv
  let ?t = "s\<lparr>ao_records := dict_put (run, aid) r (ao_records s)\<rparr>"
  let ?hit = "k = run \<and> ar_type (rec_reference r) = ty \<and> ar_perspective (rec_reference r) = pv"
  obtain n where n: "set (art_versions s k ty pv) = {1..n}"
    and old: "\<forall>(h, x) \<in> set (us @ (run, r) # vs). h = k \<and> ar_type (rec_reference x) = ty \<and>
      ar_perspective (rec_reference x) = pv \<longrightarrow> ar_version (rec_reference x) \<in> {1..n + 1}"
    using assms(1) unfolding gap_free_def by meson
  have "set (art_versions ?t k ty pv) =
      (if ?hit then insert (ar_version (rec_reference r)) {1..n} else {1..n})"
    using arg_cong[OF art_versions_put[OF new, of r k ty pv], of set_mset] n by (cases ?hit) auto
  moreover have hit: "?hit \<Longrightarrow> ar_version (rec_reference r) \<in> {1..n + 1}" using old by simp
  ultimately have new_set: "set (art_versions ?t k ty pv) =
      {1..if ?hit \<and> ar_version (rec_reference r) = n + 1 then n + 1 else n}"
    by (cases ?hit) auto
  obtain m where m: "n \<le> m" "set (art_versions ?t k ty pv) = {1..m}"
    by (rule that[OF _ new_set]) simp
  have "\<forall>(h, x) \<in> set (us @ vs). h = k \<and> ar_type (rec_reference x) = ty \<and>
      ar_perspective (rec_reference x) = pv \<longrightarrow> ar_version (rec_reference x) \<in> {1..m + 1}"
    using old m(1) by fastforce
  with m(2) show "\<exists>n. set (art_versions ?t k ty pv) = {1..n} \<and>
    (\<forall>(h, x) \<in> set (us @ vs). h = k \<and> ar_type (rec_reference x) = ty \<and>
       ar_perspective (rec_reference x) = pv \<longrightarrow> ar_version (rec_reference x) \<in> {1..n + 1})"
    by blast
qed

text \<open>Even racing writers leave no gap: the versions of a (run, type, perspective) are 1..n, but
  two of them may have taken the same one.\<close>

theorem racing_versions_gap_free: "art_race env s ps \<Longrightarrow> gap_free s ps"
proof (induction rule: art_race.induct)
  case race_start
  show ?case unfolding gap_free_def
    by (intro allI exI[of _ 0]) (simp add: empty_bucket_def art_versions_def run_records_def)
next
  case (race_claim s ps q)
  then show ?case by (simp add: gap_free_def art_versions_def run_records_def)
next
  case (race_number s ps q t aid)
  then show ?case by (intro gap_free_number)
next
  case (race_write s us run r vs b)
  let ?aid = "ar_artifact_id (rec_reference r)"
  have frame: "gap_free (t\<lparr>ao_budget := c\<rparr>) qs = gap_free t qs" for t c qs
    by (simp add: gap_free_def art_versions_def)
  have less: "gap_free (s\<lparr>ao_budget := b\<rparr>) (us @ vs)"
    using gap_free_less[OF race_write.IH, of "us @ vs"] by (auto simp: frame)
  have put: "map_of (ao_records s) (run, ?aid) = None \<Longrightarrow>
      gap_free (s\<lparr>ao_budget := c, ao_records := dict_put (run, ?aid) r (ao_records s)\<rparr>) (us @ vs)" for c
    using gap_free_write[OF race_write.IH, of ?aid]
    by (simp add: gap_free_def art_versions_def run_records_def)
  show ?case
  proof (cases b)
    case None
    then show ?thesis using less put[of b]
      by (cases "map_of (ao_records s) (run, ?aid)") (simp_all add: write_record_def tick_run comp_simps)
  next
    case (Some m)
    then show ?thesis using less put frame
      by (cases m; cases "map_of (ao_records s) (run, ?aid)")
         (simp_all add: write_record_def tick_run comp_simps)
  qed
next
  case (race_lost s us p vs)
  show ?case using gap_free_less[OF race_lost.IH, of "us @ vs"] by auto
qed

text \<open>The three possible effects of an interrupted save leave the key free for the same content.\<close>

lemma key_free_after:
  assumes "ids_fresh env s" "art_inv env s" "key_free_for env q s"
  shows "key_free_for env q (snd (save env q s))"
proof -
  have f: "ids_fresh env (restart s)" and i: "art_inv env (restart s)" using assms by simp_all
  have m: "key_free_for env q (restart (minted s))"
    using assms(3) by simp
  have "key_free_for env q (claimed env q (restart s))"
  proof (cases "map_of (ao_keys s) (key_of q)")
    case None
    then show ?thesis
      using fresh_unused(2)[OF assms(1,2), of "sv_run q"]
      by (simp add: key_free_for_def map_of_dict_put fresh_id_def)
  next
    case (Some w)
    then show ?thesis using assms(3) by (simp add: key_free_for_def)
  qed
  moreover have "key_free_for env q (snd (save env q (restart s)))"
    using save_outcome[OF f i, of q] assms(3)
    by (auto simp: key_free_for_def stored_def split: option.splits)
  ultimately have "key_free_for env q (restart (snd (save env q s)))"
    using m save_crash_states[of env q s] by metis
  then show ?thesis by simp
qed

lemma retry_stored:
  assumes "art_inv env s" "ids_left env 2 s" "type_matches_content q" "key_free_for env q s"
  shows "\<exists>ref created. fst (save_call env q (snd (save env q s))) = Inr (ref, created) \<and>
    stored env (snd (save_call env q (snd (save env q s)))) q ref"
proof -
  let ?t = "restart (snd (save env q s))"
  have f: "ids_fresh env s" by (rule ids_left_mono[OF assms(2)]) simp
  have "art_inv env ?t" using art_inv_save[OF f assms(1,3)] by simp
  moreover have "ids_fresh env ?t"
    using assms(2) by (simp add: ids_left_def save_minted numeral_2_eq_2)
  moreover have "key_free_for env q ?t"
    using key_free_after[OF f assms(1,4)] by simp
  ultimately show ?thesis
    using save_outcome[of env ?t q] by (auto simp: save_call_def)
qed

lemma retry_adds_only:
  "adds_only (sv_content q) s (snd (save_call env q (snd (save env q s))))"
proof -
  have "adds_only (sv_content q) (snd (save env q s)) (restart (snd (save env q s)))"
    by (simp add: adds_only_def)
  then show ?thesis
    unfolding save_call_def using adds_only_save adds_only_trans by metis
qed

text \<open>C14. A save that crashes at any point can be retried with the same key, unless the key was
  already bound to another content before: the retry returns a reference; the key then points at
  the record of that reference, and the checksum of the content in that record is the one of the
  request's content. A record that was not there before the first attempt has exactly the
  request's content.\<close>

theorem save_retry_after_crash:
  assumes "art_inv env s" "ids_left env 2 s" "type_matches_content q" "key_free_for env q s"
  shows "\<exists>ref created r t. save_call env q (snd (save env q s)) = (Inr (ref, created), t) \<and>
    map_of (ao_keys t) (key_of q) = Some (ar_artifact_id ref) \<and>
    map_of (ao_records t) (sv_run q, ar_artifact_id ref) = Some r \<and> rec_reference r = ref \<and>
    ar_checksum_sha256 ref = av_checksum env (sv_content q) \<and>
    av_checksum env (rec_content r) = av_checksum env (sv_content q) \<and>
    (map_of (ao_records s) (sv_run q, ar_artifact_id ref) = None \<longrightarrow> rec_content r = sv_content q)"
proof -
  let ?t = "snd (save_call env q (snd (save env q s)))"
  obtain ref created where out: "fst (save_call env q (snd (save env q s))) = Inr (ref, created)"
    and st: "stored env ?t q ref"
    using retry_stored[OF assms] by blast
  obtain r where r: "map_of (ao_records ?t) (sv_run q, ar_artifact_id ref) = Some r"
    using st by (auto simp: stored_def split: option.splits)
  have "map_of (ao_records s) (sv_run q, ar_artifact_id ref) = None \<longrightarrow> rec_content r = sv_content q"
    using retry_adds_only[of q s env] r unfolding adds_only_def by fastforce
  with out st r show ?thesis
    by (intro exI[of _ ref] exI[of _ created] exI[of _ r] exI[of _ ?t]) (simp add: stored_def prod_eq_iff)
qed

text \<open>C15. Once a save has returned a reference, repeating it after any number of other saves
  returns the same reference and creates nothing.\<close>

theorem save_is_idempotent:
  assumes "art_inv env s" "ids_left env (length qs + 2) s" "list_all type_matches_content (q # qs)"
    and "fst (save_call env q s) = Inr (ref, created)"
  shows "fst (save_call env q (fold (\<lambda>p t. snd (save_call env p t)) qs (snd (save_call env q s)))) =
    Inr (ref, False)"
  using artifact_puts.retry_returns_first[of env qs s q ref created] assms
  by (simp add: store_ready_def artifact_puts.puts_def)

text \<open>C18. A key that is bound to other content is rejected and nothing in the bucket changes.\<close>

theorem save_rejects_key_reuse:
  assumes "art_inv env s" "ids_fresh env s" "\<not> key_free_for env q s"
  shows "fst (save_call env q s) = Inl IdempotencyKeyReused \<and>
    ao_records (snd (save_call env q s)) = ao_records s \<and> ao_keys (snd (save_call env q s)) = ao_keys s"
proof -
  have "\<not> stored env (snd (save env q (restart s))) q ref" for ref
    using stored_free[OF save_grows, where env = env and s = "restart s" and q = q and ref = ref] assms(3) by auto
  then have "fst (save env q (restart s)) = Inl IdempotencyKeyReused \<and>
      snd (save env q (restart s)) = minted (restart s)"
    using save_outcome[of env "restart s" q] assms(1,2) by auto
  then show ?thesis by (simp add: save_call_def minted_def)
qed

section \<open>Reads\<close>

lemma get_run:
  "get_artifact run aid (restart s) =
    (case map_of (ao_records s) (run, aid) of
       None \<Rightarrow> (Inl ArtifactNotFound, restart s)
     | Some r \<Rightarrow> (if content_matches_reference (rec_reference r) (rec_content r)
         then Inr (rec_reference r, rec_content r) else Inl RecordInvalid, restart s))"
  by (simp add: get_artifact_def read_record_def read_or_none_def art_tick_def comp_simps
      split: option.split)

text \<open>A read never crosses runs: what get-artifact returns belongs to the run asked for,
  carries the id asked for, and its checksum is that of the content returned.\<close>

theorem get_is_run_scoped:
  assumes "art_inv env s" "fst (get_artifact run aid (restart s)) = Inr (ref, c)"
  shows "ar_story_run_id ref = run \<and> ar_artifact_id ref = aid \<and>
    ar_checksum_sha256 ref = av_checksum env c \<and> content_model_matches (ar_type ref) c"
  using assms record_keyed[OF assms(1), of "(run, aid)"]
  by (auto simp: get_run record_ok_def Let_def content_matches_reference_def
      split: option.splits if_splits)

text \<open>\<open>latest_versions\<close> maps each (type, perspective) present to its greatest version.\<close>

lemma map_of_latest_versions:
  "map_of (latest_versions rs d) k =
     (if \<exists>r \<in> set rs. (ar_type r, ar_perspective r) = k
      then Some (foldr max (map ar_version (filter (\<lambda>r. (ar_type r, ar_perspective r) = k) rs))
        (case map_of d k of None \<Rightarrow> 0 | Some v \<Rightarrow> v))
      else map_of d k)"
proof (induction rs arbitrary: d)
  case Nil
  show ?case by simp
next
  case (Cons r rs)
  show ?case
  proof (cases "(ar_type r, ar_perspective r) = k")
    case True
    then have put: "map_of (dict_put k v d) k = Some v" for v by (simp add: map_of_dict_put)
    have fm: "foldr max vs a = max a (foldr max vs 0)" for vs and a :: nat
      by (induction vs) (simp_all add: max.left_commute max.commute)
    have f0: "foldr max (map ar_version (filter (\<lambda>r. (ar_type r, ar_perspective r) = k) rs)) 0 = 0"
      if "\<not> (\<exists>r \<in> set rs. (ar_type r, ar_perspective r) = k)"
      using that by (simp add: filter_False)
    show ?thesis
      using True put
      by (simp add: Let_def Cons.IH fm[of _ "max _ _"] fm[of _ "case _ of None \<Rightarrow> _ | Some v \<Rightarrow> _ v"]
          f0[simplified] max.assoc max.commute max.left_commute)
  next
    case False
    then have put: "map_of (dict_put (ar_type r, ar_perspective r) v d) k = map_of d k" for v
      by (simp add: map_of_dict_put)
    show ?thesis using False put by (simp add: Let_def Cons.IH)
  qed
qed

definition matching :: "ListArtifactsInput \<Rightarrow> art_state \<Rightarrow> ArtifactReference list" where
  "matching q s = sort_key sort_key_of (filter (list_matches q) (map rec_reference (run_records s (la_run q))))"

lemma list_run:
  "list_artifacts q (restart s) =
    (Inr (map (\<lambda>r. r\<lparr>ar_is_latest :=
             (map_of (latest_versions (matching q s) []) (ar_type r, ar_perspective r) =
              Some (ar_version r))\<rparr>)
           (take (la_limit q) (drop (la_offset q) (matching q s))), length (matching q s)),
     restart s)"
  by (simp add: list_artifacts_def run_references_def art_tick_def comp_simps matching_def Let_def)

lemma set_matching:
  "set (matching q s) = {r \<in> rec_reference ` set (run_records s (la_run q)). list_matches q r}"
  by (auto simp: matching_def)

lemma list_matches_pair:
  "list_matches q r \<Longrightarrow> ar_type r' = ar_type r \<Longrightarrow> ar_perspective r' = ar_perspective r \<Longrightarrow>
   list_matches q r'"
  by (simp add: list_matches_def)

lemma latest_among:
  assumes "r \<in> set rs"
  shows "map_of (latest_versions rs []) (ar_type r, ar_perspective r) = Some (ar_version r) \<longleftrightarrow>
    (\<forall>r' \<in> set rs. ar_type r' = ar_type r \<longrightarrow> ar_perspective r' = ar_perspective r \<longrightarrow>
       ar_version r' \<le> ar_version r)"
proof -
  let ?vs = "map ar_version (filter (\<lambda>r'. (ar_type r', ar_perspective r') =
    (ar_type r, ar_perspective r)) rs)"
  have v: "map_of (latest_versions rs []) (ar_type r, ar_perspective r) = Some (foldr max ?vs 0)"
    using assms by (auto simp: map_of_latest_versions)
  have "ar_version r \<in> set ?vs" using assms by auto
  then have "foldr max ?vs 0 = ar_version r \<longleftrightarrow> (\<forall>v \<in> set ?vs. v \<le> ar_version r)"
    by (rule foldr_max_eq)
  then show ?thesis unfolding v by auto
qed

text \<open>One page of list-artifacts: the total is the number of matching references of the
  run, the page is the requested slice of them in (type, perspective, version) order, and a
  reference is flagged latest exactly when no artifact of its type and perspective in the whole
  run has a greater version.\<close>

theorem list_page_spec:
  assumes "fst (list_artifacts q (restart s)) = Inr (items, n)"
  shows "n = length (filter (list_matches q) (map rec_reference (run_records s (la_run q)))) \<and>
    map (\<lambda>r. r\<lparr>ar_is_latest := False\<rparr>) items =
      map (\<lambda>r. r\<lparr>ar_is_latest := False\<rparr>)
        (take (la_limit q) (drop (la_offset q) (sort_key sort_key_of
          (filter (list_matches q) (map rec_reference (run_records s (la_run q))))))) \<and>
    (\<forall>r \<in> set items. ar_is_latest r \<longleftrightarrow>
       (\<forall>x \<in> rec_reference ` set (run_records s (la_run q)).
          ar_type x = ar_type r \<longrightarrow> ar_perspective x = ar_perspective r \<longrightarrow>
          ar_version x \<le> ar_version r))"
proof -
  let ?m = "matching q s" and ?page = "take (la_limit q) (drop (la_offset q) (matching q s))"
  let ?flag = "\<lambda>r. map_of (latest_versions ?m []) (ar_type r, ar_perspective r) = Some (ar_version r)"
  have items: "items = map (\<lambda>r. r\<lparr>ar_is_latest := ?flag r\<rparr>) ?page" and n: "n = length ?m"
    using assms by (simp_all add: list_run)
  have "ar_is_latest r \<longleftrightarrow> (\<forall>x \<in> rec_reference ` set (run_records s (la_run q)).
      ar_type x = ar_type r \<longrightarrow> ar_perspective x = ar_perspective r \<longrightarrow> ar_version x \<le> ar_version r)"
    if "r \<in> set items" for r
  proof -
    from that items obtain x where x: "x \<in> set ?page" and r: "r = x\<lparr>ar_is_latest := ?flag x\<rparr>"
      by auto
    then have xm: "x \<in> set ?m" by (auto dest: in_set_takeD in_set_dropD)
    then have "list_matches q x" by (simp add: set_matching)
    then have "(\<forall>y \<in> set ?m. ar_type y = ar_type x \<longrightarrow> ar_perspective y = ar_perspective x \<longrightarrow>
        ar_version y \<le> ar_version x) \<longleftrightarrow>
      (\<forall>y \<in> rec_reference ` set (run_records s (la_run q)). ar_type y = ar_type x \<longrightarrow>
        ar_perspective y = ar_perspective x \<longrightarrow> ar_version y \<le> ar_version x)"
      using list_matches_pair[of q x] unfolding set_matching by blast
    then show ?thesis using latest_among[OF xm] r by simp
  qed
  moreover have "map (\<lambda>r. r\<lparr>ar_is_latest := False\<rparr>) items = map (\<lambda>r. r\<lparr>ar_is_latest := False\<rparr>) ?page"
    unfolding items by simp
  ultimately show ?thesis
    unfolding n matching_def by simp
qed

section \<open>Concrete instances\<close>

definition demo_env :: art_env where
  "demo_env = \<lparr>av_uuid = of_nat,
     av_checksum = (\<lambda>c. case c of StoryContent d \<Rightarrow> ss_title d | _ \<Rightarrow> ''other'')\<rparr>"

definition demo_story :: "string \<Rightarrow> StoryDetail" where
  "demo_story title =
     \<lparr>ss_story_id = ''story-01'', ss_title = title, ss_status = ''open'', sd_description = ''d'',
      sd_acceptance_criteria = [], sd_epic_context = ''e'', sd_roadmap_context = ''r'',
      sd_comments = [], sd_context_stories = []\<rparr>"

definition demo_save :: "uuid \<Rightarrow> string \<Rightarrow> SaveArtifactInput" where
  "demo_save key title =
     \<lparr>sv_type = StoryArtifact, sv_run = ''run'', sv_perspective = None,
      sv_content = StoryContent (demo_story title), sv_key = key\<rparr>"

definition demo_bucket :: art_state where
  "demo_bucket = snd (save demo_env (demo_save 7 ''t'') (empty_bucket\<lparr>ao_budget := None, ao_clock := 3\<rparr>))"

lemma demo_matches: "type_matches_content (demo_save k t)"
  by (simp add: demo_save_def type_matches_content_def)

lemma demo_bucket_eq:
  "demo_bucket =
    (let ref = \<lparr>ar_artifact_id = artifact_id_of 0, ar_story_run_id = ''run'', ar_type = StoryArtifact,
       ar_perspective = None, ar_version = 1, ar_created_at = 3, ar_content_type = ApplicationJson,
       ar_checksum_sha256 = ''t'', ar_is_latest = False\<rparr>
     in \<lparr>ao_records = [((''run'', artifact_id_of 0),
           \<lparr>rec_reference = ref, rec_content = StoryContent (demo_story ''t'')\<rparr>)],
         ao_keys = [((''run'', StoryArtifact, 7), artifact_id_of 0)],
         ao_minted = 1, ao_clock = 3, ao_budget = None\<rparr>)"
  by (simp add: demo_bucket_def save_run Let_def target_def claimed_def minted_def recorded_def
      empty_bucket_def key_of_def demo_save_def fresh_id_def demo_env_def made_reference_def
      run_records_def demo_story_def)

lemma demo_reach: "art_reach demo_env demo_bucket"
  unfolding demo_bucket_def by (intro art_reach.intros demo_matches)

lemma demo_fresh: "ids_left demo_env 3 demo_bucket"
proof -
  have "inj_on (of_nat :: nat \<Rightarrow> uuid) {..<4}"
    by (rule of_nat_uuid_inj) simp
  then show ?thesis by (simp add: ids_left_def demo_bucket_eq demo_env_def Let_def)
qed

lemma demo_inv: "art_inv demo_env demo_bucket"
proof (rule art_reach_inv[OF demo_reach])
  show "inj_on (av_uuid demo_env) {..<ao_minted demo_bucket}"
    by (simp add: demo_bucket_eq Let_def lessThan_Suc)
qed

text \<open>Two processes number their records before either writes: both records get version 1.\<close>

lemma racing_writers_share_version:
  "\<exists>s. art_race demo_env s [] \<and> art_versions s ''run'' StoryArtifact None = [1, 1]"
proof -
  let ?q = "demo_save 7 ''t''" and ?p = "demo_save 8 ''u''"
  let ?s = "claimed demo_env ?p (claimed demo_env ?q empty_bucket)"
  let ?r = "\<lambda>q aid. (sv_run q,
    \<lparr>rec_reference = made_reference (?s\<lparr>ao_clock := 0\<rparr>) q aid (av_checksum demo_env (sv_content q)),
     rec_content = sv_content q\<rparr>)"
  let ?t = "snd (write_record (sv_run ?q) (snd (?r ?q ''a'')) (?s\<lparr>ao_budget := None\<rparr>))"
  have "art_race demo_env ?s []" by (intro race_claim race_start)
  then have "art_race demo_env ?s ([?r ?p ''b''] @ ?r ?q ''a'' # [])"
    unfolding append_Cons append_Nil by (intro race_number)
  then have one: "art_race demo_env ?t ([] @ ?r ?p ''b'' # [])"
    using race_write[where us = "[?r ?p ''b'']" and vs = "[]" and b = None and env = demo_env] by simp
  then have "art_race demo_env (snd (write_record (sv_run ?p) (snd (?r ?p ''b'')) (?t\<lparr>ao_budget := None\<rparr>))) []"
    using race_write[OF one] by simp
  moreover have "art_versions (snd (write_record (sv_run ?p) (snd (?r ?p ''b'')) (?t\<lparr>ao_budget := None\<rparr>)))
      ''run'' StoryArtifact None = [1, 1]"
    by (simp add: write_record_def tick_run comp_simps art_versions_def run_records_def made_reference_def
        demo_save_def empty_bucket_def dict_put_absent claimed_def minted_def key_of_def)
  ultimately show ?thesis by blast
qed

theorem artifact_versions_contiguous_witness:
  "art_versions demo_bucket ''run'' StoryArtifact None = [1] \<and>
   distinct (art_versions demo_bucket ''run'' StoryArtifact None)"
proof
  show "art_versions demo_bucket ''run'' StoryArtifact None = [1]"
    by (simp add: demo_bucket_eq Let_def art_versions_def run_records_def)
  show "distinct (art_versions demo_bucket ''run'' StoryArtifact None)"
    using artifact_versions_contiguous[OF demo_reach, of "''run''" StoryArtifact None]
    by (simp add: demo_bucket_eq Let_def lessThan_Suc)
qed

theorem save_retry_after_crash_witness:
  "\<exists>ref created r t.
     save_call demo_env (demo_save 9 ''u'')
       (snd (save demo_env (demo_save 9 ''u'') (demo_bucket\<lparr>ao_budget := Some 2\<rparr>))) = (Inr (ref, created), t) \<and>
     map_of (ao_records t) (''run'', ar_artifact_id ref) = Some r \<and> ar_checksum_sha256 ref = ''u''"
proof -
  have "key_free_for demo_env (demo_save 9 ''u'') (demo_bucket\<lparr>ao_budget := Some 2\<rparr>)"
    by (simp add: key_free_for_def demo_bucket_eq Let_def key_of_def demo_save_def)
  moreover have "ids_left demo_env 2 (demo_bucket\<lparr>ao_budget := Some 2\<rparr>)"
    using ids_left_mono[OF demo_fresh, of 2] by (simp add: ids_left_def)
  moreover have "av_checksum demo_env (sv_content (demo_save 9 ''u'')) = ''u''" "sv_run (demo_save 9 ''u'') = ''run''"
    by (simp_all add: demo_env_def demo_save_def demo_story_def)
  ultimately show ?thesis
    using save_retry_after_crash[of demo_env "demo_bucket\<lparr>ao_budget := Some 2\<rparr>" "demo_save 9 ''u''"]
      demo_inv demo_matches by (metis art_inv_frame(1))
qed

theorem save_is_idempotent_witness:
  "\<exists>ref. fst (save_call demo_env (demo_save 7 ''t'')
     (snd (save_call demo_env (demo_save 8 ''v'') (snd (save_call demo_env (demo_save 7 ''t'') demo_bucket)))))
     = Inr (ref, False)"
proof -
  have "stored demo_env demo_bucket (demo_save 7 ''t'')
      (rec_reference (snd (hd (ao_records demo_bucket))))"
    by (simp add: stored_def demo_bucket_eq Let_def key_of_def demo_save_def demo_env_def demo_story_def)
  then have "fst (save_call demo_env (demo_save 7 ''t'') demo_bucket) =
      Inr (rec_reference (snd (hd (ao_records demo_bucket))), False)"
    by (simp add: save_call_def save_replays)
  from save_is_idempotent[OF demo_inv _ _ this, of "[demo_save 8 ''v'']"] show ?thesis
    using demo_fresh demo_matches by (simp add: numeral_3_eq_3)
qed

theorem save_rejects_key_reuse_witness:
  "fst (save_call demo_env (demo_save 7 ''changed'') demo_bucket) = Inl IdempotencyKeyReused"
proof -
  have "\<not> key_free_for demo_env (demo_save 7 ''changed'') demo_bucket"
    by (simp add: key_free_for_def demo_bucket_eq Let_def key_of_def demo_save_def demo_env_def
        demo_story_def)
  then show ?thesis
    using save_rejects_key_reuse[OF demo_inv] ids_left_mono[OF demo_fresh, of 1] by simp
qed

theorem get_is_run_scoped_witness:
  "ar_story_run_id (rec_reference (snd (hd (ao_records demo_bucket)))) = ''run''"
proof -
  have "fst (get_artifact ''run'' (artifact_id_of 0) (restart demo_bucket)) =
      Inr (rec_reference (snd (hd (ao_records demo_bucket))), StoryContent (demo_story ''t''))"
    by (simp add: get_run demo_bucket_eq Let_def content_matches_reference_def)
  from get_is_run_scoped[OF demo_inv this] show ?thesis by simp
qed

theorem list_page_spec_witness:
  "\<exists>items. fst (list_artifacts \<lparr>la_run = ''run'', la_type = None, la_perspective = None,
     la_limit = 100, la_offset = 0\<rparr> (restart demo_bucket)) = Inr (items, 1) \<and>
   map ar_is_latest items = [True]"
proof -
  let ?q = "\<lparr>la_run = ''run'', la_type = None, la_perspective = None, la_limit = 100, la_offset = 0\<rparr>"
  obtain items n where r: "fst (list_artifacts ?q (restart demo_bucket)) = Inr (items, n)"
    by (simp add: list_run)
  have recs: "run_records demo_bucket ''run'' = [snd (hd (ao_records demo_bucket))]"
    by (simp add: demo_bucket_eq Let_def run_records_def)
  have "n = 1" "length items = 1" "\<forall>r \<in> set items. ar_is_latest r"
  proof -
    note spec = list_page_spec[OF r, simplified]
    show "n = 1" using spec by (simp add: recs list_matches_def)
    have "map (\<lambda>r. r\<lparr>ar_is_latest := False\<rparr>) items =
        [(rec_reference (snd (hd (ao_records demo_bucket))))\<lparr>ar_is_latest := False\<rparr>]"
      using spec by (simp add: recs list_matches_def)
    then obtain x where x: "items = [x]"
      "x\<lparr>ar_is_latest := False\<rparr> = (rec_reference (snd (hd (ao_records demo_bucket))))\<lparr>ar_is_latest := False\<rparr>"
      by auto
    then have "ar_version x = ar_version (rec_reference (snd (hd (ao_records demo_bucket))))"
      by (metis ArtifactReference.select_convs(5) ArtifactReference.surjective
          ArtifactReference.update_convs(9))
    with x spec show "length items = 1" "\<forall>r \<in> set items. ar_is_latest r"
      by (simp_all add: recs)
  qed
  with r show ?thesis by (auto simp: length_Suc_conv)
qed

end
