(* ===== verification/Prog.thy ===== *)
theory Prog
  imports Prelude
begin

text \<open>
  Request handlers as programs of atomic actions. \<open>Act f\<close> is one atomic access to the shared
  state (one SQL statement or transaction, one downstream call); between two actions other
  handlers may run, and a process that dies simply never performs its remaining actions.
  \<open>run\<close> executes a program alone; \<open>visits\<close> lists the states a crash could leave behind;
  \<open>obeys\<close> is the rely-guarantee judgement used for interleaved execution.
\<close>

datatype ('s, 'e, 'a) prog = Ret 'a | Raise 'e | Act "'s \<Rightarrow> ('s, 'e, 'a) prog \<times> 's"

named_theorems run_simps \<open>running a program alone\<close>

section \<open>Combinators\<close>

primrec chain :: "('s, 'e, 'a) prog \<Rightarrow> ('a \<Rightarrow> ('s, 'e, 'b) prog) \<Rightarrow> ('s, 'e, 'b) prog" where
  "chain (Ret x) k = k x"
| "chain (Raise e) k = Raise e"
| "chain (Act f) k = Act (\<lambda>s. map_prod (\<lambda>p. chain p k) id (f s))"

text \<open>\<open>try: p except e: h(e)\<close> and \<open>try: p finally: q\<close>.\<close>

primrec rescue :: "('s, 'e, 'a) prog \<Rightarrow> ('e \<Rightarrow> ('s, 'e, 'a) prog) \<Rightarrow> ('s, 'e, 'a) prog" where
  "rescue (Ret x) h = Ret x"
| "rescue (Raise e) h = h e"
| "rescue (Act f) h = Act (\<lambda>s. map_prod (\<lambda>p. rescue p h) id (f s))"

primrec ensure :: "('s, 'e, 'a) prog \<Rightarrow> ('s, 'e, unit) prog \<Rightarrow> ('s, 'e, 'a) prog" where
  "ensure (Ret x) q = chain q (\<lambda>_. Ret x)"
| "ensure (Raise e) q = chain q (\<lambda>_. Raise e)"
| "ensure (Act f) q = Act (\<lambda>s. map_prod (\<lambda>p. ensure p q) id (f s))"

text \<open>An atomic computation as a program; a transaction undoes its writes when it raises.\<close>

definition perform :: "('s, 'e, 'a) comp \<Rightarrow> ('s, 'e, 'a) prog" where
  "perform m = Act (\<lambda>s. case m s of (Inl e, t) \<Rightarrow> (Raise e, t) | (Inr x, t) \<Rightarrow> (Ret x, t))"

definition transaction :: "('s, 'e, 'a) comp \<Rightarrow> ('s, 'e, 'a) prog" where
  "transaction m = perform (\<lambda>s. case m s of (Inl e, _) \<Rightarrow> (Inl e, s) | (Inr x, t) \<Rightarrow> (Inr x, t))"

definition demand :: "bool \<Rightarrow> 'e \<Rightarrow> ('s, 'e, unit) prog" where
  "demand b e = (if b then Ret () else Raise e)"

fun each :: "'a list \<Rightarrow> ('a \<Rightarrow> ('s, 'e, 'b) prog) \<Rightarrow> ('s, 'e, 'b list) prog" where
  "each [] f = Ret []"
| "each (x # xs) f = chain (f x) (\<lambda>y. chain (each xs f) (\<lambda>ys. Ret (y # ys)))"

section \<open>Running alone\<close>

primrec run :: "('s, 'e, 'a) prog \<Rightarrow> 's \<Rightarrow> ('e + 'a) \<times> 's" where
  "run (Ret x) = (\<lambda>s. (Inr x, s))"
| "run (Raise e) = (\<lambda>s. (Inl e, s))"
| "run (Act f) = (\<lambda>s. case map_prod run id (f s) of (g, t) \<Rightarrow> g t)"

lemma run_Ret [run_simps]: "run (Ret x) s = (Inr x, s)"
  and run_Raise [run_simps]: "run (Raise e) s = (Inl e, s)"
  by simp_all

lemma run_perform [run_simps]: "run (perform m) s = m s"
  by (simp add: perform_def split: prod.split sum.split)

lemma run_transaction [run_simps]:
  "run (transaction m) s = (case m s of (Inl e, _) \<Rightarrow> (Inl e, s) | (Inr x, t) \<Rightarrow> (Inr x, t))"
  by (simp add: transaction_def run_perform)

lemma run_chain [run_simps]:
  "run (chain p k) s = (case run p s of (Inl e, t) \<Rightarrow> (Inl e, t) | (Inr x, t) \<Rightarrow> run (k x) t)"
proof (induction p arbitrary: s)
  case (Act f)
  obtain p t where ft: "f s = (p, t)" by (cases "f s") auto
  then have "p \<in> Basic_BNFs.fsts (f s)" by (simp add: prod_set_defs)
  then have "run (chain p k) t = (case run p t of (Inl e, u) \<Rightarrow> (Inl e, u) | (Inr x, u) \<Rightarrow> run (k x) u)"
    by (rule Act.IH[OF rangeI])
  with ft show ?case by simp
qed simp_all

lemma run_rescue [run_simps]:
  "run (rescue p h) s = (case run p s of (Inl e, t) \<Rightarrow> run (h e) t | (Inr x, t) \<Rightarrow> (Inr x, t))"
proof (induction p arbitrary: s)
  case (Act f)
  obtain p t where ft: "f s = (p, t)" by (cases "f s") auto
  then have "p \<in> Basic_BNFs.fsts (f s)" by (simp add: prod_set_defs)
  then have "run (rescue p h) t = (case run p t of (Inl e, u) \<Rightarrow> run (h e) u | (Inr x, u) \<Rightarrow> (Inr x, u))"
    by (rule Act.IH[OF rangeI])
  with ft show ?case by simp
qed simp_all

lemma run_ensure [run_simps]:
  "run (ensure p q) s =
    (case run p s of (r, t) \<Rightarrow> case run q t of (Inl e, u) \<Rightarrow> (Inl e, u) | (Inr _, u) \<Rightarrow> (r, u))"
proof (induction p arbitrary: s)
  case (Act f)
  obtain p t where ft: "f s = (p, t)" by (cases "f s") auto
  then have "p \<in> Basic_BNFs.fsts (f s)" by (simp add: prod_set_defs)
  then have "run (ensure p q) t = (case run p t of (r, u) \<Rightarrow>
      case run q u of (Inl e, v) \<Rightarrow> (Inl e, v) | (Inr _, v) \<Rightarrow> (r, v))"
    by (rule Act.IH[OF rangeI])
  with ft show ?case by simp
qed (simp_all add: run_chain split: prod.split sum.split)

lemma run_demand [run_simps]: "run (demand b e) s = (if b then (Inr (), s) else (Inl e, s))"
  by (simp add: demand_def)

section \<open>Where a crash can stop a program\<close>

primrec visits :: "('s, 'e, 'a) prog \<Rightarrow> 's \<Rightarrow> 's list" where
  "visits (Ret x) = (\<lambda>s. [s])"
| "visits (Raise e) = (\<lambda>s. [s])"
| "visits (Act f) = (\<lambda>s. s # (case map_prod visits id (f s) of (g, t) \<Rightarrow> g t))"

lemma visits_last: "last (visits p s) = snd (run p s)"
proof (induction p arbitrary: s)
  case (Act f)
  obtain p t where ft: "f s = (p, t)" by (cases "f s") auto
  then have "p \<in> Basic_BNFs.fsts (f s)" by (simp add: prod_set_defs)
  then have "last (visits p t) = snd (run p t)"
    by (rule Act.IH[OF rangeI])
  moreover have "visits p t \<noteq> []" by (cases p) simp_all
  ultimately show ?case using ft by simp
qed simp_all

text \<open>Every state a lone, possibly crashing run goes through satisfies \<open>P\<close>.\<close>

primrec always :: "('s \<Rightarrow> bool) \<Rightarrow> ('s, 'e, 'a) prog \<Rightarrow> 's \<Rightarrow> bool" where
  "always P (Ret x) = (\<lambda>s. P s)"
| "always P (Raise e) = (\<lambda>s. P s)"
| "always P (Act f) = (\<lambda>s. P s \<and> (case map_prod (always P) id (f s) of (g, t) \<Rightarrow> g t))"

lemma always_visits: "always P p s \<longleftrightarrow> (\<forall>t \<in> set (visits p s). P t)"
proof (induction p arbitrary: s)
  case (Act f)
  obtain p t where ft: "f s = (p, t)" by (cases "f s") auto
  then have "p \<in> Basic_BNFs.fsts (f s)" by (simp add: prod_set_defs)
  then have "always P p t \<longleftrightarrow> (\<forall>u \<in> set (visits p t). P u)"
    by (rule Act.IH[OF rangeI])
  with ft show ?case by simp
qed simp_all

lemma always_start: "always P p s \<Longrightarrow> P s"
  by (cases p) simp_all

lemma always_end: "always P p s \<Longrightarrow> P (snd (run p s))"
  using always_visits[of P p s] visits_last[of p s]
  by (metis last_in_set list.distinct(1) list.set_cases prog.exhaust visits.simps)

lemma always_chain:
  assumes "always P p s" "\<And>x t. run p s = (Inr x, t) \<Longrightarrow> always P (k x) t"
  shows "always P (chain p k) s"
  using assms
proof (induction p arbitrary: s)
  case (Act f)
  obtain p t where ft: "f s = (p, t)" by (cases "f s") auto
  then have mem: "p \<in> Basic_BNFs.fsts (f s)" by (simp add: prod_set_defs)
  have "always P (chain p k) t"
    by (rule Act.IH[OF rangeI mem]) (use Act.prems ft in auto)
  with ft Act.prems show ?case by simp
qed simp_all

lemma always_rescue:
  assumes "always P p s" "\<And>e t. run p s = (Inl e, t) \<Longrightarrow> always P (h e) t"
  shows "always P (rescue p h) s"
  using assms
proof (induction p arbitrary: s)
  case (Act f)
  obtain p t where ft: "f s = (p, t)" by (cases "f s") auto
  then have mem: "p \<in> Basic_BNFs.fsts (f s)" by (simp add: prod_set_defs)
  have "always P (rescue p h) t"
    by (rule Act.IH[OF rangeI mem]) (use Act.prems ft in auto)
  with ft Act.prems show ?case by simp
qed simp_all


lemma always_ensure:
  assumes "always P p s" "\<And>r t. run p s = (r, t) \<Longrightarrow> always P q t"
  shows "always P (ensure p q) s"
  using assms
proof (induction p arbitrary: s)
  case (Ret x)
  then show ?case by (auto intro!: always_chain dest: always_end)
next
  case (Raise e)
  then show ?case by (auto intro!: always_chain dest: always_end)
next
  case (Act f)
  obtain p t where ft: "f s = (p, t)" by (cases "f s") auto
  then have mem: "p \<in> Basic_BNFs.fsts (f s)" by (simp add: prod_set_defs)
  have "always P (ensure p q) t"
    by (rule Act.IH[OF rangeI mem]) (use Act.prems ft in auto)
  with ft Act.prems show ?case by simp
qed

lemma always_perform: "P s \<Longrightarrow> P (snd (m s)) \<Longrightarrow> always P (perform m) s"
  by (cases "m s") (auto simp: perform_def split: sum.split)

lemma always_transaction:
  "P s \<Longrightarrow> (\<And>x t. m s = (Inr x, t) \<Longrightarrow> P t) \<Longrightarrow> always P (transaction m) s"
  unfolding transaction_def by (rule always_perform) (auto split: prod.split sum.split)

lemma always_demand: "P s \<Longrightarrow> always P (demand b e) s"
  by (simp add: demand_def)

lemma always_each:
  assumes "P s" "\<And>x t. x \<in> set xs \<Longrightarrow> P t \<Longrightarrow> always P (f x) t"
  shows "always P (each xs f) s"
  using assms
proof (induction xs arbitrary: s)
  case (Cons x xs)
  show ?case
    unfolding each.simps
  proof (intro always_chain)
    show "always P (f x) s" using Cons.prems by simp
    fix y t
    assume "run (f x) s = (Inr y, t)"
    with always_end[OF \<open>always P (f x) s\<close>] have "P t" by simp
    then show "always P (each xs f) t" using Cons.IH[of t] Cons.prems(2) by simp
    fix ys u
    assume "run (each xs f) t = (Inr ys, u)"
    with always_end[OF \<open>always P (each xs f) t\<close>] show "always P (Ret (y # ys)) u" by simp
  qed
qed simp

section \<open>Interleaved execution\<close>

text \<open>
  \<open>obeys R post pre p\<close>: every action of \<open>p\<close> changes the state within \<open>R\<close> while everybody else
  may change it within \<open>R\<close> between any two actions; \<open>p\<close> starts in a state in \<open>pre\<close> and, if it
  returns a value, the value and the state then satisfy \<open>post\<close>.
\<close>

inductive obeys ::
    "('s \<Rightarrow> 's \<Rightarrow> bool) \<Rightarrow> ('a \<Rightarrow> 's \<Rightarrow> bool) \<Rightarrow> ('s \<Rightarrow> bool) \<Rightarrow> ('s, 'e, 'a) prog \<Rightarrow> bool"
  for R post where
  obeys_Ret: "(\<And>s. pre s \<Longrightarrow> post x s) \<Longrightarrow> obeys R post pre (Ret x)"
| obeys_Raise: "obeys R post pre (Raise e)"
| obeys_Act:
    "(\<And>s. pre s \<Longrightarrow> R s (snd (f s)) \<and> obeys R post (R (snd (f s))) (fst (f s))) \<Longrightarrow>
     obeys R post pre (Act f)"

inductive_cases obeys_ActE: "obeys R post pre (Act f)"

lemma obeys_weaken:
  "obeys R post pre p \<Longrightarrow> (\<And>s. pre' s \<Longrightarrow> pre s) \<Longrightarrow> (\<And>x s. post x s \<Longrightarrow> post' x s) \<Longrightarrow>
   obeys R post' pre' p"
proof (induction arbitrary: pre' rule: obeys.induct)
  case (obeys_Act pre f)
  show ?case
    by (rule obeys.obeys_Act) (use obeys_Act in blast)
qed (auto intro: obeys.intros)

lemma obeys_step:
  "obeys R post pre (Act f) \<Longrightarrow> pre s \<Longrightarrow>
   R s (snd (f s)) \<and> obeys R post (R (snd (f s))) (fst (f s))"
  by (auto elim: obeys_ActE)

lemma obeys_chain:
  assumes "obeys R mid pre p" "\<And>x. obeys R post (mid x) (k x)"
  shows "obeys R post pre (chain p k)"
  using assms(1)
proof (induction rule: obeys.induct)
  case (obeys_Ret pre x)
  then show ?case using obeys_weaken[OF assms(2)] by simp
next
  case (obeys_Act pre f)
  then show ?case
    by (auto intro!: obeys.obeys_Act simp: map_prod_def split: prod.split) fastforce+
qed (auto intro: obeys.intros)

definition closed_under :: "('s \<Rightarrow> 's \<Rightarrow> bool) \<Rightarrow> ('s \<Rightarrow> bool) \<Rightarrow> bool" where
  "closed_under R C = (\<forall>s t. C s \<longrightarrow> R s t \<longrightarrow> C t)"

lemma obeys_rescue:
  assumes "obeys R post pre p" "closed_under R C" "\<And>s. pre s \<Longrightarrow> C s"
    "\<And>e. obeys R post C (h e)"
  shows "obeys R post pre (rescue p h)"
  using assms(1,3)
proof (induction rule: obeys.induct)
  case (obeys_Raise pre e)
  then show ?case using obeys_weaken[OF assms(4)] by simp
next
  case (obeys_Act pre f)
  have "obeys R post (R (snd (f s))) (rescue (fst (f s)) h)" if "pre s" for s
  proof -
    have "R s (snd (f s))" using obeys_Act.IH[OF that] by simp
    then have "C u" if "R (snd (f s)) u" for u
      using assms(2) obeys_Act.prems[OF \<open>pre s\<close>] that unfolding closed_under_def by metis
    then show ?thesis using obeys_Act.IH[OF that] by simp
  qed
  then show ?case
    using obeys_Act by (auto intro!: obeys.obeys_Act simp: map_prod_def split: prod.split) fastforce+
qed (auto intro: obeys.intros)

lemma obeys_ensure:
  assumes "obeys R post pre p" "closed_under R C" "\<And>s. pre s \<Longrightarrow> C s"
    "obeys R (\<lambda>_. C) C q"
  shows "obeys R (\<lambda>_. C) pre (ensure p q)"
  using assms(1,3)
proof (induction rule: obeys.induct)
  case (obeys_Ret pre x)
  have "obeys R (\<lambda>_. C) pre q"
    by (rule obeys_weaken[OF assms(4)]) (simp_all add: obeys_Ret)
  then show ?case
    unfolding ensure.simps by (rule obeys_chain) (rule obeys.obeys_Ret, simp)
next
  case (obeys_Raise pre e)
  have "obeys R (\<lambda>_. C) pre q"
    by (rule obeys_weaken[OF assms(4)]) (simp_all add: obeys_Raise)
  then show ?case
    unfolding ensure.simps by (rule obeys_chain) (rule obeys.obeys_Raise)
next
  case (obeys_Act pre f)
  have "obeys R (\<lambda>_. C) (R (snd (f s))) (ensure (fst (f s)) q)" if "pre s" for s
  proof -
    have "R s (snd (f s))" using obeys_Act.IH[OF that] by simp
    then have "C u" if "R (snd (f s)) u" for u
      using assms(2) obeys_Act.prems[OF \<open>pre s\<close>] that unfolding closed_under_def by metis
    then show ?thesis using obeys_Act.IH[OF that] by simp
  qed
  then show ?case
    using obeys_Act by (auto intro!: obeys.obeys_Act simp: map_prod_def split: prod.split) fastforce+
qed

lemma obeys_perform:
  assumes "\<And>s. pre s \<Longrightarrow> R s (snd (m s))"
    "\<And>s x t. pre s \<Longrightarrow> fst (m s) = Inr x \<Longrightarrow> R (snd (m s)) t \<Longrightarrow> post x t"
  shows "obeys R post pre (perform m)"
  unfolding perform_def
  using assms by (auto intro!: obeys.intros split: prod.split sum.split) fastforce+

lemma obeys_demand:
  "(\<And>s. b \<Longrightarrow> pre s \<Longrightarrow> post () s) \<Longrightarrow> obeys R post pre (demand b e)"
  by (cases b) (auto simp: demand_def intro: obeys.intros)

text \<open>
  A pool of running handlers over one shared state: any of them may perform its next action,
  a new request may arrive at any moment, and the environment may act within \<open>R\<close>.
\<close>

inductive pool_step ::
    "('s \<Rightarrow> 's \<Rightarrow> bool) \<Rightarrow> ('s, 'e, 'a) prog set \<Rightarrow> ('s, 'e, 'a) prog list \<times> 's \<Rightarrow>
     ('s, 'e, 'a) prog list \<times> 's \<Rightarrow> bool"
  for env requests where
  pool_arrive: "p \<in> requests \<Longrightarrow> pool_step env requests (ps, s) (p # ps, s)"
| pool_act: "i < length ps \<Longrightarrow> ps ! i = Act f \<Longrightarrow> f s = (p, t) \<Longrightarrow>
    pool_step env requests (ps, s) (ps[i := p], t)"
| pool_env: "env s t \<Longrightarrow> pool_step env requests (ps, s) (ps, t)"

inductive pool_reach ::
    "('s \<Rightarrow> 's \<Rightarrow> bool) \<Rightarrow> ('s, 'e, 'a) prog set \<Rightarrow> 's \<Rightarrow> ('s, 'e, 'a) prog list \<times> 's \<Rightarrow> bool"
  for env requests s0 where
  pool_init: "pool_reach env requests s0 ([], s0)"
| pool_next: "pool_reach env requests s0 c \<Longrightarrow> pool_step env requests c d \<Longrightarrow> pool_reach env requests s0 d"

locale interleaving =
  fixes R :: "'s \<Rightarrow> 's \<Rightarrow> bool"
    and start :: "'s \<Rightarrow> bool"
    and env :: "'s \<Rightarrow> 's \<Rightarrow> bool"
    and requests :: "('s, 'e, 'a) prog set"
  assumes R_refl: "R s s"
    and R_trans: "R s t \<Longrightarrow> R t u \<Longrightarrow> R s u"
    and start_closed: "start s \<Longrightarrow> R s t \<Longrightarrow> start t"
    and env_R: "start s \<Longrightarrow> env s t \<Longrightarrow> R s t"
    and requests_obey: "p \<in> requests \<Longrightarrow> obeys R (\<lambda>_ _. True) start p"
begin

lemma pool_invariant:
  "pool_reach env requests s0 c \<Longrightarrow> start s0 \<Longrightarrow>
   R s0 (snd c) \<and> start (snd c) \<and> (\<forall>p \<in> set (fst c). obeys R (\<lambda>_ _. True) (R (snd c)) p)"
proof (induction rule: pool_reach.induct)
  case pool_init
  then show ?case by (simp add: R_refl)
next
  case (pool_next c d)
  then have IH: "R s0 (snd c)" "start (snd c)"
    "\<And>p. p \<in> set (fst c) \<Longrightarrow> obeys R (\<lambda>_ _. True) (R (snd c)) p" by auto
  have later: "obeys R (\<lambda>_ _. True) (R t) p"
    if "R (snd c) t" "obeys R (\<lambda>_ _. True) (R (snd c)) p" for t p
    by (rule obeys_weaken[OF that(2)]) (use that(1) R_trans in blast)+
  from pool_next.hyps(2) show ?case
  proof cases
    case (pool_arrive p ps s)
    have "obeys R (\<lambda>_ _. True) (R s) p"
      by (rule obeys_weaken[OF requests_obey[OF pool_arrive(3)]])
         (use IH(2) pool_arrive start_closed in auto)
    then show ?thesis using IH pool_arrive by auto
  next
    case (pool_act i ps f s p t)
    have "obeys R (\<lambda>_ _. True) (R s) (Act f)"
      using IH(3)[of "ps ! i"] pool_act nth_mem[of i ps] by auto
    from obeys_step[OF this R_refl] pool_act have st: "R s t" "obeys R (\<lambda>_ _. True) (R t) p"
      by simp_all
    have "R s0 t" using R_trans IH(1) st(1) pool_act by simp
    moreover have "start t" using start_closed IH(2) st(1) pool_act by simp
    moreover have "obeys R (\<lambda>_ _. True) (R t) q" if "q \<in> set (ps[i := p])" for q
    proof -
      have "q = p \<or> q \<in> set ps" using that set_update_subset_insert by fastforce
      then show ?thesis using st IH(3) later pool_act by auto
    qed
    ultimately show ?thesis using pool_act by simp
  next
    case (pool_env s t ps)
    then have st: "R s t" using env_R IH(2) by simp
    have "obeys R (\<lambda>_ _. True) (R t) p" if "p \<in> set ps" for p
      using later[of t p] IH(3)[of p] st pool_env that by simp
    moreover have "R s0 t" using R_trans IH(1) st pool_env by simp
    moreover have "start t" using start_closed IH(2) st pool_env by simp
    ultimately show ?thesis using pool_env by simp
  qed
qed

lemma pool_evolves: "pool_reach env requests s0 c \<Longrightarrow> start s0 \<Longrightarrow> R s0 (snd c)"
  using pool_invariant by blast

end

end
