(* ===== verification/Frames.thy ===== *)
theory Frames
  imports Prog
begin

text \<open>
  Programs all of whose atomic actions stay inside one relation, whatever the others do between
  them: \<open>inside C R p\<close>. It is the rely-guarantee judgement of \<open>Prog\<close> without pre- and
  postcondition, so it composes along every combinator without side conditions; the collection
  \<open>inside_intros\<close> proves it for a whole handler from the facts about its actions. What it gives:
  a lone run, stopped anywhere, has moved along \<open>R\<close>, and a handler may join any pool whose
  relation is \<open>R\<close>.
\<close>

named_theorems inside_intros \<open>introduction rules for inside\<close>

definition inside :: "('s \<Rightarrow> bool) \<Rightarrow> ('s \<Rightarrow> 's \<Rightarrow> bool) \<Rightarrow> ('s, 'e, 'a) prog \<Rightarrow> bool" where
  "inside C R p = (closed_under R C \<longrightarrow> obeys R (\<lambda>_. C) C p)"

section \<open>Rules\<close>

lemma inside_Ret [inside_intros]: "inside C R (Ret x)"
  by (simp add: inside_def obeys_Ret)

lemma inside_Raise [inside_intros]: "inside C R (Raise e)"
  by (simp add: inside_def obeys_Raise)

lemma inside_chain [inside_intros]:
  "inside C R p \<Longrightarrow> (\<And>x. inside C R (k x)) \<Longrightarrow> inside C R (chain p k)"
  unfolding inside_def by (auto intro: obeys_chain)

lemma inside_chain_pair [inside_intros]:
  "inside C R p \<Longrightarrow> (\<And>x y. inside C R (k x y)) \<Longrightarrow> inside C R (chain p (\<lambda>(x, y). k x y))"
  by (rule inside_chain) (auto split: prod.split)

lemma inside_chain_triple [inside_intros]:
  "inside C R p \<Longrightarrow> (\<And>x y z. inside C R (k x y z)) \<Longrightarrow> inside C R (chain p (\<lambda>(x, y, z). k x y z))"
  by (rule inside_chain) (auto split: prod.split)

lemma inside_rescue [inside_intros]:
  "inside C R p \<Longrightarrow> (\<And>e. inside C R (h e)) \<Longrightarrow> inside C R (rescue p h)"
  unfolding inside_def by (auto intro: obeys_rescue)

lemma inside_ensure [inside_intros]: "inside C R p \<Longrightarrow> inside C R q \<Longrightarrow> inside C R (ensure p q)"
  unfolding inside_def by (auto intro: obeys_ensure)

lemma inside_perform: "(\<And>s. C s \<Longrightarrow> R s (snd (m s))) \<Longrightarrow> inside C R (perform m)"
  unfolding inside_def closed_under_def by (blast intro: obeys_perform)

lemma inside_transaction:
  assumes "\<And>s. R s s" "\<And>s x t. C s \<Longrightarrow> m s = (Inr x, t) \<Longrightarrow> R s t"
  shows "inside C R (transaction m)"
  unfolding transaction_def
  by (rule inside_perform) (auto split: prod.split sum.split simp: assms)

lemma inside_demand [inside_intros]: "inside C R (demand b e)"
  by (simp add: demand_def inside_Ret inside_Raise)

lemma inside_each [inside_intros]: "(\<And>x. inside C R (f x)) \<Longrightarrow> inside C R (each xs f)"
  by (induction xs) (auto intro: inside_intros)

lemma inside_if [inside_intros]:
  "(b \<Longrightarrow> inside C R p) \<Longrightarrow> (\<not> b \<Longrightarrow> inside C R q) \<Longrightarrow> inside C R (if b then p else q)"
  by simp

lemma inside_option [inside_intros]:
  "(x = None \<Longrightarrow> inside C R p) \<Longrightarrow> (\<And>y. x = Some y \<Longrightarrow> inside C R (q y)) \<Longrightarrow>
   inside C R (case x of None \<Rightarrow> p | Some y \<Rightarrow> q y)"
  by (cases x) simp_all

lemma inside_sum [inside_intros]:
  "(\<And>y. x = Inl y \<Longrightarrow> inside C R (p y)) \<Longrightarrow> (\<And>y. x = Inr y \<Longrightarrow> inside C R (q y)) \<Longrightarrow>
   inside C R (case x of Inl y \<Rightarrow> p y | Inr y \<Rightarrow> q y)"
  by (cases x) simp_all

lemma inside_prod [inside_intros]:
  "(\<And>y z. x = (y, z) \<Longrightarrow> inside C R (p y z)) \<Longrightarrow> inside C R (case x of (y, z) \<Rightarrow> p y z)"
  by (cases x) simp

lemma inside_gets: "(\<And>s. R s s) \<Longrightarrow> inside C R (perform (gets f))"
  by (rule inside_perform) (simp add: comp_simps)


section \<open>What it gives\<close>

lemma inside_obeys:
  "inside C R p \<Longrightarrow> closed_under R C \<Longrightarrow> obeys R (\<lambda>_ _. True) C p"
  unfolding inside_def by (auto intro: obeys_weaken)

lemma obeys_always:
  assumes "obeys R post pre p" "pre s" "\<And>s. R s s" "\<And>s t u. R s t \<Longrightarrow> R t u \<Longrightarrow> R s u"
  shows "always (R s) p s"
  using assms(1,2)
proof (induction arbitrary: s rule: obeys.induct)
  case (obeys_Act pre f)
  then have act: "R s (snd (f s))" "always (R (snd (f s))) (fst (f s)) (snd (f s))"
    using assms(3) by blast+
  have "always (R s) (fst (f s)) (snd (f s))"
    using act by (auto simp: always_visits intro: assms(4))
  then show ?case by (simp add: assms(3) case_prod_beta)
qed (simp_all add: assms(3))

lemma inside_always:
  "inside C R p \<Longrightarrow> closed_under R C \<Longrightarrow> C s \<Longrightarrow> (\<And>s. R s s) \<Longrightarrow>
   (\<And>s t u. R s t \<Longrightarrow> R t u \<Longrightarrow> R s u) \<Longrightarrow> always (R s) p s"
  by (rule obeys_always[OF inside_obeys])

lemma inside_run:
  "inside C R p \<Longrightarrow> closed_under R C \<Longrightarrow> C s \<Longrightarrow> (\<And>s. R s s) \<Longrightarrow>
   (\<And>s t u. R s t \<Longrightarrow> R t u \<Longrightarrow> R s u) \<Longrightarrow> R s (snd (run p s))"
  by (rule always_end, rule inside_always)

end
