(* ===== verification/Api_Models.thy ===== *)
theory Api_Models
  imports Turn_Rules Ids
begin

text \<open>
  The HTTP request and response models (\<open>review_schemas/api.py\<close>), the exceptions of the
  orchestration (\<open>errors.py\<close>, \<open>api_errors.py\<close>, the client failures) and the mappings from
  downstream failures to API errors (\<open>flows.py\<close>, \<open>turns_flow.py\<close>). Correlation ids are UUIDs.
\<close>

section \<open>Requests and responses\<close>

record CreateSessionRequest =
  cq_story_id :: string
  cq_formats :: "report_format list"

definition valid_CreateSessionRequest :: "CreateSessionRequest \<Rightarrow> bool" where
  "valid_CreateSessionRequest q =
     (StoryId (cq_story_id q) \<and> 1 \<le> length (cq_formats q) \<and> length (cq_formats q) \<le> 2 \<and>
      distinct (cq_formats q))"

record TurnRequest =
  tq_message :: "string option"
  tq_po_accepted :: bool

definition valid_TurnRequest :: "TurnRequest \<Rightarrow> bool" where
  "valid_TurnRequest q =
     (opt_ok text_ok (tq_message q) \<and> \<not> (tq_po_accepted q = (tq_message q \<noteq> None)))"

record ReportDownload =
  rl_reference :: ArtifactReference
  rl_format :: report_format
  rl_signed_url :: string
  rl_expires_at :: instant

definition valid_ReportDownload :: "ReportDownload \<Rightarrow> bool" where
  "valid_ReportDownload d =
     (HttpsUrl (rl_signed_url d) \<and> ar_type (rl_reference d) = report_type (rl_format d))"

record CreateSessionResponse =
  cr_session_id :: string
  cr_story_run_id :: string
  cr_facilitator_reply :: string
  cr_issues :: "string list"
  cr_delegation :: DelegationDecision
  cr_synthesis :: ArtifactReference
  cr_artifact_references :: "ArtifactReference list"

definition valid_CreateSessionResponse :: "CreateSessionResponse \<Rightarrow> bool" where
  "valid_CreateSessionResponse r =
     (SessionId (cr_session_id r) \<and> RunId (cr_story_run_id r) \<and> text_ok (cr_facilitator_reply r) \<and>
      list_all text_ok (cr_issues r) \<and> length (cr_issues r) \<le> 100 \<and>
      length (cr_artifact_references r) \<le> 20 \<and>
      dd_invoke (cr_delegation r) = InvokeNone \<and>
      cr_issues r = dd_open_issues (cr_delegation r) \<and>
      ar_type (cr_synthesis r) = SynthesisArtifact)"

fun expected_state :: "turn_outcome \<Rightarrow> session_state" where
  "expected_state Continue = Active"
| "expected_state Park = Parked"
| "expected_state Finalize = Completed"

record CanonicalTurnResult =
  ct_session_id :: string
  ct_turn_number :: nat
  ct_outcome :: turn_outcome
  ct_state :: session_state
  ct_facilitator_reply :: "string option"
  ct_rationale_reply :: "string option"
  ct_issues :: "string list"
  ct_delegation :: "DelegationDecision option"
  ct_synthesis :: "ArtifactReference option"
  ct_report_references :: "ArtifactReference list"

definition reports_only :: "ArtifactReference list \<Rightarrow> bool" where
  "reports_only refs =
     (list_all (\<lambda>r. ar_type r = ReportMd \<or> ar_type r = ReportPdf) refs \<and> distinct (map ar_type refs))"

definition valid_CanonicalTurnResult :: "CanonicalTurnResult \<Rightarrow> bool" where
  "valid_CanonicalTurnResult c =
     (SessionId (ct_session_id c) \<and> 2 \<le> ct_turn_number c \<and>
      opt_ok text_ok (ct_facilitator_reply c) \<and> opt_ok text_ok (ct_rationale_reply c) \<and>
      list_all text_ok (ct_issues c) \<and> length (ct_issues c) \<le> 100 \<and>
      ct_state c = expected_state (ct_outcome c) \<and>
      (ct_outcome c = Finalize) = (ct_report_references c \<noteq> []) \<and>
      length (ct_report_references c) \<le> 2 \<and> reports_only (ct_report_references c))"

record TurnResponse =
  tr_session_id :: string
  tr_turn_number :: nat
  tr_outcome :: turn_outcome
  tr_state :: session_state
  tr_facilitator_reply :: "string option"
  tr_rationale_reply :: "string option"
  tr_issues :: "string list"
  tr_delegation :: "DelegationDecision option"
  tr_resolutions :: "ResolutionItem list"
  tr_synthesis :: "ArtifactReference option"
  tr_report :: "ReportDownload list"

definition valid_TurnResponse :: "TurnResponse \<Rightarrow> bool" where
  "valid_TurnResponse r =
     (SessionId (tr_session_id r) \<and> 2 \<le> tr_turn_number r \<and>
      opt_ok text_ok (tr_facilitator_reply r) \<and> opt_ok text_ok (tr_rationale_reply r) \<and>
      list_all text_ok (tr_issues r) \<and> length (tr_issues r) \<le> 100 \<and> length (tr_resolutions r) \<le> 100 \<and>
      tr_state r = expected_state (tr_outcome r) \<and>
      (tr_outcome r = Finalize) = (tr_report r \<noteq> []) \<and> length (tr_report r) \<le> 2 \<and>
      distinct (map rl_format (tr_report r)) \<and>
      (case tr_delegation r of
         None \<Rightarrow> tr_outcome r = Finalize
       | Some d \<Rightarrow> tr_issues r = dd_open_issues d) \<and>
      \<not> (tr_outcome r \<noteq> Finalize \<and> tr_facilitator_reply r = None) \<and>
      opt_ok (\<lambda>s. ar_type s = SynthesisArtifact) (tr_synthesis r))"

record CanonicalReportResult =
  cp_session_id :: string
  cp_report_references :: "ArtifactReference list"

definition valid_CanonicalReportResult :: "CanonicalReportResult \<Rightarrow> bool" where
  "valid_CanonicalReportResult c =
     (SessionId (cp_session_id c) \<and> 1 \<le> length (cp_report_references c) \<and> length (cp_report_references c) \<le> 2 \<and>
      reports_only (cp_report_references c))"

record ReportResponse =
  rs_session_id :: string
  rs_report :: "ReportDownload list"

definition valid_ReportResponse :: "ReportResponse \<Rightarrow> bool" where
  "valid_ReportResponse r =
     (SessionId (rs_session_id r) \<and> 1 \<le> length (rs_report r) \<and> length (rs_report r) \<le> 2 \<and> distinct (map rl_format (rs_report r)))"

record AbandonSessionResponse =
  ab_session_id :: string
  ab_state :: session_state

definition valid_AbandonSessionResponse :: "AbandonSessionResponse \<Rightarrow> bool" where
  "valid_AbandonSessionResponse r = (SessionId (ab_session_id r) \<and> ab_state r = Parked)"

text \<open>\<open>CanonicalOperationResult\<close>: what a completed idempotency claim stores.\<close>

datatype canonical =
    CanonCreate CreateSessionResponse
  | CanonTurn CanonicalTurnResult
  | CanonReport CanonicalReportResult
  | CanonAbandon AbandonSessionResponse

section \<open>Exceptions\<close>

text \<open>
  \<open>PythonError\<close> stands for the language's own exceptions (a subscript of None, a missing key),
  \<open>DatabaseError\<close> for a Postgres error the repository does not translate.
\<close>

datatype db_constraint = OneActiveRunPerStory | OtherUnique | CheckViolation | ForeignKeyViolation

datatype exc =
    ApiError nat ErrorBody
  | FinalizationFailed nat ErrorBody bool
  | SessionLocked nat
  | KeyReused
  | ConstraintViolation db_constraint
  | McpCallFailure ErrorBody
  | McpTransportError
  | McpDeadlineExceeded
  | AgentCallFailure ErrorBody
  | AgentTransportError
  | AgentDeadlineExceeded
  | ValidationError
  | AssertionError
  | DatabaseError
  | PythonError

definition RETRY_AFTER_SECONDS :: nat where "RETRY_AFTER_SECONDS = 5"

definition make_error ::
    "error_code \<Rightarrow> string \<Rightarrow> uuid \<Rightarrow> bool \<Rightarrow> string option \<Rightarrow> nat option \<Rightarrow> ErrorBody" where
  "make_error code message correlation retryable who retry_after =
     \<lparr>eb_code = code, eb_message = message, eb_agent = who, eb_correlation = correlation,
      eb_retryable = retryable,
      eb_retry_after = (if retryable then Some RETRY_AFTER_SECONDS else retry_after)\<rparr>"

definition upstream :: "string \<Rightarrow> uuid \<Rightarrow> string option \<Rightarrow> exc" where
  "upstream message correlation who =
     ApiError 503 (make_error UPSTREAM_UNAVAILABLE message correlation True who None)"

definition tool_failure :: "ErrorBody \<Rightarrow> uuid \<Rightarrow> exc" where
  "tool_failure e correlation =
     (if eb_code e = STORY_NOT_FOUND
      then ApiError 404 (make_error STORY_NOT_FOUND (eb_message e) correlation False None None)
      else ApiError 503 (make_error (eb_code e) (eb_message e) correlation (eb_retryable e) None None))"

definition agent_failure :: "exc \<Rightarrow> uuid \<Rightarrow> string \<Rightarrow> exc" where
  "agent_failure x correlation who =
     (case x of
        AgentCallFailure e \<Rightarrow>
          ApiError (if eb_code e \<in> {VALIDATION_ERROR, DELEGATION_VALIDATION} then 422 else 503)
            (make_error (eb_code e) (eb_message e) correlation (eb_retryable e) (Some who) None)
      | _ \<Rightarrow> upstream (who @ '' invocation failed'') correlation (Some who))"

definition not_found :: "uuid \<Rightarrow> exc" where
  "not_found correlation =
     ApiError 404 (make_error SESSION_NOT_FOUND ''no such session'' correlation False None None)"

definition read_only :: "uuid \<Rightarrow> exc" where
  "read_only correlation =
     ApiError 409 (make_error SESSION_READ_ONLY ''the session accepts no dialogue turns''
       correlation False None None)"

definition not_finalizing :: "uuid \<Rightarrow> exc" where
  "not_finalizing correlation =
     ApiError 409 (make_error NOT_FINALIZING ''the session is active; submit a turn instead''
       correlation False None None)"

definition map_session_locked :: "nat \<Rightarrow> uuid \<Rightarrow> exc" where
  "map_session_locked hint correlation =
     ApiError 409 (make_error SESSION_LOCKED
       ''another request holds the session turn lease; wait for the hint and submit a new request''
       correlation True None (Some hint))"

definition map_idempotency_reused :: "uuid \<Rightarrow> exc" where
  "map_idempotency_reused correlation =
     ApiError 409 (make_error IDEMPOTENCY_KEY_REUSED
       ''idempotency key already used with a different request body'' correlation False None None)"

definition map_constraint_violation :: "db_constraint \<Rightarrow> uuid \<Rightarrow> exc" where
  "map_constraint_violation c correlation =
     (case c of
        OneActiveRunPerStory \<Rightarrow>
          ApiError 409 (make_error STORY_SESSION_ACTIVE
            ''the story already has an active session; restore it instead'' correlation False None None)
      | OtherUnique \<Rightarrow>
          ApiError 409 (make_error IDEMPOTENCY_KEY_REUSED
            ''conflicting durable state for this request'' correlation False None None)
      | _ \<Rightarrow> upstream ''durable-state write rejected'' correlation None)"

definition bad_key :: "uuid \<Rightarrow> exc" where
  "bad_key correlation =
     ApiError 422 (make_error VALIDATION_ERROR ''Idempotency-Key must be a UUID v4''
       correlation False None None)"

lemma make_error_hint: "eb_retryable (make_error c m u r w h) = r"
  "eb_retry_after (make_error c m u True w h) = Some 5"
  by (simp_all add: make_error_def RETRY_AFTER_SECONDS_def)

text \<open>A contention error never carries the lease's own waiting time: whatever the holder's
  remaining lease is, the SESSION_LOCKED envelope says five seconds.\<close>

theorem locked_hint_discarded:
  "map_session_locked hint correlation = map_session_locked 5 correlation \<and>
   (\<exists>e. map_session_locked hint correlation = ApiError 409 e \<and> eb_code e = SESSION_LOCKED \<and>
        eb_retry_after e = Some 5)"
  by (simp add: map_session_locked_def make_error_def RETRY_AFTER_SECONDS_def)

end
