(* ===== verification/Fence.thy ===== *)
theory Fence
  imports Complex_Main Schema_Review
begin

text \<open>
  The reviewer output fence (D35), \<open>orchestration/orchestration/reviewer_output_fence.py\<close>:
  dropping findings the story already settles and clamping re-review findings the extra context
  answers. Similarities are exact rationals (the source divides two small integers; the two
  thresholds compare the same way on the float and on the rational). Lower-casing is ASCII.
\<close>

section \<open>Tokens and clauses\<close>

definition stopwords :: "string list" where
  "stopwords =
    [''the'', ''a'', ''an'', ''and'', ''or'', ''of'', ''to'', ''in'', ''on'', ''for'', ''with'',
     ''by'', ''is'', ''are'', ''was'', ''were'', ''be'', ''been'', ''it'', ''its'', ''this'',
     ''that'', ''these'', ''those'', ''as'', ''at'', ''from'', ''not'', ''no'', ''but'', ''if'',
     ''then'', ''than'', ''so'', ''such'', ''can'', ''could'', ''should'', ''would'', ''will'',
     ''may'', ''might'', ''must'', ''do'', ''does'', ''did'', ''have'', ''has'', ''had'',
     ''their'', ''there'', ''when'', ''which'', ''who'', ''whom'', ''what'', ''where'', ''how'',
     ''all'', ''any'', ''each'', ''other'', ''more'', ''most'', ''some'', ''only'', ''own'',
     ''same'', ''too'', ''very'', ''just'', ''also'', ''into'', ''over'', ''under'', ''again'',
     ''further'', ''once'', ''you'', ''your'', ''our'']"

definition settlement_markers :: "string list" where
  "settlement_markers =
    [''out of scope'', ''no additional'', ''exactly'', ''handled by the existing'',
     ''not in scope'', ''excluded'', ''no story-specific'']"

definition match_threshold :: rat where "match_threshold = 35 / 100"
definition context_threshold :: rat where "context_threshold = 20 / 100"

fun downgrade :: "severity \<Rightarrow> severity" where
  "downgrade Blocker = Major"
| "downgrade Major = Minor"
| "downgrade Minor = Info"
| "downgrade Info = Info"

text \<open>\<open>_HTML_TAG_RE.sub(" ", part)\<close> with the pattern \<open><[^>]+>\<close>.\<close>

function strip_tags :: "string \<Rightarrow> string" where
  "strip_tags s =
     (case s of [] \<Rightarrow> []
      | c # cs \<Rightarrow>
          let body = takeWhile (\<lambda>x. x \<noteq> CHR ''>'') cs; after = dropWhile (\<lambda>x. x \<noteq> CHR ''>'') cs in
          if c = CHR ''<'' \<and> body \<noteq> [] \<and> after \<noteq> [] then CHR '' '' # strip_tags (tl after)
          else c # strip_tags cs)"
  by pat_completeness auto
termination
proof (relation "measure length", goal_cases)
  case (2 s c cs body after)
  have "length (dropWhile (\<lambda>x. x \<noteq> CHR ''>'') cs) \<le> length cs" by (rule length_dropWhile_le)
  with 2 show ?case by simp
qed auto

declare strip_tags.simps [simp del]

definition story_plain_text :: "StoryDetail \<Rightarrow> string" where
  "story_plain_text s =
     join '' '' (map strip_tags
       ((sd_description s # sd_acceptance_criteria s) @ map sc_text (sd_comments s)))"

fun split_tokens :: "string \<Rightarrow> string \<Rightarrow> string list" where
  "split_tokens cur [] = [cur]"
| "split_tokens cur (c # cs) =
     (if is_lower c \<or> is_digit c then split_tokens (cur @ [c]) cs else cur # split_tokens [] cs)"

definition content_tokens :: "string \<Rightarrow> string set" where
  "content_tokens t =
     set (filter (\<lambda>w. 3 \<le> length w \<and> w \<notin> set stopwords) (split_tokens [] (lower t)))"

definition overlap :: "string set \<Rightarrow> string set \<Rightarrow> rat" where
  "overlap a b =
     (if a = {} \<or> b = {} then 0 else of_nat (card (a \<inter> b)) / of_nat (min (card a) (card b)))"

text \<open>\<open>_SENTENCE_RE.split\<close>: at a run of blanks that follows a full stop, \<open>!\<close> or \<open>?\<close>.\<close>

function split_sentences :: "string \<Rightarrow> string \<Rightarrow> string list" where
  "split_sentences cur [] = [cur]"
| "split_sentences cur (c # cs) =
     (if is_space c \<and> cur \<noteq> [] \<and> last cur \<in> {CHR ''.'', CHR ''!'', CHR ''?''}
      then cur # split_sentences [] (dropWhile is_space cs)
      else split_sentences (cur @ [c]) cs)"
  by pat_completeness auto
termination
proof (relation "measure (\<lambda>(cur, s). length s)", goal_cases)
  case (2 cur c cs)
  have "length (dropWhile is_space cs) \<le> length cs" by (rule length_dropWhile_le)
  then show ?case by simp
qed auto

definition settling_clauses :: "string \<Rightarrow> string list" where
  "settling_clauses t =
     filter (\<lambda>x. list_ex (\<lambda>m. contains m (lower x)) settlement_markers) (split_sentences [] t)"

definition finding_tokens :: "Finding \<Rightarrow> string set" where
  "finding_tokens f = content_tokens (fd_title f @ '' '' @ fd_description f)"

section \<open>The two rules\<close>

datatype fence_rule = ScopeSettlement | ReReviewClamp

record FenceEvent =
  fe_rule :: fence_rule
  fe_finding :: string
  fe_reference :: string
  fe_similarity :: rat

text \<open>\<open>round(x, 4)\<close>: to the nearest, ties to even.\<close>

definition round4 :: "rat \<Rightarrow> rat" where
  "round4 x =
     (let y = x * 10000; f = \<lfloor>y\<rfloor>; d = y - of_int f
      in of_int (if d < 1 / 2 then f else if d > 1 / 2 then f + 1
                 else if even f then f else f + 1) / 10000)"

fun settling_clause :: "string set \<Rightarrow> (string \<times> string set) list \<Rightarrow> (string \<times> rat) option" where
  "settling_clause tokens [] = None"
| "settling_clause tokens ((text, clause) # cs) =
     (if match_threshold \<le> overlap tokens clause then Some (text, overlap tokens clause)
      else settling_clause tokens cs)"

fun apply_scope_settlement ::
    "Finding list \<Rightarrow> (string \<times> string set) list \<Rightarrow> Finding list \<times> FenceEvent list" where
  "apply_scope_settlement [] clauses = ([], [])"
| "apply_scope_settlement (f # fs) clauses =
     (let (kept, events) = apply_scope_settlement fs clauses in
        case settling_clause (finding_tokens f) clauses of
          None \<Rightarrow> (f # kept, events)
        | Some (text, sim) \<Rightarrow>
            (kept, \<lparr>fe_rule = ScopeSettlement, fe_finding = fd_id f, fe_reference = text,
                    fe_similarity = round4 sim\<rparr> # events))"

definition best_previous :: "Finding list \<Rightarrow> string set \<Rightarrow> (Finding \<times> rat) option" where
  "best_previous previous tokens =
     max_by snd (filter (\<lambda>m. match_threshold \<le> snd m)
       (map (\<lambda>p. (p, overlap tokens (finding_tokens p))) previous))"

fun apply_re_review_clamp ::
    "Finding list \<Rightarrow> Finding list \<Rightarrow> string set \<Rightarrow> Finding list \<times> FenceEvent list" where
  "apply_re_review_clamp [] previous context = ([], [])"
| "apply_re_review_clamp (f # fs) previous context =
     (let (kept, events) = apply_re_review_clamp fs previous context; tokens = finding_tokens f in
        case best_previous previous tokens of
          None \<Rightarrow> (f # kept, events)
        | Some (prev, sim) \<Rightarrow>
            if context_threshold \<le> overlap tokens context then
              (let event = \<lparr>fe_rule = ReReviewClamp, fe_finding = fd_id f,
                            fe_reference = fd_id prev, fe_similarity = round4 sim\<rparr> in
               if fd_severity prev = Info then (kept, event # events)
               else (f\<lparr>fd_severity := downgrade (fd_severity prev)\<rparr> # kept, event # events))
            else (f # kept, events))"

definition apply_fence ::
    "ReviewReport \<Rightarrow> string \<Rightarrow> ReviewReport option \<Rightarrow> string option \<Rightarrow> ReviewReport \<times> FenceEvent list"
where
  "apply_fence report story_text previous extra_context =
     (let clauses = map (\<lambda>c. (c, content_tokens c)) (settling_clauses story_text);
          (findings, events) = apply_scope_settlement (rr_findings report) clauses;
          (findings, events) =
            (case (previous, extra_context) of
               (Some prev, Some (c # cs)) \<Rightarrow>
                 (let (clamped, clamp_events) =
                    apply_re_review_clamp findings (rr_findings prev) (content_tokens (c # cs))
                  in (clamped, events @ clamp_events))
             | _ \<Rightarrow> (findings, events))
      in if events = [] then (report, events) else (report\<lparr>rr_findings := findings\<rparr>, events))"

section \<open>What the fence does to the findings\<close>

lemma finding_tokens_severity [simp]: "finding_tokens (f\<lparr>fd_severity := s\<rparr>) = finding_tokens f"
  by (simp add: finding_tokens_def)

text \<open>Rule 1 keeps exactly the findings that overlap no settling clause, unchanged.\<close>

lemma settling_clause_None:
  "settling_clause t cs = None \<longleftrightarrow> (\<forall>c \<in> set cs. overlap t (snd c) < match_threshold)"
  by (induction t cs rule: settling_clause.induct) (auto simp: not_le)

lemma scope_settlement_kept:
  "fst (apply_scope_settlement fs cs) = filter (\<lambda>f. settling_clause (finding_tokens f) cs = None) fs"
  by (induction fs cs rule: apply_scope_settlement.induct)
     (auto simp: Let_def split: option.splits prod.splits)

lemma scope_settlement_events:
  "map fe_finding (snd (apply_scope_settlement fs cs)) =
     map fd_id (filter (\<lambda>f. settling_clause (finding_tokens f) cs \<noteq> None) fs)"
  by (induction fs cs rule: apply_scope_settlement.induct)
     (auto simp: Let_def split: option.splits prod.splits)

text \<open>Rule 2, one finding at a time.\<close>

definition clamp_one :: "Finding list \<Rightarrow> string set \<Rightarrow> Finding \<Rightarrow> Finding option" where
  "clamp_one previous context f =
     (case best_previous previous (finding_tokens f) of
        None \<Rightarrow> Some f
      | Some (prev, sim) \<Rightarrow>
          if context_threshold \<le> overlap (finding_tokens f) context then
            if fd_severity prev = Info then None
            else Some (f\<lparr>fd_severity := downgrade (fd_severity prev)\<rparr>)
          else Some f)"

lemma re_review_clamp_kept:
  "fst (apply_re_review_clamp fs previous context) = List.map_filter (clamp_one previous context) fs"
  by (induction fs previous "context" rule: apply_re_review_clamp.induct)
     (auto simp: Let_def clamp_one_def map_filter_simps split: option.splits prod.splits if_splits)

lemma re_review_clamp_no_events:
  "snd (apply_re_review_clamp fs previous context) = [] \<Longrightarrow>
   fst (apply_re_review_clamp fs previous context) = fs"
  by (induction fs previous "context" rule: apply_re_review_clamp.induct)
     (auto simp: Let_def split: option.splits prod.splits if_splits)

lemma scope_settlement_no_events:
  "snd (apply_scope_settlement fs cs) = [] \<Longrightarrow> fst (apply_scope_settlement fs cs) = fs"
  by (induction fs cs rule: apply_scope_settlement.induct)
     (auto simp: Let_def split: option.splits prod.splits)

lemma clamp_one_idem: "clamp_one p c f = Some g \<Longrightarrow> clamp_one p c g = Some g"
  by (auto simp: clamp_one_def split: option.splits if_splits prod.splits)

lemma clamp_one_tokens: "clamp_one p c f = Some g \<Longrightarrow> finding_tokens g = finding_tokens f"
  by (auto simp: clamp_one_def split: option.splits if_splits prod.splits)

text \<open>The findings the fence leaves, as one formula.\<close>

definition fence_one ::
    "string \<Rightarrow> ReviewReport option \<Rightarrow> string option \<Rightarrow> Finding \<Rightarrow> Finding option" where
  "fence_one story_text previous extra f =
     (if \<exists>c \<in> set (settling_clauses story_text).
           match_threshold \<le> overlap (finding_tokens f) (content_tokens c) then None
      else case (previous, extra) of
             (Some p, Some (c # cs)) \<Rightarrow> clamp_one (rr_findings p) (content_tokens (c # cs)) f
           | _ \<Rightarrow> Some f)"

lemma map_filter_filter:
  "List.map_filter g (filter p xs) = List.map_filter (\<lambda>x. if p x then g x else None) xs"
  by (induction xs) (simp_all add: map_filter_simps split: option.split)

lemma map_filter_id: "List.map_filter (\<lambda>x. if p x then Some x else None) xs = filter p xs"
  by (induction xs) (simp_all add: map_filter_simps)

lemma settling_none_iff:
  "settling_clause t (map (\<lambda>c. (c, content_tokens c)) cs) = None \<longleftrightarrow>
   \<not> (\<exists>c \<in> set cs. match_threshold \<le> overlap t (content_tokens c))"
  by (auto simp: settling_clause_None not_le)

lemma fence_findings:
  "rr_findings (fst (apply_fence report story_text previous extra)) =
     List.map_filter (fence_one story_text previous extra) (rr_findings report)"
proof -
  let ?cs = "map (\<lambda>c. (c, content_tokens c)) (settling_clauses story_text)"
  let ?r1 = "apply_scope_settlement (rr_findings report) ?cs"
  have kept: "fst ?r1 = filter (\<lambda>f. \<not> (\<exists>c \<in> set (settling_clauses story_text).
      match_threshold \<le> overlap (finding_tokens f) (content_tokens c))) (rr_findings report)"
    unfolding scope_settlement_kept settling_none_iff ..
  show ?thesis
  proof (cases "\<exists>p c cs. previous = Some p \<and> extra = Some (c # cs)")
    case True
    then obtain p c cs where pe: "previous = Some p" "extra = Some (c # cs)" by blast
    let ?r2 = "apply_re_review_clamp (fst ?r1) (rr_findings p) (content_tokens (c # cs))"
    have "List.map_filter (fence_one story_text previous extra) (rr_findings report) = fst ?r2"
      unfolding re_review_clamp_kept kept map_filter_filter fence_one_def pe
      by (intro arg_cong2[of _ _ _ _ List.map_filter] ext refl) simp
    moreover have "rr_findings (fst (apply_fence report story_text previous extra)) =
        (if snd ?r1 @ snd ?r2 = [] then rr_findings report else fst ?r2)"
      by (simp add: apply_fence_def pe Let_def split_beta)
    ultimately show ?thesis
      using scope_settlement_no_events[of "rr_findings report" ?cs] re_review_clamp_no_events
      by auto
  next
    case False
    then have one: "fence_one story_text previous extra f =
        (if \<not> (\<exists>c \<in> set (settling_clauses story_text).
           match_threshold \<le> overlap (finding_tokens f) (content_tokens c)) then Some f else None)" for f
      by (auto simp: fence_one_def split: option.splits list.splits)
    have "rr_findings (fst (apply_fence report story_text previous extra)) =
        (if snd ?r1 = [] then rr_findings report else fst ?r1)"
      using False by (auto simp: apply_fence_def Let_def split_beta split: option.splits list.splits)
    then have "rr_findings (fst (apply_fence report story_text previous extra)) = fst ?r1"
      using scope_settlement_no_events[of "rr_findings report" ?cs] by (simp split: if_splits)
    then show ?thesis unfolding kept one map_filter_id .
  qed
qed

lemma fence_other_fields:
  "(fst (apply_fence report story_text previous extra))\<lparr>rr_findings := fs\<rparr> = report\<lparr>rr_findings := fs\<rparr>"
  by (simp add: apply_fence_def Let_def split_beta)

lemma fence_one_idem: "fence_one t p e f = Some g \<Longrightarrow> fence_one t p e g = Some g"
  by (auto simp: fence_one_def clamp_one_tokens split: option.splits list.splits if_splits
      intro: clamp_one_idem)

lemma map_filter_again:
  "(\<And>x y. g x = Some y \<Longrightarrow> g y = Some y) \<Longrightarrow>
   List.map_filter g (List.map_filter g xs) = List.map_filter g xs"
  by (induction xs) (simp_all add: map_filter_simps split: option.split)

section \<open>Properties\<close>

text \<open>When a story settles a finding, and when a previous finding is one of its best matches and the
  extra context answers it.\<close>

definition settled :: "string \<Rightarrow> Finding \<Rightarrow> bool" where
  "settled story_text f =
     (\<exists>c \<in> set (settling_clauses story_text). match_threshold \<le> overlap (finding_tokens f) (content_tokens c))"

definition answered_match :: "ReviewReport option \<Rightarrow> string option \<Rightarrow> Finding \<Rightarrow> Finding \<Rightarrow> bool" where
  "answered_match previous extra f p =
     (\<exists>prev e. previous = Some prev \<and> extra = Some e \<and> e \<noteq> [] \<and> p \<in> set (rr_findings prev) \<and>
        match_threshold \<le> overlap (finding_tokens f) (finding_tokens p) \<and>
        (\<forall>r \<in> set (rr_findings prev).
           overlap (finding_tokens f) (finding_tokens r) \<le> overlap (finding_tokens f) (finding_tokens p)) \<and>
        context_threshold \<le> overlap (finding_tokens f) (content_tokens e))"

lemma best_previous_is_best:
  assumes "best_previous previous tokens = Some (p, sim)"
  shows "p \<in> set previous \<and> match_threshold \<le> overlap tokens (finding_tokens p) \<and>
    (\<forall>r \<in> set previous. overlap tokens (finding_tokens r) \<le> overlap tokens (finding_tokens p))"
proof -
  have p: "p \<in> set previous" "match_threshold \<le> overlap tokens (finding_tokens p)"
    "sim = overlap tokens (finding_tokens p)"
    using max_by_in[OF assms[unfolded best_previous_def]] by auto
  have "overlap tokens (finding_tokens r) \<le> overlap tokens (finding_tokens p)" if r: "r \<in> set previous" for r
  proof (cases "match_threshold \<le> overlap tokens (finding_tokens r)")
    case True
    then show ?thesis
      using max_by_ge[OF assms[unfolded best_previous_def], of "(r, overlap tokens (finding_tokens r))"] r p(3)
      by auto
  next
    case False
    with p(2) show ?thesis by simp
  qed
  with p show ?thesis by blast
qed

lemma best_previous_none:
  "best_previous previous tokens = None \<Longrightarrow> r \<in> set previous \<Longrightarrow> overlap tokens (finding_tokens r) < match_threshold"
  by (force simp: best_previous_def filter_empty_conv)

lemma fence_one_fate:
  "case fence_one story_text previous extra f of
     None \<Rightarrow> settled story_text f \<or> (\<exists>p. answered_match previous extra f p \<and> fd_severity p = Info)
   | Some g \<Rightarrow> \<not> settled story_text f \<and>
       (if \<exists>p. answered_match previous extra f p
        then \<exists>p. answered_match previous extra f p \<and> fd_severity p \<noteq> Info \<and>
          g = f\<lparr>fd_severity := downgrade (fd_severity p)\<rparr>
        else g = f)"
proof (cases "settled story_text f")
  case True
  then show ?thesis by (simp add: fence_one_def settled_def)
next
  case open_point: False
  show ?thesis
  proof (cases "\<exists>prev e. previous = Some prev \<and> extra = Some e \<and> e \<noteq> []")
    case False
    then have "fence_one story_text previous extra f = Some f"
      using open_point by (auto simp: fence_one_def settled_def split: option.splits list.splits)
    moreover have "\<not> answered_match previous extra f p" for p using False by (auto simp: answered_match_def)
    ultimately show ?thesis using open_point by simp
  next
    case True
    then obtain prev c cs where pe: "previous = Some prev" "extra = Some (c # cs)" by (metis list.exhaust)
    have one: "fence_one story_text previous extra f = clamp_one (rr_findings prev) (content_tokens (c # cs)) f"
      using open_point pe by (simp add: fence_one_def settled_def)
    let ?best = "best_previous (rr_findings prev) (finding_tokens f)"
    show ?thesis
    proof (cases "\<exists>p sim. ?best = Some (p, sim) \<and> context_threshold \<le> overlap (finding_tokens f) (content_tokens (c # cs))")
      case True
      then obtain p sim where p: "?best = Some (p, sim)"
        "context_threshold \<le> overlap (finding_tokens f) (content_tokens (c # cs))" by blast
      then have "answered_match previous extra f p"
        using best_previous_is_best[OF p(1)] pe by (simp add: answered_match_def)
      then show ?thesis using open_point p unfolding one by (auto simp: clamp_one_def)
    next
      case False
      then have "fence_one story_text previous extra f = Some f"
        unfolding one by (auto simp: clamp_one_def split: option.splits)
      moreover have "\<not> answered_match previous extra f p" for p
      proof
        assume "answered_match previous extra f p"
        then have "p \<in> set (rr_findings prev)" "match_threshold \<le> overlap (finding_tokens f) (finding_tokens p)"
          "context_threshold \<le> overlap (finding_tokens f) (content_tokens (c # cs))"
          using pe by (auto simp: answered_match_def)
        with False best_previous_none[of "rr_findings prev" "finding_tokens f" p] show False
          by (cases ?best) auto
      qed
      ultimately show ?thesis using open_point by simp
    qed
  qed
qed

text \<open>C20. What the fence does to a report, finding by finding and in their order: a finding that the
  story settles is dropped; otherwise, when the extra context answers it and it has best matches among the
  findings of the previous review, it follows one of them, dropped if that one was info and re-rated to
  one level below that one's severity if not; every other finding is kept as it is. All other fields of
  the report are preserved.\<close>

theorem fence_spec:
  "\<exists>fate. rr_findings (fst (apply_fence report story_text previous extra)) =
       List.map_filter fate (rr_findings report) \<and>
     (\<forall>f. case fate f of
         None \<Rightarrow> settled story_text f \<or> (\<exists>p. answered_match previous extra f p \<and> fd_severity p = Info)
       | Some g \<Rightarrow> \<not> settled story_text f \<and>
           (if \<exists>p. answered_match previous extra f p
            then \<exists>p. answered_match previous extra f p \<and> fd_severity p \<noteq> Info \<and>
              g = f\<lparr>fd_severity := downgrade (fd_severity p)\<rparr>
            else g = f)) \<and>
     (\<forall>fs. (fst (apply_fence report story_text previous extra))\<lparr>rr_findings := fs\<rparr> =
        report\<lparr>rr_findings := fs\<rparr>)"
  using fence_findings fence_one_fate fence_other_fields by blast

text \<open>Running the fence a second time with the same inputs changes no finding.\<close>

theorem fence_idempotent:
  "rr_findings (fst (apply_fence (fst (apply_fence report t p e)) t p e)) =
   rr_findings (fst (apply_fence report t p e))"
  unfolding fence_findings by (rule map_filter_again) (rule fence_one_idem)

text \<open>C19. After the fence no finding overlaps a sentence in which the story settles the matter.\<close>

theorem fence_settles_scope:
  "\<not> (\<exists>g \<in> set (rr_findings (fst (apply_fence report story_text previous extra))).
      \<exists>c \<in> set (settling_clauses story_text).
        match_threshold \<le> overlap (finding_tokens g) (content_tokens c))"
proof -
  have "fence_one story_text previous extra f = Some g \<Longrightarrow>
      \<not> (\<exists>c \<in> set (settling_clauses story_text).
        match_threshold \<le> overlap (finding_tokens g) (content_tokens c))" for f g
    by (auto simp: fence_one_def clamp_one_tokens split: option.splits list.splits if_splits)
  moreover have "g \<in> set (List.map_filter h xs) \<Longrightarrow> \<exists>f. h f = Some g" for h :: "Finding \<Rightarrow> Finding option" and xs g
    by (induction xs) (auto simp: map_filter_simps split: option.splits)
  ultimately show ?thesis unfolding fence_findings by blast
qed

section \<open>A concrete re-review\<close>

definition demo_finding :: "severity \<Rightarrow> Finding" where
  "demo_finding sev =
     \<lparr>fd_id = ''B-1'', fd_title = ''audit log'', fd_description = ''retention period missing'',
      fd_severity = sev, fd_category = ''scope'', fd_suggestion = None,
      fd_references_po_question = False\<rparr>"

definition demo_report :: "severity \<Rightarrow> ReviewReport" where
  "demo_report sev =
     \<lparr>rr_perspective = Business, rr_story_id = ''story-01'', rr_summary = ''s'',
      rr_findings = [demo_finding sev], rr_risks = [], rr_questions_for_po = [],
      rr_based_on_extra_context = None, rr_previous_review_version = None\<rparr>"

text \<open>
  The clamp assigns one level below the previous severity, as rule 2 of the fence is documented: a
  re-review that lowered a blocker to info by itself leaves the fence as major.
\<close>

lemma clamp_assigns_one_below:
  "map fd_severity (rr_findings (fst (apply_fence (demo_report Info) ''Nothing here''
     (Some (demo_report Blocker)) (Some ''audit log retention is one year'')))) = [Major]"
  by code_simp

theorem fence_spec_witness:
  "\<exists>p. answered_match (Some (demo_report Blocker)) (Some ''audit log retention is one year'') (demo_finding Info) p \<and>
     fd_severity p \<noteq> Info"
proof -
  let ?prev = "Some (demo_report Blocker)" and ?extra = "Some ''audit log retention is one year''"
  obtain fate where fate:
    "rr_findings (fst (apply_fence (demo_report Info) ''Nothing here'' ?prev ?extra)) =
       List.map_filter fate (rr_findings (demo_report Info))"
    "\<forall>f. case fate f of
         None \<Rightarrow> settled ''Nothing here'' f \<or> (\<exists>p. answered_match ?prev ?extra f p \<and> fd_severity p = Info)
       | Some g \<Rightarrow> \<not> settled ''Nothing here'' f \<and>
           (if \<exists>p. answered_match ?prev ?extra f p
            then \<exists>p. answered_match ?prev ?extra f p \<and> fd_severity p \<noteq> Info \<and>
              g = f\<lparr>fd_severity := downgrade (fd_severity p)\<rparr>
            else g = f)"
    using fence_spec[of "demo_report Info" "''Nothing here''" ?prev ?extra] by blast
  have "map fd_severity (List.map_filter fate [demo_finding Info]) = [Major]"
    using clamp_assigns_one_below unfolding fate(1) by (simp only: demo_report_def ReviewReport.simps)
  then obtain g where g: "fate (demo_finding Info) = Some g" "fd_severity g = Major"
    by (cases "fate (demo_finding Info)") (simp_all add: map_filter_simps)
  have "fd_severity (demo_finding Info) = Info" by (simp only: demo_finding_def Finding.simps)
  then have "g \<noteq> demo_finding Info" using g(2) by auto
  moreover have "if \<exists>p. answered_match ?prev ?extra (demo_finding Info) p
      then \<exists>p. answered_match ?prev ?extra (demo_finding Info) p \<and> fd_severity p \<noteq> Info \<and>
        g = (demo_finding Info)\<lparr>fd_severity := downgrade (fd_severity p)\<rparr>
      else g = demo_finding Info"
    using spec[OF fate(2), of "demo_finding Info"] unfolding g(1) option.case by (rule conjunct2)
  ultimately show ?thesis by (cases "\<exists>p. answered_match ?prev ?extra (demo_finding Info) p") auto
qed

end
