(* ===== verification/Calendar.thy ===== *)
theory Calendar
  imports Schema_Base
begin

text \<open>
  UTC timestamps as text. An instant is a number of microseconds since 1970; \<open>isoformat\<close> writes
  it the way \<open>datetime.isoformat()\<close> writes an aware UTC datetime, and \<open>read_isoformat\<close> reads that
  form back, with the range checks of the \<open>datetime\<close> constructor. The section in between shows
  that the civil date computed from a day number is a date of the Gregorian calendar and
  determines the day.
\<close>

section \<open>Writing\<close>

definition pad :: "nat \<Rightarrow> nat \<Rightarrow> string" where
  "pad k n = (let d = decimal n in replicate (k - length d) (CHR ''0'') @ d)"

text \<open>Years of the calendar's 400-year era, counted from March.\<close>

definition year_count :: "int \<Rightarrow> int" where
  "year_count doe = (doe - doe div 1460 + doe div 36524 - doe div 146096) div 365"

definition year_start :: "int \<Rightarrow> int" where
  "year_start y = 365 * y + y div 4 - y div 100 + y div 400"

definition civil :: "int \<Rightarrow> int \<times> int \<times> int" where
  "civil days =
     (let z = days + 719468;
          era = z div 146097;
          doe = z mod 146097;
          yoe = year_count doe;
          doy = doe - year_start yoe;
          mp = (5 * doy + 2) div 153;
          d = doy - (153 * mp + 2) div 5 + 1;
          m = (if mp < 10 then mp + 3 else mp - 9)
      in (yoe + era * 400 + (if m \<le> 2 then 1 else 0), m, d))"

definition isoformat :: "instant \<Rightarrow> string" where
  "isoformat t =
     (let secs = t div 1000000; us = t mod 1000000; day = secs div 86400; tod = secs mod 86400;
          (y, m, d) = civil day
      in pad 4 (nat y) @ ''-'' @ pad 2 (nat m) @ ''-'' @ pad 2 (nat d) @ ''T'' @
         pad 2 (nat (tod div 3600)) @ '':'' @ pad 2 (nat (tod div 60 mod 60)) @ '':'' @
         pad 2 (nat (tod mod 60)) @
         (if us = 0 then [] else ''.'' @ pad 6 (nat us)) @ ''+00:00'')"

section \<open>The civil date\<close>

definition leap :: "int \<Rightarrow> bool" where
  "leap y = (4 dvd y \<and> (100 dvd y \<longrightarrow> 400 dvd y))"

definition month_length :: "int \<Rightarrow> int \<Rightarrow> int" where
  "month_length y m =
     (if m = 2 then (if leap y then 29 else 28)
      else if m = 4 \<or> m = 6 \<or> m = 9 \<or> m = 11 then 30 else 31)"

definition days_of :: "int \<Rightarrow> int \<Rightarrow> int \<Rightarrow> int" where
  "days_of y m d =
     (let q = (if m \<le> 2 then y - 1 else y); era = q div 400; yoe = q mod 400;
          mp = (if m \<le> 2 then m + 9 else m - 3)
      in era * 146097 + year_start yoe + (153 * mp + 2) div 5 + d - 1 - 719468)"

lemma step_div:
  fixes y k :: int
  assumes "1 < k"
  shows "(y + 1) div k - y div k = (if k dvd y + 1 then 1 else 0)"
proof -
  have r: "0 \<le> y mod k" "y mod k < k" using assms by simp_all
  have q: "(y + 1) div k = y div k + (y mod k + 1) div k"
    using div_add1_eq[of y 1 k] assms by (simp add: div_pos_pos_trivial mod_pos_pos_trivial)
  have "k dvd y + 1 \<longleftrightarrow> (y mod k + 1) mod k = 0"
    by (simp add: dvd_eq_mod_eq_0 mod_simps)
  also have "\<dots> \<longleftrightarrow> y mod k + 1 = k"
    using r by (cases "y mod k + 1 = k") (auto simp: mod_pos_pos_trivial)
  finally show ?thesis
    using q r by (cases "y mod k + 1 = k") (auto simp: div_pos_pos_trivial)
qed

lemma year_step: "year_start (y + 1) - year_start y = (if leap (y + 1) then 366 else 365)"
proof -
  have d: "100 dvd y + 1 \<Longrightarrow> 4 dvd y + 1" "400 dvd y + 1 \<Longrightarrow> 100 dvd y + 1"
    by (rule dvd_trans, simp_all)+
  have "year_start (y + 1) - year_start y =
      365 + ((y + 1) div 4 - y div 4) - ((y + 1) div 100 - y div 100) + ((y + 1) div 400 - y div 400)"
    by (simp add: year_start_def)
  also have "\<dots> = 365 + (if 4 dvd y + 1 then 1 else 0) - (if 100 dvd y + 1 then 1 else 0) + (if 400 dvd y + 1 then 1 else 0)"
    by (simp only: step_div)
  finally show ?thesis
    using d by (cases "4 dvd y + 1"; cases "100 dvd y + 1"; cases "400 dvd y + 1") (simp_all add: leap_def)
qed

definition day_count :: "int \<Rightarrow> int" where
  "day_count doe = doe - doe div 1460 + doe div 36524 - doe div 146096"

definition counted_well :: "int \<Rightarrow> bool" where
  "counted_well y =
     (365 * y \<le> day_count (year_start y) \<and> day_count (year_start (y + 1) - 1) \<le> 365 * y + 364)"

lemma years_counted: "list_all counted_well [0..399]"
  by code_simp

lemma year_counted:
  assumes "0 \<le> y" "y < 400"
  shows "counted_well y"
proof -
  have "y \<in> set [0..399]" unfolding set_upto atLeastAtMost_iff using assms by linarith
  then show ?thesis using years_counted unfolding list_all_iff by (rule bspec[rotated])
qed

lemma day_count_mono:
  fixes a b :: int
  assumes "a \<le> b"
  shows "day_count a \<le> day_count b"
proof -
  have mono: "x - x div k \<le> y - y div k" if "x \<le> y" "1 < k" for x y k :: int
  proof -
    have "(y - x) * 1 \<le> (y - x) * k" using that by (intro mult_left_mono) auto
    then have "y div k \<le> (x + (y - x) * k) div k" using that by (intro zdiv_mono1) auto
    also have "\<dots> = x div k + (y - x)" using that by simp
    finally show ?thesis by simp
  qed
  have "x div 146096 = x div 36524 div 4" for x :: int
    using zdiv_zmult2_eq[of 4 x 36524] by simp
  then show ?thesis
    using mono[OF assms, of 1460] mono[of "a div 36524" "b div 36524" 4] zdiv_mono1[OF assms, of 36524]
    unfolding day_count_def by simp
qed

text \<open>The year of era computed from a day of the era is the one the day lies in.\<close>

lemma between_steps:
  fixes f :: "nat \<Rightarrow> int"
  shows "f 0 \<le> x \<Longrightarrow> x < f n \<Longrightarrow> \<exists>k < n. f k \<le> x \<and> x < f (Suc k)"
proof (induction n)
  case (Suc n)
  then show ?case by (cases "x < f n") (auto simp: less_Suc_eq)
qed simp

lemma year_count_bounds:
  assumes "0 \<le> doe" "doe < 146097"
  shows "0 \<le> year_count doe" "year_count doe < 400" "year_start (year_count doe) \<le> doe"
    "doe < year_start (year_count doe + 1)"
proof -
  have "year_start (int 0) \<le> doe" "doe < year_start (int 400)" using assms by (simp_all add: year_start_def)
  from between_steps[of "\<lambda>k. year_start (int k)", OF this]
  obtain k :: nat where k: "k < 400" "year_start (int k) \<le> doe" "doe < year_start (int (Suc k))" by blast
  then have k: "k < 400" "year_start (int k) \<le> doe" "doe < year_start (int k + 1)"
    by (simp_all only: of_nat_Suc add.commute)
  have "counted_well (int k)" using year_counted k(1) by simp
  moreover have "day_count (year_start (int k)) \<le> day_count doe"
      "day_count doe \<le> day_count (year_start (int k + 1) - 1)"
    using k by (intro day_count_mono, simp)+
  ultimately have "365 * int k \<le> day_count doe" "day_count doe \<le> 365 * int k + 364"
    unfolding counted_well_def by linarith+
  then have "year_count doe = int k" unfolding year_count_def day_count_def by linarith
  with k show "0 \<le> year_count doe" "year_count doe < 400" "year_start (year_count doe) \<le> doe"
    "doe < year_start (year_count doe + 1)" by simp_all
qed

text \<open>The day of the year determines month and day, and the month is long enough.\<close>

lemma month_of_day:
  fixes doy :: int
  assumes "0 \<le> doy" "doy \<le> 365"
  defines "mp \<equiv> (5 * doy + 2) div 153" and "d \<equiv> doy - (153 * ((5 * doy + 2) div 153) + 2) div 5 + 1"
  shows "0 \<le> mp" "mp \<le> 11" "1 \<le> d" "doy = (153 * mp + 2) div 5 + d - 1"
    "d \<le> (153 * (mp + 1) + 2) div 5 - (153 * mp + 2) div 5" "mp = 11 \<Longrightarrow> d = doy - 336"
proof -
  obtain r where r: "5 * doy + 2 = 153 * mp + r" "0 \<le> r" "r < 153"
    using that[of "(5 * doy + 2) mod 153"] unfolding mp_def by simp
  then have mp: "153 * mp \<le> 5 * doy + 2" "5 * doy + 2 < 153 * mp + 153" by simp_all
  then show "0 \<le> mp" "mp \<le> 11" using assms(1,2) by simp_all
  show "1 \<le> d" using mp(1) unfolding d_def mp_def[symmetric] by linarith
  show "doy = (153 * mp + 2) div 5 + d - 1" unfolding d_def mp_def by simp
  show "d \<le> (153 * (mp + 1) + 2) div 5 - (153 * mp + 2) div 5"
  proof -
    have "doy + 1 \<le> (153 * mp + 155) div 5" using mp(2) by linarith
    then show ?thesis unfolding d_def mp_def[symmetric] by simp
  qed
  show "mp = 11 \<Longrightarrow> d = doy - 336" unfolding d_def mp_def[symmetric] by simp
qed

lemma civil_cases:
  assumes "civil days = (y, m, d)"
  obtains yoe era mp where
    "0 \<le> yoe" "yoe < 400" "0 \<le> mp" "mp \<le> 11" "1 \<le> d"
    "days = era * 146097 + year_start yoe + (153 * mp + 2) div 5 + d - 1 - 719468"
    "y = yoe + era * 400 + (if m \<le> 2 then 1 else 0)" "m = (if mp < 10 then mp + 3 else mp - 9)"
    "d \<le> (153 * (mp + 1) + 2) div 5 - (153 * mp + 2) div 5" "mp = 11 \<Longrightarrow> d \<le> (if leap (yoe + 1) then 29 else 28)"
proof -
  define z where "z = days + 719468"
  define doe where "doe = z mod 146097"
  define yoe where "yoe = year_count doe"
  define doy where "doy = doe - year_start yoe"
  define mp where "mp = (5 * doy + 2) div 153"
  have doe: "0 \<le> doe" "doe < 146097" by (simp_all add: doe_def)
  note year = year_count_bounds[OF doe, folded yoe_def]
  have doy: "0 \<le> doy" "doy \<le> (if leap (yoe + 1) then 365 else 364)"
    using year(3,4) year_step[of yoe] by (auto simp: doy_def split: if_splits)
  then have doy': "doy \<le> 365" by (auto split: if_splits)
  have eqs: "d = doy - (153 * mp + 2) div 5 + 1" "m = (if mp < 10 then mp + 3 else mp - 9)"
    "y = yoe + z div 146097 * 400 + (if m \<le> 2 then 1 else 0)"
  proof -
    have "civil days = (yoe + z div 146097 * 400 + (if (if mp < 10 then mp + 3 else mp - 9) \<le> 2 then 1 else 0),
        (if mp < 10 then mp + 3 else mp - 9), doy - (153 * mp + 2) div 5 + 1)"
      unfolding civil_def Let_def mp_def doy_def yoe_def doe_def z_def by (rule refl)
    then show "d = doy - (153 * mp + 2) div 5 + 1" "m = (if mp < 10 then mp + 3 else mp - 9)"
      "y = yoe + z div 146097 * 400 + (if m \<le> 2 then 1 else 0)"
      unfolding assms by simp_all
  qed
  note month = month_of_day[OF doy(1) doy', folded mp_def, folded eqs(1)]
  have "days = z div 146097 * 146097 + doe - 719468" by (simp add: doe_def z_def)
  then have days: "days = z div 146097 * 146097 + year_start yoe + (153 * mp + 2) div 5 + d - 1 - 719468"
    using month(4) by (simp add: doy_def)
  have feb: "d \<le> (if leap (yoe + 1) then 29 else 28)" if "mp = 11"
    using month(6)[OF that] doy(2) by (auto split: if_splits)
  show ?thesis
    by (rule that[OF year(1,2) month(1,2,3) days eqs(3,2) month(5) feb])
qed

lemma civil_days: "civil days = (y, m, d) \<Longrightarrow> days_of y m d = days"
proof (erule civil_cases)
  fix yoe era mp
  assume a: "0 \<le> yoe" "yoe < 400" "0 \<le> mp" "mp \<le> 11"
    "days = era * 146097 + year_start yoe + (153 * mp + 2) div 5 + d - 1 - 719468"
    "y = yoe + era * 400 + (if m \<le> 2 then 1 else 0)" "m = (if mp < 10 then mp + 3 else mp - 9)"
  have "(if m \<le> 2 then y - 1 else y) = yoe + era * 400" using a by auto
  moreover have "(if m \<le> 2 then m + 9 else m - 3) = mp" using a by auto
  moreover have "(yoe + era * 400) div 400 = era" "(yoe + era * 400) mod 400 = yoe"
    using a(1,2) by (simp_all add: div_pos_pos_trivial mod_pos_pos_trivial)
  ultimately show ?thesis by (simp add: days_of_def Let_def a(5))
qed

lemma leap_shift: "leap (y + 400 * e) = leap y"
proof -
  have "k dvd y + 400 * e \<longleftrightarrow> k dvd y" if "k dvd 400" for k :: int
    using that by (simp add: dvd_add_left_iff dvd_mult2)
  then show ?thesis by (simp add: leap_def)
qed

lemma civil_is_date:
  assumes "civil days = (y, m, d)"
  shows "1 \<le> m" "m \<le> 12" "1 \<le> d" "d \<le> month_length y m"
proof -
  obtain yoe era mp where c: "0 \<le> mp" "mp \<le> 11" "1 \<le> d"
      "y = yoe + era * 400 + (if m \<le> 2 then 1 else 0)" "m = (if mp < 10 then mp + 3 else mp - 9)"
      "d \<le> (153 * (mp + 1) + 2) div 5 - (153 * mp + 2) div 5"
      "mp = 11 \<Longrightarrow> d \<le> (if leap (yoe + 1) then 29 else 28)"
    using assms by (rule civil_cases) blast
  have mps: "mp = 0 \<or> mp = 1 \<or> mp = 2 \<or> mp = 3 \<or> mp = 4 \<or> mp = 5 \<or> mp = 6 \<or> mp = 7 \<or> mp = 8 \<or>
      mp = 9 \<or> mp = 10 \<or> mp = 11" using c(1,2) by presburger
  have "leap y = leap (yoe + 1)" if "mp = 11"
    using leap_shift[of "yoe + 1" era] c(4,5) that by (simp add: algebra_simps)
  then show "1 \<le> m" "m \<le> 12" "1 \<le> d" "d \<le> month_length y m"
    using mps c(3,5,6,7) unfolding month_length_def by (elim disjE; simp)+
qed

section \<open>Reading\<close>

definition digit_value :: "char \<Rightarrow> nat" where
  "digit_value c = of_char c - 48"

definition number_of :: "string \<Rightarrow> nat" where
  "number_of s = foldl (\<lambda>n c. 10 * n + digit_value c) 0 s"

definition take_number :: "nat \<Rightarrow> string \<Rightarrow> (nat \<times> string) option" where
  "take_number k s =
     (if k \<le> length s \<and> list_all is_digit (take k s) then Some (number_of (take k s), drop k s) else None)"

definition take_char :: "char \<Rightarrow> string \<Rightarrow> string option" where
  "take_char c s = (case s of [] \<Rightarrow> None | d # rest \<Rightarrow> if d = c then Some rest else None)"

text \<open>A date or a time: three numbers with a separator between them.\<close>

definition take_triple :: "nat \<Rightarrow> char \<Rightarrow> string \<Rightarrow> ((nat \<times> nat \<times> nat) \<times> string) option" where
  "take_triple k c s =
     Option.bind (take_number k s) (\<lambda>(a, s). Option.bind (take_char c s) (\<lambda>s.
     Option.bind (take_number 2 s) (\<lambda>(b, s). Option.bind (take_char c s) (\<lambda>s.
     map_option (\<lambda>(d, s). ((a, b, d), s)) (take_number 2 s)))))"

definition take_fraction :: "string \<Rightarrow> (nat \<times> string) option" where
  "take_fraction s = (case take_char (CHR ''.'') s of None \<Rightarrow> Some (0, s) | Some rest \<Rightarrow> take_number 6 rest)"

definition instant_of :: "nat \<times> nat \<times> nat \<Rightarrow> nat \<times> nat \<times> nat \<Rightarrow> nat \<Rightarrow> instant option" where
  "instant_of date tod us =
     (case (date, tod) of ((y, m, d), (h, mi, sec)) \<Rightarrow>
       if 1 \<le> y \<and> 1 \<le> m \<and> m \<le> 12 \<and> 1 \<le> d \<and> int d \<le> month_length (int y) (int m) \<and> h < 24 \<and> mi < 60 \<and> sec < 60
       then Some ((days_of (int y) (int m) (int d) * 86400 + int h * 3600 + int mi * 60 + int sec) * 1000000 + int us)
       else None)"

definition read_isoformat :: "string \<Rightarrow> instant option" where
  "read_isoformat s =
     Option.bind (take_triple 4 (CHR ''-'') s) (\<lambda>(date, s). Option.bind (take_char (CHR ''T'') s) (\<lambda>s.
     Option.bind (take_triple 2 (CHR '':'') s) (\<lambda>(tod, s). Option.bind (take_fraction s) (\<lambda>(us, s).
     if s = ''+00:00'' then instant_of date tod us else None))))"

text \<open>\<open>datetime\<close> covers the years 1 to 9999.\<close>

definition in_years :: "instant \<Rightarrow> bool" where
  "in_years t = (case civil (t div 1000000 div 86400) of (y, _, _) \<Rightarrow> 1 \<le> y \<and> y \<le> 9999)"

lemma digit_char: "n < 10 \<Longrightarrow> is_digit (char_of (48 + n)) \<and> digit_value (char_of (48 + n)) = n"
  by (simp add: is_digit_def digit_value_def Let_def)

lemma decimal_digits: "list_all is_digit (decimal n) \<and> number_of (decimal n) = n"
proof (induction n rule: decimal.induct)
  case (1 n)
  show ?case
  proof (cases "n < 10")
    case True
    then show ?thesis using digit_char[of n] by (simp add: decimal.simps[of n] number_of_def)
  next
    case False
    then show ?thesis
      using 1 digit_char[of "n mod 10"] by (simp add: decimal.simps[of n] number_of_def)
  qed
qed

lemma decimal_length: "n < 10 ^ k \<Longrightarrow> 0 < k \<Longrightarrow> length (decimal n) \<le> k"
proof (induction n arbitrary: k rule: decimal.induct)
  case (1 n)
  show ?case
  proof (cases "n < 10")
    case True
    then show ?thesis using 1 by (simp add: decimal.simps[of n])
  next
    case False
    then obtain j where j: "k = Suc j" "0 < j"
      using 1(2,3) by (cases k; cases "k - 1") auto
    then have "n div 10 < 10 ^ j" using 1(2) by (simp add: div_less_iff_less_mult mult.commute)
    then show ?thesis using 1(1)[OF False, of j] j False by (simp add: decimal.simps[of n])
  qed
qed

lemma number_of_zeros: "number_of (replicate k (CHR ''0'') @ s) = number_of s"
  by (induction k) (simp_all add: number_of_def digit_value_def)

lemma take_number_pad: "n < 10 ^ k \<Longrightarrow> 0 < k \<Longrightarrow> take_number k (pad k n @ s) = Some (n, s)"
proof -
  assume n: "n < 10 ^ k" "0 < k"
  have len: "length (pad k n) = k" using decimal_length[OF n] by (simp add: pad_def Let_def)
  moreover have "list_all is_digit (pad k n)" "number_of (pad k n) = n"
    using decimal_digits[of n] number_of_zeros[of "k - length (decimal n)" "decimal n"]
    by (auto simp: pad_def Let_def list_all_iff is_digit_def)
  ultimately show ?thesis by (simp add: take_number_def)
qed

lemma take_char_hit: "take_char c (c # s) = Some s"
  by (simp add: take_char_def)

lemma take_triple_pads:
  "a < 10 ^ k \<Longrightarrow> 0 < k \<Longrightarrow> b < 100 \<Longrightarrow> d < 100 \<Longrightarrow>
   take_triple k c (pad k a @ c # pad 2 b @ c # pad 2 d @ s) = Some ((a, b, d), s)"
  using take_number_pad[of b 2] take_number_pad[of d 2]
  by (simp add: take_triple_def take_number_pad take_char_hit)

lemma take_fraction_pad:
  "us < 1000000 \<Longrightarrow>
   take_fraction ((if us = 0 then [] else ''.'' @ pad 6 us) @ ''+00:00'') = Some (us, ''+00:00'')"
  using take_number_pad[of us 6] by (auto simp: take_fraction_def take_char_def)

lemma instant_of_ints:
  "1 \<le> y \<Longrightarrow> 1 \<le> m \<Longrightarrow> m \<le> 12 \<Longrightarrow> 1 \<le> d \<Longrightarrow> d \<le> month_length y m \<Longrightarrow> 0 \<le> h \<Longrightarrow> h < 24 \<Longrightarrow>
   0 \<le> mi \<Longrightarrow> mi < 60 \<Longrightarrow> 0 \<le> sec \<Longrightarrow> sec < 60 \<Longrightarrow> 0 \<le> us \<Longrightarrow>
   instant_of (nat y, nat m, nat d) (nat h, nat mi, nat sec) (nat us) =
     Some ((days_of y m d * 86400 + h * 3600 + mi * 60 + sec) * 1000000 + us)"
  by (simp add: instant_of_def Suc_le_eq nat_less_iff nat_le_iff)

lemma read_isoformat_of:
  assumes "in_years t"
  shows "read_isoformat (isoformat t) = Some t"
proof -
  define secs where "secs = t div 1000000"
  define us where "us = t mod 1000000"
  define day where "day = secs div 86400"
  define tod where "tod = secs mod 86400"
  obtain y m d where c: "civil day = (y, m, d)" by (cases "civil day") auto
  have y: "1 \<le> y" "y \<le> 9999" using assms c by (simp_all add: in_years_def day_def secs_def)
  note date = civil_is_date[OF c]
  have d31: "d \<le> 31" using date(4) by (auto simp: month_length_def split: if_splits)
  have us: "0 \<le> us" "us < 1000000" by (simp_all add: us_def)
  have tod: "0 \<le> tod" "tod < 86400" by (simp_all add: tod_def)
  have iso: "isoformat t = pad 4 (nat y) @ CHR ''-'' # pad 2 (nat m) @ CHR ''-'' # pad 2 (nat d) @ CHR ''T'' #
      pad 2 (nat (tod div 3600)) @ CHR '':'' # pad 2 (nat (tod div 60 mod 60)) @ CHR '':'' #
      pad 2 (nat (tod mod 60)) @ (if nat us = 0 then [] else ''.'' @ pad 6 (nat us)) @ ''+00:00''"
  proof -
    have "nat us = 0 \<longleftrightarrow> us = 0" using us(1) by simp
    then show ?thesis
      using c unfolding secs_def us_def day_def tod_def by (simp only: isoformat_def Let_def) simp
  qed
  have parts: "nat y < 10 ^ 4" "nat m < 100" "nat d < 100" "nat (tod div 3600) < 10 ^ 2"
    "nat (tod div 60 mod 60) < 100" "nat (tod mod 60) < 100" "nat us < 1000000"
    using y date d31 tod us by simp_all
  have "tod div 3600 * 3600 + tod div 60 mod 60 * 60 + tod mod 60 = tod"
  proof -
    have "tod div 3600 = tod div 60 div 60" using zdiv_zmult2_eq[of 60 tod 60] by simp
    moreover have "tod div 60 div 60 * 60 + tod div 60 mod 60 = tod div 60" "tod div 60 * 60 + tod mod 60 = tod"
      by (rule div_mult_mod_eq)+
    ultimately show ?thesis by linarith
  qed
  then have "(day * 86400 + tod div 3600 * 3600 + tod div 60 mod 60 * 60 + tod mod 60) * 1000000 + us = t"
  proof -
    assume split: "tod div 3600 * 3600 + tod div 60 mod 60 * 60 + tod mod 60 = tod"
    have "day * 86400 + tod = secs" "secs * 1000000 + us = t"
      unfolding day_def tod_def us_def secs_def by (rule div_mult_mod_eq)+
    moreover have "day * 86400 + tod div 3600 * 3600 + tod div 60 mod 60 * 60 + tod mod 60 = day * 86400 + tod"
      using split by linarith
    ultimately show ?thesis by (simp only:)
  qed
  moreover have "0 \<le> tod div 3600" "tod div 3600 < 24" "0 \<le> tod div 60 mod 60" "tod div 60 mod 60 < 60"
      "0 \<le> tod mod 60" "tod mod 60 < 60"
    using tod by (simp_all add: pos_imp_zdiv_nonneg_iff div_less_iff_less_mult)
  ultimately have "instant_of (nat y, nat m, nat d)
      (nat (tod div 3600), nat (tod div 60 mod 60), nat (tod mod 60)) (nat us) = Some t"
    using instant_of_ints[OF y(1) date, of "tod div 3600" "tod div 60 mod 60" "tod mod 60" us] us(1) civil_days[OF c]
    by (simp only:)
  moreover define rest where "rest = (if nat us = 0 then [] else ''.'' @ pad 6 (nat us)) @ ''+00:00''"
  moreover have "take_fraction rest = Some (nat us, ''+00:00'')"
    unfolding rest_def by (rule take_fraction_pad[OF parts(7)])
  ultimately show ?thesis
    unfolding iso read_isoformat_def rest_def[symmetric]
    by (simp add: take_triple_pads[OF parts(1) _ parts(2,3)] take_char_hit
        take_triple_pads[OF parts(4) _ parts(5,6)] del: One_nat_def)
qed

end
