(* ===== verification/Report_Render.thy ===== *)
theory Report_Render
  imports Schema_Records Resolutions Calendar
begin

text \<open>
  Rendering a finalized review (\<open>mcp_servers/report/report_mcp/render.py\<close>): the block list both
  writers share, the Markdown writer, and the transliteration the PDF writer applies to every
  block before it hands it to fpdf2 (the PDF bytes themselves are fpdf2's, a parameter:
  None stands for its \<open>FPDFException\<close>). Strings are UTF-8 bytes; the em dash is E2 80 94.
\<close>

section \<open>The document\<close>

datatype block_kind = TitleBlock | HeadingBlock | ParaBlock | BulletBlock | NumberedBlock

record Block =
  bk_kind :: block_kind
  bk_text :: string

definition em_dash :: string where
  "em_dash = [CHR 0xE2, CHR 0x80, CHR 0x94]"

definition dash_join :: "string \<Rightarrow> string \<Rightarrow> string" where
  "dash_join a b = a @ '' '' @ em_dash @ '' '' @ b"

fun disposition_name :: "disposition \<Rightarrow> string" where
  "disposition_name Resolved = ''resolved''"
| "disposition_name Accepted = ''accepted''"
| "disposition_name Unresolved = ''unresolved''"
| "disposition_name Reopened = ''reopened''"

fun source_word :: "issue_source \<Rightarrow> string" where
  "source_word FromSynthesis = ''from synthesis''"
| "source_word FromFacilitator = ''raised by facilitator''"

text \<open>\<open>{entry.issue: entry for entry in issues}\<close>: a later entry replaces an earlier one.\<close>

definition issue_label :: "IssueEntry list \<Rightarrow> string \<Rightarrow> string" where
  "issue_label entries issue =
     (case find_last (\<lambda>e. ie_issue e = issue) entries of
        None \<Rightarrow> issue | Some e \<Rightarrow> dash_join issue (ie_title e))"

definition block :: "block_kind \<Rightarrow> string \<Rightarrow> Block" where
  "block k t = \<lparr>bk_kind = k, bk_text = t\<rparr>"

definition issue_block :: "IssueEntry \<Rightarrow> Block" where
  "issue_block e = block BulletBlock
     (dash_join (ie_issue e) (ie_title e) @ '' ('' @ source_word (ie_source e) @
      (case ie_severity e of None \<Rightarrow> [] | Some s \<Rightarrow> '', '' @ severity_name s) @ ''): '' @
      ie_description e)"

definition resolution_block :: "IssueEntry list \<Rightarrow> nat \<times> ResolutionItem \<Rightarrow> Block" where
  "resolution_block entries x = (case x of (index, item) \<Rightarrow> block NumberedBlock
     (decimal index @ ''. '' @
      dash_join (issue_label entries (ri_issue item)) (disposition_name (ri_disposition item)) @
      '' (turn '' @ decimal (ri_turn_number item) @ ''): '' @ ri_explanation item))"

definition none_block :: "Block list" where
  "none_block = [block ParaBlock ''None.'']"

definition document_blocks :: "FinalizedReview \<Rightarrow> Block list" where
  "document_blocks f =
     [block TitleBlock (dash_join ''Story Review Report'' (fr_story_id f)),
      block ParaBlock (''Story: '' @ fr_story_id f),
      block ParaBlock (''Story run: '' @ fr_story_run_id f),
      block ParaBlock (''Final turn: '' @ decimal (fr_final_turn_number f)),
      block ParaBlock (''Finalized at: '' @ isoformat (fr_finalized_at f)),
      block HeadingBlock ''Verdict'',
      block ParaBlock (''PO acceptance: '' @ (if fr_po_accepted f then ''accepted'' else ''not accepted'')),
      block HeadingBlock ''Issues''] @
     (if fr_issues f = [] then none_block else map issue_block (fr_issues f)) @
     [block HeadingBlock ''Resolutions''] @
     (if fr_resolutions f = [] then none_block
      else map (resolution_block (fr_issues f)) (enumerate 1 (fr_resolutions f))) @
     [block HeadingBlock ''Remaining open issues''] @
     (if fr_remaining_open_issues f = [] then none_block
      else map (\<lambda>i. block BulletBlock (issue_label (fr_issues f) i)) (fr_remaining_open_issues f))"

section \<open>The writers\<close>

definition block_lines :: "Block \<Rightarrow> string list" where
  "block_lines b =
     (case bk_kind b of
        TitleBlock \<Rightarrow> [''# '' @ bk_text b, []]
      | HeadingBlock \<Rightarrow> [''## '' @ bk_text b, []]
      | BulletBlock \<Rightarrow> [''- '' @ bk_text b]
      | _ \<Rightarrow> [bk_text b, []])"

definition newline :: string where "newline = [CHR 10]"

definition render_markdown :: "FinalizedReview \<Rightarrow> string" where
  "render_markdown f = rstrip (join newline (concat (map block_lines (document_blocks f)))) @ newline"

text \<open>\<open>text.replace(em dash, " - ")\<close>, then one latin-1 byte per code point, \<open>?\<close> outside it.\<close>

fun replace_dash :: "string \<Rightarrow> string" where
  "replace_dash (a # b # c # s) =
     (if [a, b, c] = em_dash then '' - '' @ replace_dash s else a # replace_dash (b # c # s))"
| "replace_dash s = s"

fun to_latin1 :: "string \<Rightarrow> string" where
  "to_latin1 [] = []"
| "to_latin1 (c # s) =
     (let n = (of_char c :: nat) in
      if n < 128 then c # to_latin1 s
      else if is_continuation c then to_latin1 s
      else case s of
          d # r \<Rightarrow> (if n = 194 then d # to_latin1 r
                   else if n = 195 then char_of ((of_char d :: nat) + 64) # to_latin1 r
                   else CHR ''?'' # to_latin1 (d # r))
        | [] \<Rightarrow> [CHR ''?''])"

definition latin1 :: "string \<Rightarrow> string" where
  "latin1 s = to_latin1 (replace_dash s)"

datatype font_style = Bold16 | Bold12 | Regular10

definition block_style :: "Block \<Rightarrow> font_style" where
  "block_style b = (case bk_kind b of TitleBlock \<Rightarrow> Bold16 | HeadingBlock \<Rightarrow> Bold12 | _ \<Rightarrow> Regular10)"

type_synonym pdf_engine = "(font_style \<times> string) list \<Rightarrow> string option"

definition render_pdf :: "pdf_engine \<Rightarrow> FinalizedReview \<Rightarrow> string option" where
  "render_pdf engine f = engine (map (\<lambda>b. (block_style b, latin1 (bk_text b))) (document_blocks f))"

definition render :: "pdf_engine \<Rightarrow> FinalizedReview \<Rightarrow> report_format \<Rightarrow> string option" where
  "render engine f fmt = (case fmt of Md \<Rightarrow> Some (render_markdown f) | Pdf \<Rightarrow> render_pdf engine f)"

section \<open>What a report shows\<close>

lemma document_issue: "e \<in> set (fr_issues f) \<Longrightarrow> issue_block e \<in> set (document_blocks f)"
  by (auto simp: document_blocks_def)

lemma document_resolution:
  "i < length (fr_resolutions f) \<Longrightarrow>
   resolution_block (fr_issues f) (Suc i, fr_resolutions f ! i) \<in> set (document_blocks f)"
proof -
  assume i: "i < length (fr_resolutions f)"
  then have "(1 + i, fr_resolutions f ! i) \<in> set (enumerate 1 (fr_resolutions f))"
    by (simp add: in_set_enumerate_eq)
  with i show ?thesis
    by (auto simp: document_blocks_def)
qed

lemma document_open_issue:
  "i \<in> set (fr_remaining_open_issues f) \<Longrightarrow>
   block BulletBlock (issue_label (fr_issues f) i) \<in> set (document_blocks f)"
  by (auto simp: document_blocks_def)

text \<open>The transliteration yields one character per code point that is not an em dash.\<close>

lemma replace_dash_plain: "CHR 0xE2 \<notin> set s \<Longrightarrow> replace_dash s = s"
  by (induction s rule: replace_dash.induct) (auto simp: em_dash_def)

lemma to_latin1_ascii: "list_all (\<lambda>c. (of_char c :: nat) < 128) s \<Longrightarrow> to_latin1 s = s"
  by (induction s rule: to_latin1.induct) (auto simp: Let_def)

text \<open>Plain ASCII text reaches the PDF unchanged: the lossy transliteration only touches
  other characters.\<close>

lemma latin1_ascii:
  assumes "list_all (\<lambda>c. (of_char c :: nat) < 128) s"
  shows "latin1 s = s"
proof -
  have "CHR 0xE2 \<notin> set s" using assms by (auto simp: list_all_iff)
  then show ?thesis using assms by (simp add: latin1_def replace_dash_plain to_latin1_ascii)
qed

lemma latin1_ascii_witness: "latin1 ''B-1: plain text'' = ''B-1: plain text''"
  by (rule latin1_ascii) simp

lemma label_catalogued:
  assumes "distinct (map ie_issue es)" "e \<in> set es"
  shows "issue_label es (ie_issue e) = dash_join (ie_issue e) (ie_title e)"
  using find_last_find[of ie_issue, OF assms] by (simp add: issue_label_def)

lemma dash_join_longer: "dash_join a b \<noteq> a"
  by (simp add: dash_join_def)

lemma final_state_catalog:
  assumes "validate_final_state f"
  shows "distinct (map ie_issue (fr_issues f))"
    "ri_issue ` set (fr_resolutions f) \<subseteq> ie_issue ` set (fr_issues f)"
    "set (fr_remaining_open_issues f) \<subseteq> ie_issue ` set (fr_issues f)"
proof -
  note v = assms[unfolded validate_final_state_def Let_def]
  show "distinct (map ie_issue (fr_issues f))" using v by blast
  show "set (fr_remaining_open_issues f) \<subseteq> ie_issue ` set (fr_issues f)"
    using v by (auto simp: list_all_iff)
  have "set (dict_keys (latest_dict (fr_resolutions f) [])) \<subseteq> ie_issue ` set (fr_issues f)"
    using v by (auto simp: list_all_iff)
  then show "ri_issue ` set (fr_resolutions f) \<subseteq> ie_issue ` set (fr_issues f)"
    unfolding latest_dict_keys by simp
qed

subsection \<open>Lines of the Markdown\<close>

lemma contains_iff: "contains n s \<longleftrightarrow> (\<exists>a b. s = a @ n @ b)"
proof (induction s)
  case (Cons c s)
  show ?case
  proof
    assume "contains n (c # s)"
    then consider r where "c # s = n @ r" | a b where "s = a @ n @ b"
      using Cons.IH starts_with_append by (metis contains.simps(2))
    then show "\<exists>a b. c # s = a @ n @ b"
      by cases (metis append_Nil, metis append_Cons)
  next
    assume "\<exists>a b. c # s = a @ n @ b"
    then obtain a b where ab: "c # s = a @ n @ b" by blast
    show "contains n (c # s)"
    proof (cases a)
      case Nil
      then have "starts_with n (c # s)" using ab by (simp only: starts_with_append append_Nil) blast
      then show ?thesis by simp
    next
      case (Cons d r)
      then show ?thesis using ab Cons.IH by auto
    qed
  qed
qed simp

lemma text_ok_last: "text_ok t \<Longrightarrow> t \<noteq> [] \<and> \<not> is_space (last t)"
proof -
  assume "text_ok t"
  then have t: "strip t = t" "t \<noteq> []"
    by (auto simp: text_ok_def Text_def bounded_text_def py_len_def Let_def split: if_splits)
  then have "rstrip (lstrip t) = t" by (simp add: strip_def)
  then have "t = rev (dropWhile is_space (rev (lstrip t)))" by (simp add: rstrip_def)
  then have "rev t = dropWhile is_space (rev (lstrip t))" by (metis rev_rev_ident)
  then have "\<not> is_space (hd (rev t))" using t(2) hd_dropWhile by (metis rev_is_Nil_conv)
  then show ?thesis using t(2) by (simp add: hd_rev)
qed

lemma rstrip_stops: "l \<noteq> [] \<Longrightarrow> \<not> is_space (last l) \<Longrightarrow> rstrip (u @ l @ v) = u @ l @ rstrip v"
proof -
  assume l: "l \<noteq> []" "\<not> is_space (last l)"
  have "dropWhile is_space (rev l @ w) = rev l @ w" for w
    using l by (simp add: dropWhile_eq_self_iff hd_append hd_rev)
  then show ?thesis
    by (cases "\<forall>c \<in> set v. is_space c") (auto simp: rstrip_def dropWhile_append)
qed

lemma rstrip_newline: "rstrip (newline @ w) = [] \<or> (\<exists>r. rstrip (newline @ w) = newline @ r)"
proof (cases "\<forall>c \<in> set w. is_space c")
  case True
  then have "rstrip (newline @ w) = []" by (simp add: rstrip_def newline_def is_space_def)
  then show ?thesis ..
next
  case False
  then have "rstrip (newline @ w) = newline @ rstrip w" by (auto simp: rstrip_def newline_def dropWhile_append)
  then show ?thesis by blast
qed

lemma join_at:
  "xs \<noteq> [] \<Longrightarrow> join sep (xs @ l # ys) = join sep xs @ sep @ l @ (if ys = [] then [] else sep @ join sep ys)"
  by (induction sep xs rule: join.induct) (auto simp: neq_Nil_conv)

lemma line_survives:
  assumes "l \<in> set ls" "l \<noteq> []" "\<not> is_space (last l)" "xs \<noteq> []"
  shows "contains (newline @ l @ newline) (rstrip (join newline (xs @ ls)) @ newline)"
proof -
  obtain as bs where ls: "ls = as @ l # bs" using split_list[OF assms(1)] by blast
  let ?v = "if bs = [] then [] else newline @ join newline bs"
  have "join newline (xs @ ls) = (join newline (xs @ as) @ newline) @ l @ ?v"
    using join_at[of "xs @ as" newline l bs] assms(4) by (simp add: ls)
  then have whole: "rstrip (join newline (xs @ ls)) = join newline (xs @ as) @ newline @ l @ rstrip ?v"
    using rstrip_stops[OF assms(2,3), of "join newline (xs @ as) @ newline" ?v] by simp
  have "\<exists>r. rstrip ?v @ newline = newline @ r"
    using rstrip_newline[of "join newline bs"] by (cases bs) (auto simp: rstrip_def[of "[]"])
  then obtain r where "rstrip ?v @ newline = newline @ r" by blast
  then have "rstrip (join newline (xs @ ls)) @ newline = join newline (xs @ as) @ (newline @ l @ newline) @ r"
    by (simp add: whole)
  then show ?thesis unfolding contains_iff by blast
qed

lemma markdown_line:
  assumes "b \<in> set (document_blocks f)" "bk_kind b \<noteq> TitleBlock" "l \<in> set (block_lines b)"
    "l \<noteq> []" "\<not> is_space (last l)"
  shows "contains (newline @ l @ newline) (render_markdown f)"
proof -
  obtain t bs where blocks: "document_blocks f = t # bs" and title: "bk_kind t = TitleBlock"
    by (simp add: document_blocks_def block_def)
  then have "b \<in> set bs" using assms(1,2) by auto
  then have "l \<in> set (concat (map block_lines bs))" using assms(3) by auto
  from line_survives[OF this assms(4,5), of "block_lines t"] show ?thesis
    using title by (simp add: render_markdown_def blocks block_lines_def)
qed

lemma block_texts:
  "bk_kind (issue_block e) = BulletBlock" "bk_kind (resolution_block es x) = NumberedBlock"
  "bk_kind (block k t) = k" "bk_text (block k t) = t"
  by (simp_all add: issue_block_def resolution_block_def block_def split: prod.split)

lemma resolution_text:
  "bk_text (resolution_block es (n, r)) =
     decimal n @ ''. '' @ dash_join (issue_label es (ri_issue r)) (disposition_name (ri_disposition r)) @
     '' (turn '' @ decimal (ri_turn_number r) @ ''): '' @ ri_explanation r"
  by (simp add: resolution_block_def block_def)

lemma bullet_shown:
  assumes "b \<in> set (document_blocks f)" "bk_kind b = BulletBlock" "bk_text b = u @ t" "text_ok t"
  shows "contains (newline @ ''- '' @ bk_text b @ newline) (render_markdown f)"
proof -
  have "contains (newline @ (''- '' @ bk_text b) @ newline) (render_markdown f)"
  proof (rule markdown_line[OF assms(1)])
    show "bk_kind b \<noteq> TitleBlock" "''- '' @ bk_text b \<in> set (block_lines b)"
      by (simp_all add: assms(2) block_lines_def)
    show "''- '' @ bk_text b \<noteq> []" by simp
    show "\<not> is_space (last (''- '' @ bk_text b))"
      using text_ok_last[OF assms(4)] by (simp add: assms(3))
  qed
  then show ?thesis by (simp only: append_assoc)
qed

lemma resolution_shown:
  assumes "valid_FinalizedReview f" "i < length (fr_resolutions f)"
  shows "contains (newline @ bk_text (resolution_block (fr_issues f) (Suc i, fr_resolutions f ! i)) @ newline)
    (render_markdown f)"
proof (rule markdown_line[OF document_resolution[OF assms(2)]])
  let ?b = "resolution_block (fr_issues f) (Suc i, fr_resolutions f ! i)"
  show "bk_kind ?b \<noteq> TitleBlock" "bk_text ?b \<in> set (block_lines ?b)"
    by (simp_all add: block_texts(2) block_lines_def)
  have "text_ok (ri_explanation (fr_resolutions f ! i))"
    using assms by (auto simp: valid_FinalizedReview_def valid_ResolutionItem_def list_all_length)
  from text_ok_last[OF this] show "bk_text ?b \<noteq> []" "\<not> is_space (last (bk_text ?b))"
    unfolding resolution_text by simp_all
qed

lemma issue_text: "\<exists>u. bk_text (issue_block e) = u @ ie_description e"
  unfolding issue_block_def block_texts append_assoc[symmetric] by blast

lemma valid_issue_texts:
  "valid_FinalizedReview f \<Longrightarrow> e \<in> set (fr_issues f) \<Longrightarrow> text_ok (ie_description e) \<and> text_ok (ie_title e)"
  by (auto simp: valid_FinalizedReview_def valid_IssueEntry_def list_all_iff)

text \<open>The cells of the PDF.\<close>

definition pdf_cells :: "FinalizedReview \<Rightarrow> (font_style \<times> string) list" where
  "pdf_cells f = map (\<lambda>b. (block_style b, latin1 (bk_text b))) (document_blocks f)"

lemma pdf_cell:
  "bk_kind b = BulletBlock \<or> bk_kind b = NumberedBlock \<Longrightarrow> b \<in> set (document_blocks f) \<Longrightarrow>
   (Regular10, latin1 (bk_text b)) \<in> set (pdf_cells f)"
  unfolding pdf_cells_def set_map by (rule image_eqI[where x = b]) (auto simp: block_style_def)


section \<open>A concrete review\<close>

definition demo_run :: string where
  "demo_run = ''run-00000000-0000-4000-8000-000000000001''"

definition demo_reference :: "artifact_type \<Rightarrow> ArtifactReference" where
  "demo_reference ty =
     \<lparr>ar_artifact_id = ''art-00000000-0000-4000-8000-000000000002'', ar_story_run_id = demo_run,
      ar_type = ty, ar_perspective = expected_perspective ty, ar_version = 1, ar_created_at = 0,
      ar_content_type = expected_content_type ty,
      ar_checksum_sha256 = replicate 64 (CHR ''a''), ar_is_latest = True\<rparr>"

definition demo_review :: FinalizedReview where
  "demo_review =
     \<lparr>fr_story_id = ''story-01'', fr_story_run_id = demo_run,
      fr_synthesis_reference = demo_reference SynthesisArtifact,
      fr_issues = [\<lparr>ie_issue = ''B-1'', ie_title = ''Gap'', ie_description = ''Missing rule'',
                    ie_severity = Some Major, ie_source = FromSynthesis\<rparr>],
      fr_resolutions = [\<lparr>ri_issue = ''B-1'', ri_disposition = Resolved,
                         ri_explanation = ''PO decided'', ri_turn_number = 2\<rparr>],
      fr_remaining_open_issues = [], fr_po_accepted = True, fr_final_turn_number = 3,
      fr_finalized_at = 1000000\<rparr>"

lemma demo_review_valid: "valid_FinalizedReview demo_review"
  by code_simp


end
