(* ===== verification/Report_Store.thy ===== *)
theory Report_Store
  imports Report_Render Artifact_Store
begin

text \<open>
  The report server's store: \<open>ReportStore\<close> of \<open>mcp_servers/report/report_mcp/storage.py\<close>. It
  reads finalized reviews from the artifact records (never writes them) and keeps three object
  families of its own: the (run, format) claims, the rendered bytes and the report references.
  As in the artifact store, every bucket access consumes one unit of \<open>ro_budget\<close> and the
  process dies at 0. \<open>uuid4\<close>, SHA-256 and the PDF engine are parameters (\<open>rep_env\<close>).
\<close>

section \<open>State and environment\<close>

record report_claim =
  rc_artifact_id :: string
  rc_final_id :: string
  rc_final_checksum :: string

record rep_state =
  ro_claims :: "(string \<times> report_format, report_claim) dict"
  ro_bytes :: "(string \<times> string \<times> report_format, string) dict"
  ro_meta :: "(string \<times> string, ArtifactReference) dict"
  ro_minted :: nat
  ro_clock :: instant
  ro_budget :: "nat option"

record rep_env =
  pv_uuid :: "nat \<Rightarrow> uuid"
  pv_sha256 :: "string \<Rightarrow> string"
  pv_pdf :: pdf_engine

datatype rep_exc =
    FinalizedReviewNotFound | ChecksumMismatch | RepValidationError | IdempotencyConflict
  | FPDFException | RepPreconditionFailed | RepCrashed

type_synonym 'a rep = "(rep_state, rep_exc, 'a) comp"
type_synonym art_records = "(string \<times> string, art_record) dict"

definition rep_tick :: "unit rep" where
  "rep_tick =
     andThen (gets ro_budget) (\<lambda>b. case b of
         None \<Rightarrow> ret ()
       | Some n \<Rightarrow> if n = 0 then raise RepCrashed else modify (\<lambda>s. s\<lparr>ro_budget := Some (n - 1)\<rparr>))"

section \<open>Reading the finalized review\<close>

definition read_finalized_review :: "art_records \<Rightarrow> RenderReportInput \<Rightarrow> art_record rep" where
  "read_finalized_review arts q =
     andThen rep_tick (\<lambda>_.
     case map_of arts (rp_run q, ar_artifact_id (rp_final q)) of
       None \<Rightarrow> raise FinalizedReviewNotFound
     | Some r \<Rightarrow>
         if ar_type (rec_reference r) \<noteq> FinalizedReviewArtifact then raise FinalizedReviewNotFound
         else if ar_checksum_sha256 (rec_reference r) \<noteq> ar_checksum_sha256 (rp_final q)
         then raise ChecksumMismatch
         else ret r)"

text \<open>\<open>FinalizedReview.model_validate(record["content"])\<close>.\<close>

definition review_content :: "art_record \<Rightarrow> FinalizedReview rep" where
  "review_content r =
     (case rec_content r of
        FinalContent f \<Rightarrow> if valid_FinalizedReview f then ret f else raise RepValidationError
      | _ \<Rightarrow> raise RepValidationError)"

definition rendered_bytes :: "rep_env \<Rightarrow> FinalizedReview \<Rightarrow> report_format \<Rightarrow> string rep" where
  "rendered_bytes env f fmt =
     (case render (pv_pdf env) f fmt of None \<Rightarrow> raise FPDFException | Some b \<Rightarrow> ret b)"

section \<open>Claim and write\<close>

definition claim_report ::
    "RenderReportInput \<Rightarrow> string \<Rightarrow> art_record \<Rightarrow> report_claim option rep" where
  "claim_report q aid record =
     (let key = (rp_run q, rp_format q);
          payload = \<lparr>rc_artifact_id = aid, rc_final_id = ar_artifact_id (rp_final q),
                     rc_final_checksum = ar_checksum_sha256 (rec_reference record)\<rparr>
      in andThen rep_tick (\<lambda>_.
         andThen (gets (\<lambda>s. map_of (ro_claims s) key)) (\<lambda>old.
         case old of
           None \<Rightarrow>
             andThen (modify (\<lambda>s. s\<lparr>ro_claims := dict_put key payload (ro_claims s)\<rparr>)) (\<lambda>_. ret None)
         | Some winner \<Rightarrow>
             andThen rep_tick (\<lambda>_.
             if rc_final_id winner = ar_artifact_id (rp_final q) \<and>
                rc_final_checksum winner = ar_checksum_sha256 (rec_reference record)
             then ret (Some winner) else raise IdempotencyConflict))))"

definition report_references :: "rep_state \<Rightarrow> string \<Rightarrow> ArtifactReference list" where
  "report_references s run = map snd (filter (\<lambda>x. fst (fst x) = run) (ro_meta s))"

definition next_report_version :: "string \<Rightarrow> artifact_type \<Rightarrow> nat rep" where
  "next_report_version run ty =
     andThen rep_tick (\<lambda>_. gets (\<lambda>s.
       foldr max (map ar_version (filter (\<lambda>r. ar_type r = ty) (report_references s run))) 0 + 1))"

definition new_report_reference ::
    "rep_env \<Rightarrow> RenderReportInput \<Rightarrow> string \<Rightarrow> string \<Rightarrow> ArtifactReference rep" where
  "new_report_reference env q aid rendered =
     andThen (next_report_version (rp_run q) (report_type (rp_format q))) (\<lambda>v.
     andThen (gets ro_clock) (\<lambda>now.
     ret \<lparr>ar_artifact_id = aid, ar_story_run_id = rp_run q, ar_type = report_type (rp_format q),
          ar_perspective = None, ar_version = v, ar_created_at = now,
          ar_content_type = expected_content_type (report_type (rp_format q)),
          ar_checksum_sha256 = pv_sha256 env rendered, ar_is_latest = False\<rparr>))"

definition write_report_bytes ::
    "rep_env \<Rightarrow> RenderReportInput \<Rightarrow> ArtifactReference \<Rightarrow> string \<Rightarrow> unit rep" where
  "write_report_bytes env q ref rendered =
     (let key = (rp_run q, ar_artifact_id ref, rp_format q) in
      andThen rep_tick (\<lambda>_.
      andThen (gets (\<lambda>s. map_of (ro_bytes s) key)) (\<lambda>old.
      case old of
        None \<Rightarrow> modify (\<lambda>s. s\<lparr>ro_bytes := dict_put key rendered (ro_bytes s)\<rparr>)
      | Some existing \<Rightarrow>
          andThen rep_tick (\<lambda>_.
          require (pv_sha256 env existing = ar_checksum_sha256 ref) RepPreconditionFailed))))"

text \<open>The reference object is never deleted, so \<open>meta.exists()\<close> holds after a failed precondition.\<close>

definition write_report_meta :: "RenderReportInput \<Rightarrow> ArtifactReference \<Rightarrow> unit rep" where
  "write_report_meta q ref =
     (let key = (rp_run q, ar_artifact_id ref) in
      andThen rep_tick (\<lambda>_.
      andThen (gets (\<lambda>s. map_of (ro_meta s) key)) (\<lambda>old.
      case old of
        None \<Rightarrow> modify (\<lambda>s. s\<lparr>ro_meta := dict_put key ref (ro_meta s)\<rparr>)
      | Some _ \<Rightarrow> rep_tick)))"

definition write_report ::
    "rep_env \<Rightarrow> RenderReportInput \<Rightarrow> ArtifactReference \<Rightarrow> string \<Rightarrow> unit rep" where
  "write_report env q ref rendered =
     andThen (write_report_bytes env q ref rendered) (\<lambda>_. write_report_meta q ref)"

definition read_meta_or_none :: "string \<Rightarrow> string \<Rightarrow> ArtifactReference option rep" where
  "read_meta_or_none run aid = andThen rep_tick (\<lambda>_. gets (\<lambda>s. map_of (ro_meta s) (run, aid)))"

definition mint_report_id :: "rep_env \<Rightarrow> string rep" where
  "mint_report_id env =
     andThen (gets ro_minted) (\<lambda>n.
     andThen (modify (\<lambda>s. s\<lparr>ro_minted := n + 1\<rparr>)) (\<lambda>_. ret (artifact_id_of (pv_uuid env n))))"

definition write_new_report ::
    "rep_env \<Rightarrow> RenderReportInput \<Rightarrow> string \<Rightarrow> string \<Rightarrow> (ArtifactReference \<times> bool) rep" where
  "write_new_report env q aid rendered =
     andThen (new_report_reference env q aid rendered) (\<lambda>ref.
     andThen (write_report env q ref rendered) (\<lambda>_. ret (ref, True)))"

definition after_claim ::
    "rep_env \<Rightarrow> RenderReportInput \<Rightarrow> string \<Rightarrow> string \<Rightarrow> report_claim option \<Rightarrow>
     (ArtifactReference \<times> bool) rep" where
  "after_claim env q aid rendered winner =
     (case winner of
       None \<Rightarrow> write_new_report env q aid rendered
     | Some w \<Rightarrow>
         andThen (read_meta_or_none (rp_run q) (rc_artifact_id w)) (\<lambda>existing.
         case existing of
           Some ref \<Rightarrow>
             if format_matches_reference ref (rp_format q) then ret (ref, False)
             else raise RepValidationError
         | None \<Rightarrow> write_new_report env q (rc_artifact_id w) rendered))"

definition store_report ::
    "rep_env \<Rightarrow> RenderReportInput \<Rightarrow> art_record \<Rightarrow> string \<Rightarrow> (ArtifactReference \<times> bool) rep" where
  "store_report env q record rendered =
     andThen (mint_report_id env) (\<lambda>aid.
     andThen (claim_report q aid record) (after_claim env q aid rendered))"

definition render_report ::
    "rep_env \<Rightarrow> art_records \<Rightarrow> RenderReportInput \<Rightarrow> (ArtifactReference \<times> bool) rep" where
  "render_report env arts q =
     andThen (read_finalized_review arts q) (\<lambda>record.
     andThen (review_content record) (\<lambda>f.
     andThen (rendered_bytes env f (rp_format q)) (store_report env q record)))"

section \<open>What the store promises\<close>

text \<open>
  The bytes a claim stands for: the rendering of the finalized review it pins. None when the
  artifact records hold no such review or the PDF engine rejects it.
\<close>

definition review_of :: "art_records \<Rightarrow> string \<Rightarrow> string \<Rightarrow> string \<Rightarrow> FinalizedReview option" where
  "review_of arts run fid csum =
     (case map_of arts (run, fid) of
        None \<Rightarrow> None
      | Some r \<Rightarrow>
          (case rec_content r of
             FinalContent f \<Rightarrow>
               if ar_type (rec_reference r) = FinalizedReviewArtifact \<and>
                  ar_checksum_sha256 (rec_reference r) = csum \<and> valid_FinalizedReview f
               then Some f else None
           | _ \<Rightarrow> None))"

definition rendering ::
    "rep_env \<Rightarrow> art_records \<Rightarrow> string \<Rightarrow> string \<Rightarrow> string \<Rightarrow> report_format \<Rightarrow> string option" where
  "rendering env arts run fid csum fmt =
     Option.bind (review_of arts run fid csum) (\<lambda>f. render (pv_pdf env) f fmt)"

definition rendering_for :: "rep_env \<Rightarrow> art_records \<Rightarrow> RenderReportInput \<Rightarrow> string option" where
  "rendering_for env arts q =
     rendering env arts (rp_run q) (ar_artifact_id (rp_final q))
       (ar_checksum_sha256 (rp_final q)) (rp_format q)"

definition claim_for :: "RenderReportInput \<Rightarrow> string \<Rightarrow> report_claim" where
  "claim_for q aid =
     \<lparr>rc_artifact_id = aid, rc_final_id = ar_artifact_id (rp_final q),
      rc_final_checksum = ar_checksum_sha256 (rp_final q)\<rparr>"

definition claim_ids :: "rep_env \<Rightarrow> rep_state \<Rightarrow> bool" where
  "claim_ids env s =
     ((\<forall>k c. map_of (ro_claims s) k = Some c \<longrightarrow>
         (\<exists>i < ro_minted s. rc_artifact_id c = artifact_id_of (pv_uuid env i))) \<and>
      (\<forall>k c k' c'. map_of (ro_claims s) k = Some c \<longrightarrow> map_of (ro_claims s) k' = Some c' \<longrightarrow>
         rc_artifact_id c = rc_artifact_id c' \<longrightarrow> k = k'))"

definition bytes_ok :: "rep_env \<Rightarrow> art_records \<Rightarrow> rep_state \<Rightarrow> bool" where
  "bytes_ok env arts s =
     (\<forall>run aid fmt b. map_of (ro_bytes s) (run, aid, fmt) = Some b \<longrightarrow>
        (\<exists>c. map_of (ro_claims s) (run, fmt) = Some c \<and> rc_artifact_id c = aid \<and>
           rendering env arts run (rc_final_id c) (rc_final_checksum c) fmt = Some b))"

definition report_ok :: "rep_env \<Rightarrow> rep_state \<Rightarrow> string \<Rightarrow> string \<Rightarrow> ArtifactReference \<Rightarrow> bool" where
  "report_ok env s run aid ref =
     (\<exists>fmt c b. ar_artifact_id ref = aid \<and> ar_story_run_id ref = run \<and> ar_version ref = 1 \<and>
        ar_type ref = report_type fmt \<and> ar_checksum_sha256 ref = pv_sha256 env b \<and>
        map_of (ro_claims s) (run, fmt) = Some c \<and> rc_artifact_id c = aid \<and>
        map_of (ro_bytes s) (run, aid, fmt) = Some b)"

definition metas_ok :: "rep_env \<Rightarrow> rep_state \<Rightarrow> bool" where
  "metas_ok env s =
     (distinct (dict_keys (ro_meta s)) \<and>
      (\<forall>run aid ref. map_of (ro_meta s) (run, aid) = Some ref \<longrightarrow> report_ok env s run aid ref))"

definition rep_inv :: "rep_env \<Rightarrow> art_records \<Rightarrow> nat \<Rightarrow> rep_state \<Rightarrow> bool" where
  "rep_inv env arts n s =
     (inj_on (pv_uuid env) {..<ro_minted s + n} \<and> claim_ids env s \<and> bytes_ok env arts s \<and>
      metas_ok env s)"

lemmas rep_inv_defs = rep_inv_def claim_ids_def bytes_ok_def metas_ok_def report_ok_def

lemma rep_inv_frame [simp]:
  "rep_inv env arts n (s\<lparr>ro_budget := b\<rparr>) = rep_inv env arts n s"
  "rep_inv env arts n (s\<lparr>ro_clock := t\<rparr>) = rep_inv env arts n s"
  by (simp_all add: rep_inv_defs)

lemma rep_inv_mono: "rep_inv env arts n s \<Longrightarrow> m \<le> n \<Longrightarrow> rep_inv env arts m s"
  by (auto simp: rep_inv_def intro: inj_on_subset)

definition no_reports :: rep_state where
  "no_reports = \<lparr>ro_claims = [], ro_bytes = [], ro_meta = [], ro_minted = 0, ro_clock = 0, ro_budget = None\<rparr>"

lemma rep_inv_empty: "inj_on (pv_uuid env) {..<n} \<Longrightarrow> rep_inv env arts n no_reports"
  by (simp add: rep_inv_defs no_reports_def dict_keys_def)

section \<open>Each step keeps the invariant\<close>

lemma triple_tick:
  "(\<And>s b. P s \<Longrightarrow> Q () (s\<lparr>ro_budget := b\<rparr>)) \<Longrightarrow> (\<And>s. P s \<Longrightarrow> Q () s) \<Longrightarrow> (\<And>s. P s \<Longrightarrow> E s) \<Longrightarrow>
   triple P rep_tick Q E"
  by (auto simp: triple_def rep_tick_def comp_simps split: option.splits if_splits)

lemma triple_read_review:
  "triple (rep_inv env arts n) (read_finalized_review arts q)
    (\<lambda>r s. rep_inv env arts n s \<and> map_of arts (rp_run q, ar_artifact_id (rp_final q)) = Some r \<and>
       ar_type (rec_reference r) = FinalizedReviewArtifact \<and>
       ar_checksum_sha256 (rec_reference r) = ar_checksum_sha256 (rp_final q))
    (rep_inv env arts n)"
  unfolding read_finalized_review_def
  by (rule triple_andThen[where R = "\<lambda>_. rep_inv env arts n"])
     (auto intro!: triple_tick triple_raise triple_ret split: option.split)

lemma triple_mint_report:
  "triple (rep_inv env arts (Suc n)) (mint_report_id env)
    (\<lambda>aid s. rep_inv env arts n s \<and> (\<exists>i < ro_minted s. aid = artifact_id_of (pv_uuid env i)) \<and>
       (\<forall>k c. map_of (ro_claims s) k = Some c \<longrightarrow> rc_artifact_id c \<noteq> aid))
    E"
proof -
  have "rc_artifact_id c \<noteq> artifact_id_of (pv_uuid env (ro_minted s))"
    if inv: "rep_inv env arts (Suc n) s" and c: "map_of (ro_claims s) k = Some c" for s k c
  proof -
    obtain i where "i < ro_minted s" "rc_artifact_id c = artifact_id_of (pv_uuid env i)"
      using inv c unfolding rep_inv_def claim_ids_def by blast
    moreover have "inj_on (pv_uuid env) {..<ro_minted s + Suc n}" using inv by (simp add: rep_inv_def)
    ultimately show ?thesis
      using inj_onD[of "pv_uuid env" "{..<ro_minted s + Suc n}" i "ro_minted s"]
      by (auto simp: minted_inj)
  qed
  moreover have "rep_inv env arts n (s\<lparr>ro_minted := Suc (ro_minted s)\<rparr>)"
    if "rep_inv env arts (Suc n) s" for s
  proof -
    let ?t = "s\<lparr>ro_minted := Suc (ro_minted s)\<rparr>"
    note inv = that[unfolded rep_inv_def]
    have "claim_ids env ?t"
      using inv unfolding claim_ids_def by (simp add: less_Suc_eq) blast
    moreover have "bytes_ok env arts ?t" "metas_ok env ?t"
      using inv by (simp_all add: bytes_ok_def metas_ok_def report_ok_def)
    ultimately show ?thesis using inv unfolding rep_inv_def by simp
  qed
  ultimately show ?thesis
    unfolding mint_report_id_def triple_def
    by (auto simp: comp_simps)
qed

lemma rep_inv_claim:
  assumes "rep_inv env arts n s" "map_of (ro_claims s) (run, fmt) = None"
    "i < ro_minted s" "rc_artifact_id c = artifact_id_of (pv_uuid env i)"
    "\<And>k d. map_of (ro_claims s) k = Some d \<Longrightarrow> rc_artifact_id d \<noteq> rc_artifact_id c"
  shows "rep_inv env arts n (s\<lparr>ro_claims := dict_put (run, fmt) c (ro_claims s)\<rparr>)"
proof -
  let ?t = "s\<lparr>ro_claims := dict_put (run, fmt) c (ro_claims s)\<rparr>"
  note inv = assms(1)[unfolded rep_inv_def]
  have new: "map_of (ro_claims ?t) k = (if k = (run, fmt) then Some c else map_of (ro_claims s) k)" for k
    by (simp add: map_of_dict_put)
  have old: "map_of (ro_claims s) k = Some d \<Longrightarrow> map_of (ro_claims ?t) k = Some d" for k d
    using assms(2) unfolding new by auto
  have "claim_ids env ?t"
    using inv assms(3-5) unfolding claim_ids_def new by (simp split: if_splits) metis
  moreover have "bytes_ok env arts ?t"
    unfolding bytes_ok_def
  proof (intro allI impI)
    fix run' aid fmt' b
    assume "map_of (ro_bytes ?t) (run', aid, fmt') = Some b"
    then obtain d where "map_of (ro_claims s) (run', fmt') = Some d" "rc_artifact_id d = aid"
        "rendering env arts run' (rc_final_id d) (rc_final_checksum d) fmt' = Some b"
      using inv unfolding bytes_ok_def by simp blast
    then show "\<exists>d. map_of (ro_claims ?t) (run', fmt') = Some d \<and> rc_artifact_id d = aid \<and>
        rendering env arts run' (rc_final_id d) (rc_final_checksum d) fmt' = Some b"
      using old by blast
  qed
  moreover have "metas_ok env ?t"
    unfolding metas_ok_def
  proof (intro conjI allI impI)
    show "distinct (dict_keys (ro_meta ?t))" using inv by (simp add: metas_ok_def)
    fix run' aid ref
    assume "map_of (ro_meta ?t) (run', aid) = Some ref"
    then have "report_ok env s run' aid ref" using inv by (simp add: metas_ok_def)
    then show "report_ok env ?t run' aid ref" unfolding report_ok_def using old by fastforce
  qed
  ultimately show ?thesis using inv unfolding rep_inv_def by simp
qed

definition claimed_for :: "RenderReportInput \<Rightarrow> string \<Rightarrow> rep_state \<Rightarrow> bool" where
  "claimed_for q aid s = (map_of (ro_claims s) (rp_run q, rp_format q) = Some (claim_for q aid))"

lemma triple_claim_report:
  assumes "ar_checksum_sha256 (rec_reference r) = ar_checksum_sha256 (rp_final q)"
  shows "triple
    (\<lambda>s. rep_inv env arts n s \<and> (\<exists>i < ro_minted s. aid = artifact_id_of (pv_uuid env i)) \<and>
       (\<forall>k c. map_of (ro_claims s) k = Some c \<longrightarrow> rc_artifact_id c \<noteq> aid))
    (claim_report q aid r)
    (\<lambda>w s. rep_inv env arts n s \<and>
       (case w of None \<Rightarrow> claimed_for q aid s \<and> map_of (ro_meta s) (rp_run q, aid) = None
        | Some c \<Rightarrow> c = claim_for q (rc_artifact_id c) \<and> claimed_for q (rc_artifact_id c) s))
    (rep_inv env arts n)"
  (is "triple ?P _ ?Q ?E")
  unfolding claim_report_def Let_def
proof (rule triple_andThen[where R = "\<lambda>_. ?P"])
  show "triple ?P rep_tick (\<lambda>_. ?P) ?E" by (rule triple_tick) simp_all
  fix u
  show "triple ?P (andThen (gets (\<lambda>s. map_of (ro_claims s) (rp_run q, rp_format q))) (\<lambda>old.
      case old of
        None \<Rightarrow> andThen (modify (\<lambda>s. s\<lparr>ro_claims := dict_put (rp_run q, rp_format q)
            \<lparr>rc_artifact_id = aid, rc_final_id = ar_artifact_id (rp_final q),
             rc_final_checksum = ar_checksum_sha256 (rec_reference r)\<rparr> (ro_claims s)\<rparr>)) (\<lambda>_. ret None)
      | Some w \<Rightarrow> andThen rep_tick (\<lambda>_.
          if rc_final_id w = ar_artifact_id (rp_final q) \<and>
             rc_final_checksum w = ar_checksum_sha256 (rec_reference r)
          then ret (Some w) else raise IdempotencyConflict))) ?Q ?E"
  proof (rule triple_gets)
    fix old
    show "triple (\<lambda>s. ?P s \<and> map_of (ro_claims s) (rp_run q, rp_format q) = old)
      (case old of
        None \<Rightarrow> andThen (modify (\<lambda>s. s\<lparr>ro_claims := dict_put (rp_run q, rp_format q)
            \<lparr>rc_artifact_id = aid, rc_final_id = ar_artifact_id (rp_final q),
             rc_final_checksum = ar_checksum_sha256 (rec_reference r)\<rparr> (ro_claims s)\<rparr>)) (\<lambda>_. ret None)
      | Some w \<Rightarrow> andThen rep_tick (\<lambda>_.
          if rc_final_id w = ar_artifact_id (rp_final q) \<and>
             rc_final_checksum w = ar_checksum_sha256 (rec_reference r)
          then ret (Some w) else raise IdempotencyConflict)) ?Q ?E"
    proof (cases old)
      case None
      have fresh: "map_of (ro_meta s) (rp_run q, aid) = None" if "?P s" for s
      proof (rule ccontr)
        assume "map_of (ro_meta s) (rp_run q, aid) \<noteq> None"
        then obtain ref where "map_of (ro_meta s) (rp_run q, aid) = Some ref" by blast
        then have "report_ok env s (rp_run q) aid ref" using that by (simp add: rep_inv_def metas_ok_def)
        then show False using that unfolding report_ok_def by blast
      qed
      show ?thesis
        unfolding None option.case
      proof (rule triple_andThen[where R = "\<lambda>_ s. rep_inv env arts n s \<and> claimed_for q aid s \<and>
            map_of (ro_meta s) (rp_run q, aid) = None"], rule triple_modify)
        fix s
        assume s: "?P s \<and> map_of (ro_claims s) (rp_run q, rp_format q) = None"
        then obtain i where i: "i < ro_minted s" "aid = artifact_id_of (pv_uuid env i)" by blast
        have "rep_inv env arts n (s\<lparr>ro_claims := dict_put (rp_run q, rp_format q) (claim_for q aid) (ro_claims s)\<rparr>)"
          by (rule rep_inv_claim[OF _ _ i(1)]) (use s i in \<open>auto simp: claim_for_def\<close>)
        then show "rep_inv env arts n (s\<lparr>ro_claims := dict_put (rp_run q, rp_format q)
            \<lparr>rc_artifact_id = aid, rc_final_id = ar_artifact_id (rp_final q),
             rc_final_checksum = ar_checksum_sha256 (rec_reference r)\<rparr> (ro_claims s)\<rparr>) \<and>
          claimed_for q aid (s\<lparr>ro_claims := dict_put (rp_run q, rp_format q)
            \<lparr>rc_artifact_id = aid, rc_final_id = ar_artifact_id (rp_final q),
             rc_final_checksum = ar_checksum_sha256 (rec_reference r)\<rparr> (ro_claims s)\<rparr>) \<and>
          map_of (ro_meta (s\<lparr>ro_claims := dict_put (rp_run q, rp_format q)
            \<lparr>rc_artifact_id = aid, rc_final_id = ar_artifact_id (rp_final q),
             rc_final_checksum = ar_checksum_sha256 (rec_reference r)\<rparr> (ro_claims s)\<rparr>)) (rp_run q, aid) = None"
          using fresh[of s] s by (simp add: claimed_for_def claim_for_def map_of_dict_put assms)
      next
        fix v
        show "triple (\<lambda>s. rep_inv env arts n s \<and> claimed_for q aid s \<and>
            map_of (ro_meta s) (rp_run q, aid) = None) (ret None) ?Q ?E"
          by (rule triple_ret) simp
      qed
    next
      case (Some w)
      show ?thesis
        unfolding Some option.case
        by (rule triple_andThen[where R = "\<lambda>_ s. rep_inv env arts n s \<and>
              map_of (ro_claims s) (rp_run q, rp_format q) = Some w"])
           (auto intro!: triple_tick triple_ret triple_raise simp: claimed_for_def claim_for_def assms)
    qed
  qed
qed

lemma rep_inv_bytes:
  assumes "rep_inv env arts n s" "claimed_for q aid s" "rendering_for env arts q = Some b"
  shows "rep_inv env arts n (s\<lparr>ro_bytes := dict_put (rp_run q, aid, rp_format q) b (ro_bytes s)\<rparr>)"
proof -
  let ?t = "s\<lparr>ro_bytes := dict_put (rp_run q, aid, rp_format q) b (ro_bytes s)\<rparr>"
  note inv = assms(1)[unfolded rep_inv_def]
  have "bytes_ok env arts ?t"
    unfolding bytes_ok_def
  proof (intro allI impI)
    fix run a fmt x
    assume x: "map_of (ro_bytes ?t) (run, a, fmt) = Some x"
    show "\<exists>d. map_of (ro_claims ?t) (run, fmt) = Some d \<and> rc_artifact_id d = a \<and>
        rendering env arts run (rc_final_id d) (rc_final_checksum d) fmt = Some x"
    proof (cases "(run, a, fmt) = (rp_run q, aid, rp_format q)")
      case True
      then show ?thesis
        using x assms(2,3) by (auto simp: map_of_dict_put claimed_for_def claim_for_def rendering_for_def)
    next
      case False
      then have "map_of (ro_bytes s) (run, a, fmt) = Some x"
        using x by (simp add: map_of_dict_put split: if_splits)
      then show ?thesis using inv unfolding bytes_ok_def by simp
    qed
  qed
  moreover have "metas_ok env ?t"
    unfolding metas_ok_def
  proof (intro conjI allI impI)
    show "distinct (dict_keys (ro_meta ?t))" using inv by (simp add: metas_ok_def)
    fix run a ref
    assume "map_of (ro_meta ?t) (run, a) = Some ref"
    then have "report_ok env s run a ref" using inv by (simp add: metas_ok_def)
    then obtain fmt c y where y: "ar_artifact_id ref = a" "ar_story_run_id ref = run" "ar_version ref = 1"
        "ar_type ref = report_type fmt" "ar_checksum_sha256 ref = pv_sha256 env y"
        "map_of (ro_claims s) (run, fmt) = Some c" "rc_artifact_id c = a"
        "map_of (ro_bytes s) (run, a, fmt) = Some y"
      unfolding report_ok_def by blast
    have "map_of (ro_bytes ?t) (run, a, fmt) = Some y"
    proof (cases "(run, a, fmt) = (rp_run q, aid, rp_format q)")
      case True
      with y(8) inv obtain d where "map_of (ro_claims s) (run, fmt) = Some d"
          "rendering env arts run (rc_final_id d) (rc_final_checksum d) fmt = Some y"
        unfolding bytes_ok_def by blast
      with True assms(2,3) have "y = b"
        by (auto simp: claimed_for_def claim_for_def rendering_for_def)
      with True show ?thesis by (simp add: map_of_dict_put)
    next
      case False
      with y(8) show ?thesis by (auto simp: map_of_dict_put)
    qed
    with y show "report_ok env ?t run a ref" unfolding report_ok_def by auto
  qed
  moreover have "claim_ids env ?t" using inv by (simp add: claim_ids_def)
  ultimately show ?thesis using inv unfolding rep_inv_def by simp
qed

lemma rep_inv_meta:
  assumes "rep_inv env arts n s" "report_ok env s run aid ref"
  shows "rep_inv env arts n (s\<lparr>ro_meta := dict_put (run, aid) ref (ro_meta s)\<rparr>)"
proof -
  let ?t = "s\<lparr>ro_meta := dict_put (run, aid) ref (ro_meta s)\<rparr>"
  note inv = assms(1)[unfolded rep_inv_def]
  have same: "report_ok env ?t r a x = report_ok env s r a x" for r a x
    by (simp add: report_ok_def)
  have "metas_ok env ?t"
    unfolding metas_ok_def same
  proof (intro conjI allI impI)
    show "distinct (dict_keys (ro_meta ?t))" using inv by (simp add: metas_ok_def distinct_dict_put)
    fix r a x
    assume "map_of (ro_meta ?t) (r, a) = Some x"
    then show "report_ok env s r a x"
      using inv assms(2) by (auto simp: metas_ok_def map_of_dict_put split: if_splits)
  qed
  moreover have "claim_ids env ?t" "bytes_ok env arts ?t"
    using inv by (simp_all add: claim_ids_def bytes_ok_def)
  ultimately show ?thesis using inv unfolding rep_inv_def by simp
qed

text \<open>The claim of a (run, format) is the only source of reports of that type.\<close>

lemma report_type_inj: "report_type f = report_type g \<longleftrightarrow> f = g"
  by (cases f; cases g) simp_all

lemma no_report_yet:
  assumes "rep_inv env arts n s" "claimed_for q aid s" "map_of (ro_meta s) (rp_run q, aid) = None"
  shows "filter (\<lambda>r. ar_type r = report_type (rp_format q)) (report_references s (rp_run q)) = []"
proof -
  have "ar_type r \<noteq> report_type (rp_format q)" if "r \<in> set (report_references s (rp_run q))" for r
  proof
    assume ty: "ar_type r = report_type (rp_format q)"
    from that obtain a where "((rp_run q, a), r) \<in> set (ro_meta s)"
      by (auto simp: report_references_def)
    then have m: "map_of (ro_meta s) (rp_run q, a) = Some r"
      using assms(1) by (simp add: rep_inv_def metas_ok_def dict_keys_def)
    then obtain fmt c where "ar_type r = report_type fmt"
        "map_of (ro_claims s) (rp_run q, fmt) = Some c" "rc_artifact_id c = a"
      using assms(1) unfolding rep_inv_def metas_ok_def report_ok_def by blast
    with ty assms(2) have "a = aid" by (auto simp: report_type_inj claimed_for_def claim_for_def)
    with m assms(3) show False by simp
  qed
  then show ?thesis by (simp add: filter_empty_conv)
qed

definition writing :: "rep_env \<Rightarrow> art_records \<Rightarrow> nat \<Rightarrow> RenderReportInput \<Rightarrow> string \<Rightarrow> rep_state \<Rightarrow> bool" where
  "writing env arts n q aid s =
     (rep_inv env arts n s \<and> claimed_for q aid s \<and> map_of (ro_meta s) (rp_run q, aid) = None)"

lemma writing_frame [simp]: "writing env arts n q aid (s\<lparr>ro_budget := b\<rparr>) = writing env arts n q aid s"
  by (simp add: writing_def claimed_for_def)

definition reference_for :: "rep_env \<Rightarrow> RenderReportInput \<Rightarrow> string \<Rightarrow> string \<Rightarrow> ArtifactReference \<Rightarrow> bool"
where
  "reference_for env q aid b ref =
     (ar_artifact_id ref = aid \<and> ar_story_run_id ref = rp_run q \<and> ar_version ref = 1 \<and>
      ar_type ref = report_type (rp_format q) \<and> ar_checksum_sha256 ref = pv_sha256 env b)"

lemma triple_new_report_reference:
  "triple (writing env arts n q aid) (new_report_reference env q aid b)
    (\<lambda>ref s. writing env arts n q aid s \<and> reference_for env q aid b ref) (rep_inv env arts n)"
  unfolding new_report_reference_def next_report_version_def
proof (rule triple_andThen[where R = "\<lambda>v s. writing env arts n q aid s \<and> v = 1"])
  show "triple (writing env arts n q aid)
     (andThen rep_tick (\<lambda>_. gets (\<lambda>s. foldr max (map ar_version
        (filter (\<lambda>r. ar_type r = report_type (rp_format q)) (report_references s (rp_run q)))) 0 + 1)))
     (\<lambda>v s. writing env arts n q aid s \<and> v = 1) (rep_inv env arts n)"
  proof (rule triple_andThen[where R = "\<lambda>_. writing env arts n q aid"])
    show "triple (writing env arts n q aid) rep_tick (\<lambda>_. writing env arts n q aid) (rep_inv env arts n)"
      by (rule triple_tick) (simp_all add: writing_def claimed_for_def)
  next
    fix u
    show "triple (writing env arts n q aid) (gets (\<lambda>s. foldr max (map ar_version
        (filter (\<lambda>r. ar_type r = report_type (rp_format q)) (report_references s (rp_run q)))) 0 + 1))
     (\<lambda>v s. writing env arts n q aid s \<and> v = 1) (rep_inv env arts n)"
      by (auto simp: triple_def comp_simps writing_def no_report_yet)
  qed
next
  fix v
  show "triple (\<lambda>s. writing env arts n q aid s \<and> v = 1)
     (andThen (gets ro_clock) (\<lambda>now.
     ret \<lparr>ar_artifact_id = aid, ar_story_run_id = rp_run q, ar_type = report_type (rp_format q),
          ar_perspective = None, ar_version = v, ar_created_at = now,
          ar_content_type = expected_content_type (report_type (rp_format q)),
          ar_checksum_sha256 = pv_sha256 env b, ar_is_latest = False\<rparr>))
     (\<lambda>ref s. writing env arts n q aid s \<and> reference_for env q aid b ref) (rep_inv env arts n)"
    by (auto intro!: triple_gets triple_ret simp: reference_for_def)
qed

definition wrote ::
    "rep_env \<Rightarrow> art_records \<Rightarrow> nat \<Rightarrow> RenderReportInput \<Rightarrow> ArtifactReference \<Rightarrow> rep_state \<Rightarrow> bool" where
  "wrote env arts n q ref s =
     (rep_inv env arts n s \<and> claimed_for q (ar_artifact_id ref) s \<and>
      map_of (ro_meta s) (rp_run q, ar_artifact_id ref) = Some ref \<and>
      ar_type ref = report_type (rp_format q))"

lemma wrote_frame [simp]: "wrote env arts n q ref (s\<lparr>ro_budget := b\<rparr>) = wrote env arts n q ref s"
  by (simp add: wrote_def claimed_for_def)

lemma bytes_known:
  assumes "rep_inv env arts n s" "claimed_for q aid s" "rendering_for env arts q = Some b"
    "map_of (ro_bytes s) (rp_run q, aid, rp_format q) = Some x"
  shows "x = b"
proof -
  obtain d where "map_of (ro_claims s) (rp_run q, rp_format q) = Some d"
      "rendering env arts (rp_run q) (rc_final_id d) (rc_final_checksum d) (rp_format q) = Some x"
    using assms(1,4) unfolding rep_inv_def bytes_ok_def by blast
  then show ?thesis
    using assms(2,3) by (auto simp: claimed_for_def claim_for_def rendering_for_def)
qed

lemma triple_write_bytes:
  assumes "reference_for env q aid b ref" "rendering_for env arts q = Some b"
  shows "triple (writing env arts n q aid) (write_report_bytes env q ref b)
    (\<lambda>_ s. writing env arts n q aid s \<and> map_of (ro_bytes s) (rp_run q, aid, rp_format q) = Some b)
    (rep_inv env arts n)" (is "triple ?P _ ?Q ?E")
proof -
  have aid: "ar_artifact_id ref = aid" using assms(1) by (simp add: reference_for_def)
  have put: "?Q () (s\<lparr>ro_bytes := dict_put (rp_run q, aid, rp_format q) b (ro_bytes s)\<rparr>)"
    if "?P s" for s
    using that rep_inv_bytes[of env arts n s q aid b] assms(2)
    by (simp add: writing_def claimed_for_def map_of_dict_put)
  show ?thesis
    unfolding write_report_bytes_def Let_def aid
  proof (rule triple_andThen[where R = "\<lambda>_. ?P"])
    show "triple ?P rep_tick (\<lambda>_. ?P) ?E"
      by (rule triple_tick) (simp_all add: writing_def claimed_for_def)
  next
    fix u
    show "triple ?P (andThen (gets (\<lambda>s. map_of (ro_bytes s) (rp_run q, aid, rp_format q))) (\<lambda>old.
      case old of
        None \<Rightarrow> modify (\<lambda>s. s\<lparr>ro_bytes := dict_put (rp_run q, aid, rp_format q) b (ro_bytes s)\<rparr>)
      | Some existing \<Rightarrow> andThen rep_tick (\<lambda>_.
          require (pv_sha256 env existing = ar_checksum_sha256 ref) RepPreconditionFailed))) ?Q ?E"
    proof (rule triple_gets)
      fix old
      show "triple (\<lambda>s. ?P s \<and> map_of (ro_bytes s) (rp_run q, aid, rp_format q) = old)
        (case old of
          None \<Rightarrow> modify (\<lambda>s. s\<lparr>ro_bytes := dict_put (rp_run q, aid, rp_format q) b (ro_bytes s)\<rparr>)
        | Some existing \<Rightarrow> andThen rep_tick (\<lambda>_.
            require (pv_sha256 env existing = ar_checksum_sha256 ref) RepPreconditionFailed)) ?Q ?E"
      proof (cases old)
        case None
        then show ?thesis by (auto intro!: triple_modify put)
      next
        case (Some x)
        show ?thesis
          unfolding Some option.case
        proof (rule triple_andThen[where R = "\<lambda>_ s. ?P s \<and> map_of (ro_bytes s) (rp_run q, aid, rp_format q) = Some x"])
          show "triple (\<lambda>s. ?P s \<and> map_of (ro_bytes s) (rp_run q, aid, rp_format q) = Some x) rep_tick
             (\<lambda>_ s. ?P s \<and> map_of (ro_bytes s) (rp_run q, aid, rp_format q) = Some x) ?E"
            by (rule triple_tick) (simp_all add: writing_def claimed_for_def)
        next
          fix u
          show "triple (\<lambda>s. ?P s \<and> map_of (ro_bytes s) (rp_run q, aid, rp_format q) = Some x)
             (require (pv_sha256 env x = ar_checksum_sha256 ref) RepPreconditionFailed) ?Q ?E"
            by (rule triple_require) (use bytes_known[OF _ _ assms(2)] in \<open>auto simp: writing_def\<close>)
        qed
      qed
    qed
  qed
qed

lemma triple_write_meta:
  assumes "reference_for env q aid b ref"
  shows "triple
    (\<lambda>s. writing env arts n q aid s \<and> map_of (ro_bytes s) (rp_run q, aid, rp_format q) = Some b)
    (write_report_meta q ref) (\<lambda>_. wrote env arts n q ref) (rep_inv env arts n)"
  (is "triple ?P _ ?Q ?E")
proof -
  note r = assms[unfolded reference_for_def]
  have aid: "ar_artifact_id ref = aid" using r by simp
  have put: "wrote env arts n q ref (s\<lparr>ro_meta := dict_put (rp_run q, aid) ref (ro_meta s)\<rparr>)"
    if "?P s" for s
  proof -
    have "report_ok env s (rp_run q) aid ref"
      unfolding report_ok_def
      using that r by (auto simp: writing_def claimed_for_def claim_for_def)
    then have "rep_inv env arts n (s\<lparr>ro_meta := dict_put (rp_run q, aid) ref (ro_meta s)\<rparr>)"
      using that by (intro rep_inv_meta) (simp_all add: writing_def)
    then show ?thesis
      using that r by (simp add: wrote_def writing_def claimed_for_def map_of_dict_put)
  qed
  show ?thesis
    unfolding write_report_meta_def Let_def aid
  proof (rule triple_andThen[where R = "\<lambda>_. ?P"])
    show "triple ?P rep_tick (\<lambda>_. ?P) ?E"
      by (rule triple_tick) (simp_all add: writing_def claimed_for_def)
  next
    fix u
    show "triple ?P (andThen (gets (\<lambda>s. map_of (ro_meta s) (rp_run q, aid))) (\<lambda>old.
      case old of
        None \<Rightarrow> modify (\<lambda>s. s\<lparr>ro_meta := dict_put (rp_run q, aid) ref (ro_meta s)\<rparr>)
      | Some _ \<Rightarrow> rep_tick)) ?Q ?E"
    proof (rule triple_gets)
      fix old
      show "triple (\<lambda>s. ?P s \<and> map_of (ro_meta s) (rp_run q, aid) = old)
        (case old of
          None \<Rightarrow> modify (\<lambda>s. s\<lparr>ro_meta := dict_put (rp_run q, aid) ref (ro_meta s)\<rparr>)
        | Some _ \<Rightarrow> rep_tick) ?Q ?E"
      proof (cases old)
        case None
        then show ?thesis by (auto intro!: triple_modify put)
      next
        case (Some x)
        then show ?thesis by (auto simp: triple_def writing_def)
      qed
    qed
  qed
qed

lemma triple_write_new:
  assumes "rendering_for env arts q = Some b"
  shows "triple (writing env arts n q aid) (write_new_report env q aid b)
    (\<lambda>x. wrote env arts n q (fst x)) (rep_inv env arts n)"
  unfolding write_new_report_def
proof (rule triple_andThen[OF triple_new_report_reference])
  fix ref
  show "triple (\<lambda>s. writing env arts n q aid s \<and> reference_for env q aid b ref)
     (andThen (write_report env q ref b) (\<lambda>_. ret (ref, True)))
     (\<lambda>x. wrote env arts n q (fst x)) (rep_inv env arts n)"
  proof (cases "reference_for env q aid b ref")
    case True
    have "triple (writing env arts n q aid) (write_report env q ref b)
       (\<lambda>_. wrote env arts n q ref) (rep_inv env arts n)"
      unfolding write_report_def
      by (rule triple_andThen[OF triple_write_bytes[OF True assms]]) (rule triple_write_meta[OF True])
    then show ?thesis
      using True by (auto intro!: triple_andThen triple_ret)
  qed (simp add: triple_def)
qed

lemma triple_after_claim:
  assumes b: "rendering_for env arts q = Some b"
  shows "triple (\<lambda>s. rep_inv env arts n s \<and>
         (case w of None \<Rightarrow> claimed_for q aid s \<and> map_of (ro_meta s) (rp_run q, aid) = None
          | Some c \<Rightarrow> c = claim_for q (rc_artifact_id c) \<and> claimed_for q (rc_artifact_id c) s))
       (after_claim env q aid b w) (\<lambda>x. wrote env arts n q (fst x)) (rep_inv env arts n)"
proof (cases w)
  case None
  show ?thesis
    unfolding None option.case after_claim_def
    by (rule triple_weaken[OF triple_write_new[OF b]]) (simp_all add: writing_def)
next
  case (Some c)
  let ?P = "\<lambda>s. rep_inv env arts n s \<and> claimed_for q (rc_artifact_id c) s"
  have own: "ar_artifact_id ref = rc_artifact_id c"
    if "?P s" "map_of (ro_meta s) (rp_run q, rc_artifact_id c) = Some ref" for s ref
    using that unfolding rep_inv_def metas_ok_def report_ok_def by blast
  have "triple ?P (after_claim env q aid b (Some c)) (\<lambda>x. wrote env arts n q (fst x)) (rep_inv env arts n)"
    unfolding after_claim_def option.case
  proof (rule triple_andThen[where R = "\<lambda>m s. ?P s \<and> map_of (ro_meta s) (rp_run q, rc_artifact_id c) = m"])
    show "triple ?P (read_meta_or_none (rp_run q) (rc_artifact_id c))
        (\<lambda>m s. ?P s \<and> map_of (ro_meta s) (rp_run q, rc_artifact_id c) = m) (rep_inv env arts n)"
      unfolding read_meta_or_none_def
      by (rule triple_andThen[where R = "\<lambda>_. ?P"])
         (rule triple_tick triple_value; simp add: claimed_for_def)+
  next
    fix m
    show "triple (\<lambda>s. ?P s \<and> map_of (ro_meta s) (rp_run q, rc_artifact_id c) = m)
       (case m of
            Some ref \<Rightarrow> if format_matches_reference ref (rp_format q) then ret (ref, False)
                        else raise RepValidationError
          | None \<Rightarrow> write_new_report env q (rc_artifact_id c) b)
       (\<lambda>x. wrote env arts n q (fst x)) (rep_inv env arts n)"
    proof (cases m)
      case None
      show ?thesis
        unfolding None option.case
        by (rule triple_weaken[OF triple_write_new[OF b]]) (simp_all add: writing_def)
    next
      case (Some ref)
      then show ?thesis
        using own by (auto intro!: triple_ret triple_raise simp: wrote_def format_matches_reference_def)
    qed
  qed
  then show ?thesis
    unfolding Some option.case by (rule triple_weaken) simp_all
qed

lemma triple_store_report:
  assumes "rendering_for env arts q = Some b"
    "ar_checksum_sha256 (rec_reference r) = ar_checksum_sha256 (rp_final q)"
  shows "triple (rep_inv env arts (Suc n)) (store_report env q r b)
    (\<lambda>x. wrote env arts n q (fst x)) (rep_inv env arts n)"
  unfolding store_report_def
  by (rule triple_andThen[OF triple_mint_report triple_andThen[OF triple_claim_report[OF assms(2)]
        triple_after_claim[OF assms(1)]]])

lemma rep_inv_suc: "rep_inv env arts (Suc n) s \<Longrightarrow> rep_inv env arts n s"
  by (erule rep_inv_mono) simp

text \<open>The whole operation, whatever its crash budget.\<close>

lemma triple_render_report:
  "triple (rep_inv env arts (Suc n)) (render_report env arts q)
    (\<lambda>x. wrote env arts n q (fst x)) (rep_inv env arts n)" (is "triple ?I _ ?Q ?E")
  unfolding render_report_def
proof (rule triple_andThen[where R = "\<lambda>r s. ?I s \<and>
     map_of arts (rp_run q, ar_artifact_id (rp_final q)) = Some r \<and>
     ar_type (rec_reference r) = FinalizedReviewArtifact \<and>
     ar_checksum_sha256 (rec_reference r) = ar_checksum_sha256 (rp_final q)"])
  show "triple ?I (read_finalized_review arts q) (\<lambda>r s. ?I s \<and>
     map_of arts (rp_run q, ar_artifact_id (rp_final q)) = Some r \<and>
     ar_type (rec_reference r) = FinalizedReviewArtifact \<and>
     ar_checksum_sha256 (rec_reference r) = ar_checksum_sha256 (rp_final q)) ?E"
    by (rule triple_weaken[OF triple_read_review[of env arts "Suc n"]]) (simp_all add: rep_inv_suc)
next
  fix r
  let ?R = "\<lambda>s. ?I s \<and> map_of arts (rp_run q, ar_artifact_id (rp_final q)) = Some r \<and>
     ar_type (rec_reference r) = FinalizedReviewArtifact \<and>
     ar_checksum_sha256 (rec_reference r) = ar_checksum_sha256 (rp_final q)"
  have suc: "?I s \<Longrightarrow> ?E s" for s by (rule rep_inv_suc)
  let ?rev = "review_of arts (rp_run q) (ar_artifact_id (rp_final q)) (ar_checksum_sha256 (rp_final q))"
  have read: "triple ?R (review_content r) (\<lambda>f s. ?R s \<and> ?rev = Some f) ?E"
    unfolding review_content_def
    by (cases "rec_content r") (auto intro!: triple_ret triple_raise suc simp: review_of_def)
  have bytes: "triple (\<lambda>s. ?R s \<and> ?rev = Some f) (rendered_bytes env f (rp_format q))
      (\<lambda>b s. ?R s \<and> rendering_for env arts q = Some b) ?E" for f
    unfolding rendered_bytes_def
    by (auto intro!: triple_ret triple_raise suc
        simp: rendering_for_def rendering_def split: option.split)
  have store: "triple (\<lambda>s. ?R s \<and> rendering_for env arts q = Some b) (store_report env q r b) ?Q ?E" for b
  proof (cases "rendering_for env arts q = Some b \<and>
      ar_checksum_sha256 (rec_reference r) = ar_checksum_sha256 (rp_final q)")
    case True
    then show ?thesis by (intro triple_weaken[OF triple_store_report[of env arts q b r n]]) auto
  qed (auto simp: triple_def)
  show "triple ?R (andThen (review_content r) (\<lambda>f. andThen (rendered_bytes env f (rp_format q))
     (store_report env q r))) ?Q ?E"
    by (rule triple_andThen[OF read triple_andThen[OF bytes store]])
qed

section \<open>Written once\<close>

definition rep_grows :: "rep_state \<Rightarrow> rep_state \<Rightarrow> bool" where
  "rep_grows s t =
     (map_of (ro_claims s) \<subseteq>\<^sub>m map_of (ro_claims t) \<and> map_of (ro_bytes s) \<subseteq>\<^sub>m map_of (ro_bytes t) \<and>
      map_of (ro_meta s) \<subseteq>\<^sub>m map_of (ro_meta t))"

lemma rep_grows_refl [simp, intro]: "rep_grows s s"
  by (simp add: rep_grows_def)

lemma rep_grows_tick: "keeps (rep_grows s0) rep_tick"
  unfolding rep_tick_def
  by (intro keeps_intros keeps_art_modify) (simp add: rep_grows_def)

lemma keeps_lookup_put_then:
  assumes "\<And>s. P s \<Longrightarrow> f s = None \<Longrightarrow> P (g s)" "\<And>v. keeps P (h v)" "keeps P k"
  shows "keeps P (andThen (gets f) (\<lambda>old. case old of
      None \<Rightarrow> andThen (modify g) (\<lambda>_. k) | Some v \<Rightarrow> h v))"
proof (rule moves_gets_andThen)
  fix old
  show "moves (\<lambda>s. P s \<and> f s = old) P (case old of None \<Rightarrow> andThen (modify g) (\<lambda>_. k) | Some v \<Rightarrow> h v)"
  proof (cases old)
    case None
    have "moves (\<lambda>s. P s \<and> f s = None) P (modify g)"
      using assms(1) by (simp add: moves_def comp_simps)
    then show ?thesis unfolding None option.case
      by (rule moves_andThen) (use assms(3) in auto)
  qed (use assms(2) in \<open>auto simp: moves_def\<close>)
qed

lemma keeps_lookup_put:
  assumes "\<And>s. P s \<Longrightarrow> f s = None \<Longrightarrow> P (g s)" "\<And>v. keeps P (h v)"
  shows "keeps P (andThen (gets f) (\<lambda>old. case old of None \<Rightarrow> modify g | Some v \<Rightarrow> h v))"
proof -
  have eq: "andThen (modify g) (\<lambda>_. ret ()) = modify g"
    by (simp add: fun_eq_iff comp_simps)
  have "keeps P (andThen (gets f) (\<lambda>old. case old of
      None \<Rightarrow> andThen (modify g) (\<lambda>_. ret ()) | Some v \<Rightarrow> h v))"
    by (rule keeps_lookup_put_then[OF _ assms(2) keeps_ret]) (rule assms(1))
  then show ?thesis by (simp only: eq)
qed

lemma rep_grows_put:
  "rep_grows s0 s \<Longrightarrow> map_of (ro_claims s) k = None \<Longrightarrow> rep_grows s0 (s\<lparr>ro_claims := dict_put k c (ro_claims s)\<rparr>)"
  "rep_grows s0 s \<Longrightarrow> map_of (ro_bytes s) k' = None \<Longrightarrow> rep_grows s0 (s\<lparr>ro_bytes := dict_put k' b (ro_bytes s)\<rparr>)"
  "rep_grows s0 s \<Longrightarrow> map_of (ro_meta s) k'' = None \<Longrightarrow> rep_grows s0 (s\<lparr>ro_meta := dict_put k'' r (ro_meta s)\<rparr>)"
  by (auto simp: rep_grows_def intro: map_le_trans map_le_dict_put)

lemma rep_grows_claim: "keeps (rep_grows s0) (claim_report q aid r)"
  unfolding claim_report_def Let_def
  by (rule keeps_andThen[OF rep_grows_tick], rule keeps_lookup_put_then)
     (simp_all add: rep_grows_put keeps_intros rep_grows_tick)

lemma rep_grows_bytes: "keeps (rep_grows s0) (write_report_bytes env q ref b)"
  unfolding write_report_bytes_def Let_def
  by (rule keeps_andThen[OF rep_grows_tick], rule keeps_lookup_put)
     (simp_all add: rep_grows_put keeps_intros rep_grows_tick)

lemma rep_grows_meta: "keeps (rep_grows s0) (write_report_meta q ref)"
  unfolding write_report_meta_def Let_def
  by (rule keeps_andThen[OF rep_grows_tick], rule keeps_lookup_put)
     (simp_all add: rep_grows_put keeps_intros rep_grows_tick)

lemma rep_grows_render: "keeps (rep_grows s0) (render_report env arts q)"
  unfolding render_report_def read_finalized_review_def review_content_def rendered_bytes_def
    store_report_def mint_report_id_def after_claim_def read_meta_or_none_def
    write_new_report_def new_report_reference_def next_report_version_def write_report_def
  by (intro keeps_intros rep_grows_tick rep_grows_claim rep_grows_bytes rep_grows_meta keeps_art_modify)
     (simp_all add: rep_grows_def keeps_intros split: content.split)

lemma render_grows: "rep_grows s (snd (render_report env arts q s))"
  using movesD[OF rep_grows_render[of s env arts q], of s] by simp

section \<open>A render that is not interrupted\<close>

definition rep_restart :: "rep_state \<Rightarrow> rep_state" where
  "rep_restart s = s\<lparr>ro_budget := None\<rparr>"

lemma rep_restart_simps [simp]:
  "ro_claims (rep_restart s) = ro_claims s" "ro_bytes (rep_restart s) = ro_bytes s"
  "ro_meta (rep_restart s) = ro_meta s" "ro_minted (rep_restart s) = ro_minted s"
  "ro_budget (rep_restart s) = None" "rep_inv env arts n (rep_restart s) = rep_inv env arts n s"
  by (simp_all add: rep_restart_def)

lemma rep_tick_run: "ro_budget s = None \<Longrightarrow> rep_tick s = (Inr (), s)"
  by (simp add: rep_tick_def comp_simps)

lemma write_new_returns:
  assumes "ro_budget s = None" "writing env arts n q aid s" "rendering_for env arts q = Some b"
  shows "\<exists>ref t. write_new_report env q aid b s = (Inr (ref, True), t)"
proof -
  have "x = b" if "map_of (ro_bytes s) (rp_run q, aid, rp_format q) = Some x" for x
    using bytes_known[of env arts n s q aid b x] assms(2,3) that by (simp add: writing_def)
  then show ?thesis
    using assms(1,2)
    by (cases "map_of (ro_bytes s) (rp_run q, aid, rp_format q)")
       (auto simp: write_new_report_def new_report_reference_def next_report_version_def
        write_report_def write_report_bytes_def write_report_meta_def Let_def comp_simps rep_tick_run
        writing_def)
qed

lemma render_reads:
  assumes "ro_budget s = None" "rendering_for env arts q = Some b"
  shows "\<exists>r. ar_checksum_sha256 (rec_reference r) = ar_checksum_sha256 (rp_final q) \<and>
    render_report env arts q s = store_report env q r b s"
  using assms
  by (auto simp: rendering_for_def rendering_def review_of_def render_report_def
      read_finalized_review_def review_content_def rendered_bytes_def comp_simps rep_tick_run
      bind_eq_Some_conv split: option.splits content.splits if_splits)

text \<open>The (run, format) slot is free, or claimed for the same finalized review.\<close>

definition slot_free :: "RenderReportInput \<Rightarrow> rep_state \<Rightarrow> bool" where
  "slot_free q s =
     (case map_of (ro_claims s) (rp_run q, rp_format q) of
        None \<Rightarrow> True
      | Some c \<Rightarrow> rc_final_id c = ar_artifact_id (rp_final q) \<and>
                  rc_final_checksum c = ar_checksum_sha256 (rp_final q))"

lemma slot_free_restart [simp]: "slot_free q (rep_restart s) = slot_free q s"
  by (simp add: slot_free_def)

lemma format_of_meta:
  assumes "rep_inv env arts n s" "claimed_for q aid s" "map_of (ro_meta s) (rp_run q, aid) = Some ref"
  shows "format_matches_reference ref (rp_format q)"
proof -
  obtain fmt c where f: "ar_type ref = report_type fmt" "map_of (ro_claims s) (rp_run q, fmt) = Some c"
      "rc_artifact_id c = aid"
    using assms(1,3) unfolding rep_inv_def metas_ok_def report_ok_def by blast
  have "claim_ids env s" using assms(1) by (simp add: rep_inv_def)
  with f assms(2) have "fmt = rp_format q"
    unfolding claim_ids_def claimed_for_def by (metis claim_for_def prod.inject report_claim.select_convs(1))
  with f show ?thesis by (simp add: format_matches_reference_def)
qed

lemma claim_after_mint:
  assumes "ro_budget s = None" "ar_checksum_sha256 (rec_reference r) = ar_checksum_sha256 (rp_final q)"
    "slot_free q s"
  shows "claim_report q aid r s =
    (case map_of (ro_claims s) (rp_run q, rp_format q) of
       None \<Rightarrow> (Inr None, s\<lparr>ro_claims := dict_put (rp_run q, rp_format q) (claim_for q aid) (ro_claims s)\<rparr>)
     | Some c \<Rightarrow> (Inr (Some c), s))"
  using assms
  by (auto simp: claim_report_def comp_simps rep_tick_run slot_free_def claim_for_def Let_def
      split: option.split)

lemma after_claim_returns:
  assumes "ro_budget t = None" "rep_inv env arts n t" "rendering_for env arts q = Some b"
    "case w of None \<Rightarrow> claimed_for q aid t \<and> map_of (ro_meta t) (rp_run q, aid) = None
     | Some c \<Rightarrow> c = claim_for q (rc_artifact_id c) \<and> claimed_for q (rc_artifact_id c) t"
  shows "\<exists>x u. after_claim env q aid b w t = (Inr x, u)"
proof (cases w)
  case None
  then show ?thesis
    using write_new_returns[of t env arts n q aid b] assms
    by (auto simp: after_claim_def writing_def)
next
  case (Some c)
  then show ?thesis
    using write_new_returns[of t env arts n q "rc_artifact_id c" b] assms
      format_of_meta[of env arts n t q "rc_artifact_id c"]
    by (cases "map_of (ro_meta t) (rp_run q, rc_artifact_id c)")
       (auto simp: after_claim_def read_meta_or_none_def rep_tick_run comp_simps writing_def)
qed

lemma render_returns:
  assumes "ro_budget s = None" "rep_inv env arts (Suc n) s" "rendering_for env arts q = Some b"
    "slot_free q s"
  shows "\<exists>ref c. fst (render_report env arts q s) = Inr (ref, c)"
proof -
  obtain r where r: "ar_checksum_sha256 (rec_reference r) = ar_checksum_sha256 (rp_final q)"
      "render_report env arts q s = store_report env q r b s"
    using render_reads[OF assms(1,3)] by blast
  obtain aid t where m: "mint_report_id env s = (Inr aid, t)" "ro_budget t = None" "slot_free q t"
    using assms(1,4) by (simp add: mint_report_id_def comp_simps slot_free_def)
  obtain w u where c: "claim_report q aid r t = (Inr w, u)" "ro_budget u = None"
    using claim_after_mint[OF m(2) r(1) m(3), of aid] m(2) by (auto split: option.splits)
  have "rep_inv env arts n u \<and> (case w of None \<Rightarrow> claimed_for q aid u \<and> map_of (ro_meta u) (rp_run q, aid) = None
     | Some c \<Rightarrow> c = claim_for q (rc_artifact_id c) \<and> claimed_for q (rc_artifact_id c) u)"
    using tripleD(2)[OF triple_claim_report[OF r(1)] tripleD(2)[OF triple_mint_report assms(2) m(1)] c(1)] .
  then obtain x v where "after_claim env q aid b w u = (Inr x, v)"
    using after_claim_returns[OF c(2) _ assms(3)] by blast
  then show ?thesis
    by (cases x) (simp add: r(2) store_report_def comp_simps m(1) c(1))
qed

definition rendered_as :: "rep_env \<Rightarrow> art_records \<Rightarrow> rep_state \<Rightarrow> RenderReportInput \<Rightarrow> ArtifactReference \<Rightarrow> bool"
where
  "rendered_as env arts s q ref =
     (claimed_for q (ar_artifact_id ref) s \<and>
      map_of (ro_meta s) (rp_run q, ar_artifact_id ref) = Some ref \<and>
      ar_type ref = report_type (rp_format q) \<and> rendering_for env arts q \<noteq> None)"

definition render_call ::
    "rep_env \<Rightarrow> art_records \<Rightarrow> RenderReportInput \<Rightarrow> (ArtifactReference \<times> bool) rep" where
  "render_call env arts q s = render_report env arts q (rep_restart s)"

lemma render_needs_content:
  "fst (render_report env arts q s) = Inr x \<Longrightarrow> rendering_for env arts q \<noteq> None"
  by (auto simp: render_report_def read_finalized_review_def review_content_def rendered_bytes_def
      rendering_for_def rendering_def review_of_def comp_simps
      split: option.splits sum.splits prod.splits if_splits content.splits)

lemma render_replays:
  assumes "ro_budget s = None" "rendered_as env arts s q ref"
  shows "fst (render_report env arts q s) = Inr (ref, False)"
proof -
  obtain b where "rendering_for env arts q = Some b"
    using assms(2) by (auto simp: rendered_as_def)
  then obtain r where r: "ar_checksum_sha256 (rec_reference r) = ar_checksum_sha256 (rp_final q)"
      "render_report env arts q s = store_report env q r b s"
    using render_reads[OF assms(1)] by blast
  show ?thesis
    using assms
    by (simp add: r store_report_def mint_report_id_def comp_simps claim_report_def rep_tick_run
        rendered_as_def claimed_for_def claim_for_def after_claim_def read_meta_or_none_def
        format_matches_reference_def Let_def)
qed

lemma rendered_grows: "rep_grows s t \<Longrightarrow> rendered_as env arts s q ref \<Longrightarrow> rendered_as env arts t q ref"
  by (auto simp: rendered_as_def rep_grows_def claimed_for_def intro: map_le_Some)

lemma slot_free_tick: "keeps (slot_free q) rep_tick"
  unfolding rep_tick_def
  by (intro keeps_intros keeps_art_modify) (simp add: slot_free_def)

lemma slot_free_claim:
  "ar_checksum_sha256 (rec_reference r) = ar_checksum_sha256 (rp_final q) \<Longrightarrow>
   keeps (slot_free q) (claim_report q aid r)"
  unfolding claim_report_def Let_def
  by (rule keeps_andThen[OF slot_free_tick], rule keeps_lookup_put_then)
     (simp_all add: slot_free_def map_of_dict_put keeps_intros slot_free_tick)

lemma slot_free_bytes: "keeps (slot_free q) (write_report_bytes env q ref b)"
  unfolding write_report_bytes_def Let_def
  by (rule keeps_andThen[OF slot_free_tick], rule keeps_lookup_put)
     (simp_all add: slot_free_def keeps_intros slot_free_tick)

lemma slot_free_meta: "keeps (slot_free q) (write_report_meta q ref)"
  unfolding write_report_meta_def Let_def
  by (rule keeps_andThen[OF slot_free_tick], rule keeps_lookup_put)
     (simp_all add: slot_free_def keeps_intros slot_free_tick)

lemma slot_free_store:
  "ar_checksum_sha256 (rec_reference r) = ar_checksum_sha256 (rp_final q) \<Longrightarrow>
   keeps (slot_free q) (store_report env q r b)"
  unfolding store_report_def mint_report_id_def after_claim_def read_meta_or_none_def
    write_new_report_def new_report_reference_def next_report_version_def write_report_def
  by (intro keeps_intros slot_free_tick slot_free_claim slot_free_bytes slot_free_meta keeps_art_modify)
     (simp_all add: slot_free_def)

lemma render_keeps_free:
  assumes "slot_free q s"
  shows "slot_free q (snd (render_report env arts q s))"
proof -
  have read: "triple (slot_free q) (read_finalized_review arts q)
      (\<lambda>r s. slot_free q s \<and> ar_checksum_sha256 (rec_reference r) = ar_checksum_sha256 (rp_final q))
      (slot_free q)"
    unfolding read_finalized_review_def
    by (rule triple_andThen[OF keeps_triple[OF slot_free_tick]])
       (auto intro!: triple_raise triple_ret split: option.split)
  have rest: "triple (\<lambda>s. slot_free q s \<and> ar_checksum_sha256 (rec_reference r) = ar_checksum_sha256 (rp_final q))
      (andThen (review_content r) (\<lambda>f. andThen (rendered_bytes env f (rp_format q)) (store_report env q r)))
      (\<lambda>_. slot_free q) (slot_free q)" for r
  proof (cases "ar_checksum_sha256 (rec_reference r) = ar_checksum_sha256 (rp_final q)")
    case True
    have "keeps (slot_free q) (review_content r)"
      by (cases "rec_content r") (simp_all add: review_content_def keeps_intros)
    moreover have "keeps (slot_free q) (rendered_bytes env f (rp_format q))" for f
      by (simp add: rendered_bytes_def keeps_intros split: option.split)
    ultimately have "keeps (slot_free q)
      (andThen (review_content r) (\<lambda>f. andThen (rendered_bytes env f (rp_format q)) (store_report env q r)))"
      by (intro keeps_andThen slot_free_store[OF True])
    from keeps_triple[OF this] show ?thesis by (rule triple_weaken) simp_all
  qed (simp add: triple_def)
  show ?thesis
    using movesD[OF triple_moves[OF triple_andThen[OF read rest]] assms]
    by (simp add: render_report_def)
qed

interpretation report_puts: idempotent_store "render_call env arts" "rep_inv env arts"
  "\<lambda>_. True" "rendered_as env arts"
proof
  fix n s q
  assume g: "rep_inv env arts (Suc n) s"
  then have g': "rep_inv env arts (Suc n) (rep_restart s)" by simp
  note res = tripleD[OF triple_render_report g']
  show "rep_inv env arts n (snd (render_call env arts q s))"
  proof (cases "render_report env arts q (rep_restart s)")
    case (Pair r t)
    then show ?thesis
      using res[of q] by (cases r) (auto simp: render_call_def wrote_def)
  qed
  fix r c
  assume ok: "fst (render_call env arts q s) = Inr (r, c)"
  then obtain t where t: "render_report env arts q (rep_restart s) = (Inr (r, c), t)"
    by (cases "render_report env arts q (rep_restart s)") (simp add: render_call_def)
  have "wrote env arts n q r t" using res(2)[OF t] by simp
  moreover have "rendering_for env arts q \<noteq> None"
    using ok render_needs_content unfolding render_call_def by blast
  ultimately show "rendered_as env arts (snd (render_call env arts q s)) q r"
    by (simp add: rendered_as_def wrote_def render_call_def t)
next
  fix n s q r
  assume "rendered_as env arts s q r"
  then have "rendered_as env arts (rep_restart s) q r" by (simp add: rendered_as_def claimed_for_def)
  then show "fst (render_call env arts q s) = Inr (r, False)"
    by (simp add: render_call_def render_replays)
next
  fix n s q q' r
  assume "rendered_as env arts s q r"
  then have "rendered_as env arts (rep_restart s) q r" by (simp add: rendered_as_def claimed_for_def)
  then show "rendered_as env arts (snd (render_call env arts q' s)) q r"
    using rendered_grows[OF render_grows] by (simp add: render_call_def)
qed

section \<open>Properties\<close>

text \<open>C22. A render that crashes between any two bucket accesses can be retried: the retry
  returns the report of the (run, format), and the bytes stored under it are the rendering of
  the requested final review.\<close>

theorem render_retry_after_crash:
  assumes "rep_inv env arts 2 s" "slot_free q s" "rendering_for env arts q = Some b"
  shows "\<exists>ref created.
    fst (render_call env arts q (snd (render_report env arts q s))) = Inr (ref, created) \<and>
    map_of (ro_bytes (snd (render_call env arts q (snd (render_report env arts q s)))))
      (rp_run q, ar_artifact_id ref, rp_format q) = Some b"
proof -
  let ?t = "snd (render_report env arts q s)"
  let ?u = "rep_restart ?t"
  have i: "rep_inv env arts (Suc 0) ?u"
    using movesD[OF triple_moves[OF triple_weaken[OF triple_render_report[of env arts "Suc 0" q]]]] assms(1)
    by (simp add: wrote_def numeral_2_eq_2)
  have "slot_free q ?u" using render_keeps_free[OF assms(2)] by simp
  then obtain ref c where rc: "fst (render_report env arts q ?u) = Inr (ref, c)"
    using render_returns[OF _ i assms(3)] by auto
  then obtain v where v: "render_report env arts q ?u = (Inr (ref, c), v)"
    by (cases "render_report env arts q ?u") simp
  have w: "wrote env arts 0 q ref v" using tripleD(2)[OF triple_render_report i v] by simp
  then obtain x where x: "map_of (ro_bytes v) (rp_run q, ar_artifact_id ref, rp_format q) = Some x"
    using format_of_meta[of env arts 0 v q "ar_artifact_id ref" ref]
    unfolding wrote_def rep_inv_def metas_ok_def report_ok_def
    by (metis report_type_inj)
  with w have "x = b" using bytes_known[of env arts 0 v q "ar_artifact_id ref" b x] assms(3) x by (simp add: wrote_def)
  with rc v x show ?thesis by (auto simp: render_call_def)
qed

text \<open>Once a report has been rendered, rendering it again after any other renders returns
  the same reference and creates nothing.\<close>

theorem render_is_idempotent:
  assumes "rep_inv env arts (length qs + 2) s" "fst (render_call env arts q s) = Inr (ref, created)"
  shows "fst (render_call env arts q (fold (\<lambda>p t. snd (render_call env arts p t)) qs
      (snd (render_call env arts q s)))) = Inr (ref, False)"
  using report_puts.retry_returns_first[of env arts qs s q ref created] assms
  by (simp add: report_puts.puts_def list_all_iff)

subsection \<open>Reachable stores\<close>

text \<open>
  The stores one report server produces: it renders one request after another, each at any time, each
  possibly dying at any bucket access, while new artifact records appear between them.
\<close>

inductive rep_reach :: "rep_env \<Rightarrow> art_records \<Rightarrow> rep_state \<Rightarrow> bool" for env where
  rep_none: "rep_reach env arts no_reports"
| rep_render: "rep_reach env arts s \<Longrightarrow>
    rep_reach env arts (snd (render_report env arts q (s\<lparr>ro_budget := b, ro_clock := t\<rparr>)))"
| rep_artifacts: "rep_reach env arts s \<Longrightarrow> map_of arts \<subseteq>\<^sub>m map_of arts2 \<Longrightarrow> rep_reach env arts2 s"

lemma minted_claim: "keeps (\<lambda>t. n \<le> ro_minted t) (claim_report q aid r)"
  unfolding claim_report_def Let_def
  by (intro keeps_intros keeps_art_modify) (auto simp: rep_tick_def intro!: keeps_intros keeps_art_modify)

lemma minted_write: "keeps (\<lambda>t. n \<le> ro_minted t) (write_report env q ref b)"
  unfolding write_report_def write_report_bytes_def write_report_meta_def Let_def
  by (intro keeps_intros keeps_art_modify) (auto simp: rep_tick_def intro!: keeps_intros keeps_art_modify)

lemma minted_grows: "n \<le> ro_minted s \<Longrightarrow> n \<le> ro_minted (snd (render_report env arts q s))"
proof (rule movesD[of "\<lambda>t. n \<le> ro_minted t"])
  have tick: "keeps (\<lambda>t. n \<le> ro_minted t) rep_tick"
    unfolding rep_tick_def by (intro keeps_intros keeps_art_modify) simp
  have mint: "keeps (\<lambda>t. n \<le> ro_minted t) (mint_report_id env)"
    by (auto simp: mint_report_id_def moves_def comp_simps)
  show "keeps (\<lambda>t. n \<le> ro_minted t) (render_report env arts q)"
    unfolding render_report_def read_finalized_review_def review_content_def rendered_bytes_def
      store_report_def after_claim_def read_meta_or_none_def
      write_new_report_def new_report_reference_def next_report_version_def
    by (intro keeps_intros tick mint minted_claim minted_write) (simp_all add: keeps_intros split: content.split)
qed

lemma review_of_grows:
  "map_of arts \<subseteq>\<^sub>m map_of arts2 \<Longrightarrow> review_of arts run fid csum = Some f \<Longrightarrow> review_of arts2 run fid csum = Some f"
  by (auto simp: review_of_def dest: map_le_Some split: option.splits)

lemma rep_inv_artifacts: "rep_inv env arts n s \<Longrightarrow> map_of arts \<subseteq>\<^sub>m map_of arts2 \<Longrightarrow> rep_inv env arts2 n s"
  unfolding rep_inv_def bytes_ok_def rendering_def bind_eq_Some_conv by (metis review_of_grows)

lemma rep_reach_inv:
  "rep_reach env arts s \<Longrightarrow> inj_on (pv_uuid env) {..<ro_minted s + 1} \<Longrightarrow> rep_inv env arts 1 s"
proof (induction rule: rep_reach.induct)
  case (rep_none arts)
  then show ?case using rep_inv_empty[of env 1] by (simp add: no_reports_def)
next
  case (rep_render arts s q t b)
  let ?s = "s\<lparr>ro_budget := b, ro_clock := t\<rparr>" and ?u = "snd (render_report env arts q (s\<lparr>ro_budget := b, ro_clock := t\<rparr>))"
  have "ro_minted s \<le> ro_minted ?u" by (rule minted_grows) simp
  then have "rep_inv env arts 1 s"
    using rep_render by (auto intro: inj_on_subset)
  then have "rep_inv env arts (Suc 0) ?s" by simp
  note res = tripleD[OF triple_render_report this]
  have "rep_inv env arts 0 ?u"
  proof (cases "render_report env arts q ?s")
    case (Pair r u)
    then show ?thesis using res[of q] by (cases r) (auto simp: wrote_def)
  qed
  then show ?case using rep_render.prems by (simp add: rep_inv_def)
next
  case (rep_artifacts arts s arts2)
  then show ?case by (simp add: rep_inv_artifacts)
qed

text \<open>C23. A run has at most one report per format and it is version 1. After any sequence of renders
  by the report server, of any final reviews, crashed at any bucket access or retried, two stored report
  references of one run and one type are the same reference, and the bytes under it, of its format, have
  the checksum it names. The UUIDs the server drew are assumed distinct.\<close>

theorem one_report_per_format:
  assumes "rep_reach env arts s" "inj_on (pv_uuid env) {..<ro_minted s + 1}"
    "map_of (ro_meta s) (run, a) = Some ref" "map_of (ro_meta s) (run, a') = Some ref'" "ar_type ref = ar_type ref'"
  shows "a = a' \<and> ref = ref' \<and> ar_version ref = 1 \<and>
    (\<exists>fmt b. ar_type ref = report_type fmt \<and> map_of (ro_bytes s) (run, a, fmt) = Some b \<and>
       ar_checksum_sha256 ref = pv_sha256 env b)"
proof -
  have "report_ok env s run a ref" "report_ok env s run a' ref'"
    using rep_reach_inv[OF assms(1,2)] assms(3,4) by (simp_all add: rep_inv_def metas_ok_def)
  with assms(3-5) show ?thesis
    unfolding report_ok_def by (metis option.inject report_type_inj)
qed

text \<open>A (run, format) already rendered from another final review is refused with
  IdempotencyConflict; no claim, byte or reference changes.\<close>

theorem render_conflict:
  assumes "ro_budget s = None" "rendering_for env arts q \<noteq> None" "\<not> slot_free q s"
  shows "fst (render_report env arts q s) = Inl IdempotencyConflict \<and>
    ro_claims (snd (render_report env arts q s)) = ro_claims s \<and>
    ro_bytes (snd (render_report env arts q s)) = ro_bytes s \<and>
    ro_meta (snd (render_report env arts q s)) = ro_meta s"
proof -
  obtain b where "rendering_for env arts q = Some b" using assms(2) by blast
  then obtain r where r: "ar_checksum_sha256 (rec_reference r) = ar_checksum_sha256 (rp_final q)"
      "render_report env arts q s = store_report env q r b s"
    using render_reads[OF assms(1)] by blast
  show ?thesis
    unfolding r(2) using assms(1,3) r(1)
    by (auto simp: store_report_def mint_report_id_def comp_simps claim_report_def rep_tick_run
        slot_free_def Let_def split: option.splits)
qed

section \<open>Concrete instances\<close>

definition demo_rep_env :: rep_env where
  "demo_rep_env = \<lparr>pv_uuid = of_nat, pv_sha256 = id, pv_pdf = (\<lambda>_. Some ''pdf'')\<rparr>"

definition demo_final :: "string \<Rightarrow> ArtifactReference" where
  "demo_final aid = (demo_reference FinalizedReviewArtifact)\<lparr>ar_artifact_id := aid\<rparr>"

definition demo_arts :: art_records where
  "demo_arts =
     [((demo_run, ''art-1''), \<lparr>rec_reference = demo_final ''art-1'', rec_content = FinalContent demo_review\<rparr>),
      ((demo_run, ''art-2''), \<lparr>rec_reference = demo_final ''art-2'', rec_content = FinalContent demo_review\<rparr>)]"

definition demo_render :: "string \<Rightarrow> RenderReportInput" where
  "demo_render aid = \<lparr>rp_run = demo_run, rp_final = demo_final aid, rp_format = Md\<rparr>"

definition demo_reports :: rep_state where
  "demo_reports = snd (render_call demo_rep_env demo_arts (demo_render ''art-1'') no_reports)"

lemma demo_rendering:
  "aid = ''art-1'' \<or> aid = ''art-2'' \<Longrightarrow>
   rendering_for demo_rep_env demo_arts (demo_render aid) = Some (render_markdown demo_review)"
  by (auto simp: rendering_for_def rendering_def review_of_def demo_arts_def demo_render_def
      demo_final_def demo_reference_def demo_review_valid render_def)

lemma demo_uuids: "n \<le> 1000 \<Longrightarrow> inj_on (pv_uuid demo_rep_env) {..<n}"
  by (simp add: demo_rep_env_def of_nat_uuid_inj)

lemma demo_no_reports: "rep_inv demo_rep_env demo_arts 5 no_reports"
  by (rule rep_inv_empty) (rule demo_uuids, simp)

lemma demo_reports_inv: "rep_inv demo_rep_env demo_arts 4 demo_reports"
  unfolding demo_reports_def
  using report_puts.put_good[of demo_rep_env demo_arts 4 no_reports "demo_render ''art-1''"] demo_no_reports
  by simp

lemma demo_first: "\<exists>ref c. fst (render_call demo_rep_env demo_arts (demo_render ''art-1'') no_reports) = Inr (ref, c)"
proof -
  have "rep_inv demo_rep_env demo_arts (Suc 4) (rep_restart no_reports)"
    using demo_no_reports by (simp add: eval_nat_numeral)
  moreover have "slot_free (demo_render ''art-1'') (rep_restart no_reports)"
    by (simp add: slot_free_def no_reports_def)
  ultimately show ?thesis
    unfolding render_call_def
    using render_returns[of "rep_restart no_reports" demo_rep_env demo_arts 4 "demo_render ''art-1''"]
      demo_rendering[of "''art-1''"] by simp
qed

theorem render_retry_after_crash_witness:
  "\<exists>ref created. fst (render_call demo_rep_env demo_arts (demo_render ''art-1'')
     (snd (render_report demo_rep_env demo_arts (demo_render ''art-1'') (no_reports\<lparr>ro_budget := Some 3\<rparr>))))
   = Inr (ref, created)"
proof -
  have "slot_free (demo_render ''art-1'') (no_reports\<lparr>ro_budget := Some 3\<rparr>)"
    by (simp add: slot_free_def no_reports_def)
  moreover have "rep_inv demo_rep_env demo_arts 2 (no_reports\<lparr>ro_budget := Some 3\<rparr>)"
    using rep_inv_mono[OF demo_no_reports, of 2] by simp
  ultimately show ?thesis
    using render_retry_after_crash[OF _ _ demo_rendering, of "no_reports\<lparr>ro_budget := Some 3\<rparr>" "''art-1''"]
    by auto
qed

theorem render_is_idempotent_witness:
  "\<exists>ref. fst (render_call demo_rep_env demo_arts (demo_render ''art-1'')
     (snd (render_call demo_rep_env demo_arts ((demo_render ''art-1'')\<lparr>rp_format := Pdf\<rparr>)
       (snd (render_call demo_rep_env demo_arts (demo_render ''art-1'') no_reports))))) = Inr (ref, False)"
proof -
  obtain ref c where "fst (render_call demo_rep_env demo_arts (demo_render ''art-1'') no_reports) = Inr (ref, c)"
    using demo_first by blast
  moreover have "rep_inv demo_rep_env demo_arts (length [(demo_render ''art-1'')\<lparr>rp_format := Pdf\<rparr>] + 2) no_reports"
    using rep_inv_mono[OF demo_no_reports, of 3] by (simp add: numeral_3_eq_3)
  ultimately show ?thesis
    using render_is_idempotent[of demo_rep_env demo_arts "[(demo_render ''art-1'')\<lparr>rp_format := Pdf\<rparr>]"]
    by fastforce
qed

lemma demo_stored:
  "\<exists>ref. map_of (ro_meta demo_reports) (demo_run, ar_artifact_id ref) = Some ref \<and>
     ar_type ref = ReportMd \<and> \<not> slot_free (demo_render ''art-2'') demo_reports"
proof -
  obtain ref c where "fst (render_call demo_rep_env demo_arts (demo_render ''art-1'') no_reports) = Inr (ref, c)"
    using demo_first by blast
  then have "rendered_as demo_rep_env demo_arts demo_reports (demo_render ''art-1'') ref"
    unfolding demo_reports_def
    using report_puts.put_binds[of demo_rep_env demo_arts 4 no_reports] demo_no_reports by simp
  then show ?thesis
    by (auto simp: rendered_as_def claimed_for_def claim_for_def demo_render_def slot_free_def demo_final_def)
qed

lemma demo_reports_reach: "rep_reach demo_rep_env demo_arts demo_reports"
  using rep_render[OF rep_none, of demo_rep_env demo_arts "demo_render ''art-1''" 0 None]
  by (simp add: demo_reports_def render_call_def rep_restart_def no_reports_def)

theorem one_report_per_format_witness:
  "\<exists>ref. map_of (ro_meta demo_reports) (demo_run, ar_artifact_id ref) = Some ref \<and> ar_version ref = 1"
proof -
  obtain ref where "map_of (ro_meta demo_reports) (demo_run, ar_artifact_id ref) = Some ref"
    using demo_stored by blast
  moreover have "inj_on (pv_uuid demo_rep_env) {..<ro_minted demo_reports + 1}"
    using rep_inv_mono[OF demo_reports_inv, of 1] by (simp add: rep_inv_def)
  ultimately show ?thesis using one_report_per_format[OF demo_reports_reach] by blast
qed

theorem render_conflict_witness:
  "fst (render_report demo_rep_env demo_arts (demo_render ''art-2'') (rep_restart demo_reports)) =
     Inl IdempotencyConflict"
  using render_conflict[of "rep_restart demo_reports" demo_rep_env demo_arts "demo_render ''art-2''"]
    demo_stored demo_rendering[of "''art-2''"] by auto

end
