(* ===== verification/World.thy ===== *)
theory World
  imports Prog Api_Models Fence Report_Store Artifact_Laws
begin

text \<open>
  The shared state behind the orchestration service and its atomic accesses. The Postgres tables
  of \<open>deploy/cloud-sql/migrations\<close> are dictionaries keyed by primary key; the artifact and the
  report server's stores are embedded as they are modelled in their own theories. A statement on
  one connection is one atomic computation; \<open>conn.transaction()\<close> groups several. The constraints
  of the migrations are branches of the inserts and updates. \<open>records_store.py\<close> is here, with
  the pydantic validation every row goes through on its way in and out.
\<close>

section \<open>State\<close>

datatype route = CreateRoute | TurnRoute | FinalizeRoute | AbandonRoute

datatype processing_stage = Reviewing | Synthesizing | InFacilitator | Delegating | InFinalizing

record claim_row =
  cl_fingerprint :: string
  cl_completed :: bool
  cl_response :: "canonical option"

datatype app_event =
    GateDecision turn_outcome nat string
  | SessionParked string nat
  | OutputFence perspective FenceEvent

record world =
  w_runs :: "(string, StoryRunRecord) dict"
  w_sessions :: "(string, SessionRecord) dict"
  w_stages :: "(string, processing_stage option) dict"
  w_turns :: "(string \<times> nat, TurnRecord) dict"
  w_agent_runs :: "(string, AgentRunRecord) dict"
  w_leases :: "(string, TurnLeaseRecord) dict"
  w_claims :: "(route \<times> string \<times> uuid, claim_row) dict"
  w_bucket :: art_state
  w_reports :: rep_state
  w_clock :: instant
  w_calls :: nat
  w_tokens :: nat
  w_events :: "app_event list"

type_synonym 'a db = "(world, exc, 'a) comp"
type_synonym 'a handler = "(world, exc, 'a) prog"

definition checked :: "('a \<Rightarrow> bool) \<Rightarrow> 'a \<Rightarrow> 'a db" where
  "checked ok x = andThen (require (ok x) ValidationError) (\<lambda>_. ret x)"

text \<open>\<open>Model(...)\<close>: constructing a pydantic model validates it.\<close>

definition construct :: "('a \<Rightarrow> bool) \<Rightarrow> 'a \<Rightarrow> 'a handler" where
  "construct ok x = chain (demand (ok x) ValidationError) (\<lambda>_. Ret x)"

definition now :: "instant handler" where
  "now = perform (gets w_clock)"

definition emit :: "app_event \<Rightarrow> unit handler" where
  "emit e = perform (modify (\<lambda>w. w\<lparr>w_events := e # w_events w\<rparr>))"

section \<open>Story runs\<close>

definition occupies :: "StoryRunRecord \<Rightarrow> bool" where
  "occupies r = (sr_state r \<noteq> Completed \<and> sr_state r \<noteq> Parked)"

text \<open>The partial unique index of the active runs on (user_id, story_id).\<close>

definition run_conflict :: "StoryRunRecord \<Rightarrow> world \<Rightarrow> bool" where
  "run_conflict r w =
     (occupies r \<and> list_ex (\<lambda>q. occupies q \<and> sr_user_id q = sr_user_id r \<and> sr_run_story q = sr_run_story r)
        (dict_values (w_runs w)))"

definition create_story_run :: "StoryRunRecord \<Rightarrow> unit db" where
  "create_story_run r =
     andThen (gets (\<lambda>w. (map_of (w_runs w) (sr_run_id r), run_conflict r w))) (\<lambda>x.
     case x of
       (Some _, _) \<Rightarrow> raise (ConstraintViolation OtherUnique)
     | (None, True) \<Rightarrow> raise (ConstraintViolation OneActiveRunPerStory)
     | (None, False) \<Rightarrow> modify (\<lambda>w. w\<lparr>w_runs := dict_put (sr_run_id r) r (w_runs w)\<rparr>))"

definition get_story_run :: "string \<Rightarrow> StoryRunRecord option db" where
  "get_story_run rid =
     andThen (gets (\<lambda>w. map_of (w_runs w) rid)) (\<lambda>row.
     case row of None \<Rightarrow> ret None
     | Some r \<Rightarrow> andThen (checked valid_StoryRunRecord r) (\<lambda>x. ret (Some x)))"

definition create_story_run_or_get :: "StoryRunRecord \<Rightarrow> StoryRunRecord handler" where
  "create_story_run_or_get r =
     rescue (chain (perform (create_story_run r)) (\<lambda>_. Ret r)) (\<lambda>e.
     case e of
       ConstraintViolation c \<Rightarrow>
         chain (perform (get_story_run (sr_run_id r))) (\<lambda>existing.
         case existing of
           Some x \<Rightarrow>
             if sr_run_story x = sr_run_story r \<and> sr_user_id x = sr_user_id r then Ret x else Raise e
         | None \<Rightarrow> Raise e)
     | _ \<Rightarrow> Raise e)"

definition update_story_run_state :: "string \<Rightarrow> session_state \<Rightarrow> instant \<Rightarrow> unit db" where
  "update_story_run_state rid st t =
     modify (\<lambda>w. case map_of (w_runs w) rid of
         None \<Rightarrow> w
       | Some r \<Rightarrow> w\<lparr>w_runs := dict_put rid (r\<lparr>sr_state := st, sr_updated_at := t\<rparr>) (w_runs w)\<rparr>)"

section \<open>Sessions\<close>

definition session_conflict :: "SessionRecord \<Rightarrow> world \<Rightarrow> db_constraint option" where
  "session_conflict s w =
     (if 10 < se_turn_count s then Some CheckViolation
      else if map_of (w_sessions w) (se_session_id s) \<noteq> None \<or>
              list_ex (\<lambda>q. se_story_run_id q = se_story_run_id s) (dict_values (w_sessions w))
      then Some OtherUnique
      else if map_of (w_runs w) (se_story_run_id s) = None then Some ForeignKeyViolation
      else None)"

definition create_session :: "SessionRecord \<Rightarrow> unit db" where
  "create_session s =
     andThen (gets (session_conflict s)) (\<lambda>c.
     case c of
       Some v \<Rightarrow> raise (ConstraintViolation v)
     | None \<Rightarrow> modify (\<lambda>w. w\<lparr>w_sessions := dict_put (se_session_id s) s (w_sessions w)\<rparr>))"

text \<open>\<open>select * from sessions where story_run_id = $1\<close> (unique).\<close>

definition session_of_run :: "string \<Rightarrow> SessionRecord option db" where
  "session_of_run rid =
     andThen (gets (\<lambda>w. find (\<lambda>q. se_story_run_id q = rid) (dict_values (w_sessions w)))) (\<lambda>row.
     case row of None \<Rightarrow> ret None
     | Some s \<Rightarrow> andThen (checked valid_SessionRecord s) (\<lambda>x. ret (Some x)))"

definition create_session_or_get :: "SessionRecord \<Rightarrow> SessionRecord handler" where
  "create_session_or_get s =
     rescue (chain (perform (create_session s)) (\<lambda>_. Ret s)) (\<lambda>e.
     case e of
       ConstraintViolation c \<Rightarrow>
         chain (perform (session_of_run (se_story_run_id s))) (\<lambda>existing.
         case existing of Some x \<Rightarrow> Ret x | None \<Rightarrow> Raise e)
     | _ \<Rightarrow> Raise e)"

definition get_session :: "string \<Rightarrow> uuid \<Rightarrow> SessionRecord option db" where
  "get_session sid user =
     andThen (gets (\<lambda>w. map_of (w_sessions w) sid)) (\<lambda>row.
     case row of
       None \<Rightarrow> ret None
     | Some s \<Rightarrow>
         if se_user_id s = user then andThen (checked valid_SessionRecord s) (\<lambda>x. ret (Some x))
         else ret None)"

definition touch_session :: "string \<Rightarrow> unit db" where
  "touch_session sid =
     modify (\<lambda>w. case map_of (w_sessions w) sid of
         None \<Rightarrow> w
       | Some s \<Rightarrow> w\<lparr>w_sessions := dict_put sid (s\<lparr>se_updated_at := w_clock w\<rparr>) (w_sessions w)\<rparr>)"

definition set_processing_stage :: "string \<Rightarrow> processing_stage option \<Rightarrow> unit db" where
  "set_processing_stage sid stage =
     modify (\<lambda>w. case map_of (w_sessions w) sid of
         None \<Rightarrow> w
       | Some _ \<Rightarrow> w\<lparr>w_stages := dict_put sid stage (w_stages w)\<rparr>)"

definition get_processing_stage :: "string \<Rightarrow> processing_stage option db" where
  "get_processing_stage sid = gets (\<lambda>w. Option.bind (map_of (w_stages w) sid) id)"

text \<open>
  One keyset page, newest first: the rows of the user before the key, at most one more than asked
  for (its presence is the \<open>more\<close> flag). Session ids compare by code point.
\<close>

definition row_key :: "SessionRecord \<Rightarrow> instant \<times> string" where
  "row_key s = (se_updated_at s, se_session_id s)"

definition newest_first :: "SessionRecord list \<Rightarrow> SessionRecord list" where
  "newest_first rows = rev (sort_key row_key rows)"

definition page_rows :: "world \<Rightarrow> uuid \<Rightarrow> (instant \<times> string) option \<Rightarrow> SessionRecord list" where
  "page_rows w user before =
     newest_first (filter (\<lambda>s. se_user_id s = user \<and>
         (case before of None \<Rightarrow> True | Some k \<Rightarrow> row_key s < k)) (dict_values (w_sessions w)))"

definition list_sessions ::
    "uuid \<Rightarrow> nat \<Rightarrow> (instant \<times> string) option \<Rightarrow>
     ((SessionRecord \<times> processing_stage option) list \<times> bool) db" where
  "list_sessions user limit before =
     andThen (gets (\<lambda>w. (take (limit + 1) (page_rows w user before), w_stages w))) (\<lambda>x.
     case x of (rows, stages) \<Rightarrow>
       andThen (require (list_all valid_SessionRecord (take limit rows)) ValidationError) (\<lambda>_.
       ret (map (\<lambda>s. (s, Option.bind (map_of stages (se_session_id s)) id)) (take limit rows),
            limit < length rows)))"

record session_update =
  up_state :: "session_state option"
  up_count :: "nat option"
  up_final :: "ArtifactReference option"
  up_reports :: "ArtifactReference list option"

definition no_update :: session_update where
  "no_update = \<lparr>up_state = None, up_count = None, up_final = None, up_reports = None\<rparr>"

definition apply_update :: "session_update \<Rightarrow> instant \<Rightarrow> SessionRecord \<Rightarrow> SessionRecord" where
  "apply_update u t s =
     s\<lparr>se_updated_at := t,
       se_state := (case up_state u of None \<Rightarrow> se_state s | Some x \<Rightarrow> x),
       se_turn_count := (case up_count u of None \<Rightarrow> se_turn_count s | Some x \<Rightarrow> x),
       se_final_review_reference := (case up_final u of None \<Rightarrow> se_final_review_reference s | Some x \<Rightarrow> Some x),
       se_report_references := (case up_reports u of None \<Rightarrow> se_report_references s | Some x \<Rightarrow> x)\<rparr>"

text \<open>The two statements of \<open>update_session\<close>; a count outside 0..10 breaks the column's check.\<close>

definition update_session_row :: "string \<Rightarrow> session_update \<Rightarrow> unit db" where
  "update_session_row sid u =
     andThen (gets (\<lambda>w. map_of (w_sessions w) sid)) (\<lambda>row.
     case row of
       None \<Rightarrow> ret ()
     | Some s \<Rightarrow>
         if (case up_count u of None \<Rightarrow> False | Some n \<Rightarrow> 10 < n) then raise DatabaseError
         else modify (\<lambda>w. w\<lparr>w_sessions := dict_put sid (apply_update u (w_clock w) s) (w_sessions w)\<rparr>))"

definition retire_story_run :: "string \<Rightarrow> session_state \<Rightarrow> unit db" where
  "retire_story_run sid st =
     andThen (gets (\<lambda>w. (map_of (w_sessions w) sid, w_clock w))) (\<lambda>x.
     case x of
       (None, _) \<Rightarrow> ret ()
     | (Some s, t) \<Rightarrow> update_story_run_state (se_story_run_id s) st t)"

definition retires :: "session_update \<Rightarrow> session_state option" where
  "retires u = (case up_state u of Some Parked \<Rightarrow> Some Parked | Some Completed \<Rightarrow> Some Completed | _ \<Rightarrow> None)"

definition update_session :: "string \<Rightarrow> session_update \<Rightarrow> unit db" where
  "update_session sid u =
     andThen (update_session_row sid u) (\<lambda>_.
     case retires u of None \<Rightarrow> ret () | Some st \<Rightarrow> retire_story_run sid st)"

text \<open>Without a caller's connection the two statements commit one after the other.\<close>

definition update_session_alone :: "string \<Rightarrow> session_update \<Rightarrow> unit handler" where
  "update_session_alone sid u =
     chain (perform (update_session_row sid u)) (\<lambda>_.
     case retires u of None \<Rightarrow> Ret () | Some st \<Rightarrow> perform (retire_story_run sid st))"

section \<open>Turns\<close>

definition create_turn :: "TurnRecord \<Rightarrow> unit db" where
  "create_turn t =
     andThen (gets (\<lambda>w. (map_of (w_turns w) (tu_session_id t, tu_turn_number t),
                          map_of (w_sessions w) (tu_session_id t)))) (\<lambda>x.
     case x of
       (Some _, _) \<Rightarrow> raise (ConstraintViolation OtherUnique)
     | (None, None) \<Rightarrow> raise (ConstraintViolation ForeignKeyViolation)
     | (None, Some _) \<Rightarrow>
         modify (\<lambda>w. w\<lparr>w_turns := dict_put (tu_session_id t, tu_turn_number t) t (w_turns w)\<rparr>))"

definition get_turn :: "string \<Rightarrow> nat \<Rightarrow> TurnRecord option db" where
  "get_turn sid n =
     andThen (gets (\<lambda>w. map_of (w_turns w) (sid, n))) (\<lambda>row.
     case row of None \<Rightarrow> ret None
     | Some t \<Rightarrow> andThen (checked valid_TurnRecord t) (\<lambda>x. ret (Some x)))"

definition create_turn_or_get :: "TurnRecord \<Rightarrow> TurnRecord handler" where
  "create_turn_or_get t =
     rescue (chain (perform (create_turn t)) (\<lambda>_. Ret t)) (\<lambda>e.
     case e of
       ConstraintViolation c \<Rightarrow>
         chain (perform (get_turn (tu_session_id t) (tu_turn_number t))) (\<lambda>existing.
         case existing of Some x \<Rightarrow> Ret x | None \<Rightarrow> Raise e)
     | _ \<Rightarrow> Raise e)"

text \<open>\<open>select * from turns where session_id = $1 order by turn_number\<close>.\<close>

definition turns_of :: "world \<Rightarrow> string \<Rightarrow> TurnRecord list" where
  "turns_of w sid =
     map snd (sort_key (\<lambda>x. snd (fst x)) (filter (\<lambda>x. fst (fst x) = sid) (w_turns w)))"

definition list_turns :: "string \<Rightarrow> TurnRecord list db" where
  "list_turns sid =
     andThen (gets (\<lambda>w. turns_of w sid)) (\<lambda>rows.
     andThen (require (list_all valid_TurnRecord rows) ValidationError) (\<lambda>_. ret rows))"

definition finalizing_turn :: "world \<Rightarrow> string \<Rightarrow> TurnRecord option" where
  "finalizing_turn w sid = find_last (\<lambda>t. tu_outcome t = Some Finalize) (turns_of w sid)"

text \<open>The select and the update are two statements.\<close>

definition stamp_turn :: "string \<Rightarrow> nat \<Rightarrow> ArtifactReference list \<Rightarrow> unit db" where
  "stamp_turn sid n refs =
     modify (\<lambda>w. case map_of (w_turns w) (sid, n) of
         None \<Rightarrow> w
       | Some t \<Rightarrow> w\<lparr>w_turns := dict_put (sid, n) (t\<lparr>tu_produced := refs\<rparr>) (w_turns w)\<rparr>)"

definition set_finalizing_turn_artifacts :: "string \<Rightarrow> ArtifactReference list \<Rightarrow> unit handler" where
  "set_finalizing_turn_artifacts sid refs =
     chain (perform (gets (\<lambda>w. map_option tu_turn_number (finalizing_turn w sid)))) (\<lambda>n.
     case n of None \<Rightarrow> Ret () | Some n \<Rightarrow> perform (stamp_turn sid n refs))"

section \<open>Agent runs\<close>

definition agent_run_conflict :: "AgentRunRecord \<Rightarrow> world \<Rightarrow> db_constraint option" where
  "agent_run_conflict a w =
     (if map_of (w_agent_runs w) (ag_run_id a) \<noteq> None then Some OtherUnique
      else if map_of (w_runs w) (ag_story_run_id a) = None \<or>
              (case ag_session_id a of None \<Rightarrow> False | Some s \<Rightarrow> map_of (w_sessions w) s = None)
      then Some ForeignKeyViolation else None)"

definition create_agent_run :: "AgentRunRecord \<Rightarrow> unit db" where
  "create_agent_run a =
     andThen (gets (agent_run_conflict a)) (\<lambda>c.
     case c of
       Some v \<Rightarrow> raise (ConstraintViolation v)
     | None \<Rightarrow> modify (\<lambda>w. w\<lparr>w_agent_runs := dict_put (ag_run_id a) a (w_agent_runs w)\<rparr>))"

definition get_agent_run :: "string \<Rightarrow> AgentRunRecord option db" where
  "get_agent_run aid =
     andThen (gets (\<lambda>w. map_of (w_agent_runs w) aid)) (\<lambda>row.
     case row of None \<Rightarrow> ret None
     | Some a \<Rightarrow> andThen (checked valid_AgentRunRecord a) (\<lambda>x. ret (Some x)))"

definition create_agent_run_or_get :: "AgentRunRecord \<Rightarrow> AgentRunRecord handler" where
  "create_agent_run_or_get a =
     rescue (chain (perform (create_agent_run a)) (\<lambda>_. Ret a)) (\<lambda>e.
     case e of
       ConstraintViolation c \<Rightarrow>
         chain (perform (get_agent_run (ag_run_id a))) (\<lambda>existing.
         case existing of Some x \<Rightarrow> Ret x | None \<Rightarrow> Raise e)
     | _ \<Rightarrow> Raise e)"

section \<open>The world before the first request\<close>

definition empty_world :: world where
  "empty_world =
     \<lparr>w_runs = [], w_sessions = [], w_stages = [], w_turns = [], w_agent_runs = [], w_leases = [],
      w_claims = [], w_bucket = empty_bucket, w_reports = no_reports, w_clock = 0, w_calls = 0,
      w_tokens = 0, w_events = []\<rparr>"

end
