(* ===== verification/Lease.thy ===== *)
theory Lease
  imports World
begin

text \<open>
  The session turn lease (\<open>orchestration/orchestration/lease.py\<close>): one row per session, six
  minutes long, taken over when it has expired, renewed and released only with its token. Times
  are microseconds of the database clock; \<open>tok\<close> is the token source (\<open>uuid4()\<close>).
\<close>

section \<open>Operations\<close>

definition TTL :: int where "TTL = 6 * 60 * 1000000"

definition fresh_token :: "(nat \<Rightarrow> uuid) \<Rightarrow> uuid db" where
  "fresh_token tok =
     andThen (gets w_tokens) (\<lambda>n.
     andThen (modify (\<lambda>w. w\<lparr>w_tokens := n + 1\<rparr>)) (\<lambda>_. ret (tok n)))"

text \<open>The upsert: inserts, or replaces an expired row, or returns no row.\<close>

definition lease_upsert :: "string \<Rightarrow> uuid \<Rightarrow> bool db" where
  "lease_upsert sid token =
     andThen (gets (\<lambda>w. (map_of (w_sessions w) sid, map_of (w_leases w) sid, w_clock w))) (\<lambda>x.
     case x of
       (None, _, _) \<Rightarrow> raise DatabaseError
     | (Some _, row, t) \<Rightarrow>
         let fresh = \<lparr>tl_session_id = sid, tl_token = token, tl_acquired_at = t, tl_expires_at = t + TTL\<rparr> in
         if (case row of None \<Rightarrow> True | Some l \<Rightarrow> tl_expires_at l \<le> t)
         then andThen (modify (\<lambda>w. w\<lparr>w_leases := dict_put sid fresh (w_leases w)\<rparr>)) (\<lambda>_. ret True)
         else ret False)"

text \<open>\<open>ceil(extract(epoch from expires_at - now()))\<close>.\<close>

definition ceil_seconds :: "int \<Rightarrow> int" where
  "ceil_seconds us = - ((- us) div 1000000)"

definition lease_retry_after :: "string \<Rightarrow> nat option db" where
  "lease_retry_after sid =
     gets (\<lambda>w. map_option (\<lambda>l. nat (max 1 (ceil_seconds (tl_expires_at l - w_clock w))))
       (map_of (w_leases w) sid))"

definition attempt_acquire :: "(nat \<Rightarrow> uuid) \<Rightarrow> string \<Rightarrow> (uuid + nat option) handler" where
  "attempt_acquire tok sid =
     chain (perform (fresh_token tok)) (\<lambda>token.
     chain (perform (lease_upsert sid token)) (\<lambda>acquired.
     if acquired then Ret (Inl token)
     else chain (perform (lease_retry_after sid)) (\<lambda>r. Ret (Inr r))))"

fun acquire_loop :: "(nat \<Rightarrow> uuid) \<Rightarrow> string \<Rightarrow> nat \<Rightarrow> uuid handler" where
  "acquire_loop tok sid 0 = Raise (SessionLocked 1)"
| "acquire_loop tok sid (Suc n) =
     chain (attempt_acquire tok sid) (\<lambda>r.
     case r of
       Inl token \<Rightarrow> Ret token
     | Inr (Some k) \<Rightarrow> Raise (SessionLocked k)
     | Inr None \<Rightarrow> acquire_loop tok sid n)"

definition lease_acquire :: "(nat \<Rightarrow> uuid) \<Rightarrow> string \<Rightarrow> uuid handler" where
  "lease_acquire tok sid = acquire_loop tok sid 3"

definition holds_lease :: "world \<Rightarrow> string \<Rightarrow> uuid \<Rightarrow> bool" where
  "holds_lease w sid token =
     (case map_of (w_leases w) sid of None \<Rightarrow> False | Some l \<Rightarrow> tl_token l = token)"

definition lease_renew :: "string \<Rightarrow> uuid \<Rightarrow> bool db" where
  "lease_renew sid token =
     andThen (gets (\<lambda>w. map_of (w_leases w) sid)) (\<lambda>row.
     case row of
       None \<Rightarrow> ret False
     | Some l \<Rightarrow>
         if tl_token l = token
         then andThen (modify (\<lambda>w. w\<lparr>w_leases :=
             dict_put sid (l\<lparr>tl_expires_at := w_clock w + TTL\<rparr>) (w_leases w)\<rparr>)) (\<lambda>_. ret True)
         else ret False)"

definition dict_remove :: "'k \<Rightarrow> ('k, 'v) dict \<Rightarrow> ('k, 'v) dict" where
  "dict_remove k d = filter (\<lambda>x. fst x \<noteq> k) d"

lemma map_of_dict_remove [dict_simps]: "map_of (dict_remove k d) = (map_of d)(k := None)"
  by (induction d) (auto simp: dict_remove_def fun_eq_iff)

lemma keys_dict_remove: "dict_keys (dict_remove k d) = filter (\<lambda>j. j \<noteq> k) (dict_keys d)"
  by (simp add: dict_remove_def dict_keys_def filter_map o_def)

definition lease_release :: "string \<Rightarrow> uuid \<Rightarrow> bool db" where
  "lease_release sid token =
     andThen (gets (\<lambda>w. holds_lease w sid token)) (\<lambda>own.
     if own then andThen (modify (\<lambda>w. w\<lparr>w_leases := dict_remove sid (w_leases w)\<rparr>)) (\<lambda>_. ret True)
     else ret False)"

section \<open>Exclusion\<close>

text \<open>
  What may happen to the lease table between two actions of a holder: others acquire, renew or
  release with their own tokens, for any session, and time passes.
\<close>

datatype lease_event = Acquire string uuid | Renew string uuid | Release string uuid | Elapse nat

fun lease_event_step :: "lease_event \<Rightarrow> world \<Rightarrow> world" where
  "lease_event_step (Acquire sid token) w = snd (lease_upsert sid token w)"
| "lease_event_step (Renew sid token) w = snd (lease_renew sid token w)"
| "lease_event_step (Release sid token) w = snd (lease_release sid token w)"
| "lease_event_step (Elapse n) w = w\<lparr>w_clock := w_clock w + int n\<rparr>"

fun event_token :: "lease_event \<Rightarrow> uuid option" where
  "event_token (Acquire sid token) = Some token"
| "event_token (Renew sid token) = Some token"
| "event_token (Release sid token) = Some token"
| "event_token (Elapse n) = None"

definition lease_run :: "lease_event list \<Rightarrow> world \<Rightarrow> world" where
  "lease_run es w = fold lease_event_step es w"

fun elapsed :: "lease_event list \<Rightarrow> nat" where
  "elapsed [] = 0"
| "elapsed (Elapse n # es) = n + elapsed es"
| "elapsed (e # es) = elapsed es"

lemmas lease_ops = lease_upsert_def lease_renew_def lease_release_def holds_lease_def Let_def

lemma lease_event_keeps:
  assumes "map_of (w_leases w) sid = Some l" "w_clock w < tl_expires_at l" "event_token e \<noteq> Some (tl_token l)"
  shows "map_of (w_leases (lease_event_step e w)) sid = Some l"
proof (cases e)
  case (Acquire s t)
  then show ?thesis
    using assms by (cases "map_of (w_sessions w) s"; cases "map_of (w_leases w) s")
      (auto simp: lease_ops comp_simps map_of_dict_put)
next
  case (Renew s t)
  then show ?thesis
    using assms by (cases "map_of (w_leases w) s") (auto simp: lease_ops comp_simps map_of_dict_put)
next
  case (Release s t)
  then show ?thesis
    using assms by (auto simp: lease_ops comp_simps map_of_dict_remove split: option.splits)
qed (use assms in simp)

lemma lease_event_clock:
  "w_clock (lease_event_step e w) = w_clock w + (case e of Elapse n \<Rightarrow> int n | _ \<Rightarrow> 0)"
  by (cases e) (auto simp: lease_ops comp_simps split: option.splits)

text \<open>C24. While a lease has time left, nobody but its token holder can change it: after any
  interleaving of acquisitions, renewals and releases with other tokens, within the time left,
  the holder's row is still there, unchanged.\<close>

theorem lease_exclusive:
  assumes "map_of (w_leases w) sid = Some l" "w_clock w + int (elapsed es) < tl_expires_at l"
    "\<forall>e \<in> set es. event_token e \<noteq> Some (tl_token l)"
  shows "map_of (w_leases (lease_run es w)) sid = Some l"
  using assms
proof (induction es arbitrary: w)
  case Nil
  then show ?case by (simp add: lease_run_def)
next
  case (Cons e es)
  have el: "elapsed (e # es) = (case e of Elapse n \<Rightarrow> n | _ \<Rightarrow> 0) + elapsed es"
    by (cases e) simp_all
  have row: "map_of (w_leases (lease_event_step e w)) sid = Some l"
    by (rule lease_event_keeps) (use Cons.prems el in auto)
  have "w_clock (lease_event_step e w) + int (elapsed es) = w_clock w + int (elapsed (e # es))"
    unfolding lease_event_clock el by (cases e) simp_all
  then have "map_of (w_leases (lease_run es (lease_event_step e w))) sid = Some l"
    using Cons.prems row by (intro Cons.IH) auto
  then show ?case by (simp add: lease_run_def)
qed

section \<open>Acquiring\<close>

definition contended :: "world \<Rightarrow> string \<Rightarrow> nat option" where
  "contended w sid =
     (case map_of (w_leases w) sid of None \<Rightarrow> None
      | Some l \<Rightarrow> if tl_expires_at l \<le> w_clock w then None
                  else Some (nat (max 1 (ceil_seconds (tl_expires_at l - w_clock w)))))"

definition with_lease :: "(nat \<Rightarrow> uuid) \<Rightarrow> string \<Rightarrow> world \<Rightarrow> world" where
  "with_lease tok sid w =
     w\<lparr>w_tokens := w_tokens w + 1,
       w_leases := dict_put sid \<lparr>tl_session_id = sid, tl_token = tok (w_tokens w),
         tl_acquired_at = w_clock w, tl_expires_at = w_clock w + TTL\<rparr> (w_leases w)\<rparr>"

lemma acquire_run:
  assumes "map_of (w_sessions w) sid = Some s"
  shows "run (lease_acquire tok sid) w =
    (case contended w sid of
       None \<Rightarrow> (Inr (tok (w_tokens w)), with_lease tok sid w)
     | Some k \<Rightarrow> (Inl (SessionLocked k), w\<lparr>w_tokens := w_tokens w + 1\<rparr>))"
  using assms
  by (auto simp: lease_acquire_def eval_nat_numeral attempt_acquire_def fresh_token_def lease_upsert_def
      lease_retry_after_def comp_simps run_simps contended_def with_lease_def Let_def
      split: option.splits)

text \<open>Acquiring a session's lease on its own succeeds exactly when there is no unexpired
  lease, gives the caller six minutes, and otherwise reports the whole seconds the holder has
  left, rounded up and at least one.\<close>

theorem lease_acquire_spec:
  assumes "map_of (w_sessions w) sid \<noteq> None"
  shows "case map_of (w_leases w) sid of
      None \<Rightarrow> \<exists>t. run (lease_acquire tok sid) w = (Inr (tok (w_tokens w)), t) \<and>
        map_option tl_expires_at (map_of (w_leases t) sid) = Some (w_clock w + 360000000)
    | Some l \<Rightarrow>
        if tl_expires_at l \<le> w_clock w
        then \<exists>t. run (lease_acquire tok sid) w = (Inr (tok (w_tokens w)), t) \<and> holds_lease t sid (tok (w_tokens w))
        else \<exists>k t. run (lease_acquire tok sid) w = (Inl (SessionLocked k), t) \<and> w_leases t = w_leases w \<and>
          1 \<le> k \<and> tl_expires_at l - w_clock w \<le> int k * 1000000 \<and>
          (int k - 1) * 1000000 < tl_expires_at l - w_clock w"
proof -
  obtain s where s: "map_of (w_sessions w) sid = Some s" using assms by blast
  have ceil: "x \<le> int (nat (max 1 (ceil_seconds x))) * 1000000 \<and>
      (int (nat (max 1 (ceil_seconds x))) - 1) * 1000000 < x" if "0 < x" for x
  proof -
    have "1 \<le> ceil_seconds x" unfolding ceil_seconds_def using that by linarith
    then show ?thesis unfolding ceil_seconds_def by (simp add: max_def) linarith
  qed
  show ?thesis
  proof (cases "map_of (w_leases w) sid")
    case None
    then show ?thesis
      using acquire_run[OF s, of tok] by (simp add: contended_def with_lease_def map_of_dict_put TTL_def)
  next
    case (Some l)
    show ?thesis
    proof (cases "tl_expires_at l \<le> w_clock w")
      case True
      with Some show ?thesis
        using acquire_run[OF s, of tok] by (simp add: contended_def with_lease_def map_of_dict_put holds_lease_def)
    next
      case False
      with Some ceil[of "tl_expires_at l - w_clock w"] show ?thesis
        using acquire_run[OF s, of tok] by (auto simp: contended_def)
    qed
  qed
qed

section \<open>At concrete inputs\<close>

definition demo_lease :: "nat \<Rightarrow> TurnLeaseRecord" where
  "demo_lease token =
     \<lparr>tl_session_id = ''s'', tl_token = of_nat token, tl_acquired_at = 0, tl_expires_at = TTL\<rparr>"

definition demo_leased :: world where
  "demo_leased = empty_world\<lparr>w_leases := [(''s'', demo_lease 1)],
     w_sessions := [(''s'', \<lparr>se_session_id = ''s'', se_story_run_id = ''r'', se_story_id = ''US-1'',
       se_user_id = 7, se_state = Active, se_requested_formats = [Md], se_turn_count = 1,
       se_final_review_reference = None, se_report_references = [], se_created_at = 0,
       se_updated_at = 0\<rparr>)]\<rparr>"

text \<open>A second holder tries to take, renew and release the session within the six minutes.\<close>

lemma lease_exclusive_witness:
  "map_of (w_leases (lease_run [Acquire ''s'' 2, Elapse 1000, Release ''s'' 3, Renew ''s'' 2] demo_leased)) ''s''
    = Some (demo_lease 1)"
  by (rule lease_exclusive) (simp_all add: demo_leased_def empty_world_def demo_lease_def TTL_def)

lemma lease_acquire_spec_witness:
  "\<exists>k t. run (lease_acquire of_nat ''s'') demo_leased = (Inl (SessionLocked k), t) \<and>
     1 \<le> k \<and> TTL \<le> int k * 1000000"
  using lease_acquire_spec[of demo_leased "''s''" of_nat]
  by (auto simp: demo_leased_def empty_world_def demo_lease_def TTL_def)

end
