(* ===== verification/Idempotency.thy ===== *)
theory Idempotency
  imports Lease
begin

text \<open>
  The idempotency claims (\<open>orchestration/orchestration/idempotency.py\<close>). A claim is an insert
  that does nothing on conflict and, when it inserted nothing, a separate read of the row; the
  row may be gone by then, and subscripting None raises. The stored response is JSON; storing and
  loading it is the identity on the canonical values (the replay validates them again).
\<close>

section \<open>Operations\<close>

datatype claim_outcome = Claimed | Replay "canonical option" | StillInProgress

type_synonym claim_key = "route \<times> string \<times> uuid"

definition claim_insert :: "claim_key \<Rightarrow> string \<Rightarrow> bool db" where
  "claim_insert k fp =
     andThen (gets (\<lambda>w. map_of (w_claims w) k)) (\<lambda>row.
     case row of
       Some _ \<Rightarrow> ret False
     | None \<Rightarrow>
         andThen (modify (\<lambda>w. w\<lparr>w_claims := dict_put k
           \<lparr>cl_fingerprint = fp, cl_completed = False, cl_response = None\<rparr> (w_claims w)\<rparr>)) (\<lambda>_. ret True))"

definition claim_outcome_of :: "string \<Rightarrow> claim_row option \<Rightarrow> exc + claim_outcome" where
  "claim_outcome_of fp row =
     (case row of
        None \<Rightarrow> Inl PythonError
      | Some c \<Rightarrow>
          if cl_fingerprint c \<noteq> fp then Inl KeyReused
          else if cl_completed c then Inr (Replay (cl_response c))
          else Inr StillInProgress)"

definition idempotency_claim :: "claim_key \<Rightarrow> string \<Rightarrow> claim_outcome handler" where
  "idempotency_claim k fp =
     chain (perform (claim_insert k fp)) (\<lambda>inserted.
     if inserted then Ret Claimed
     else chain (perform (gets (\<lambda>w. map_of (w_claims w) k))) (\<lambda>row.
       case claim_outcome_of fp row of Inl e \<Rightarrow> Raise e | Inr r \<Rightarrow> Ret r))"

definition claim_release :: "claim_key \<Rightarrow> unit db" where
  "claim_release k =
     modify (\<lambda>w. case map_of (w_claims w) k of
         None \<Rightarrow> w
       | Some c \<Rightarrow> if cl_completed c then w else w\<lparr>w_claims := dict_remove k (w_claims w)\<rparr>)"

definition claim_complete :: "claim_key \<Rightarrow> canonical \<Rightarrow> unit db" where
  "claim_complete k r =
     modify (\<lambda>w. case map_of (w_claims w) k of
         None \<Rightarrow> w
       | Some c \<Rightarrow> w\<lparr>w_claims := dict_put k (c\<lparr>cl_completed := True, cl_response := Some r\<rparr>) (w_claims w)\<rparr>)"

section \<open>What a claim finds\<close>

lemma claim_run:
  "run (idempotency_claim k fp) w =
    (case map_of (w_claims w) k of
       None \<Rightarrow> (Inr Claimed, w\<lparr>w_claims := dict_put k
         \<lparr>cl_fingerprint = fp, cl_completed = False, cl_response = None\<rparr> (w_claims w)\<rparr>)
     | Some c \<Rightarrow>
         (if cl_fingerprint c \<noteq> fp then (Inl KeyReused, w)
          else if cl_completed c then (Inr (Replay (cl_response c)), w)
          else (Inr StillInProgress, w)))"
  by (auto simp: idempotency_claim_def claim_insert_def claim_outcome_of_def comp_simps run_simps
      split: option.splits)

text \<open>
  Everything that can happen to one key's row: claims, releases and completions of any keys, in
  any order.
\<close>

datatype claim_event = ClaimEvent claim_key string | ReleaseEvent claim_key | CompleteEvent claim_key canonical

fun claim_event_step :: "claim_event \<Rightarrow> world \<Rightarrow> world" where
  "claim_event_step (ClaimEvent k fp) w = snd (claim_insert k fp w)"
| "claim_event_step (ReleaseEvent k) w = snd (claim_release k w)"
| "claim_event_step (CompleteEvent k r) w = snd (claim_complete k r w)"

definition claim_events :: "claim_event list \<Rightarrow> world \<Rightarrow> world" where
  "claim_events es w = fold claim_event_step es w"

text \<open>A row keeps its fingerprint, and once completed it stays completed.\<close>

lemma completed_step:
  assumes "map_of (w_claims w) k = Some c" "cl_completed c"
  shows "\<exists>d. map_of (w_claims (claim_event_step e w)) k = Some d \<and> cl_completed d \<and>
    cl_fingerprint d = cl_fingerprint c \<and> cl_response d \<in> insert (cl_response c) {Some r | r. e = CompleteEvent k r}"
proof (cases e)
  case (ClaimEvent j fp)
  then show ?thesis
    using assms by (cases "map_of (w_claims w) j") (auto simp: claim_insert_def comp_simps map_of_dict_put)
next
  case (ReleaseEvent j)
  then show ?thesis
    using assms by (cases "map_of (w_claims w) j") (auto simp: claim_release_def comp_simps map_of_dict_remove)
next
  case (CompleteEvent j r)
  then show ?thesis
    using assms by (cases "map_of (w_claims w) j") (auto simp: claim_complete_def comp_simps map_of_dict_put)
qed

text \<open>C25. A completed claim is never lost: whatever claims, releases and completions follow, in
  any order and for any keys, a repeated request with the same body finds a stored response (the
  first one, unless the same key was completed again), and one with another body is refused.\<close>

theorem completed_claims_survive:
  assumes "map_of (w_claims w) k = Some c" "cl_completed c" "cl_response c = Some r"
  shows "(\<exists>r' t. run (idempotency_claim k (cl_fingerprint c)) (claim_events es w) = (Inr (Replay (Some r')), t) \<and>
      (r' = r \<or> CompleteEvent k r' \<in> set es)) \<and>
    (fp \<noteq> cl_fingerprint c \<longrightarrow> fst (run (idempotency_claim k fp) (claim_events es w)) = Inl KeyReused)"
proof -
  have "\<exists>d r'. map_of (w_claims (claim_events es w)) k = Some d \<and> cl_completed d \<and>
      cl_fingerprint d = cl_fingerprint c \<and> cl_response d = Some r' \<and> (r' = r \<or> CompleteEvent k r' \<in> set es)"
    using assms
  proof (induction es arbitrary: w c r)
    case Nil
    then show ?case by (simp add: claim_events_def)
  next
    case (Cons e es)
    obtain d where d: "map_of (w_claims (claim_event_step e w)) k = Some d" "cl_completed d"
        "cl_fingerprint d = cl_fingerprint c"
        "cl_response d \<in> insert (cl_response c) {Some x | x. e = CompleteEvent k x}"
      using completed_step[OF Cons.prems(1,2)] by blast
    then obtain x where x: "cl_response d = Some x" "x = r \<or> e = CompleteEvent k x"
      using Cons.prems(3) by auto
    show ?case
      using Cons.IH[OF d(1,2) x(1)] d(3) x(2) by (auto simp: claim_events_def)
  qed
  then show ?thesis
    by (auto simp: claim_run)
qed

definition demo_claim :: claim_row where
  "demo_claim = \<lparr>cl_fingerprint = ''body'', cl_completed = True,
     cl_response = Some (CanonReport \<lparr>cp_session_id = ''s'', cp_report_references = []\<rparr>)\<rparr>"

lemma completed_claims_survive_witness:
  "\<exists>r t. run (idempotency_claim (TurnRoute, ''s'', 1) ''body'')
      (claim_events [ReleaseEvent (TurnRoute, ''s'', 1), ClaimEvent (TurnRoute, ''s'', 1) ''x'']
        (empty_world\<lparr>w_claims := [((TurnRoute, ''s'', 1), demo_claim)]\<rparr>)) = (Inr (Replay (Some r)), t)"
  using completed_claims_survive[of
      "empty_world\<lparr>w_claims := [((TurnRoute, ''s'', 1), demo_claim)]\<rparr>" "(TurnRoute, ''s'', 1)" demo_claim]
  by (simp add: demo_claim_def) blast

end
