(* ===== verification/Services.thy ===== *)
theory Services
  imports Idempotency Turn_Rules
begin

text \<open>
  What the orchestration calls outside its database: the MCP client with its retry policy
  (\<open>mcp_client.py\<close>), the servers behind it (their stores are modelled, their error mapping is
  \<open>error_for\<close> of \<open>artifact_mcp/errors.py\<close> and \<open>report_mcp/errors.py\<close>), the agents, and the URL
  signer. Everything not under the model's control is a field of \<open>app_env\<close>: the answers of the
  agents and the backlog, the faults of each call (indexed by the running call number \<open>w_calls\<close>,
  so that two calls may differ), delays, hashes, uuid5, token and signature sources.
\<close>

section \<open>Environment\<close>

record agent_info =
  ai_version :: string
  ai_sha :: string
  ai_attempts :: nat
  ai_reprompts :: nat

record 'a timed =
  ti_answer :: 'a
  ti_info :: agent_info
  ti_started :: instant
  ti_finished :: instant

record ReviewerInvocation =
  vi_story :: StoryDetail
  vi_previous :: "ReviewReport option"
  vi_extra :: "string option"

record SynthesisInvocation =
  yi_business :: "ReviewReport \<times> ArtifactReference"
  yi_engineering :: "ReviewReport \<times> ArtifactReference"

text \<open>
  One transport attempt: answered, lost before or after the server worked, the server dying
  after some storage accesses, or an answer the caller's model rejects.
\<close>

datatype mcp_fault = Healthy | LostBefore | LostAfter | ServerDies nat | Malformed

datatype request_body = BodyCreate CreateSessionRequest uuid | BodyTurn TurnRequest | BodyEmpty

record app_env =
  en_fingerprint :: "request_body \<Rightarrow> string"
  en_uuid5 :: "string \<Rightarrow> uuid"
  en_token :: "nat \<Rightarrow> uuid"
  en_fault :: "nat \<Rightarrow> mcp_fault"
  en_delay :: "nat \<Rightarrow> nat"
  en_rng :: "nat \<Rightarrow> nat"
  en_story :: "nat \<Rightarrow> string \<Rightarrow> ErrorBody + StoryDetail"
  en_review :: "nat \<Rightarrow> perspective \<Rightarrow> ReviewerInvocation \<Rightarrow> exc + ReviewReport \<times> agent_info"
  en_synthesis :: "nat \<Rightarrow> SynthesisInvocation \<Rightarrow> exc + SynthesisReport \<times> agent_info"
  en_facilitator :: "nat \<Rightarrow> FacilitatorRequest \<Rightarrow> exc + FacilitatorTurnOutput \<times> agent_info"
  en_sign :: "instant \<Rightarrow> ArtifactReference \<Rightarrow> string"
  en_url_ttl :: int
  en_art :: art_env
  en_rep :: rep_env
  en_deadline :: int
  en_attempts :: nat

definition next_call :: "app_env \<Rightarrow> nat db" where
  "next_call env =
     andThen (gets w_calls) (\<lambda>n.
     andThen (modify (\<lambda>w. w\<lparr>w_calls := n + 1, w_clock := w_clock w + int (en_delay env n)\<rparr>)) (\<lambda>_. ret n))"

definition deadline_of :: "app_env \<Rightarrow> instant handler" where
  "deadline_of env = perform (gets (\<lambda>w. w_clock w + en_deadline env))"

section \<open>The servers behind the MCP client\<close>

text \<open>\<open>error_for\<close>: no store failure of the artifact server is retryable.\<close>

definition server_error :: "error_code \<Rightarrow> bool \<Rightarrow> ErrorBody" where
  "server_error code retryable =
     \<lparr>eb_code = code, eb_message = ''tool failed'', eb_agent = None, eb_correlation = 0,
      eb_retryable = retryable, eb_retry_after = (if retryable then Some 30 else None)\<rparr>"

fun artifact_error :: "art_exc \<Rightarrow> exc" where
  "artifact_error ArtifactNotFound = McpCallFailure (server_error ARTIFACT_NOT_FOUND False)"
| "artifact_error IdempotencyKeyReused = McpCallFailure (server_error IDEMPOTENCY_KEY_REUSED False)"
| "artifact_error RecordInvalid = McpCallFailure (server_error VALIDATION_ERROR False)"
| "artifact_error PreconditionFailed = McpCallFailure (server_error UPSTREAM_UNAVAILABLE False)"
| "artifact_error ArtCrashed = McpTransportError"

fun report_error :: "rep_exc \<Rightarrow> exc" where
  "report_error FinalizedReviewNotFound = McpCallFailure (server_error ARTIFACT_NOT_FOUND False)"
| "report_error IdempotencyConflict = McpCallFailure (server_error IDEMPOTENCY_KEY_REUSED False)"
| "report_error ChecksumMismatch = McpCallFailure (server_error VALIDATION_ERROR False)"
| "report_error RepValidationError = McpCallFailure (server_error VALIDATION_ERROR False)"
| "report_error FPDFException = McpCallFailure (server_error RENDER_FAILED False)"
| "report_error RepPreconditionFailed = McpCallFailure (server_error UPSTREAM_UNAVAILABLE True)"
| "report_error RepCrashed = McpTransportError"

definition fault_budget :: "mcp_fault \<Rightarrow> nat option" where
  "fault_budget f = (case f of ServerDies n \<Rightarrow> Some n | _ \<Rightarrow> None)"

definition deliver :: "mcp_fault \<Rightarrow> (exc + 'a) \<Rightarrow> exc + 'a option" where
  "deliver f r =
     (case f of
        Healthy \<Rightarrow> (case r of Inl e \<Rightarrow> Inl e | Inr x \<Rightarrow> Inr (Some x))
      | Malformed \<Rightarrow> Inr None
      | _ \<Rightarrow> Inl McpTransportError)"

text \<open>One attempt against the artifact (report) server: the operation runs on its store.\<close>

definition serve_artifact :: "app_env \<Rightarrow> 'a art \<Rightarrow> 'a option db" where
  "serve_artifact env work =
     andThen (next_call env) (\<lambda>n w.
       if en_fault env n = LostBefore then (Inl McpTransportError, w)
       else case work ((w_bucket w)\<lparr>ao_budget := fault_budget (en_fault env n), ao_clock := w_clock w\<rparr>) of
         (r, b) \<Rightarrow>
           (deliver (en_fault env n) (case r of Inl e \<Rightarrow> Inl (artifact_error e) | Inr x \<Rightarrow> Inr x),
            w\<lparr>w_bucket := b\<lparr>ao_budget := None\<rparr>\<rparr>))"

definition serve_report :: "app_env \<Rightarrow> (art_records \<Rightarrow> 'a rep) \<Rightarrow> 'a option db" where
  "serve_report env work =
     andThen (next_call env) (\<lambda>n w.
       if en_fault env n = LostBefore then (Inl McpTransportError, w)
       else case work (ao_records (w_bucket w))
           ((w_reports w)\<lparr>ro_budget := fault_budget (en_fault env n), ro_clock := w_clock w\<rparr>) of
         (r, b) \<Rightarrow>
           (deliver (en_fault env n) (case r of Inl e \<Rightarrow> Inl (report_error e) | Inr x \<Rightarrow> Inr x),
            w\<lparr>w_reports := b\<lparr>ro_budget := None\<rparr>\<rparr>))"

definition serve_story :: "app_env \<Rightarrow> string \<Rightarrow> StoryDetail option db" where
  "serve_story env story =
     andThen (next_call env) (\<lambda>n w.
       (deliver (en_fault env n)
          (case en_story env n story of Inl e \<Rightarrow> Inl (McpCallFailure e) | Inr x \<Rightarrow> Inr x), w))"

definition server_save :: "app_env \<Rightarrow> SaveArtifactInput \<Rightarrow> (ArtifactReference \<times> bool) art" where
  "server_save env q = (if valid_SaveArtifactInput q then save (en_art env) q else raise RecordInvalid)"

section \<open>The MCP client\<close>

definition RESPONSE_CLEANUP_RESERVE :: int where "RESPONSE_CLEANUP_RESERVE = 5 * 1000000"

definition clamped_timeout :: "instant \<Rightarrow> unit db" where
  "clamped_timeout deadline =
     andThen (gets w_clock) (\<lambda>t. require (0 < deadline - t - RESPONSE_CLEANUP_RESERVE) McpDeadlineExceeded)"

definition tool_error_is_retryable :: "ErrorBody \<Rightarrow> bool" where
  "tool_error_is_retryable e =
     ((eb_code e = UPSTREAM_UNAVAILABLE \<or> eb_code e = RENDER_FAILED) \<and> eb_retryable e)"

text \<open>\<open>base * (0.5 + rng())\<close> with base 1 s, then 2 s; \<open>en_rng\<close> is in microseconds.\<close>

definition backoff_delay :: "nat \<Rightarrow> nat \<Rightarrow> nat" where
  "backoff_delay attempt r = (if attempt \<le> 1 then 1 else 2) * (500000 + r)"

definition mcp_backoff :: "app_env \<Rightarrow> nat \<Rightarrow> unit db" where
  "mcp_backoff env attempt =
     modify (\<lambda>w. w\<lparr>w_clock := w_clock w + int (backoff_delay attempt (en_rng env (w_calls w)))\<rparr>)"

text \<open>\<open>left\<close> attempts remain; the last one re-raises.\<close>

fun mcp_loop :: "app_env \<Rightarrow> instant \<Rightarrow> 'a db \<Rightarrow> nat \<Rightarrow> nat \<Rightarrow> 'a handler" where
  "mcp_loop env deadline attempt k 0 = Raise McpTransportError"
| "mcp_loop env deadline attempt k (Suc left) =
     chain (perform (clamped_timeout deadline)) (\<lambda>_.
     rescue (perform attempt) (\<lambda>e.
       case e of
         McpCallFailure b \<Rightarrow>
           if 0 < left \<and> tool_error_is_retryable b
           then chain (perform (mcp_backoff env k)) (\<lambda>_. mcp_loop env deadline attempt (k + 1) left)
           else Raise e
       | _ \<Rightarrow>
           if 0 < left
           then chain (perform (mcp_backoff env k)) (\<lambda>_. mcp_loop env deadline attempt (k + 1) left)
           else Raise McpTransportError))"

definition mcp_call :: "app_env \<Rightarrow> instant \<Rightarrow> 'a db \<Rightarrow> 'a handler" where
  "mcp_call env deadline attempt = mcp_loop env deadline attempt 1 (en_attempts env)"

text \<open>\<open>Model.model_validate_json(json.dumps(raw))\<close> on a reply.\<close>

definition parsed :: "'a option \<Rightarrow> 'a handler" where
  "parsed r = (case r of None \<Rightarrow> Raise ValidationError | Some x \<Rightarrow> Ret x)"

section \<open>Tool calls of the flows\<close>

definition mcp_failure :: "string \<Rightarrow> uuid \<Rightarrow> exc \<Rightarrow> exc" where
  "mcp_failure message correlation e =
     (case e of
        McpCallFailure b \<Rightarrow> tool_failure b correlation
      | McpTransportError \<Rightarrow> upstream message correlation None
      | McpDeadlineExceeded \<Rightarrow> upstream message correlation None
      | _ \<Rightarrow> e)"

definition save_artifact ::
    "app_env \<Rightarrow> artifact_type \<Rightarrow> string \<Rightarrow> content \<Rightarrow> uuid \<Rightarrow> instant \<Rightarrow> uuid \<Rightarrow> ArtifactReference handler"
where
  "save_artifact env ty run_id body key deadline correlation =
     (let q = \<lparr>sv_type = ty, sv_run = run_id, sv_perspective = expected_perspective ty,
               sv_content = body, sv_key = key\<rparr> in
      chain (demand (save_artifact_type ty \<and> RunId run_id \<and> is_uuid4 key \<and> type_matches_content q)
              ValidationError) (\<lambda>_.
      rescue
        (chain (mcp_call env deadline (serve_artifact env (server_save env q))) (\<lambda>raw.
         chain (parsed raw) (\<lambda>out. Ret (fst out))))
        (\<lambda>e. Raise (mcp_failure ''artifact MCP unavailable'' correlation e))))"

definition get_story :: "app_env \<Rightarrow> string \<Rightarrow> instant \<Rightarrow> uuid \<Rightarrow> StoryDetail handler" where
  "get_story env story deadline correlation =
     rescue (chain (mcp_call env deadline (serve_story env story)) parsed)
       (\<lambda>e. Raise (mcp_failure ''story MCP unavailable'' correlation e))"

text \<open>\<open>lineage.py\<close>: every failure becomes a retryable 503.\<close>

definition list_run_artifacts ::
    "app_env \<Rightarrow> string \<Rightarrow> instant \<Rightarrow> uuid \<Rightarrow> ArtifactReference list handler" where
  "list_run_artifacts env run_id deadline correlation =
     (let q = \<lparr>la_run = run_id, la_type = None, la_perspective = None, la_limit = 500, la_offset = 0\<rparr> in
      chain (demand (valid_ListArtifactsInput q) ValidationError) (\<lambda>_.
      rescue
        (chain (mcp_call env deadline (serve_artifact env (list_artifacts q))) (\<lambda>raw.
         chain (parsed raw) (\<lambda>out. Ret (fst out))))
        (\<lambda>e. Raise (upstream ''artifact MCP unavailable'' correlation None))))"

text \<open>\<open>max(matches, key=version)\<close> of one slot.\<close>

definition latest_of :: "ArtifactReference list \<Rightarrow> artifact_type \<Rightarrow> perspective option \<Rightarrow> ArtifactReference option"
where
  "latest_of refs ty p =
     max_by ar_version (filter (\<lambda>r. ar_type r = ty \<and> ar_perspective r = p) refs)"

definition lineage_latest ::
    "ArtifactReference list \<Rightarrow> artifact_type \<Rightarrow> perspective option \<Rightarrow> uuid \<Rightarrow> ArtifactReference handler"
where
  "lineage_latest refs ty p correlation =
     (case latest_of refs ty p of
        None \<Rightarrow> Raise (upstream ''missing artifact in the session lineage'' correlation None)
      | Some r \<Rightarrow> Ret r)"

definition artifact_content ::
    "app_env \<Rightarrow> ArtifactReference \<Rightarrow> instant \<Rightarrow> uuid \<Rightarrow> content handler" where
  "artifact_content env ref deadline correlation =
     chain (rescue
        (mcp_call env deadline (serve_artifact env (get_artifact (ar_story_run_id ref) (ar_artifact_id ref))))
        (\<lambda>e. Raise (upstream ''artifact MCP unavailable'' correlation None)))
     (\<lambda>raw. case raw of None \<Rightarrow> Raise PythonError | Some out \<Rightarrow> Ret (snd out))"

text \<open>\<open>parse_content\<close> for the two models it is used with.\<close>

definition parse_review :: "content \<Rightarrow> ReviewReport handler" where
  "parse_review c =
     (case c of ReviewContent r \<Rightarrow> if valid_ReviewReport r then Ret r else Raise ValidationError
      | _ \<Rightarrow> Raise ValidationError)"

definition parse_synthesis :: "content \<Rightarrow> SynthesisReport handler" where
  "parse_synthesis c =
     (case c of SynthesisContent r \<Rightarrow> if valid_SynthesisReport r then Ret r else Raise ValidationError
      | _ \<Rightarrow> Raise ValidationError)"

definition assemble_inputs ::
    "app_env \<Rightarrow> SessionRecord \<Rightarrow> instant \<Rightarrow> uuid \<Rightarrow> (StoryDetail \<times> ArtifactReference list) handler" where
  "assemble_inputs env s deadline correlation =
     chain (get_story env (se_story_id s) deadline correlation) (\<lambda>story.
     chain (list_run_artifacts env (se_story_run_id s) deadline correlation) (\<lambda>refs.
     Ret (story, refs)))"

text \<open>\<open>render_report\<close> through the MCP client.\<close>

definition render_call_of ::
    "app_env \<Rightarrow> RenderReportInput \<Rightarrow> instant \<Rightarrow> (ArtifactReference \<times> bool) option handler" where
  "render_call_of env q deadline =
     mcp_call env deadline (serve_report env (\<lambda>arts. render_report (en_rep env) arts q))"

section \<open>Agents and signed URLs\<close>

definition timed_invoke :: "app_env \<Rightarrow> (nat \<Rightarrow> exc + 'a \<times> agent_info) \<Rightarrow> 'a timed handler" where
  "timed_invoke env call =
     chain now (\<lambda>started.
     chain (perform (andThen (next_call env) (\<lambda>n. case call n of Inl e \<Rightarrow> raise e | Inr x \<Rightarrow> ret x))) (\<lambda>x.
     chain now (\<lambda>finished.
     Ret \<lparr>ti_answer = fst x, ti_info = snd x, ti_started = started, ti_finished = finished\<rparr>)))"

text \<open>\<open>except Exception as exc: raise _agent_failure(exc, ...)\<close>.\<close>

definition or_agent_failure :: "uuid \<Rightarrow> string \<Rightarrow> 'a handler \<Rightarrow> 'a handler" where
  "or_agent_failure correlation who p = rescue p (\<lambda>e. Raise (agent_failure e correlation who))"

fun format_of :: "artifact_type \<Rightarrow> report_format option" where
  "format_of ReportMd = Some Md"
| "format_of ReportPdf = Some Pdf"
| "format_of _ = None"

definition signer_download :: "app_env \<Rightarrow> ArtifactReference \<Rightarrow> ReportDownload handler" where
  "signer_download env ref =
     chain now (\<lambda>t.
     case format_of (ar_type ref) of
       None \<Rightarrow> Raise ValidationError
     | Some f \<Rightarrow> construct valid_ReportDownload
         \<lparr>rl_reference = ref, rl_format = f, rl_signed_url = en_sign env t ref,
          rl_expires_at = t + en_url_ttl env\<rparr>)"

definition signer_downloads :: "app_env \<Rightarrow> ArtifactReference list \<Rightarrow> ReportDownload list handler" where
  "signer_downloads env refs = each refs (signer_download env)"

section \<open>The retry policy\<close>

text \<open>
  How many attempts a call makes, whatever each attempt does: \<open>w_calls\<close> counts them (every
  attempt takes one call number).
\<close>

lemma mcp_loop_calls:
  assumes "\<And>w. w_calls (snd (attempt w)) \<le> w_calls w + 1"
  shows "w_calls (snd (run (mcp_loop env deadline attempt k n) w)) \<le> w_calls w + n"
proof (induction n arbitrary: k w)
  case 0
  then show ?case by (simp add: run_simps)
next
  case (Suc n)
  have calls: "w_calls t \<le> w_calls w + 1" if "attempt w = (r, t)" for w r t
    using assms[of w] that by simp
  have again: "w_calls (snd (run (mcp_loop env deadline attempt (k + 1) n) (snd (mcp_backoff env k t))))
      \<le> w_calls t + n" for t
    using Suc.IH[of "k + 1" "snd (mcp_backoff env k t)"] by (simp add: mcp_backoff_def comp_simps)
  show ?case
  proof (cases "0 < deadline - w_clock w - RESPONSE_CLEANUP_RESERVE")
    case True
    then have run0: "run (perform (clamped_timeout deadline)) w = (Inr (), w)"
      by (simp add: clamped_timeout_def comp_simps run_simps)
    obtain r t where rt: "attempt w = (r, t)" by (cases "attempt w") auto
    have c: "w_calls t \<le> w_calls w + 1" using calls[OF rt] .
    show ?thesis
      using c again[of t] rt run0
      by (cases r; cases "projl r")
         (auto simp: run_simps mcp_backoff_def comp_simps split: sum.splits prod.splits)
  next
    case False
    then show ?thesis
      by (simp add: clamped_timeout_def comp_simps run_simps)
  qed
qed

end
