(* ===== verification/Flow_Create.thy ===== *)
theory Flow_Create
  imports Services
begin

text \<open>
  Flow 1, session creation (\<open>orchestration/orchestration/flows.py\<close>), and the endpoint that maps
  its exceptions (\<open>create_session\<close> of \<open>sessions_api.py\<close>). The two reviewers run concurrently in
  the source and share no state; here the business reviewer answers first. Consecutive reads of
  the service clock inside one record are one read.
\<close>

section \<open>Deterministic ids\<close>

definition derived :: "app_env \<Rightarrow> uuid \<Rightarrow> string \<Rightarrow> uuid" where
  "derived env key label = en_uuid5 env (uuid_str key @ ''|'' @ label)"

fun agent_name :: "agent \<Rightarrow> string" where
  "agent_name FacilitatorAgent = ''facilitator''"
| "agent_name BusinessReviewer = ''business-reviewer''"
| "agent_name EngineeringReviewer = ''engineering-reviewer''"
| "agent_name SynthesisAgent = ''synthesis''"

definition agent_run_id_for :: "app_env \<Rightarrow> uuid \<Rightarrow> string \<Rightarrow> string" where
  "agent_run_id_for env key label = agent_run_id_of (derived env key (''agent:'' @ label))"

definition facilitator_invocation_id :: "app_env \<Rightarrow> uuid \<Rightarrow> string \<Rightarrow> nat \<Rightarrow> uuid" where
  "facilitator_invocation_id env key sid n =
     derived env key (sid @ ''|facilitator-turn:'' @ decimal n)"

definition facilitator_summary_invocation_id :: "app_env \<Rightarrow> uuid \<Rightarrow> string \<Rightarrow> nat \<Rightarrow> uuid" where
  "facilitator_summary_invocation_id env key sid n =
     derived env key (sid @ ''|facilitator-summary:'' @ decimal n)"

section \<open>Steps shared with the dialogue flow\<close>

text \<open>What an agent run records besides the run's identity.\<close>

record run_entry =
  re_agent :: agent
  re_label :: string
  re_info :: agent_info
  re_span :: "instant \<times> instant"
  re_outputs :: "ArtifactReference list"
  re_inputs :: "ArtifactReference list"

definition entry_of ::
    "'a timed \<Rightarrow> agent \<Rightarrow> string \<Rightarrow> ArtifactReference list \<Rightarrow> ArtifactReference list \<Rightarrow> run_entry" where
  "entry_of t a label outs ins =
     \<lparr>re_agent = a, re_label = label, re_info = ti_info t, re_span = (ti_started t, ti_finished t),
      re_outputs = outs, re_inputs = ins\<rparr>"

definition record_agent_run :: "app_env \<Rightarrow> uuid \<Rightarrow> uuid \<Rightarrow> string \<Rightarrow> string \<Rightarrow> run_entry \<Rightarrow> unit handler" where
  "record_agent_run env key correlation run_id sid e =
     chain (construct valid_AgentRunRecord
       \<lparr>ag_run_id = agent_run_id_for env key (re_label e), ag_agent = re_agent e,
        ag_version = ai_version (re_info e), ag_prompt_sha256 = ai_sha (re_info e),
        ag_story_run_id = run_id, ag_session_id = Some sid, ag_correlation_id = correlation,
        ag_inputs = re_inputs e, ag_outputs = re_outputs e, ag_state = Succeeded,
        ag_transport_attempts = ai_attempts (re_info e), ag_corrective_reprompts = ai_reprompts (re_info e),
        ag_started_at = fst (re_span e), ag_finished_at = Some (snd (re_span e))\<rparr>) (\<lambda>record.
     chain (create_agent_run_or_get record) (\<lambda>_. Ret ()))"

definition record_agent_runs ::
    "app_env \<Rightarrow> uuid \<Rightarrow> uuid \<Rightarrow> string \<Rightarrow> string \<Rightarrow> run_entry list \<Rightarrow> unit handler" where
  "record_agent_runs env key correlation run_id sid entries =
     chain (each entries (record_agent_run env key correlation run_id sid)) (\<lambda>_. Ret ())"

definition fence_result ::
    "perspective \<Rightarrow> string \<Rightarrow> ReviewReport option \<Rightarrow> string option \<Rightarrow> ReviewReport timed \<Rightarrow>
     ReviewReport timed handler" where
  "fence_result p story_text previous extra t =
     (case apply_fence (ti_answer t) story_text previous extra of
        (fenced, events) \<Rightarrow>
          chain (each events (\<lambda>e. emit (OutputFence p e))) (\<lambda>_.
          if events = [] then Ret t else Ret (t\<lparr>ti_answer := fenced\<rparr>)))"

text \<open>The orchestration's mirror of the facilitator request: fields only, no cross-field rule.\<close>

definition valid_FacilitatorInvocation :: "FacilitatorRequest \<Rightarrow> bool" where
  "valid_FacilitatorInvocation q =
     (SessionId (fq_session_id q) \<and> 1 \<le> fq_turn_number q \<and> fq_turn_number q \<le> 10 \<and>
      opt_ok text_ok (fq_po_message q) \<and> opt_ok valid_DecisionState (fq_decision_state q))"

definition invoke_facilitator :: "app_env \<Rightarrow> FacilitatorRequest \<Rightarrow> FacilitatorTurnOutput timed handler" where
  "invoke_facilitator env q =
     chain (construct valid_FacilitatorInvocation q) (\<lambda>q.
     timed_invoke env (\<lambda>n. en_facilitator env n q))"

section \<open>The initial pipeline\<close>

definition fan_out_reviewers ::
    "app_env \<Rightarrow> StoryDetail \<Rightarrow> (ReviewReport timed \<times> ReviewReport timed) handler" where
  "fan_out_reviewers env story =
     (let q = \<lparr>vi_story = story, vi_previous = None, vi_extra = None\<rparr>; text = story_plain_text story in
      chain (timed_invoke env (\<lambda>n. en_review env n Business q)) (\<lambda>b.
      chain (timed_invoke env (\<lambda>n. en_review env n Engineering q)) (\<lambda>e.
      chain (fence_result Business text None None b) (\<lambda>b.
      chain (fence_result Engineering text None None e) (\<lambda>e.
      Ret (b, e))))))"

record opening_context =
  oc_run :: string
  oc_session :: string
  oc_key :: uuid
  oc_deadline :: instant
  oc_correlation :: uuid

definition pipeline_save ::
    "app_env \<Rightarrow> opening_context \<Rightarrow> artifact_type \<Rightarrow> content \<Rightarrow> ArtifactReference handler" where
  "pipeline_save env c ty body =
     save_artifact env ty (oc_run c) body (oc_key c) (oc_deadline c) (oc_correlation c)"

definition pipeline_stage :: "opening_context \<Rightarrow> processing_stage option \<Rightarrow> unit handler" where
  "pipeline_stage c stage = perform (set_processing_stage (oc_session c) stage)"

definition pipeline_reviews ::
    "app_env \<Rightarrow> opening_context \<Rightarrow> StoryDetail \<Rightarrow>
     (ArtifactReference \<times> (ReviewReport \<times> ArtifactReference) \<times> (ReviewReport \<times> ArtifactReference)) handler"
where
  "pipeline_reviews env c story =
     chain (pipeline_stage c (Some Reviewing)) (\<lambda>_.
     chain (pipeline_save env c StoryArtifact (StoryContent story)) (\<lambda>story_ref.
     chain (or_agent_failure (oc_correlation c) ''reviewer'' (fan_out_reviewers env story)) (\<lambda>(b, e).
     chain (pipeline_save env c ReviewBusiness (ReviewContent (ti_answer b))) (\<lambda>b_ref.
     chain (pipeline_save env c ReviewEngineering (ReviewContent (ti_answer e))) (\<lambda>e_ref.
     chain (record_agent_runs env (oc_key c) (oc_correlation c) (oc_run c) (oc_session c)
       [entry_of b BusinessReviewer (agent_name BusinessReviewer) [b_ref] [story_ref],
        entry_of e EngineeringReviewer (agent_name EngineeringReviewer) [e_ref] [story_ref]]) (\<lambda>_.
     Ret (story_ref, (ti_answer b, b_ref), (ti_answer e, e_ref))))))))"

definition pipeline_synthesis ::
    "app_env \<Rightarrow> opening_context \<Rightarrow> ReviewReport \<times> ArtifactReference \<Rightarrow> ReviewReport \<times> ArtifactReference \<Rightarrow>
     (SynthesisReport \<times> ArtifactReference) handler" where
  "pipeline_synthesis env c b e =
     chain (pipeline_stage c (Some Synthesizing)) (\<lambda>_.
     chain (or_agent_failure (oc_correlation c) ''synthesis''
       (timed_invoke env (\<lambda>n. en_synthesis env n \<lparr>yi_business = b, yi_engineering = e\<rparr>))) (\<lambda>s.
     chain (pipeline_save env c SynthesisArtifact (SynthesisContent (ti_answer s))) (\<lambda>s_ref.
     chain (record_agent_runs env (oc_key c) (oc_correlation c) (oc_run c) (oc_session c)
       [entry_of s SynthesisAgent (agent_name SynthesisAgent) [s_ref] [snd b, snd e]]) (\<lambda>_.
     Ret (ti_answer s, s_ref)))))"

text \<open>Only the client's own failures are mapped here; anything else propagates.\<close>

definition opening_failure :: "exc \<Rightarrow> uuid \<Rightarrow> exc" where
  "opening_failure e correlation =
     (case e of
        AgentCallFailure b \<Rightarrow> agent_failure e correlation ''facilitator''
      | AgentTransportError \<Rightarrow> upstream ''facilitator invocation failed'' correlation (Some ''facilitator'')
      | AgentDeadlineExceeded \<Rightarrow> upstream ''facilitator invocation failed'' correlation (Some ''facilitator'')
      | _ \<Rightarrow> e)"

definition assert_opening_turn :: "FacilitatorTurnOutput \<Rightarrow> SynthesisReport \<Rightarrow> uuid \<Rightarrow> unit handler" where
  "assert_opening_turn output synthesis correlation =
     (case validate_opening_turn output synthesis of
        Inr _ \<Rightarrow> Ret ()
      | Inl _ \<Rightarrow> Raise (ApiError 422 (make_error DELEGATION_VALIDATION
          ''the opening facilitator turn is invalid'' correlation False (Some ''facilitator'') None)))"

definition pipeline_opening ::
    "app_env \<Rightarrow> opening_context \<Rightarrow> ArtifactReference list \<Rightarrow> SynthesisReport \<times> ArtifactReference \<Rightarrow>
     TurnRecord handler" where
  "pipeline_opening env c evidence synthesis =
     chain (pipeline_stage c (Some InFacilitator)) (\<lambda>_.
     chain (rescue (invoke_facilitator env
       \<lparr>fq_session_id = oc_session c, fq_turn_number = 1,
        fq_invocation_id = facilitator_invocation_id env (oc_key c) (oc_session c) 1,
        fq_po_message = None, fq_synthesis_report = fst synthesis,
        fq_synthesis_reference = snd synthesis, fq_evidence = evidence, fq_decision_state = None\<rparr>)
       (\<lambda>e. Raise (opening_failure e (oc_correlation c)))) (\<lambda>f.
     chain (assert_opening_turn (ti_answer f) (fst synthesis) (oc_correlation c)) (\<lambda>_.
     chain now (\<lambda>t.
     chain (construct valid_TurnRecord
       \<lparr>tu_session_id = oc_session c, tu_turn_number = 1, tu_correlation_id = oc_correlation c,
        tu_state = Succeeded, tu_po_message = None, tu_po_accepted = False,
        tu_facilitator_reply = Some (fo_reply (ti_answer f)), tu_rationale_reply = None,
        tu_delegation = Some (fo_delegation (ti_answer f)), tu_resolutions = [], tu_new_issues = [],
        tu_outcome = Some Continue, tu_produced = tl evidence @ [snd synthesis],
        tu_created_at = t, tu_completed_at = Some t\<rparr>) (\<lambda>record.
     chain (create_turn_or_get record) (\<lambda>turn.
     chain (record_agent_runs env (oc_key c) (oc_correlation c) (oc_run c) (oc_session c)
       [entry_of f FacilitatorAgent (agent_name FacilitatorAgent) [snd synthesis] (snd synthesis # evidence)]) (\<lambda>_.
     chain (perform (touch_session (oc_session c))) (\<lambda>_.
     Ret turn))))))))"

definition create_response ::
    "opening_context \<Rightarrow> TurnRecord \<Rightarrow> ArtifactReference \<Rightarrow> ArtifactReference list \<Rightarrow>
     CreateSessionResponse handler" where
  "create_response c turn synthesis refs =
     (case (tu_facilitator_reply turn, tu_delegation turn) of
        (Some reply, Some d) \<Rightarrow> construct valid_CreateSessionResponse
          \<lparr>cr_session_id = oc_session c, cr_story_run_id = oc_run c, cr_facilitator_reply = reply,
           cr_issues = dd_open_issues d, cr_delegation = d, cr_synthesis = synthesis,
           cr_artifact_references = refs\<rparr>
      | _ \<Rightarrow> Raise ValidationError)"

definition create_key :: "uuid \<Rightarrow> claim_key" where
  "create_key key = (CreateRoute, [], key)"

definition initial_pipeline ::
    "app_env \<Rightarrow> opening_context \<Rightarrow> StoryDetail \<Rightarrow> CreateSessionResponse handler" where
  "initial_pipeline env c story =
     chain (pipeline_reviews env c story) (\<lambda>(story_ref, b, e).
     chain (pipeline_synthesis env c b e) (\<lambda>synthesis.
     chain (pipeline_opening env c [story_ref, snd b, snd e] synthesis) (\<lambda>turn.
     chain (create_response c turn (snd synthesis) [story_ref, snd b, snd e, snd synthesis]) (\<lambda>response.
     chain (perform (claim_complete (create_key (oc_key c)) (CanonCreate response))) (\<lambda>_.
     chain (pipeline_stage c None) (\<lambda>_.
     Ret response))))))"

section \<open>The flow\<close>

definition park_failed_session :: "string \<Rightarrow> uuid \<Rightarrow> unit handler" where
  "park_failed_session sid key =
     chain (transaction (andThen (update_session sid (no_update\<lparr>up_state := Some Parked\<rparr>))
       (\<lambda>_. claim_release (create_key key)))) (\<lambda>_.
     emit (SessionParked sid 1))"

definition terminal_failure :: "exc \<Rightarrow> bool" where
  "terminal_failure e = (case e of ApiError _ b \<Rightarrow> \<not> eb_retryable b | _ \<Rightarrow> False)"

definition guarded_pipeline ::
    "app_env \<Rightarrow> opening_context \<Rightarrow> StoryDetail \<Rightarrow> CreateSessionResponse handler" where
  "guarded_pipeline env c story =
     rescue (initial_pipeline env c story) (\<lambda>e.
       chain (pipeline_stage c None) (\<lambda>_.
       if terminal_failure e
       then chain (rescue (park_failed_session (oc_session c) (oc_key c)) (\<lambda>_. Ret ())) (\<lambda>_. Raise e)
       else Raise e))"

definition parked_retry :: "uuid \<Rightarrow> exc" where
  "parked_retry correlation =
     ApiError 409 (make_error IDEMPOTENCY_KEY_REUSED
       ''this key's previous attempt failed terminally and its session was parked''
       correlation False None None)"

definition open_run :: "app_env \<Rightarrow> StoryDetail \<Rightarrow> uuid \<Rightarrow> uuid \<Rightarrow> StoryRunRecord handler" where
  "open_run env story key user =
     chain now (\<lambda>t.
     chain (construct valid_StoryRunRecord
       \<lparr>sr_run_id = run_id_of (derived env key ''run''), sr_run_story = ss_story_id story,
        sr_user_id = user, sr_state = Active, sr_created_at = t, sr_updated_at = t\<rparr>)
     create_story_run_or_get)"

definition open_session ::
    "app_env \<Rightarrow> StoryDetail \<Rightarrow> report_format list \<Rightarrow> uuid \<Rightarrow> uuid \<Rightarrow> SessionRecord handler" where
  "open_session env story formats key user =
     chain now (\<lambda>t.
     chain (construct valid_SessionRecord
       \<lparr>se_session_id = session_id_of (derived env key ''session''),
        se_story_run_id = run_id_of (derived env key ''run''), se_story_id = ss_story_id story,
        se_user_id = user, se_state = Active, se_requested_formats = formats, se_turn_count = 1,
        se_final_review_reference = None, se_report_references = [], se_created_at = t,
        se_updated_at = t\<rparr>)
     create_session_or_get)"

definition replay_create :: "canonical option \<Rightarrow> CreateSessionResponse handler" where
  "replay_create r =
     (case r of
        None \<Rightarrow> Raise AssertionError
      | Some (CanonCreate x) \<Rightarrow> construct valid_CreateSessionResponse x
      | Some _ \<Rightarrow> Raise ValidationError)"

definition create_flow ::
    "app_env \<Rightarrow> CreateSessionRequest \<Rightarrow> uuid \<Rightarrow> uuid \<Rightarrow> uuid \<Rightarrow> CreateSessionResponse handler" where
  "create_flow env q key correlation user =
     chain (deadline_of env) (\<lambda>deadline.
     chain (Services.get_story env (cq_story_id q) deadline correlation) (\<lambda>story.
     chain (open_run env story key user) (\<lambda>story_run.
     chain (open_session env story (cq_formats q) key user) (\<lambda>session.
     if se_state session \<noteq> Active
     then chain (perform (claim_release (create_key key))) (\<lambda>_. Raise (parked_retry correlation))
     else guarded_pipeline env
       \<lparr>oc_run = sr_run_id story_run, oc_session = se_session_id session, oc_key = key,
        oc_deadline = deadline, oc_correlation = correlation\<rparr> story))))"

definition run_create_session ::
    "app_env \<Rightarrow> CreateSessionRequest \<Rightarrow> uuid \<Rightarrow> uuid \<Rightarrow> uuid \<Rightarrow> CreateSessionResponse handler" where
  "run_create_session env q key correlation user =
     chain (idempotency_claim (create_key key) (en_fingerprint env (BodyCreate q user))) (\<lambda>claim.
     case claim of
       Replay r \<Rightarrow> replay_create r
     | _ \<Rightarrow> create_flow env q key correlation user)"

definition post_session ::
    "app_env \<Rightarrow> CreateSessionRequest \<Rightarrow> uuid \<Rightarrow> uuid \<Rightarrow> uuid \<Rightarrow> CreateSessionResponse handler" where
  "post_session env q key correlation user =
     chain (demand (is_uuid4 key) (bad_key correlation)) (\<lambda>_.
     rescue (run_create_session env q key correlation user) (\<lambda>e.
       case e of
         KeyReused \<Rightarrow> Raise (map_idempotency_reused correlation)
       | ConstraintViolation c \<Rightarrow> Raise (map_constraint_violation c correlation)
       | _ \<Rightarrow> Raise e))"

end
