(* ===== verification/Turn_Execution.thy ===== *)
theory Turn_Execution
  imports Flow_Create
begin

text \<open>
  Delegation of one dialogue turn (\<open>orchestration/orchestration/turn_execution.py\<close>): the invoked
  reviewers with their previous review and the PO's context, the fence, the saves and audit
  records, and the at-most-once synthesis of the turn.
\<close>

record turn_context =
  tc_session :: SessionRecord
  tc_key :: uuid
  tc_turn :: nat
  tc_deadline :: instant
  tc_correlation :: uuid

definition record_run :: "app_env \<Rightarrow> turn_context \<Rightarrow> run_entry \<Rightarrow> unit handler" where
  "record_run env c e =
     record_agent_run env (tc_key c) (tc_correlation c) (se_story_run_id (tc_session c))
       (se_session_id (tc_session c)) e"

definition turn_label :: "turn_context \<Rightarrow> agent \<Rightarrow> string" where
  "turn_label c a = agent_name a @ '':'' @ decimal (tc_turn c)"

fun perspectives_of :: "invoke \<Rightarrow> perspective list" where
  "perspectives_of InvokeNone = []"
| "perspectives_of InvokeBoth = [Business, Engineering]"
| "perspectives_of InvokeBusiness = [Business]"
| "perspectives_of InvokeEngineering = [Engineering]"

fun reviewer_of :: "perspective \<Rightarrow> agent" where
  "reviewer_of Business = BusinessReviewer"
| "reviewer_of Engineering = EngineeringReviewer"

definition latest_review ::
    "app_env \<Rightarrow> turn_context \<Rightarrow> ArtifactReference list \<Rightarrow> perspective \<Rightarrow>
     (ReviewReport \<times> ArtifactReference) handler" where
  "latest_review env c refs p =
     chain (lineage_latest refs (review_type p) (Some p) (tc_correlation c)) (\<lambda>ref.
     chain (artifact_content env ref (tc_deadline c) (tc_correlation c)) (\<lambda>body.
     chain (parse_review body) (\<lambda>report. Ret (report, ref))))"

definition review_request ::
    "app_env \<Rightarrow> turn_context \<Rightarrow> StoryDetail \<Rightarrow> ArtifactReference list \<Rightarrow> string option \<Rightarrow> perspective \<Rightarrow>
     (perspective \<times> ReviewerInvocation) handler" where
  "review_request env c story refs extra p =
     chain (latest_review env c refs p) (\<lambda>(previous, _).
     Ret (p, \<lparr>vi_story = story, vi_previous = Some previous, vi_extra = extra\<rparr>))"

definition invoke_reviewer ::
    "app_env \<Rightarrow> perspective \<times> ReviewerInvocation \<Rightarrow>
     (perspective \<times> ReviewerInvocation \<times> ReviewReport timed) handler" where
  "invoke_reviewer env x =
     chain (timed_invoke env (\<lambda>n. en_review env n (fst x) (snd x))) (\<lambda>t. Ret (fst x, snd x, t))"

definition fence_review ::
    "StoryDetail \<Rightarrow> perspective \<times> ReviewerInvocation \<times> ReviewReport timed \<Rightarrow>
     (perspective \<times> ReviewReport timed) handler" where
  "fence_review story x =
     (case x of (p, q, t) \<Rightarrow>
       chain (fence_result p (story_plain_text story) (vi_previous q) (vi_extra q) t) (\<lambda>t. Ret (p, t)))"

definition save_review ::
    "app_env \<Rightarrow> turn_context \<Rightarrow> ArtifactReference list \<Rightarrow> perspective \<times> ReviewReport timed \<Rightarrow>
     ArtifactReference handler" where
  "save_review env c refs x =
     (case x of (p, t) \<Rightarrow>
       chain (save_artifact env (review_type p) (se_story_run_id (tc_session c))
         (ReviewContent (ti_answer t)) (tc_key c) (tc_deadline c) (tc_correlation c)) (\<lambda>ref.
       chain (lineage_latest refs (review_type p) (Some p) (tc_correlation c)) (\<lambda>previous.
       chain (record_run env c (entry_of t (reviewer_of p) (turn_label c (reviewer_of p)) [ref] [previous])) (\<lambda>_.
       Ret ref))))"

definition execute_delegation ::
    "app_env \<Rightarrow> turn_context \<Rightarrow> StoryDetail \<Rightarrow> ArtifactReference list \<Rightarrow> DelegationDecision \<Rightarrow>
     ArtifactReference list handler" where
  "execute_delegation env c story refs d =
     (if dd_invoke d = InvokeNone then Ret []
      else
        chain (each (perspectives_of (dd_invoke d))
          (review_request env c story refs (dd_extra_context d))) (\<lambda>requests.
        chain (or_agent_failure (tc_correlation c) ''reviewer'' (each requests (invoke_reviewer env))) (\<lambda>results.
        chain (each results (fence_review story)) (\<lambda>fenced.
        each fenced (save_review env c refs)))))"

record synthesis_outcome =
  so_reference :: ArtifactReference
  so_report :: "SynthesisReport option"
  so_produced :: bool

definition maybe_synthesize ::
    "app_env \<Rightarrow> turn_context \<Rightarrow> ArtifactReference list \<Rightarrow> bool \<Rightarrow> ArtifactReference \<Rightarrow>
     synthesis_outcome handler" where
  "maybe_synthesize env c new_refs reuse fallback =
     (if new_refs = [] \<and> \<not> reuse
      then Ret \<lparr>so_reference = fallback, so_report = None, so_produced = False\<rparr>
      else
        chain (list_run_artifacts env (se_story_run_id (tc_session c)) (tc_deadline c) (tc_correlation c)) (\<lambda>refs.
        chain (latest_review env c refs Business) (\<lambda>b.
        chain (latest_review env c refs Engineering) (\<lambda>e.
        chain (or_agent_failure (tc_correlation c) ''synthesis''
          (timed_invoke env (\<lambda>n. en_synthesis env n \<lparr>yi_business = b, yi_engineering = e\<rparr>))) (\<lambda>s.
        chain (save_artifact env SynthesisArtifact (se_story_run_id (tc_session c))
          (SynthesisContent (ti_answer s)) (tc_key c) (tc_deadline c) (tc_correlation c)) (\<lambda>ref.
        chain (record_run env c (entry_of s SynthesisAgent (turn_label c SynthesisAgent) [ref] [snd b, snd e])) (\<lambda>_.
        Ret \<lparr>so_reference = ref, so_report = Some (ti_answer s), so_produced = True\<rparr>)))))))"

end
