(* ===== verification/Finalization.thy ===== *)
theory Finalization
  imports Turn_Execution
begin

text \<open>
  Flow 3, the final report (\<open>orchestration/orchestration/finalization.py\<close>): the issue catalog,
  the finalized review, the render of every requested format, and the classification of failures
  into retryable (the session stays finalizing) and terminal (it goes back to active).
\<close>

section \<open>Assembling the final review\<close>

text \<open>\<open>entries[id] = ...\<close> for findings and conflicts of every version, then \<open>setdefault\<close> for drafts.\<close>

definition finding_entry :: "Finding \<Rightarrow> IssueEntry" where
  "finding_entry f =
     \<lparr>ie_issue = fd_id f, ie_title = fd_title f, ie_description = fd_description f,
      ie_severity = Some (fd_severity f), ie_source = FromSynthesis\<rparr>"

definition conflict_entry :: "ConflictItem \<Rightarrow> IssueEntry" where
  "conflict_entry c =
     \<lparr>ie_issue = ci_id c, ie_title = ''Conflict '' @ ci_id c, ie_description = ci_description c,
      ie_severity = None, ie_source = FromSynthesis\<rparr>"

definition draft_entry :: "IssueDraft \<Rightarrow> IssueEntry" where
  "draft_entry d =
     \<lparr>ie_issue = id_issue d, ie_title = id_title d, ie_description = id_description d,
      ie_severity = None, ie_source = FromFacilitator\<rparr>"

definition report_entries :: "SynthesisReport \<Rightarrow> IssueEntry list" where
  "report_entries r = map finding_entry (sr_merged_findings r) @ map conflict_entry (sr_conflicts r)"

definition catalog_dict :: "SynthesisReport list \<Rightarrow> TurnRecord list \<Rightarrow> (string, IssueEntry) dict" where
  "catalog_dict reports turns =
     fold (\<lambda>d. dict_setdefault (id_issue d) (draft_entry d)) (concat (map tu_new_issues turns))
       (fold (\<lambda>e. dict_put (ie_issue e) e) (concat (map report_entries reports)) [])"

definition issue_catalog :: "SynthesisReport list \<Rightarrow> TurnRecord list \<Rightarrow> IssueEntry list option" where
  "issue_catalog reports turns =
     (let entries = dict_values (catalog_dict reports turns) in
      if 400 < length entries then None else Some entries)"

definition all_resolutions :: "TurnRecord list \<Rightarrow> ResolutionItem list" where
  "all_resolutions turns = concat (map tu_resolutions turns)"

definition aggregate_resolutions :: "TurnRecord list \<Rightarrow> ResolutionItem list" where
  "aggregate_resolutions turns = take 200 (latest_resolutions (all_resolutions turns))"

definition last_open_issues :: "TurnRecord list \<Rightarrow> string list" where
  "last_open_issues turns =
     (case find_last (\<lambda>t. tu_delegation t \<noteq> None) turns of
        None \<Rightarrow> [] | Some t \<Rightarrow> (case tu_delegation t of None \<Rightarrow> [] | Some d \<Rightarrow> dd_open_issues d))"

definition remaining_open_issues :: "TurnRecord list \<Rightarrow> bool \<Rightarrow> string list" where
  "remaining_open_issues turns po_accepted = (if po_accepted then last_open_issues turns else [])"

text \<open>\<open>turns[-1]\<close>: the callers pass a non-empty history (an empty one raises IndexError).\<close>

definition acceptance_state :: "TurnRecord list \<Rightarrow> bool \<times> nat" where
  "acceptance_state turns = (tu_po_accepted (last turns), tu_turn_number (last turns))"

definition final_review_invalid :: "uuid \<Rightarrow> exc" where
  "final_review_invalid correlation =
     FinalizationFailed 503 (make_error FINAL_REVIEW_INVALID ''invalid final state'' correlation False None None)
       False"

definition final_review_of ::
    "SessionRecord \<Rightarrow> ArtifactReference \<Rightarrow> IssueEntry list \<Rightarrow> TurnRecord list \<Rightarrow> instant \<Rightarrow> FinalizedReview"
where
  "final_review_of s synthesis catalog turns t =
     (case acceptance_state turns of (po_accepted, final_turn) \<Rightarrow>
       \<lparr>fr_story_id = se_story_id s, fr_story_run_id = se_story_run_id s,
        fr_synthesis_reference = synthesis, fr_issues = catalog,
        fr_resolutions = aggregate_resolutions turns,
        fr_remaining_open_issues = remaining_open_issues turns po_accepted,
        fr_po_accepted = po_accepted, fr_final_turn_number = final_turn, fr_finalized_at = t\<rparr>)"

definition build_final_review ::
    "SessionRecord \<Rightarrow> ArtifactReference \<Rightarrow> SynthesisReport list \<Rightarrow> TurnRecord list \<Rightarrow> uuid \<Rightarrow>
     FinalizedReview handler" where
  "build_final_review s synthesis reports turns correlation =
     (if turns = [] then Raise PythonError
      else case issue_catalog reports turns of
        None \<Rightarrow> Raise (final_review_invalid correlation)
      | Some catalog \<Rightarrow>
          chain now (\<lambda>t.
          let f = final_review_of s synthesis catalog turns t in
          if valid_FinalizedReview f then Ret f else Raise (final_review_invalid correlation)))"

section \<open>Downstream calls and their classification\<close>

record flow3_context =
  f3_session :: SessionRecord
  f3_key :: uuid
  f3_deadline :: instant
  f3_correlation :: uuid

definition finalization_failure :: "exc \<Rightarrow> exc" where
  "finalization_failure e =
     (case e of ApiError st b \<Rightarrow> FinalizationFailed st b (eb_retryable b) | _ \<Rightarrow> e)"

definition malformed_failure :: "string \<Rightarrow> uuid \<Rightarrow> exc" where
  "malformed_failure message correlation =
     FinalizationFailed 503 (make_error UPSTREAM_UNAVAILABLE message correlation False None None) False"

definition unavailable_failure :: "string \<Rightarrow> uuid \<Rightarrow> exc" where
  "unavailable_failure message correlation =
     FinalizationFailed 503 (make_error UPSTREAM_UNAVAILABLE message correlation True None None) True"

definition synthesis_failure :: "exc \<Rightarrow> uuid \<Rightarrow> exc" where
  "synthesis_failure e correlation =
     (case e of
        ValidationError \<Rightarrow> malformed_failure ''malformed synthesis artifact content'' correlation
      | ApiError st b \<Rightarrow> finalization_failure e
      | McpTransportError \<Rightarrow> unavailable_failure ''artifact MCP unavailable'' correlation
      | McpDeadlineExceeded \<Rightarrow> unavailable_failure ''artifact MCP unavailable'' correlation
      | McpCallFailure b \<Rightarrow> unavailable_failure ''artifact MCP unavailable'' correlation
      | _ \<Rightarrow> e)"

definition synthesis_report :: "app_env \<Rightarrow> flow3_context \<Rightarrow> ArtifactReference \<Rightarrow> SynthesisReport handler" where
  "synthesis_report env c ref =
     rescue (chain (artifact_content env ref (f3_deadline c) (f3_correlation c)) parse_synthesis)
       (\<lambda>e. Raise (synthesis_failure e (f3_correlation c)))"

definition save_final_review :: "app_env \<Rightarrow> flow3_context \<Rightarrow> FinalizedReview \<Rightarrow> ArtifactReference handler" where
  "save_final_review env c review =
     rescue (save_artifact env FinalizedReviewArtifact (se_story_run_id (f3_session c))
       (FinalContent review) (f3_key c) (f3_deadline c) (f3_correlation c))
       (\<lambda>e. Raise (finalization_failure e))"

definition render_failure :: "exc \<Rightarrow> uuid \<Rightarrow> exc" where
  "render_failure e correlation =
     (case e of
        ValidationError \<Rightarrow> malformed_failure ''malformed render_report output'' correlation
      | McpCallFailure b \<Rightarrow>
          FinalizationFailed 503
            (make_error (eb_code b) (eb_message b) correlation (eb_retryable b) None None) (eb_retryable b)
      | McpTransportError \<Rightarrow> unavailable_failure ''report MCP unavailable'' correlation
      | McpDeadlineExceeded \<Rightarrow> unavailable_failure ''report MCP unavailable'' correlation
      | _ \<Rightarrow> e)"

definition render_one ::
    "app_env \<Rightarrow> flow3_context \<Rightarrow> ArtifactReference \<Rightarrow> report_format \<Rightarrow> ArtifactReference handler" where
  "render_one env c final fmt =
     (let q = \<lparr>rp_run = se_story_run_id (f3_session c), rp_final = final, rp_format = fmt\<rparr> in
      chain (demand (valid_RenderReportInput q) ValidationError) (\<lambda>_.
      rescue (chain (render_call_of env q (f3_deadline c)) (\<lambda>raw. chain (parsed raw) (\<lambda>out. Ret (fst out))))
        (\<lambda>e. Raise (render_failure e (f3_correlation c)))))"

section \<open>The flow\<close>

text \<open>The synthesis versions the turns produced, in turn order, each id once.\<close>

fun version_refs :: "ArtifactReference list \<Rightarrow> string list \<Rightarrow> ArtifactReference list" where
  "version_refs [] seen = []"
| "version_refs (r # rs) seen =
     (if ar_type r \<noteq> SynthesisArtifact \<or> ar_artifact_id r \<in> set seen then version_refs rs seen
      else r # version_refs rs (ar_artifact_id r # seen))"

definition catalog_refs :: "TurnRecord list \<Rightarrow> ArtifactReference \<Rightarrow> ArtifactReference list" where
  "catalog_refs turns fallback =
     (let refs = version_refs (concat (map tu_produced turns)) [] in
      if refs = [] then [fallback] else refs)"

record finalization_result =
  fz_final :: ArtifactReference
  fz_reports :: "ArtifactReference list"

definition flow3_work ::
    "app_env \<Rightarrow> flow3_context \<Rightarrow> TurnRecord list \<Rightarrow> ArtifactReference \<Rightarrow> finalization_result handler" where
  "flow3_work env c turns synthesis =
     chain (each (catalog_refs turns synthesis) (synthesis_report env c)) (\<lambda>reports.
     chain (build_final_review (f3_session c) synthesis reports turns (f3_correlation c)) (\<lambda>review.
     chain (save_final_review env c review) (\<lambda>final.
     chain (each (se_requested_formats (f3_session c)) (render_one env c final)) (\<lambda>reports.
     Ret \<lparr>fz_final = final, fz_reports = reports\<rparr>))))"

definition set_state :: "session_state \<Rightarrow> session_update" where
  "set_state st = no_update\<lparr>up_state := Some st\<rparr>"

definition run_flow3 ::
    "app_env \<Rightarrow> flow3_context \<Rightarrow> TurnRecord list \<Rightarrow> ArtifactReference \<Rightarrow> finalization_result handler" where
  "run_flow3 env c turns synthesis =
     (let sid = se_session_id (f3_session c) in
      chain (update_session_alone sid (set_state Finalizing)) (\<lambda>_.
      chain (rescue (flow3_work env c turns synthesis) (\<lambda>e.
        case e of
          FinalizationFailed st b False \<Rightarrow>
            chain (update_session_alone sid (set_state Active)) (\<lambda>_. Raise e)
        | _ \<Rightarrow> Raise e)) (\<lambda>result.
      chain (set_finalizing_turn_artifacts sid (fz_final result # fz_reports result)) (\<lambda>_.
      Ret result))))"

definition complete_update :: "finalization_result \<Rightarrow> nat option \<Rightarrow> session_update" where
  "complete_update result n =
     \<lparr>up_state = Some Completed, up_count = n, up_final = Some (fz_final result),
      up_reports = Some (fz_reports result)\<rparr>"

definition complete_session ::
    "string \<Rightarrow> claim_key \<Rightarrow> canonical \<Rightarrow> finalization_result \<Rightarrow> nat option \<Rightarrow> unit handler" where
  "complete_session sid k canon result n =
     transaction (andThen (update_session sid (complete_update result n)) (\<lambda>_. claim_complete k canon))"

definition report_response :: "app_env \<Rightarrow> string \<Rightarrow> ArtifactReference list \<Rightarrow> ReportResponse handler" where
  "report_response env sid refs =
     chain (signer_downloads env refs) (\<lambda>ds.
     construct valid_ReportResponse \<lparr>rs_session_id = sid, rs_report = ds\<rparr>)"

definition canonical_report :: "string \<Rightarrow> ArtifactReference list \<Rightarrow> CanonicalReportResult handler" where
  "canonical_report sid refs =
     construct valid_CanonicalReportResult \<lparr>cp_session_id = sid, cp_report_references = refs\<rparr>"

text \<open>
  \<open>CanonicalReportResult.model_validate(canonical)\<close>: strict Python-mode validation of JSON data.
  The stored \<open>created_at\<close> is a string, which strict mode does not accept as a datetime, and the
  list is never empty, so the validation fails on every stored value.
\<close>

definition replay_report_response :: "canonical \<Rightarrow> ReportResponse handler" where
  "replay_report_response canon = Raise ValidationError"

end
