(* ===== verification/Turn_Flow.thy ===== *)
theory Turn_Flow
  imports Finalization
begin

text \<open>
  Flow 2, dialogue turns (\<open>orchestration/orchestration/turns_flow.py\<close>) and its endpoint
  (\<open>turns_api.py\<close>): the lease around the claim, the state dispatch, the facilitator and delegated
  work, the gate, and the two ways a turn ends (persist and answer, or finalize).
\<close>

section \<open>Pure parts\<close>

definition PARK_TURN :: nat where "PARK_TURN = 10"

definition evaluate_gate :: "nat \<Rightarrow> DelegationDecision \<Rightarrow> turn_outcome" where
  "evaluate_gate facilitator_turn d =
     (if PARK_TURN \<le> facilitator_turn then Park
      else if dd_open_issues d = [] \<and> dd_invoke d = InvokeNone then Finalize
      else Continue)"

definition decision_state :: "TurnRecord list \<Rightarrow> DecisionState option" where
  "decision_state turns =
     (if turns = [] then None
      else Some \<lparr>ds_resolutions = latest_resolutions (all_resolutions turns),
                 ds_open_issues = last_open_issues turns\<rparr>)"

definition stamped_resolutions :: "ResolutionDraft list \<Rightarrow> nat \<Rightarrow> ResolutionItem list" where
  "stamped_resolutions drafts n =
     map (\<lambda>d. \<lparr>ri_issue = rd_issue d, ri_disposition = rd_disposition d,
               ri_explanation = rd_explanation d, ri_turn_number = n\<rparr>) drafts"

definition merged_decision_state :: "DecisionState option \<Rightarrow> FacilitatorTurnOutput \<Rightarrow> nat \<Rightarrow> DecisionState" where
  "merged_decision_state prior first n =
     (let base = (case prior of None \<Rightarrow> [] | Some d \<Rightarrow> ds_resolutions d) in
      \<lparr>ds_resolutions = latest_resolutions (base @ stamped_resolutions (fo_resolutions first) n),
       ds_open_issues = dd_open_issues (fo_delegation first)\<rparr>)"

section \<open>Responses\<close>

definition turn_key :: "string \<Rightarrow> uuid \<Rightarrow> claim_key" where
  "turn_key sid key = (TurnRoute, sid, key)"

definition turn_response ::
    "app_env \<Rightarrow> CanonicalTurnResult \<Rightarrow> ResolutionItem list \<Rightarrow> TurnResponse handler" where
  "turn_response env c resolutions =
     chain (signer_downloads env (ct_report_references c)) (\<lambda>downloads.
     construct valid_TurnResponse
       \<lparr>tr_session_id = ct_session_id c, tr_turn_number = ct_turn_number c, tr_outcome = ct_outcome c,
        tr_state = ct_state c, tr_facilitator_reply = ct_facilitator_reply c,
        tr_rationale_reply = ct_rationale_reply c, tr_issues = ct_issues c,
        tr_delegation = ct_delegation c, tr_resolutions = resolutions,
        tr_synthesis = ct_synthesis c, tr_report = downloads\<rparr>)"

definition turn_issues :: "TurnRecord \<Rightarrow> string list" where
  "turn_issues t = (case tu_delegation t of None \<Rightarrow> [] | Some d \<Rightarrow> dd_open_issues d)"

definition canonical_turn ::
    "TurnRecord \<Rightarrow> string \<Rightarrow> turn_outcome \<Rightarrow> session_state \<Rightarrow> ArtifactReference \<Rightarrow> ArtifactReference list \<Rightarrow>
     CanonicalTurnResult" where
  "canonical_turn t sid outcome st synthesis reports =
     \<lparr>ct_session_id = sid, ct_turn_number = tu_turn_number t, ct_outcome = outcome, ct_state = st,
      ct_facilitator_reply = tu_facilitator_reply t, ct_rationale_reply = tu_rationale_reply t,
      ct_issues = turn_issues t, ct_delegation = tu_delegation t, ct_synthesis = Some synthesis,
      ct_report_references = reports\<rparr>"

definition response_from_canonical :: "app_env \<Rightarrow> canonical option \<Rightarrow> TurnResponse handler" where
  "response_from_canonical env r =
     (case r of
        None \<Rightarrow> Raise AssertionError
      | Some (CanonTurn c) \<Rightarrow>
          chain (construct valid_CanonicalTurnResult c) (\<lambda>c.
          chain (perform (get_turn (ct_session_id c) (ct_turn_number c))) (\<lambda>t.
          case t of None \<Rightarrow> Raise AssertionError
          | Some t \<Rightarrow> turn_response env c (tu_resolutions t)))
      | Some _ \<Rightarrow> Raise ValidationError)"

section \<open>The two endings\<close>

record turn_work =
  tw_env :: app_env
  tw_session :: SessionRecord
  tw_key :: uuid
  tw_correlation :: uuid
  tw_deadline :: instant

definition flow3_of :: "turn_work \<Rightarrow> flow3_context" where
  "flow3_of k =
     \<lparr>f3_session = tw_session k, f3_key = tw_key k, f3_deadline = tw_deadline k,
      f3_correlation = tw_correlation k\<rparr>"

definition finalize_and_respond ::
    "turn_work \<Rightarrow> TurnRecord \<Rightarrow> TurnRecord list \<Rightarrow> ArtifactReference \<Rightarrow> nat option \<Rightarrow> TurnResponse handler"
where
  "finalize_and_respond k turn turns synthesis cnt =
     (let sid = se_session_id (tw_session k) in
      chain (run_flow3 (tw_env k) (flow3_of k) turns synthesis) (\<lambda>result.
      chain (construct valid_CanonicalTurnResult
        (canonical_turn turn sid Finalize Completed synthesis (fz_reports result))) (\<lambda>canon.
      chain (complete_session sid (turn_key sid (tw_key k)) (CanonTurn canon) result cnt) (\<lambda>_.
      turn_response (tw_env k) canon (tu_resolutions turn)))))"

definition persist_update :: "turn_outcome \<Rightarrow> nat \<Rightarrow> session_update" where
  "persist_update outcome cnt =
     no_update\<lparr>up_state := (if outcome = Park then Some Parked else None), up_count := Some cnt\<rparr>"

definition persist_and_respond ::
    "turn_work \<Rightarrow> string \<Rightarrow> TurnRecord \<Rightarrow> turn_outcome \<Rightarrow> ArtifactReference \<Rightarrow> ResolutionItem list \<Rightarrow> nat \<Rightarrow>
     TurnResponse handler" where
  "persist_and_respond k sid turn outcome synthesis resolutions cnt =
     chain (construct valid_CanonicalTurnResult
       (canonical_turn turn sid (case tu_outcome turn of None \<Rightarrow> Continue | Some x \<Rightarrow> x)
         (if outcome = Park then Parked else Active) synthesis [])) (\<lambda>canon.
     chain (transaction (andThen (update_session sid (persist_update outcome cnt))
       (\<lambda>_. claim_complete (turn_key sid (tw_key k)) (CanonTurn canon)))) (\<lambda>_.
     chain (if outcome = Park then emit (SessionParked sid cnt) else Ret ()) (\<lambda>_.
     construct valid_TurnResponse
       \<lparr>tr_session_id = ct_session_id canon, tr_turn_number = ct_turn_number canon,
        tr_outcome = ct_outcome canon, tr_state = ct_state canon,
        tr_facilitator_reply = ct_facilitator_reply canon, tr_rationale_reply = ct_rationale_reply canon,
        tr_issues = ct_issues canon, tr_delegation = ct_delegation canon, tr_resolutions = resolutions,
        tr_synthesis = ct_synthesis canon, tr_report = []\<rparr>)))"

section \<open>The turn\<close>

definition latest_synthesis :: "turn_work \<Rightarrow> ArtifactReference handler" where
  "latest_synthesis k =
     chain (list_run_artifacts (tw_env k) (se_story_run_id (tw_session k)) (tw_deadline k) (tw_correlation k))
       (\<lambda>refs. lineage_latest refs SynthesisArtifact None (tw_correlation k))"

definition stage_of :: "turn_work \<Rightarrow> processing_stage \<Rightarrow> unit handler" where
  "stage_of k stage = perform (set_processing_stage (se_session_id (tw_session k)) (Some stage))"

text \<open>The three evidence slots, looked up in order.\<close>

definition evidence_of :: "turn_work \<Rightarrow> ArtifactReference list \<Rightarrow> ArtifactReference list handler" where
  "evidence_of k refs =
     each [(StoryArtifact, None), (ReviewBusiness, Some Business), (ReviewEngineering, Some Engineering)]
       (\<lambda>slot. lineage_latest refs (fst slot) (snd slot) (tw_correlation k))"

text \<open>The retry of a failed flow 3 reads the clock twice: one deadline for the lookup, one for the rest.\<close>

definition fresh_deadline :: "turn_work \<Rightarrow> turn_work handler" where
  "fresh_deadline k = chain (deadline_of (tw_env k)) (\<lambda>d. Ret (k\<lparr>tw_deadline := d\<rparr>))"

definition resume_finalizing :: "turn_work \<Rightarrow> TurnResponse handler" where
  "resume_finalizing k =
     chain (perform (list_turns (se_session_id (tw_session k)))) (\<lambda>turns.
     chain (demand (turns \<noteq> [] \<and> tu_outcome (last turns) = Some Finalize) AssertionError) (\<lambda>_.
     chain (chain (fresh_deadline k) latest_synthesis) (\<lambda>synthesis.
     chain (stage_of k InFinalizing) (\<lambda>_.
     chain (fresh_deadline k) (\<lambda>k.
     finalize_and_respond k (last turns) turns synthesis None)))))"

definition next_turn_number :: "TurnRecord list \<Rightarrow> nat" where
  "next_turn_number turns = (if turns = [] then 0 else tu_turn_number (last turns)) + 1"

definition acceptance_turn :: "turn_work \<Rightarrow> nat \<Rightarrow> instant \<Rightarrow> TurnRecord" where
  "acceptance_turn k n t =
     \<lparr>tu_session_id = se_session_id (tw_session k), tu_turn_number = n,
      tu_correlation_id = tw_correlation k, tu_state = Succeeded, tu_po_message = None,
      tu_po_accepted = True, tu_facilitator_reply = None, tu_rationale_reply = None,
      tu_delegation = None, tu_resolutions = [], tu_new_issues = [], tu_outcome = Some Finalize,
      tu_produced = [], tu_created_at = t, tu_completed_at = Some t\<rparr>"

definition accept_turn :: "turn_work \<Rightarrow> nat \<Rightarrow> TurnResponse handler" where
  "accept_turn k n =
     chain now (\<lambda>t.
     chain (construct valid_TurnRecord (acceptance_turn k n t)) (\<lambda>record.
     chain (create_turn_or_get record) (\<lambda>turn.
     chain (perform (list_turns (se_session_id (tw_session k)))) (\<lambda>turns.
     chain (latest_synthesis k) (\<lambda>synthesis.
     chain (stage_of k InFinalizing) (\<lambda>_.
     finalize_and_respond k turn turns synthesis None))))))"

definition facilitator_request ::
    "turn_work \<Rightarrow> nat \<Rightarrow> uuid \<Rightarrow> string \<Rightarrow> SynthesisReport \<Rightarrow> ArtifactReference \<Rightarrow> ArtifactReference list \<Rightarrow>
     DecisionState option \<Rightarrow> FacilitatorRequest" where
  "facilitator_request k n invocation message report ref evidence d =
     \<lparr>fq_session_id = se_session_id (tw_session k), fq_turn_number = n, fq_invocation_id = invocation,
      fq_po_message = Some message, fq_synthesis_report = report, fq_synthesis_reference = ref,
      fq_evidence = evidence, fq_decision_state = d\<rparr>"

definition execution_of :: "turn_work \<Rightarrow> nat \<Rightarrow> turn_context" where
  "execution_of k n =
     \<lparr>tc_session = tw_session k, tc_key = tw_key k, tc_turn = n, tc_deadline = tw_deadline k,
      tc_correlation = tw_correlation k\<rparr>"

definition summary_label :: "nat \<Rightarrow> string" where
  "summary_label n = ''facilitator-summary:'' @ decimal n"

definition invoke_summary_facilitator ::
    "turn_work \<Rightarrow> nat \<Rightarrow> nat \<Rightarrow> string \<Rightarrow> SynthesisReport \<Rightarrow> ArtifactReference \<Rightarrow> DecisionState option \<Rightarrow>
     FacilitatorTurnOutput \<Rightarrow> FacilitatorTurnOutput handler" where
  "invoke_summary_facilitator k n facilitator_turn message report ref prior first =
     chain (list_run_artifacts (tw_env k) (se_story_run_id (tw_session k)) (tw_deadline k) (tw_correlation k)) (\<lambda>refs.
     chain (evidence_of k refs) (\<lambda>evidence.
     chain (or_agent_failure (tw_correlation k) ''facilitator'' (invoke_facilitator (tw_env k)
       (facilitator_request k facilitator_turn
         (facilitator_summary_invocation_id (tw_env k) (tw_key k) (se_session_id (tw_session k)) facilitator_turn)
         message report ref evidence (Some (merged_decision_state prior first n))))) (\<lambda>f.
     chain (record_run (tw_env k) (execution_of k n)
       (entry_of f FacilitatorAgent (summary_label n) [ref] (ref # evidence))) (\<lambda>_.
     Ret (ti_answer f)))))"

text \<open>What the first half of a message turn hands to the second.\<close>

record delegated_turn =
  dt_first :: FacilitatorTurnOutput
  dt_new_refs :: "ArtifactReference list"
  dt_synthesis :: synthesis_outcome

definition delegate_turn ::
    "turn_work \<Rightarrow> nat \<Rightarrow> nat \<Rightarrow> string \<Rightarrow> TurnRecord list \<Rightarrow> delegated_turn handler" where
  "delegate_turn k n facilitator_turn message turns =
     chain (stage_of k InFacilitator) (\<lambda>_.
     chain (assemble_inputs (tw_env k) (tw_session k) (tw_deadline k) (tw_correlation k)) (\<lambda>(story, refs).
     chain (lineage_latest refs SynthesisArtifact None (tw_correlation k)) (\<lambda>s_ref.
     chain (chain (artifact_content (tw_env k) s_ref (tw_deadline k) (tw_correlation k)) parse_synthesis) (\<lambda>report.
     chain (evidence_of k refs) (\<lambda>evidence.
     chain (or_agent_failure (tw_correlation k) ''facilitator'' (invoke_facilitator (tw_env k)
       (facilitator_request k facilitator_turn
         (facilitator_invocation_id (tw_env k) (tw_key k) (se_session_id (tw_session k)) facilitator_turn)
         message report s_ref evidence (decision_state turns)))) (\<lambda>f.
     chain (record_run (tw_env k) (execution_of k n)
       (entry_of f FacilitatorAgent (turn_label (execution_of k n) FacilitatorAgent) [s_ref] (s_ref # evidence))) (\<lambda>_.
     chain (stage_of k Delegating) (\<lambda>_.
     chain (execute_delegation (tw_env k) (execution_of k n) story refs (fo_delegation (ti_answer f))) (\<lambda>new_refs.
     chain (stage_of k Synthesizing) (\<lambda>_.
     chain (maybe_synthesize (tw_env k) (execution_of k n) new_refs
       (dd_reuse_previous (fo_delegation (ti_answer f))) s_ref) (\<lambda>s.
     Ret \<lparr>dt_first = ti_answer f, dt_new_refs = new_refs, dt_synthesis = s\<rparr>)))))))))))"

definition summarize_turn ::
    "turn_work \<Rightarrow> nat \<Rightarrow> nat \<Rightarrow> string \<Rightarrow> TurnRecord list \<Rightarrow> delegated_turn \<Rightarrow>
     (FacilitatorTurnOutput \<times> string option) handler" where
  "summarize_turn k n facilitator_turn message turns d =
     (if so_produced (dt_synthesis d)
      then
        (case so_report (dt_synthesis d) of
           None \<Rightarrow> Raise AssertionError
         | Some report \<Rightarrow>
             chain (stage_of k InFacilitator) (\<lambda>_.
             chain (invoke_summary_facilitator k n facilitator_turn message report
               (so_reference (dt_synthesis d)) (decision_state turns) (dt_first d)) (\<lambda>final.
             Ret (final, Some (fo_reply (dt_first d))))))
      else Ret (dt_first d, None))"

definition message_turn_record ::
    "turn_work \<Rightarrow> nat \<Rightarrow> nat \<Rightarrow> string \<Rightarrow> delegated_turn \<Rightarrow> FacilitatorTurnOutput \<Rightarrow> string option \<Rightarrow> instant \<Rightarrow>
     TurnRecord" where
  "message_turn_record k n facilitator_turn message d final rationale t =
     \<lparr>tu_session_id = se_session_id (tw_session k), tu_turn_number = n,
      tu_correlation_id = tw_correlation k, tu_state = Succeeded, tu_po_message = Some message,
      tu_po_accepted = False, tu_facilitator_reply = Some (fo_reply final),
      tu_rationale_reply = rationale, tu_delegation = Some (fo_delegation final),
      tu_resolutions = stamped_resolutions (fo_resolutions final) n,
      tu_new_issues = fo_new_issues final,
      tu_outcome = Some (evaluate_gate facilitator_turn (fo_delegation final)),
      tu_produced = dt_new_refs d @
        (if so_produced (dt_synthesis d) then [so_reference (dt_synthesis d)] else []),
      tu_created_at = t, tu_completed_at = Some t\<rparr>"

definition finish_turn ::
    "turn_work \<Rightarrow> nat \<Rightarrow> nat \<Rightarrow> string \<Rightarrow> delegated_turn \<Rightarrow> FacilitatorTurnOutput \<Rightarrow> string option \<Rightarrow>
     TurnResponse handler" where
  "finish_turn k n facilitator_turn message d final rationale =
     (let sid = se_session_id (tw_session k);
          outcome = evaluate_gate facilitator_turn (fo_delegation final) in
      chain (emit (GateDecision outcome facilitator_turn sid)) (\<lambda>_.
      chain now (\<lambda>t.
      chain (construct valid_TurnRecord (message_turn_record k n facilitator_turn message d final rationale t)) (\<lambda>record.
      chain (create_turn_or_get record) (\<lambda>turn.
      if outcome = Finalize
      then
        chain (update_session_alone sid (no_update\<lparr>up_count := Some facilitator_turn\<rparr>)) (\<lambda>_.
        chain (perform (list_turns sid)) (\<lambda>turns.
        chain (stage_of k InFinalizing) (\<lambda>_.
        finalize_and_respond k turn turns (so_reference (dt_synthesis d)) (Some facilitator_turn))))
      else
        persist_and_respond k sid turn outcome (so_reference (dt_synthesis d))
          (stamped_resolutions (fo_resolutions final) n) facilitator_turn)))))"

definition message_turn :: "turn_work \<Rightarrow> nat \<Rightarrow> string \<Rightarrow> TurnRecord list \<Rightarrow> TurnResponse handler" where
  "message_turn k n message turns =
     (let facilitator_turn = se_turn_count (tw_session k) + 1 in
      chain (demand (facilitator_turn \<le> PARK_TURN) AssertionError) (\<lambda>_.
      chain (delegate_turn k n facilitator_turn message turns) (\<lambda>d.
      chain (summarize_turn k n facilitator_turn message turns d) (\<lambda>(final, rationale).
      finish_turn k n facilitator_turn message d final rationale))))"

definition active_turn :: "turn_work \<Rightarrow> TurnRequest \<Rightarrow> TurnResponse handler" where
  "active_turn k q =
     chain (perform (list_turns (se_session_id (tw_session k)))) (\<lambda>turns.
     if tq_po_accepted q then accept_turn k (next_turn_number turns)
     else case tq_message q of
         None \<Rightarrow> Raise PythonError
       | Some message \<Rightarrow> message_turn k (next_turn_number turns) message turns)"

definition dispatch_turn ::
    "app_env \<Rightarrow> string \<Rightarrow> TurnRequest \<Rightarrow> uuid \<Rightarrow> uuid \<Rightarrow> uuid \<Rightarrow> claim_outcome \<Rightarrow> TurnResponse handler" where
  "dispatch_turn env sid q key correlation user claim =
     chain (perform (World.get_session sid user)) (\<lambda>found.
     case found of
       None \<Rightarrow> Raise AssertionError
     | Some s \<Rightarrow>
         let k = \<lparr>tw_env = env, tw_session = s, tw_key = key, tw_correlation = correlation,
                  tw_deadline = 0\<rparr> in
         if se_state s = Active then chain (fresh_deadline k) (\<lambda>k. active_turn k q)
         else if se_state s = Finalizing \<and> claim = StillInProgress then resume_finalizing k
         else chain (perform (claim_release (turn_key sid key))) (\<lambda>_. Raise (read_only correlation)))"

definition execute_turn ::
    "app_env \<Rightarrow> string \<Rightarrow> TurnRequest \<Rightarrow> uuid \<Rightarrow> uuid \<Rightarrow> uuid \<Rightarrow> TurnResponse handler" where
  "execute_turn env sid q key correlation user =
     chain (idempotency_claim (turn_key sid key) (en_fingerprint env (BodyTurn q))) (\<lambda>claim.
     case claim of
       Replay r \<Rightarrow> response_from_canonical env r
     | _ \<Rightarrow> dispatch_turn env sid q key correlation user claim)"

text \<open>\<open>try: ... finally:\<close> the stage marker is cleared and the lease released, in this order.\<close>

definition clear_and_release :: "string \<Rightarrow> uuid \<Rightarrow> unit handler" where
  "clear_and_release sid token =
     chain (perform (set_processing_stage sid None)) (\<lambda>_.
     chain (perform (lease_release sid token)) (\<lambda>_. Ret ()))"

definition under_lease :: "app_env \<Rightarrow> string \<Rightarrow> 'a handler \<Rightarrow> 'a handler" where
  "under_lease env sid body =
     chain (lease_acquire (en_token env) sid) (\<lambda>token. ensure body (clear_and_release sid token))"

definition run_turn ::
    "app_env \<Rightarrow> string \<Rightarrow> TurnRequest \<Rightarrow> uuid \<Rightarrow> uuid \<Rightarrow> uuid \<Rightarrow> TurnResponse handler" where
  "run_turn env sid q key correlation user =
     chain (perform (World.get_session sid user)) (\<lambda>found.
     case found of
       None \<Rightarrow> Raise (not_found correlation)
     | Some _ \<Rightarrow> under_lease env sid (execute_turn env sid q key correlation user))"

definition post_turn ::
    "app_env \<Rightarrow> string \<Rightarrow> TurnRequest \<Rightarrow> uuid \<Rightarrow> uuid \<Rightarrow> uuid \<Rightarrow> TurnResponse handler" where
  "post_turn env sid q key correlation user =
     chain (demand (is_uuid4 key) (bad_key correlation)) (\<lambda>_.
     rescue (run_turn env sid q key correlation user) (\<lambda>e.
       case e of
         FinalizationFailed st b retryable \<Rightarrow> Raise (ApiError st b)
       | SessionLocked hint \<Rightarrow> Raise (map_session_locked hint correlation)
       | KeyReused \<Rightarrow> Raise (map_idempotency_reused correlation)
       | _ \<Rightarrow> Raise e))"

end
