(* ===== verification/Session_Endings.thy ===== *)
theory Session_Endings
  imports Turn_Flow
begin

text \<open>
  The endpoints that end a session or read what an ended one left: the finalization retry and
  the report (\<open>orchestration/orchestration/finalize_api.py\<close>) and the explicit park-now
  (\<open>abandon_api.py\<close>).
\<close>

section \<open>Finalization retry\<close>

definition finalize_key :: "string \<Rightarrow> uuid \<Rightarrow> claim_key" where
  "finalize_key sid key = (FinalizeRoute, sid, key)"

text \<open>Under the lease, with a fresh or taken-over claim: flow 3, then one closing transaction.\<close>

definition finalize_work :: "app_env \<Rightarrow> SessionRecord \<Rightarrow> uuid \<Rightarrow> uuid \<Rightarrow> ReportResponse handler" where
  "finalize_work env s key correlation =
     (let sid = se_session_id s in
      chain (deadline_of env) (\<lambda>deadline.
      chain (perform (list_turns sid)) (\<lambda>turns.
      chain (demand (turns \<noteq> []) AssertionError) (\<lambda>_.
      chain (list_run_artifacts env (se_story_run_id s) deadline correlation) (\<lambda>refs.
      chain (lineage_latest refs SynthesisArtifact None correlation) (\<lambda>synthesis.
      chain (perform (set_processing_stage sid (Some InFinalizing))) (\<lambda>_.
      chain (run_flow3 env
        \<lparr>f3_session = s, f3_key = key, f3_deadline = deadline, f3_correlation = correlation\<rparr>
        turns synthesis) (\<lambda>result.
      chain (canonical_report sid (fz_reports result)) (\<lambda>canon.
      chain (complete_session sid (finalize_key sid key) (CanonReport canon) result None) (\<lambda>_.
      report_response env sid (fz_reports result)))))))))))"

definition claim_and_finalize :: "app_env \<Rightarrow> SessionRecord \<Rightarrow> uuid \<Rightarrow> uuid \<Rightarrow> ReportResponse handler" where
  "claim_and_finalize env s key correlation =
     chain (idempotency_claim (finalize_key (se_session_id s) key) (en_fingerprint env BodyEmpty)) (\<lambda>claim.
     case claim of
       Replay None \<Rightarrow> Raise AssertionError
     | Replay (Some canon) \<Rightarrow> replay_report_response canon
     | _ \<Rightarrow> finalize_work env s key correlation)"

definition finalize_under_lease ::
    "app_env \<Rightarrow> string \<Rightarrow> uuid \<Rightarrow> uuid \<Rightarrow> uuid \<Rightarrow> ReportResponse handler" where
  "finalize_under_lease env sid key correlation user =
     chain (perform (World.get_session sid user)) (\<lambda>fresh.
     case fresh of
       None \<Rightarrow> Raise AssertionError
     | Some s \<Rightarrow>
         (case se_state s of
            Completed \<Rightarrow> report_response env (se_session_id s) (se_report_references s)
          | Active \<Rightarrow> Raise (not_finalizing correlation)
          | Parked \<Rightarrow> Raise (read_only correlation)
          | Finalizing \<Rightarrow> claim_and_finalize env s key correlation))"

definition finalize_session ::
    "app_env \<Rightarrow> string \<Rightarrow> uuid \<Rightarrow> uuid \<Rightarrow> uuid \<Rightarrow> ReportResponse handler" where
  "finalize_session env sid key correlation user =
     chain (demand (is_uuid4 key) (bad_key correlation)) (\<lambda>_.
     chain (perform (World.get_session sid user)) (\<lambda>found.
     case found of
       None \<Rightarrow> Raise (not_found correlation)
     | Some s \<Rightarrow>
         (case se_state s of
            Completed \<Rightarrow> report_response env (se_session_id s) (se_report_references s)
          | Active \<Rightarrow> Raise (not_finalizing correlation)
          | Parked \<Rightarrow> Raise (read_only correlation)
          | Finalizing \<Rightarrow>
              under_lease env (se_session_id s)
                (finalize_under_lease env (se_session_id s) key correlation user))))"

text \<open>The endpoint maps contention and key reuse; a \<open>FinalizationFailed\<close> passes through.\<close>

definition post_finalize :: "app_env \<Rightarrow> string \<Rightarrow> uuid \<Rightarrow> uuid \<Rightarrow> uuid \<Rightarrow> ReportResponse handler" where
  "post_finalize env sid key correlation user =
     rescue (finalize_session env sid key correlation user) (\<lambda>e.
       case e of
         SessionLocked hint \<Rightarrow> Raise (map_session_locked hint correlation)
       | KeyReused \<Rightarrow> Raise (map_idempotency_reused correlation)
       | _ \<Rightarrow> Raise e)"

definition report_not_ready :: "uuid \<Rightarrow> exc" where
  "report_not_ready correlation =
     ApiError 409 (make_error REPORT_NOT_READY ''reports exist only for completed sessions''
       correlation False None None)"

definition get_report :: "app_env \<Rightarrow> string \<Rightarrow> uuid \<Rightarrow> uuid \<Rightarrow> ReportResponse handler" where
  "get_report env sid correlation user =
     chain (perform (World.get_session sid user)) (\<lambda>found.
     case found of
       None \<Rightarrow> Raise (not_found correlation)
     | Some s \<Rightarrow>
         if se_state s \<noteq> Completed then Raise (report_not_ready correlation)
         else report_response env (se_session_id s) (se_report_references s))"

section \<open>Abandon\<close>

definition abandon_key :: "string \<Rightarrow> uuid \<Rightarrow> claim_key" where
  "abandon_key sid key = (AbandonRoute, sid, key)"

definition replay_abandon :: "canonical option \<Rightarrow> AbandonSessionResponse handler" where
  "replay_abandon r =
     (case r of
        None \<Rightarrow> Raise AssertionError
      | Some (CanonAbandon a) \<Rightarrow> construct valid_AbandonSessionResponse a
      | Some _ \<Rightarrow> Raise ValidationError)"

definition park_session :: "SessionRecord \<Rightarrow> uuid \<Rightarrow> AbandonSessionResponse handler" where
  "park_session s key =
     (let canon = \<lparr>ab_session_id = se_session_id s, ab_state = Parked\<rparr> in
      chain (transaction (andThen (update_session (se_session_id s) (set_state Parked)) (\<lambda>_.
        claim_complete (abandon_key (se_session_id s) key) (CanonAbandon canon)))) (\<lambda>_.
      chain (emit (SessionParked (se_session_id s) (se_turn_count s))) (\<lambda>_.
      construct valid_AbandonSessionResponse canon)))"

definition park_now ::
    "app_env \<Rightarrow> string \<Rightarrow> uuid \<Rightarrow> uuid \<Rightarrow> uuid \<Rightarrow> AbandonSessionResponse handler" where
  "park_now env sid key correlation user =
     chain (idempotency_claim (abandon_key sid key) (en_fingerprint env BodyEmpty)) (\<lambda>claim.
     case claim of
       Replay r \<Rightarrow> replay_abandon r
     | _ \<Rightarrow>
         chain (perform (World.get_session sid user)) (\<lambda>found.
         case found of
           None \<Rightarrow> Raise AssertionError
         | Some s \<Rightarrow>
             if se_state s = Active \<or> se_state s = Finalizing then park_session s key
             else chain (perform (claim_release (abandon_key sid key))) (\<lambda>_.
               Raise (read_only correlation))))"

definition abandon_session ::
    "app_env \<Rightarrow> string \<Rightarrow> uuid \<Rightarrow> uuid \<Rightarrow> uuid \<Rightarrow> AbandonSessionResponse handler" where
  "abandon_session env sid key correlation user =
     chain (demand (is_uuid4 key) (bad_key correlation)) (\<lambda>_.
     chain (perform (World.get_session sid user)) (\<lambda>found.
     case found of
       None \<Rightarrow> Raise (not_found correlation)
     | Some _ \<Rightarrow>
         chain (rescue (lease_acquire (en_token env) sid) (\<lambda>e.
           case e of SessionLocked hint \<Rightarrow> Raise (map_session_locked hint correlation) | _ \<Rightarrow> Raise e)) (\<lambda>token.
         ensure (rescue (park_now env sid key correlation user) (\<lambda>e.
             case e of KeyReused \<Rightarrow> Raise (map_idempotency_reused correlation) | _ \<Rightarrow> Raise e))
           (clear_and_release sid token))))"

end
