(* ===== verification/Api_Steps.thy ===== *)
theory Api_Steps
  imports Frames Session_Endings
begin

text \<open>
  The handlers of the API as programs whose every atomic action stays inside a relation. The
  locale \<open>service_steps\<close> lists what the downstream half of the handlers does to the world (calls,
  saves, renders, audit records, stage marker, log), \<open>api_steps\<close> adds the statements on runs,
  sessions, turns, claims and leases; inside them each handler is shown once to stay inside the
  relation. The interpretations, one per relation of interest, follow in the theories that
  define those relations.
\<close>

section \<open>Rules for the handlers' case distinctions\<close>

lemma inside_exc [inside_intros]:
  assumes "\<And>a b. inside C R (f1 a b)" "\<And>a b c. inside C R (f2 a b c)" "\<And>a. inside C R (f3 a)" "inside C R f4"
    "\<And>a. inside C R (f5 a)" "\<And>a. inside C R (f6 a)" "inside C R f7" "inside C R f8" "\<And>a. inside C R (f9 a)"
    "inside C R f10" "inside C R f11" "inside C R f12" "inside C R f13" "inside C R f14" "inside C R f15"
  shows "inside C R (case_exc f1 f2 f3 f4 f5 f6 f7 f8 f9 f10 f11 f12 f13 f14 f15 e)"
  using assms by (cases e) simp_all

lemma inside_bool [inside_intros]:
  "inside C R p \<Longrightarrow> inside C R q \<Longrightarrow> inside C R (case b of True \<Rightarrow> p | False \<Rightarrow> q)"
  by (cases b) simp_all

lemma inside_claim_outcome [inside_intros]:
  "inside C R p \<Longrightarrow> (\<And>r. inside C R (q r)) \<Longrightarrow> inside C R s \<Longrightarrow>
   inside C R (case c of Claimed \<Rightarrow> p | Replay r \<Rightarrow> q r | StillInProgress \<Rightarrow> s)"
  by (cases c) simp_all

lemma inside_canonical [inside_intros]:
  "(\<And>x. inside C R (p x)) \<Longrightarrow> (\<And>x. inside C R (q x)) \<Longrightarrow> (\<And>x. inside C R (r x)) \<Longrightarrow> (\<And>x. inside C R (s x)) \<Longrightarrow>
   inside C R (case c of CanonCreate x \<Rightarrow> p x | CanonTurn x \<Rightarrow> q x | CanonReport x \<Rightarrow> r x | CanonAbandon x \<Rightarrow> s x)"
  by (cases c) simp_all

lemma inside_session_state [inside_intros]:
  "inside C R p \<Longrightarrow> inside C R q \<Longrightarrow> inside C R r \<Longrightarrow> inside C R s \<Longrightarrow>
   inside C R (case st of Active \<Rightarrow> p | Parked \<Rightarrow> q | Finalizing \<Rightarrow> r | Completed \<Rightarrow> s)"
  by (cases st) simp_all

lemma inside_content [inside_intros]:
  "(\<And>x. inside C R (p x)) \<Longrightarrow> (\<And>x. inside C R (q x)) \<Longrightarrow> (\<And>x. inside C R (r x)) \<Longrightarrow> (\<And>x. inside C R (s x)) \<Longrightarrow>
   inside C R (case c of StoryContent x \<Rightarrow> p x | ReviewContent x \<Rightarrow> q x | SynthesisContent x \<Rightarrow> r x | FinalContent x \<Rightarrow> s x)"
  by (cases c) simp_all

lemma inside_checked_model:
  "(ok x \<Longrightarrow> inside C R (k x)) \<Longrightarrow> inside C R (chain (construct ok x) k)"
  by (cases "ok x") (simp_all add: construct_def demand_def inside_intros)

lemma inside_construct [inside_intros]: "inside C R (construct ok x)"
  by (simp add: construct_def inside_intros)

section \<open>Downstream work\<close>

lemma list_grows: "art_grows b (snd (list_artifacts q b))"
proof -
  have "keeps (art_grows b) (list_artifacts q)"
    unfolding list_artifacts_def run_references_def Let_def
    by (intro keeps_intros art_grows_tick)
  from movesD[OF this, of b] show ?thesis by simp
qed

lemma get_grows: "art_grows b (snd (get_artifact rid aid b))"
proof -
  have "keeps (art_grows b) (get_artifact rid aid)"
    unfolding get_artifact_def read_record_def read_or_none_def
    by (intro keeps_intros art_grows_tick)
  from movesD[OF this, of b] show ?thesis by simp
qed

lemma server_save_grows: "art_grows b (snd (server_save env q b))"
  by (simp add: server_save_def save_grows comp_simps)

locale service_steps =
  fixes C :: "world \<Rightarrow> bool" and R :: "world \<Rightarrow> world \<Rightarrow> bool"
  assumes closed: "C w \<Longrightarrow> R w x \<Longrightarrow> C x"
    and R_refl: "R w w"
    and R_trans: "R w x \<Longrightarrow> R x y \<Longrightarrow> R w y"
    and R_clock: "R w (w\<lparr>w_clock := w_clock w + int d\<rparr>)"
    and R_calls: "R w (w\<lparr>w_calls := w_calls w + 1\<rparr>)"
    and R_event: "R w (w\<lparr>w_events := e # w_events w\<rparr>)"
    and R_stage: "R w (w\<lparr>w_stages := marks\<rparr>)"
    and R_bucket: "art_grows (w_bucket w) b \<Longrightarrow> R w (w\<lparr>w_bucket := b\<rparr>)"
    and R_reports: "rep_grows (w_reports w) r \<Longrightarrow> R w (w\<lparr>w_reports := r\<rparr>)"
    and R_agent_run: "agent_run_conflict a w = None \<Longrightarrow> valid_AgentRunRecord a \<Longrightarrow>
      R w (w\<lparr>w_agent_runs := dict_put (ag_run_id a) a (w_agent_runs w)\<rparr>)"
begin

lemma here: "inside C R (perform (gets f))"
  by (rule inside_gets) (rule R_refl)

lemma next_call_R: "R w (snd (next_call env w))"
  using R_trans[OF R_calls[of w] R_clock[of "w\<lparr>w_calls := w_calls w + 1\<rparr>" "en_delay env (w_calls w)"]]
  by (simp add: next_call_def comp_simps)

lemma next_call_run: "\<exists>x. next_call env w = (Inr (w_calls w), x) \<and> R w x \<and>
    w_bucket x = w_bucket w \<and> w_reports x = w_reports w"
  using next_call_R[of w env] by (simp add: next_call_def comp_simps)

lemma serve_artifact_R:
  assumes "\<And>b. art_grows b (snd (work b))"
  shows "R w (snd (serve_artifact env work w))"
proof -
  obtain x where x: "next_call env w = (Inr (w_calls w), x)" "R w x" "w_bucket x = w_bucket w"
    using next_call_run by blast
  let ?b = "(w_bucket x)\<lparr>ao_budget := fault_budget (en_fault env (w_calls w)), ao_clock := w_clock x\<rparr>"
  have "art_grows (w_bucket x) ((snd (work ?b))\<lparr>ao_budget := None\<rparr>)"
    using assms[of ?b] by (simp add: art_grows_def)
  then have "R x (x\<lparr>w_bucket := (snd (work ?b))\<lparr>ao_budget := None\<rparr>\<rparr>)" by (rule R_bucket)
  with x(1,2) show ?thesis
    by (auto simp: serve_artifact_def comp_simps split: prod.splits intro: R_trans)
qed

lemma serve_report_R:
  assumes "\<And>arts b. rep_grows b (snd (work arts b))"
  shows "R w (snd (serve_report env work w))"
proof -
  obtain x where x: "next_call env w = (Inr (w_calls w), x)" "R w x" "w_reports x = w_reports w"
    using next_call_run by blast
  let ?b = "(w_reports x)\<lparr>ro_budget := fault_budget (en_fault env (w_calls w)), ro_clock := w_clock x\<rparr>"
  let ?c = "snd (work (ao_records (w_bucket x)) ?b)"
  have "rep_grows (w_reports x) (?c\<lparr>ro_budget := None\<rparr>)"
    using assms[of ?b "ao_records (w_bucket x)"] by (simp add: rep_grows_def)
  then have "R x (x\<lparr>w_reports := ?c\<lparr>ro_budget := None\<rparr>\<rparr>)" by (rule R_reports)
  with x(1,2) show ?thesis
    by (auto simp: serve_report_def comp_simps split: prod.splits intro: R_trans)
qed

lemma serve_story_R: "R w (snd (serve_story env story w))"
  using next_call_run[of env w] by (auto simp: serve_story_def comp_simps)

lemma timed_call_R:
  "R w (snd (andThen (next_call env) (\<lambda>n. case call n of Inl e \<Rightarrow> raise e | Inr x \<Rightarrow> ret x) w))"
  using next_call_run[of env w] by (auto simp: comp_simps split: sum.split)

lemma clamp_R: "R w (snd (clamped_timeout deadline w))"
  by (simp add: clamped_timeout_def comp_simps R_refl)

lemma backoff_R: "R w (snd (mcp_backoff env k w))"
  by (simp add: mcp_backoff_def comp_simps R_clock del: of_nat_mult of_nat_add)

lemma mcp_loop_inside:
  assumes "\<And>w. R w (snd (attempt w))"
  shows "inside C R (mcp_loop env deadline attempt k n)"
proof (induction n arbitrary: k)
  case (Suc n)
  show ?case
    unfolding mcp_loop.simps
    by (intro inside_intros inside_perform clamp_R backoff_R assms Suc.IH)
qed (simp add: inside_intros)

lemma mcp_call_inside: "(\<And>w. R w (snd (attempt w))) \<Longrightarrow> inside C R (mcp_call env deadline attempt)"
  unfolding mcp_call_def by (rule mcp_loop_inside)

lemma save_artifact_inside: "inside C R (save_artifact env ty run_id body key deadline correlation)"
  unfolding save_artifact_def Let_def parsed_def
  by (intro inside_intros mcp_call_inside serve_artifact_R server_save_grows)

lemma get_story_inside: "inside C R (Services.get_story env story deadline correlation)"
  unfolding Services.get_story_def parsed_def
  by (intro inside_intros mcp_call_inside serve_story_R)

lemma list_run_artifacts_inside: "inside C R (list_run_artifacts env run_id deadline correlation)"
  unfolding list_run_artifacts_def Let_def parsed_def
  by (intro inside_intros mcp_call_inside serve_artifact_R list_grows)

lemma artifact_content_inside: "inside C R (artifact_content env ref deadline correlation)"
  unfolding artifact_content_def
  by (intro inside_intros mcp_call_inside serve_artifact_R get_grows)

lemma render_call_inside: "inside C R (render_call_of env q deadline)"
  unfolding render_call_of_def
  by (intro mcp_call_inside serve_report_R render_grows)

lemma lineage_latest_inside: "inside C R (lineage_latest refs ty p correlation)"
  unfolding lineage_latest_def by (intro inside_intros)

lemma now_inside: "inside C R now"
  by (simp add: now_def here)

lemma emit_inside: "inside C R (emit e)"
  unfolding emit_def by (rule inside_perform) (simp add: comp_simps R_event)

lemma stage_inside: "inside C R (perform (set_processing_stage sid stage))"
  by (rule inside_perform) (simp add: set_processing_stage_def comp_simps R_refl R_stage split: option.split)

lemma timed_invoke_inside: "inside C R (timed_invoke env call)"
  unfolding timed_invoke_def by (intro inside_intros now_inside inside_perform timed_call_R)

lemma signer_downloads_inside: "inside C R (signer_downloads env refs)"
  unfolding signer_downloads_def signer_download_def by (intro inside_intros now_inside)

lemma deadline_inside: "inside C R (deadline_of env)"
  by (simp add: deadline_of_def here)

lemma agent_run_inside: "valid_AgentRunRecord a \<Longrightarrow> inside C R (create_agent_run_or_get a)"
  unfolding create_agent_run_or_get_def get_agent_run_def create_agent_run_def checked_def
  by (intro inside_intros inside_perform)
     (auto simp: comp_simps R_refl R_agent_run split: option.split)

lemmas service_inside =
  save_artifact_inside get_story_inside list_run_artifacts_inside artifact_content_inside
  render_call_inside lineage_latest_inside now_inside emit_inside stage_inside timed_invoke_inside
  signer_downloads_inside deadline_inside agent_run_inside

end

section \<open>The agents' half of the flows\<close>

context service_steps begin

lemma record_agent_run_inside: "inside C R (record_agent_run ev key correlation run_id sid e)"
  unfolding record_agent_run_def
  by (intro inside_checked_model inside_intros agent_run_inside)

lemma record_agent_runs_inside: "inside C R (record_agent_runs ev key correlation run_id sid es)"
  unfolding record_agent_runs_def by (intro inside_intros record_agent_run_inside)

lemma fence_result_inside: "inside C R (fence_result p text prev extra t)"
  unfolding fence_result_def by (intro inside_intros emit_inside)

lemma invoke_facilitator_inside: "inside C R (invoke_facilitator ev q)"
  unfolding invoke_facilitator_def by (intro inside_intros timed_invoke_inside)

lemma or_agent_failure_inside: "inside C R p \<Longrightarrow> inside C R (or_agent_failure correlation who p)"
  unfolding or_agent_failure_def by (intro inside_intros)

lemma fan_out_inside: "inside C R (fan_out_reviewers ev story)"
  unfolding fan_out_reviewers_def Let_def
  by (intro inside_intros timed_invoke_inside fence_result_inside)

lemma pipeline_reviews_inside: "inside C R (pipeline_reviews ev c story)"
  unfolding pipeline_reviews_def pipeline_stage_def pipeline_save_def
  by (intro inside_intros service_inside or_agent_failure_inside fan_out_inside record_agent_runs_inside)

lemma pipeline_synthesis_inside: "inside C R (pipeline_synthesis ev c b e)"
  unfolding pipeline_synthesis_def pipeline_stage_def pipeline_save_def
  by (intro inside_intros service_inside or_agent_failure_inside record_agent_runs_inside)

lemma assert_opening_inside: "inside C R (assert_opening_turn out syn correlation)"
  unfolding assert_opening_turn_def by (intro inside_intros)

lemma create_response_inside: "inside C R (create_response c turn synthesis refs)"
  unfolding create_response_def by (intro inside_intros)

lemma latest_review_inside: "inside C R (latest_review ev c refs p)"
  unfolding latest_review_def parse_review_def by (intro inside_intros service_inside)

lemma parse_synthesis_inside: "inside C R (parse_synthesis x)"
  unfolding parse_synthesis_def by (intro inside_intros)

lemma record_run_inside: "inside C R (record_run ev c e)"
  unfolding record_run_def by (rule record_agent_run_inside)

lemma execute_delegation_inside: "inside C R (execute_delegation ev c story refs d)"
  unfolding execute_delegation_def review_request_def invoke_reviewer_def fence_review_def save_review_def
  by (intro inside_intros service_inside latest_review_inside or_agent_failure_inside fence_result_inside
      record_run_inside)

lemma maybe_synthesize_inside: "inside C R (maybe_synthesize ev c new_refs reuse fallback)"
  unfolding maybe_synthesize_def
  by (intro inside_intros service_inside latest_review_inside or_agent_failure_inside record_run_inside)

lemma synthesis_report_inside: "inside C R (synthesis_report ev c ref)"
  unfolding synthesis_report_def by (intro inside_intros service_inside parse_synthesis_inside)

lemma build_final_review_inside: "inside C R (build_final_review s synthesis reports turns correlation)"
  unfolding build_final_review_def Let_def by (intro inside_intros now_inside)

lemma flow3_work_inside: "inside C R (flow3_work ev c turns synthesis)"
  unfolding flow3_work_def save_final_review_def render_one_def parsed_def Let_def
  by (intro inside_intros service_inside synthesis_report_inside build_final_review_inside)

lemma turn_response_inside: "inside C R (turn_response ev c resolutions)"
  unfolding turn_response_def by (intro inside_intros service_inside)

lemma latest_synthesis_inside: "inside C R (latest_synthesis k)"
  unfolding latest_synthesis_def by (intro inside_intros service_inside)

lemma evidence_inside: "inside C R (evidence_of k refs)"
  unfolding evidence_of_def by (intro inside_intros service_inside)

lemma fresh_deadline_inside: "inside C R (fresh_deadline k)"
  unfolding fresh_deadline_def by (intro inside_intros service_inside)

lemma summary_inside: "inside C R (invoke_summary_facilitator k n m message report ref prior first)"
  unfolding invoke_summary_facilitator_def
  by (intro inside_intros service_inside evidence_inside or_agent_failure_inside
      invoke_facilitator_inside record_run_inside)

lemma delegate_turn_inside: "inside C R (delegate_turn k n m message turns)"
  unfolding delegate_turn_def stage_of_def assemble_inputs_def
  by (intro inside_intros service_inside evidence_inside parse_synthesis_inside or_agent_failure_inside
      invoke_facilitator_inside record_run_inside execute_delegation_inside maybe_synthesize_inside)

lemma summarize_turn_inside: "inside C R (summarize_turn k n m message turns d)"
  unfolding summarize_turn_def stage_of_def by (intro inside_intros stage_inside summary_inside)

lemma report_response_inside: "inside C R (report_response ev sid refs)"
  unfolding report_response_def by (intro inside_intros service_inside)

end

section \<open>The whole API\<close>

text \<open>
  \<open>ok_key\<close> restricts the idempotency keys of session creations: a created session has the run id
  derived from its request's key.
\<close>

locale api_steps = service_steps +
  fixes env :: app_env and ok_key :: "uuid \<Rightarrow> bool"
  assumes R_new_run: "map_of (w_runs w) (sr_run_id r) = None \<Longrightarrow> \<not> run_conflict r w \<Longrightarrow>
      valid_StoryRunRecord r \<Longrightarrow> sr_state r = Active \<Longrightarrow>
      R w (w\<lparr>w_runs := dict_put (sr_run_id r) r (w_runs w)\<rparr>)"
    and R_new_session: "session_conflict s w = None \<Longrightarrow> valid_SessionRecord s \<Longrightarrow> se_state s = Active \<Longrightarrow>
      ok_key key \<Longrightarrow> se_story_run_id s = run_id_of (derived env key ''run'') \<Longrightarrow>
      R w (w\<lparr>w_sessions := dict_put (se_session_id s) s (w_sessions w)\<rparr>)"
    and R_update: "fst (update_session sid u w) = Inr () \<Longrightarrow> R w (snd (update_session sid u w))"
    and R_new_turn: "map_of (w_turns w) (tu_session_id t, tu_turn_number t) = None \<Longrightarrow>
      map_of (w_sessions w) (tu_session_id t) \<noteq> None \<Longrightarrow> valid_TurnRecord t \<Longrightarrow>
      R w (w\<lparr>w_turns := dict_put (tu_session_id t, tu_turn_number t) t (w_turns w)\<rparr>)"
    and R_stamp: "inside C R (set_finalizing_turn_artifacts sid refs)"
    and R_claim: "R w (snd (claim_insert k fp w))"
    and R_release: "R w (snd (claim_release k w))"
    and R_complete: "R w (snd (claim_complete k x w))"
    and R_token: "R w (w\<lparr>w_tokens := w_tokens w + 1\<rparr>)"
    and R_leases: "R w (w\<lparr>w_leases := rows\<rparr>)"
begin

lemma touch_R: "R w (snd (touch_session sid w))"
proof (cases "map_of (w_sessions w) sid")
  case None
  then show ?thesis by (simp add: touch_session_def comp_simps R_refl)
next
  case (Some s)
  then show ?thesis
    using R_update[of sid no_update w]
    by (simp add: touch_session_def update_session_def update_session_row_def no_update_def
        apply_update_def retires_def comp_simps)
qed

lemma update_alone_inside:
  assumes "retires u = None"
  shows "inside C R (update_session_alone sid u)"
proof -
  have "R w (snd (update_session_row sid u w))" for w
    using R_update[of sid u w] assms
    by (cases "update_session_row sid u w"; cases "fst (update_session_row sid u w)")
       (auto simp: update_session_def comp_simps update_session_row_def R_refl split: option.splits if_splits)
  then show ?thesis
    unfolding update_session_alone_def using assms by (intro inside_intros inside_perform) simp_all
qed

lemma closing_inside:
  assumes "\<And>w. R w (snd (close w)) \<and> fst (close w) = Inr ()"
  shows "inside C R (transaction (andThen (update_session sid u) (\<lambda>_. close)))"
proof (rule inside_transaction[OF R_refl])
  fix w x t
  assume run: "andThen (update_session sid u) (\<lambda>_. close) w = (Inr x, t)"
  then obtain v where v: "update_session sid u w = (Inr (), v)" "snd (close v) = t"
    by (auto simp: comp_simps split: prod.splits sum.splits)
  then show "R w t" using R_update[of sid u w] assms[of v] R_trans by auto
qed

lemma complete_closing: "R w (snd (claim_complete k x w)) \<and> fst (claim_complete k x w) = Inr ()"
  using R_complete by (simp add: claim_complete_def comp_simps)

lemma release_closing: "R w (snd (claim_release k w)) \<and> fst (claim_release k w) = Inr ()"
  using R_release by (simp add: claim_release_def comp_simps)

lemma claim_inside: "inside C R (idempotency_claim k fp)"
  unfolding idempotency_claim_def by (intro inside_intros inside_perform R_claim here)

lemma acquire_inside: "inside C R (lease_acquire tok sid)"
proof -
  have "R w (snd (fresh_token tok w))" for w
    using R_token by (simp add: fresh_token_def comp_simps)
  moreover have "R w (snd (lease_upsert sid token w))" for token w
    using R_leases R_refl by (simp add: lease_upsert_def comp_simps Let_def split: option.splits)
  moreover have "R w (snd (lease_retry_after sid w))" for w
    by (simp add: lease_retry_after_def comp_simps R_refl)
  ultimately have "inside C R (attempt_acquire tok sid)"
    unfolding attempt_acquire_def by (intro inside_intros inside_perform)
  then have "inside C R (acquire_loop tok sid n)" for n
    by (induction n) (auto intro!: inside_intros)
  then show ?thesis by (simp add: lease_acquire_def)
qed

lemma release_lease_inside: "inside C R (perform (lease_release sid token))"
  by (rule inside_perform) (simp add: lease_release_def comp_simps R_refl R_leases)

lemma clear_inside: "inside C R (clear_and_release sid token)"
  unfolding clear_and_release_def by (intro inside_intros stage_inside release_lease_inside)

lemma create_turn_inside: "valid_TurnRecord t \<Longrightarrow> inside C R (create_turn_or_get t)"
  unfolding create_turn_or_get_def create_turn_def get_turn_def checked_def
  by (intro inside_intros inside_perform)
     (auto simp: comp_simps R_refl R_new_turn split: option.split)

lemma create_run_inside:
  "valid_StoryRunRecord r \<Longrightarrow> sr_state r = Active \<Longrightarrow> inside C R (create_story_run_or_get r)"
  unfolding create_story_run_or_get_def create_story_run_def get_story_run_def checked_def
  by (intro inside_intros inside_perform)
     (auto simp: comp_simps R_refl R_new_run split: option.split bool.split)

lemma create_session_inside:
  "valid_SessionRecord s \<Longrightarrow> se_state s = Active \<Longrightarrow> ok_key key \<Longrightarrow>
   se_story_run_id s = run_id_of (derived env key ''run'') \<Longrightarrow> inside C R (create_session_or_get s)"
  unfolding create_session_or_get_def create_session_def session_of_run_def checked_def
  by (intro inside_intros inside_perform)
     (auto simp: comp_simps R_refl R_new_session split: option.split)

lemma reads_inside:
  "inside C R (perform (list_turns sid))" "inside C R (perform (World.get_session sid user))"
  "inside C R (perform (get_turn sid n))" "inside C R (perform (list_sessions user limit before))"
  "inside C R (perform (get_processing_stage sid))"
  by (auto intro!: inside_perform simp: list_turns_def World.get_session_def get_turn_def checked_def
      list_sessions_def get_processing_stage_def comp_simps R_refl split: option.split)

lemma release_inside: "inside C R (perform (claim_release k))"
  by (rule inside_perform) (rule R_release)

lemma complete_inside: "inside C R (perform (claim_complete k x))"
  by (rule inside_perform) (rule R_complete)

lemmas row_inside =
  claim_inside acquire_inside clear_inside create_turn_inside create_run_inside create_session_inside
  reads_inside release_inside complete_inside R_stamp

end

context api_steps begin

subsection \<open>Session creation\<close>

lemma touch_inside: "inside C R (perform (touch_session sid))"
  by (rule inside_perform) (rule touch_R)

lemma pipeline_opening_inside: "inside C R (pipeline_opening ev c evidence synthesis)"
  unfolding pipeline_opening_def pipeline_stage_def
  by (intro inside_checked_model inside_intros service_inside invoke_facilitator_inside assert_opening_inside
      create_turn_inside record_agent_runs_inside touch_inside)

lemma initial_pipeline_inside: "inside C R (initial_pipeline ev c story)"
  unfolding initial_pipeline_def pipeline_stage_def
  by (intro inside_intros pipeline_reviews_inside pipeline_synthesis_inside pipeline_opening_inside
      create_response_inside complete_inside stage_inside)

lemma park_failed_inside: "inside C R (park_failed_session sid key)"
  unfolding park_failed_session_def
  by (intro inside_intros closing_inside release_closing emit_inside)

lemma guarded_pipeline_inside: "inside C R (guarded_pipeline ev c story)"
  unfolding guarded_pipeline_def pipeline_stage_def
  by (intro inside_intros initial_pipeline_inside stage_inside park_failed_inside)

lemma open_run_inside: "inside C R (open_run ev story key user)"
  unfolding open_run_def
  by (intro inside_checked_model[where k = create_story_run_or_get] inside_intros now_inside create_run_inside)
     simp_all

lemma open_session_inside: "ok_key key \<Longrightarrow> inside C R (open_session env story formats key user)"
  unfolding open_session_def
  by (intro inside_checked_model[where k = create_session_or_get] inside_intros now_inside
      create_session_inside[where key = key]) simp_all

lemma create_flow_inside: "ok_key key \<Longrightarrow> inside C R (create_flow env q key correlation user)"
  unfolding create_flow_def
  by (intro inside_intros service_inside open_run_inside open_session_inside release_inside
      guarded_pipeline_inside)

lemma post_session_inside: "ok_key key \<Longrightarrow> inside C R (post_session env q key correlation user)"
  unfolding post_session_def run_create_session_def replay_create_def
  by (intro inside_intros claim_inside create_flow_inside)

subsection \<open>Turns\<close>

lemma set_state_inside: "st \<noteq> Parked \<Longrightarrow> st \<noteq> Completed \<Longrightarrow> inside C R (update_session_alone sid (set_state st))"
  by (rule update_alone_inside) (cases st; simp add: set_state_def no_update_def retires_def)

lemma run_flow3_inside: "inside C R (run_flow3 ev c turns synthesis)"
  unfolding run_flow3_def Let_def
  by (intro inside_intros set_state_inside flow3_work_inside R_stamp) simp_all

lemma complete_session_inside: "inside C R (complete_session sid k canon result n)"
  unfolding complete_session_def by (intro closing_inside complete_closing)

lemma finalize_and_respond_inside: "inside C R (finalize_and_respond k turn turns synthesis n)"
  unfolding finalize_and_respond_def Let_def
  by (intro inside_intros run_flow3_inside complete_session_inside turn_response_inside)

lemma persist_and_respond_inside: "inside C R (persist_and_respond k sid turn outcome synthesis resolutions n)"
  unfolding persist_and_respond_def
  by (intro inside_intros closing_inside complete_closing emit_inside)

lemma resume_finalizing_inside: "inside C R (resume_finalizing k)"
  unfolding resume_finalizing_def stage_of_def
  by (intro inside_intros reads_inside fresh_deadline_inside latest_synthesis_inside stage_inside
      finalize_and_respond_inside)

lemma accept_turn_inside: "inside C R (accept_turn k n)"
  unfolding accept_turn_def stage_of_def
  by (intro inside_checked_model inside_intros now_inside create_turn_inside reads_inside
      latest_synthesis_inside stage_inside finalize_and_respond_inside)

lemma count_update_inside: "inside C R (update_session_alone sid (no_update\<lparr>up_count := Some n\<rparr>))"
  by (rule update_alone_inside) (simp add: no_update_def retires_def)

lemma finish_turn_inside: "inside C R (finish_turn k n m message d final rationale)"
  unfolding finish_turn_def stage_of_def Let_def
  by (intro inside_checked_model inside_intros emit_inside now_inside create_turn_inside
      count_update_inside reads_inside stage_inside finalize_and_respond_inside persist_and_respond_inside)

lemma message_turn_inside: "inside C R (message_turn k n message turns)"
  unfolding message_turn_def Let_def
  by (intro inside_intros delegate_turn_inside summarize_turn_inside finish_turn_inside)

lemma active_turn_inside: "inside C R (active_turn k q)"
  unfolding active_turn_def by (intro inside_intros reads_inside accept_turn_inside message_turn_inside)

lemma execute_turn_inside: "inside C R (execute_turn ev sid q key correlation user)"
  unfolding execute_turn_def dispatch_turn_def response_from_canonical_def Let_def
  by (intro inside_intros claim_inside reads_inside turn_response_inside fresh_deadline_inside
      active_turn_inside resume_finalizing_inside release_inside)

lemma under_lease_inside: "inside C R body \<Longrightarrow> inside C R (under_lease ev sid body)"
  unfolding under_lease_def by (intro inside_intros acquire_inside clear_inside)

lemma post_turn_inside: "inside C R (post_turn ev sid q key correlation user)"
  unfolding post_turn_def run_turn_def
  by (intro inside_intros reads_inside under_lease_inside execute_turn_inside)

subsection \<open>Endings\<close>

lemma finalize_work_inside: "inside C R (finalize_work ev s key correlation)"
  unfolding finalize_work_def canonical_report_def Let_def
  by (intro inside_intros service_inside reads_inside run_flow3_inside complete_session_inside
      report_response_inside)

lemma post_finalize_inside: "inside C R (post_finalize ev sid key correlation user)"
  unfolding post_finalize_def finalize_session_def finalize_under_lease_def claim_and_finalize_def
    replay_report_response_def
  by (intro inside_intros reads_inside report_response_inside under_lease_inside claim_inside
      finalize_work_inside)

lemma get_report_inside: "inside C R (get_report ev sid correlation user)"
  unfolding get_report_def by (intro inside_intros reads_inside report_response_inside)

lemma abandon_inside: "inside C R (abandon_session ev sid key correlation user)"
  unfolding abandon_session_def park_now_def park_session_def replay_abandon_def Let_def
  by (intro inside_intros reads_inside acquire_inside claim_inside closing_inside complete_closing
      emit_inside release_inside clear_inside)

end

section \<open>Requests\<close>

text \<open>What a client may send, and the handler that serves it; the answer itself is discarded.\<close>

datatype api_request =
    CreateSession CreateSessionRequest uuid uuid uuid
  | SubmitTurn string TurnRequest uuid uuid uuid
  | RetryFinalize string uuid uuid uuid
  | ReadReport string uuid uuid
  | Abandon string uuid uuid uuid

definition discard :: "'a handler \<Rightarrow> unit handler" where
  "discard p = chain p (\<lambda>_. Ret ())"

fun serve :: "app_env \<Rightarrow> api_request \<Rightarrow> unit handler" where
  "serve env (CreateSession q key correlation user) = discard (post_session env q key correlation user)"
| "serve env (SubmitTurn sid q key correlation user) = discard (post_turn env sid q key correlation user)"
| "serve env (RetryFinalize sid key correlation user) = discard (post_finalize env sid key correlation user)"
| "serve env (ReadReport sid correlation user) = discard (get_report env sid correlation user)"
| "serve env (Abandon sid key correlation user) = discard (abandon_session env sid key correlation user)"

fun creation_key :: "api_request \<Rightarrow> uuid option" where
  "creation_key (CreateSession q key correlation user) = Some key"
| "creation_key _ = None"

context api_steps begin

lemma discard_inside: "inside C R p \<Longrightarrow> inside C R (discard p)"
  unfolding discard_def by (intro inside_intros)

lemma serve_inside:
  assumes "\<And>key. creation_key q = Some key \<Longrightarrow> ok_key key"
  shows "inside C R (serve env q)"
  using assms
  by (cases q) (auto intro!: discard_inside post_session_inside post_turn_inside post_finalize_inside
      get_report_inside abandon_inside)

end

end
