(* ===== verification/Histories.thy ===== *)
theory Histories
  imports Api_Steps "HOL-Library.Sublist"
begin

text \<open>
  What every interleaving of requests, crashes included, does to the durable state. \<open>evolves\<close> is
  the history relation: rows are never lost, their identifying columns never change, turns are
  written once (only the artifact list of a finalize turn is stamped), a released run never
  becomes active again, completed claims stay completed, stored objects are immutable, counters
  and the log only grow. \<open>db_ok\<close> is the invariant of the tables. Both are carried by every atomic
  action, so the locale of interleaved execution gives them for every pool of handlers.
\<close>

section \<open>Tables whose rows follow a relation\<close>

definition rows_follow :: "('v \<Rightarrow> 'v \<Rightarrow> bool) \<Rightarrow> ('k, 'v) dict \<Rightarrow> ('k, 'v) dict \<Rightarrow> bool" where
  "rows_follow P d e = (\<forall>k v. map_of d k = Some v \<longrightarrow> (\<exists>u. map_of e k = Some u \<and> P v u))"

lemma rows_followD: "rows_follow P d e \<Longrightarrow> map_of d k = Some v \<Longrightarrow> \<exists>u. map_of e k = Some u \<and> P v u"
  by (simp add: rows_follow_def)

lemma rows_follow_refl: "(\<And>v. P v v) \<Longrightarrow> rows_follow P d d"
  by (simp add: rows_follow_def)

lemma rows_follow_trans:
  "rows_follow P d e \<Longrightarrow> rows_follow P e f \<Longrightarrow> (\<And>u v w. P u v \<Longrightarrow> P v w \<Longrightarrow> P u w) \<Longrightarrow> rows_follow P d f"
  unfolding rows_follow_def by meson

lemma rows_follow_new:
  "map_of d k = None \<Longrightarrow> (\<And>v. P v v) \<Longrightarrow> rows_follow P d (dict_put k v d)"
  by (auto simp: rows_follow_def map_of_dict_put)

lemma rows_follow_put:
  "map_of d k = Some v \<Longrightarrow> P v u \<Longrightarrow> (\<And>v. P v v) \<Longrightarrow> rows_follow P d (dict_put k u d)"
  by (auto simp: rows_follow_def map_of_dict_put)

section \<open>The history relation\<close>

definition same_run :: "StoryRunRecord \<Rightarrow> StoryRunRecord \<Rightarrow> bool" where
  "same_run r q =
     (sr_run_id q = sr_run_id r \<and> sr_run_story q = sr_run_story r \<and> sr_user_id q = sr_user_id r \<and>
      sr_created_at q = sr_created_at r \<and> (occupies q \<longrightarrow> occupies r))"

definition same_session :: "SessionRecord \<Rightarrow> SessionRecord \<Rightarrow> bool" where
  "same_session s q =
     (se_session_id q = se_session_id s \<and> se_story_run_id q = se_story_run_id s \<and>
      se_story_id q = se_story_id s \<and> se_user_id q = se_user_id s \<and>
      se_requested_formats q = se_requested_formats s \<and> se_created_at q = se_created_at s)"

definition same_turn :: "TurnRecord \<Rightarrow> TurnRecord \<Rightarrow> bool" where
  "same_turn t q =
     (q\<lparr>tu_produced := []\<rparr> = t\<lparr>tu_produced := []\<rparr> \<and> (tu_outcome t \<noteq> Some Finalize \<longrightarrow> q = t))"

definition same_claim :: "claim_row \<Rightarrow> claim_row \<Rightarrow> bool" where
  "same_claim c d = (cl_fingerprint d = cl_fingerprint c \<and> cl_completed d)"

lemmas same_defs = same_run_def same_session_def same_turn_def same_claim_def

definition claims_kept :: "world \<Rightarrow> world \<Rightarrow> bool" where
  "claims_kept w x =
     (\<forall>k c. map_of (w_claims w) k = Some c \<longrightarrow> cl_completed c \<longrightarrow>
        (\<exists>d. map_of (w_claims x) k = Some d \<and> same_claim c d))"

definition evolves :: "world \<Rightarrow> world \<Rightarrow> bool" where
  "evolves w x =
     (rows_follow same_run (w_runs w) (w_runs x) \<and>
      rows_follow same_session (w_sessions w) (w_sessions x) \<and>
      rows_follow same_turn (w_turns w) (w_turns x) \<and>
      rows_follow (=) (w_agent_runs w) (w_agent_runs x) \<and>
      claims_kept w x \<and> art_grows (w_bucket w) (w_bucket x) \<and> rep_grows (w_reports w) (w_reports x) \<and>
      w_clock w \<le> w_clock x \<and> w_calls w \<le> w_calls x \<and> w_tokens w \<le> w_tokens x \<and>
      suffix (w_events w) (w_events x))"

lemma same_turn_trans: "same_turn t u \<Longrightarrow> same_turn u v \<Longrightarrow> same_turn t v"
proof -
  assume tu: "same_turn t u" and uv: "same_turn u v"
  have "tu_outcome u = tu_outcome t"
    using tu unfolding same_turn_def by (cases t; cases u) simp
  with tu uv show ?thesis by (auto simp: same_turn_def)
qed

lemma claims_kept_trans: "claims_kept w x \<Longrightarrow> claims_kept x y \<Longrightarrow> claims_kept w y"
  unfolding claims_kept_def same_claim_def by (metis (no_types, lifting))

lemma evolves_refl: "evolves w w"
  by (auto simp: evolves_def claims_kept_def same_defs rep_grows_def intro!: rows_follow_refl)

lemma evolves_trans: "evolves w x \<Longrightarrow> evolves x y \<Longrightarrow> evolves w y"
  unfolding evolves_def
  by (auto intro: rows_follow_trans same_turn_trans claims_kept_trans art_grows_trans suffix_order.trans
      elim!: rows_follow_trans simp: same_run_def same_session_def rep_grows_def intro: map_le_trans)

section \<open>The table invariant\<close>

definition terminal :: "SessionRecord \<Rightarrow> bool" where
  "terminal s = (se_state s = Parked \<or> se_state s = Completed)"

type_synonym run_table = "(string, StoryRunRecord) dict"
type_synonym session_table = "(string, SessionRecord) dict"

definition runs_ok :: "run_table \<Rightarrow> bool" where
  "runs_ok rs =
     (distinct (dict_keys rs) \<and> (\<forall>k r. map_of rs k = Some r \<longrightarrow> sr_run_id r = k) \<and>
      (\<forall>a b r q. map_of rs a = Some r \<longrightarrow> map_of rs b = Some q \<longrightarrow> occupies r \<longrightarrow>
         occupies q \<longrightarrow> sr_user_id r = sr_user_id q \<longrightarrow> sr_run_story r = sr_run_story q \<longrightarrow> a = b))"

definition session_ok :: "run_table \<Rightarrow> string \<Rightarrow> SessionRecord \<Rightarrow> bool" where
  "session_ok rs k s =
     (se_session_id s = k \<and> se_turn_count s \<le> 10 \<and>
      (\<exists>r. map_of rs (se_story_run_id s) = Some r \<and> (terminal s \<longrightarrow> \<not> occupies r)))"

definition sessions_ok :: "run_table \<Rightarrow> session_table \<Rightarrow> bool" where
  "sessions_ok rs ss =
     (distinct (dict_keys ss) \<and> (\<forall>k s. map_of ss k = Some s \<longrightarrow> session_ok rs k s) \<and>
      (\<forall>a b s q. map_of ss a = Some s \<longrightarrow> map_of ss b = Some q \<longrightarrow>
         se_story_run_id s = se_story_run_id q \<longrightarrow> a = b))"

definition turn_row_ok :: "session_table \<Rightarrow> string \<times> nat \<Rightarrow> TurnRecord \<Rightarrow> bool" where
  "turn_row_ok ss k t =
     (k = (tu_session_id t, tu_turn_number t) \<and> 1 \<le> tu_turn_number t \<and> map_of ss (tu_session_id t) \<noteq> None)"

definition turns_ok :: "session_table \<Rightarrow> (string \<times> nat, TurnRecord) dict \<Rightarrow> bool" where
  "turns_ok ss ts = (distinct (dict_keys ts) \<and> (\<forall>k t. map_of ts k = Some t \<longrightarrow> turn_row_ok ss k t))"

definition agent_runs_ok :: "run_table \<Rightarrow> (string, AgentRunRecord) dict \<Rightarrow> bool" where
  "agent_runs_ok rs as =
     (distinct (dict_keys as) \<and> (\<forall>k a. map_of as k = Some a \<longrightarrow>
        ag_run_id a = k \<and> valid_AgentRunRecord a \<and> map_of rs (ag_story_run_id a) \<noteq> None))"

definition db_ok :: "world \<Rightarrow> bool" where
  "db_ok w =
     (runs_ok (w_runs w) \<and> sessions_ok (w_runs w) (w_sessions w) \<and> turns_ok (w_sessions w) (w_turns w) \<and>
      agent_runs_ok (w_runs w) (w_agent_runs w))"

lemmas table_defs = runs_ok_def sessions_ok_def session_ok_def turns_ok_def turn_row_ok_def agent_runs_ok_def

lemma db_ok_empty: "db_ok empty_world"
  by (simp add: db_ok_def table_defs empty_world_def dict_keys_def)

text \<open>What references another table survives any evolution of that table.\<close>

lemma session_ok_runs:
  assumes "session_ok rs k s" "rows_follow same_run rs qs"
  shows "session_ok qs k s"
proof -
  obtain r where r: "map_of rs (se_story_run_id s) = Some r" "terminal s \<longrightarrow> \<not> occupies r"
    using assms(1) by (auto simp: session_ok_def)
  obtain q where "map_of qs (se_story_run_id s) = Some q" "same_run r q"
    using rows_followD[OF assms(2) r(1)] by blast
  with r assms(1) show ?thesis by (auto simp: session_ok_def same_run_def)
qed

lemma sessions_ok_runs: "sessions_ok rs ss \<Longrightarrow> rows_follow same_run rs qs \<Longrightarrow> sessions_ok qs ss"
  unfolding sessions_ok_def using session_ok_runs by blast

lemma agent_runs_ok_runs: "agent_runs_ok rs as \<Longrightarrow> rows_follow P rs qs \<Longrightarrow> agent_runs_ok qs as"
  unfolding agent_runs_ok_def rows_follow_def by fastforce

lemma turns_ok_sessions: "turns_ok ss ts \<Longrightarrow> rows_follow P ss qs \<Longrightarrow> turns_ok qs ts"
  unfolding turns_ok_def turn_row_ok_def rows_follow_def by fastforce

definition history_step :: "world \<Rightarrow> world \<Rightarrow> bool" where
  "history_step w x = (evolves w x \<and> (db_ok w \<longrightarrow> db_ok x))"

text \<open>An action that leaves the tables alone and only lets the rest grow.\<close>

lemma history_side:
  assumes "w_runs x = w_runs w" "w_sessions x = w_sessions w" "w_turns x = w_turns w"
    "w_agent_runs x = w_agent_runs w" "claims_kept w x" "art_grows (w_bucket w) (w_bucket x)"
    "rep_grows (w_reports w) (w_reports x)" "w_clock w \<le> w_clock x" "w_calls w \<le> w_calls x"
    "w_tokens w \<le> w_tokens x" "suffix (w_events w) (w_events x)"
  shows "history_step w x"
  using assms evolves_refl[of w] by (simp add: history_step_def evolves_def db_ok_def)

lemma claims_kept_refl: "w_claims x = w_claims w \<Longrightarrow> claims_kept w x"
  by (auto simp: claims_kept_def same_claim_def)

text \<open>Actions on one table: the history relation from the table's own.\<close>

lemma evolves_tables:
  assumes "rows_follow same_run (w_runs w) rs" "rows_follow same_session (w_sessions w) ss"
    "rows_follow same_turn (w_turns w) ts" "rows_follow (=) (w_agent_runs w) as"
  shows "evolves w (w\<lparr>w_runs := rs, w_sessions := ss, w_turns := ts, w_agent_runs := as\<rparr>)"
  using assms by (simp add: evolves_def claims_kept_refl rep_grows_def)

section \<open>The statements\<close>

lemma map_of_values: "map_of d k = Some v \<Longrightarrow> v \<in> set (dict_values d)"
  by (force simp: dict_values_def dest: map_of_SomeD)

lemma same_refl [simp]: "same_run r r" "same_session s s" "same_turn t t"
  by (simp_all add: same_defs)

lemma runs_ok_new:
  assumes "runs_ok rs" "\<And>k q. map_of rs k = Some q \<Longrightarrow>
      \<not> (occupies r \<and> occupies q \<and> sr_user_id q = sr_user_id r \<and> sr_run_story q = sr_run_story r)"
  shows "runs_ok (dict_put (sr_run_id r) r rs)"
  using assms unfolding runs_ok_def by (auto simp: map_of_dict_put) metis+

lemma new_run_step:
  assumes "map_of (w_runs w) (sr_run_id r) = None" "\<not> run_conflict r w"
  shows "history_step w (w\<lparr>w_runs := dict_put (sr_run_id r) r (w_runs w)\<rparr>)"
proof -
  have free: "\<not> (occupies r \<and> occupies q \<and> sr_user_id q = sr_user_id r \<and> sr_run_story q = sr_run_story r)"
    if "map_of (w_runs w) k = Some q" for k q
    using assms(2) map_of_values[OF that] by (auto simp: run_conflict_def list_ex_iff)
  have f: "rows_follow same_run (w_runs w) (dict_put (sr_run_id r) r (w_runs w))"
    using assms(1) by (simp add: rows_follow_new)
  have "evolves w (w\<lparr>w_runs := dict_put (sr_run_id r) r (w_runs w)\<rparr>)"
    using evolves_tables[OF f, of "w_sessions w" "w_turns w" "w_agent_runs w"] by (simp add: rows_follow_refl)
  moreover have "db_ok (w\<lparr>w_runs := dict_put (sr_run_id r) r (w_runs w)\<rparr>)" if "db_ok w"
    using that runs_ok_new[OF _ free] sessions_ok_runs[OF _ f] agent_runs_ok_runs[OF _ f]
    by (simp add: db_ok_def)
  ultimately show ?thesis by (simp add: history_step_def)
qed

lemma new_session_step:
  assumes "session_conflict s w = None" "se_state s = Active"
  shows "history_step w (w\<lparr>w_sessions := dict_put (se_session_id s) s (w_sessions w)\<rparr>)"
proof -
  let ?ss = "dict_put (se_session_id s) s (w_sessions w)"
  have c: "map_of (w_sessions w) (se_session_id s) = None" "se_turn_count s \<le> 10"
      "map_of (w_runs w) (se_story_run_id s) \<noteq> None"
    using assms(1) by (auto simp: session_conflict_def split: if_splits)
  have other: "se_story_run_id q \<noteq> se_story_run_id s" if "map_of (w_sessions w) k = Some q" for k q
    using assms(1) map_of_values[OF that] by (auto simp: session_conflict_def list_ex_iff split: if_splits)
  have f: "rows_follow same_session (w_sessions w) ?ss"
    using c(1) by (simp add: rows_follow_new)
  have "evolves w (w\<lparr>w_sessions := ?ss\<rparr>)"
    using evolves_tables[OF _ f, of "w_runs w" "w_turns w" "w_agent_runs w"] by (simp add: rows_follow_refl)
  moreover have "db_ok (w\<lparr>w_sessions := ?ss\<rparr>)" if "db_ok w"
  proof -
    have "session_ok (w_runs w) (se_session_id s) s"
      using c assms(2) by (auto simp: session_ok_def terminal_def)
    then have "sessions_ok (w_runs w) ?ss"
      using that other by (auto simp: db_ok_def sessions_ok_def map_of_dict_put) metis+
    then show ?thesis using that turns_ok_sessions[OF _ f] by (simp add: db_ok_def)
  qed
  ultimately show ?thesis by (simp add: history_step_def)
qed

lemma agent_run_step:
  assumes "agent_run_conflict a w = None" "valid_AgentRunRecord a"
  shows "history_step w (w\<lparr>w_agent_runs := dict_put (ag_run_id a) a (w_agent_runs w)\<rparr>)"
proof -
  let ?as = "dict_put (ag_run_id a) a (w_agent_runs w)"
  have c: "map_of (w_agent_runs w) (ag_run_id a) = None" "map_of (w_runs w) (ag_story_run_id a) \<noteq> None"
    using assms(1) by (auto simp: agent_run_conflict_def split: if_splits)
  have "evolves w (w\<lparr>w_agent_runs := ?as\<rparr>)"
    using evolves_tables[of w "w_runs w" "w_sessions w" "w_turns w" ?as] c(1)
    by (simp add: rows_follow_refl rows_follow_new)
  moreover have "db_ok (w\<lparr>w_agent_runs := ?as\<rparr>)" if "db_ok w"
    using that c(2) assms(2) by (auto simp: db_ok_def agent_runs_ok_def map_of_dict_put)
  ultimately show ?thesis by (simp add: history_step_def)
qed

lemma turn_table_step:
  assumes "rows_follow same_turn (w_turns w) ts" "turns_ok (w_sessions w) (w_turns w) \<Longrightarrow> turns_ok (w_sessions w) ts"
  shows "history_step w (w\<lparr>w_turns := ts\<rparr>)"
  using evolves_tables[of w "w_runs w" "w_sessions w" ts "w_agent_runs w"] assms
  by (auto simp: history_step_def rows_follow_refl db_ok_def)

lemma new_turn_step:
  assumes "map_of (w_turns w) (tu_session_id t, tu_turn_number t) = None"
    "map_of (w_sessions w) (tu_session_id t) \<noteq> None" "1 \<le> tu_turn_number t"
  shows "history_step w (w\<lparr>w_turns := dict_put (tu_session_id t, tu_turn_number t) t (w_turns w)\<rparr>)"
  by (rule turn_table_step)
     (use assms in \<open>auto simp: rows_follow_new turns_ok_def turn_row_ok_def map_of_dict_put\<close>)

text \<open>The stamp: the number read by the first statement still names a finalize turn at the second.\<close>

definition finalize_row :: "string \<Rightarrow> nat \<Rightarrow> world \<Rightarrow> bool" where
  "finalize_row sid n w = (\<exists>t. map_of (w_turns w) (sid, n) = Some t \<and> tu_outcome t = Some Finalize)"

lemma turns_of_rows:
  assumes "turns_ok ss (w_turns w)" "t \<in> set (turns_of w sid)"
  shows "map_of (w_turns w) (sid, tu_turn_number t) = Some t \<and> tu_session_id t = sid"
proof -
  obtain n where "((sid, n), t) \<in> set (w_turns w)"
    using assms(2) by (auto simp: turns_of_def)
  then have "map_of (w_turns w) (sid, n) = Some t"
    using assms(1) by (simp add: turns_ok_def dict_keys_def)
  moreover from this have "n = tu_turn_number t \<and> tu_session_id t = sid"
    using assms(1) by (auto simp: turns_ok_def turn_row_ok_def)
  ultimately show ?thesis by simp
qed

lemma finalizing_turn_row:
  assumes "db_ok w" "finalizing_turn w sid = Some t"
  shows "finalize_row sid (tu_turn_number t) w"
proof -
  have t: "t \<in> set (turns_of w sid)" "tu_outcome t = Some Finalize"
    using find_last_Some[OF assms(2)[unfolded finalizing_turn_def]] by simp_all
  have "map_of (w_turns w) (sid, tu_turn_number t) = Some t"
    using turns_of_rows[of "w_sessions w" w t sid] t(1) assms(1) by (simp add: db_ok_def)
  with t(2) show ?thesis by (simp add: finalize_row_def)
qed

lemma finalize_row_stable: "finalize_row sid n w \<Longrightarrow> evolves w x \<Longrightarrow> finalize_row sid n x"
proof -
  assume f: "finalize_row sid n w" and e: "evolves w x"
  obtain t where t: "map_of (w_turns w) (sid, n) = Some t" "tu_outcome t = Some Finalize"
    using f by (auto simp: finalize_row_def)
  obtain u where u: "map_of (w_turns x) (sid, n) = Some u" "same_turn t u"
    using e t(1) by (auto simp: evolves_def dest: rows_followD)
  have "tu_outcome u = tu_outcome t" using u(2) unfolding same_turn_def by (cases t; cases u) simp
  with t u show ?thesis by (simp add: finalize_row_def)
qed

lemma stamp_step:
  assumes "finalize_row sid n w"
  shows "history_step w (snd (stamp_turn sid n refs w))"
proof -
  obtain t where t: "map_of (w_turns w) (sid, n) = Some t" "tu_outcome t = Some Finalize"
    using assms by (auto simp: finalize_row_def)
  let ?u = "t\<lparr>tu_produced := refs\<rparr>"
  have "rows_follow same_turn (w_turns w) (dict_put (sid, n) ?u (w_turns w))"
    by (rule rows_follow_put[OF t(1)]) (simp_all add: same_turn_def t(2))
  moreover have "turns_ok (w_sessions w) (dict_put (sid, n) ?u (w_turns w))"
    if "turns_ok (w_sessions w) (w_turns w)"
    using that t(1) by (auto simp: turns_ok_def turn_row_ok_def map_of_dict_put)
  ultimately have "history_step w (w\<lparr>w_turns := dict_put (sid, n) ?u (w_turns w)\<rparr>)"
    by (rule turn_table_step)
  then show ?thesis using t(1) by (simp add: stamp_turn_def comp_simps)
qed

lemma history_refl: "history_step w w"
  by (simp add: history_step_def evolves_refl)

lemma history_trans: "history_step w x \<Longrightarrow> history_step x y \<Longrightarrow> history_step w y"
  unfolding history_step_def using evolves_trans by blast

lemma stamp_inside: "inside db_ok history_step (set_finalizing_turn_artifacts sid refs)"
  unfolding inside_def
proof
  assume closed: "closed_under history_step db_ok"
  let ?mid = "\<lambda>n w. db_ok w \<and> (\<forall>m. n = Some m \<longrightarrow> finalize_row sid m w)"
  have "obeys history_step ?mid db_ok
      (perform (gets (\<lambda>w. map_option tu_turn_number (finalizing_turn w sid))))"
  proof (rule obeys_perform)
    fix w x n
    assume "db_ok w" "fst (gets (\<lambda>w. map_option tu_turn_number (finalizing_turn w sid)) w) = Inr n"
      "history_step (snd (gets (\<lambda>w. map_option tu_turn_number (finalizing_turn w sid)) w)) x"
    then show "?mid n x"
      using finalizing_turn_row[of w sid] finalize_row_stable
      by (auto simp: comp_simps history_step_def)
  qed (simp add: comp_simps history_refl)
  moreover have "obeys history_step (\<lambda>_. db_ok) (?mid n)
      (case n of None \<Rightarrow> Ret () | Some n \<Rightarrow> perform (stamp_turn sid n refs))" for n
  proof (cases n)
    case (Some m)
    have "db_ok t" if "db_ok w" "finalize_row sid m w" "history_step (snd (stamp_turn sid m refs w)) t" for w t
      using that stamp_step[of sid m w refs] by (simp add: history_step_def)
    then show ?thesis using Some by (auto intro!: obeys_perform stamp_step)
  qed (auto intro!: obeys_Ret)
  ultimately show "obeys history_step (\<lambda>_. db_ok) db_ok (set_finalizing_turn_artifacts sid refs)"
    unfolding set_finalizing_turn_artifacts_def by (rule obeys_chain)
qed

section \<open>Updates of a session\<close>

lemma same_session_update: "same_session s (apply_update u t s)"
  by (simp add: same_session_def apply_update_def)

lemma retires_state: "retires u = Some st \<Longrightarrow> up_state u = Some st \<and> (st = Parked \<or> st = Completed)"
  by (auto simp: retires_def split: option.splits session_state.splits)

lemma retired_run: "retires u = Some st \<Longrightarrow> \<not> occupies (r\<lparr>sr_state := st, sr_updated_at := t\<rparr>)"
  by (auto simp: occupies_def dest: retires_state)

text \<open>The tables after the two statements.\<close>

definition updated_runs :: "session_update \<Rightarrow> instant \<Rightarrow> SessionRecord \<Rightarrow> run_table \<Rightarrow> run_table" where
  "updated_runs u t s rs =
     (case retires u of
        None \<Rightarrow> rs
      | Some st \<Rightarrow>
          (case map_of rs (se_story_run_id s) of
             None \<Rightarrow> rs
           | Some r \<Rightarrow> dict_put (se_story_run_id s) (r\<lparr>sr_state := st, sr_updated_at := t\<rparr>) rs))"

lemma update_session_result:
  assumes "fst (update_session sid u w) = Inr ()"
  shows "(map_of (w_sessions w) sid = None \<and> snd (update_session sid u w) = w) \<or>
    (\<exists>s. map_of (w_sessions w) sid = Some s \<and> (\<forall>n. up_count u = Some n \<longrightarrow> n \<le> 10) \<and>
       snd (update_session sid u w) =
         w\<lparr>w_runs := updated_runs u (w_clock w) s (w_runs w),
           w_sessions := dict_put sid (apply_update u (w_clock w) s) (w_sessions w)\<rparr>)"
proof (cases "map_of (w_sessions w) sid")
  case None
  then show ?thesis
    by (auto simp: update_session_def update_session_row_def retire_story_run_def comp_simps split: option.split)
next
  case (Some s)
  then show ?thesis using assms
    by (auto simp: update_session_def update_session_row_def retire_story_run_def update_story_run_state_def
        updated_runs_def apply_update_def map_of_dict_put comp_simps not_less split: option.splits if_splits)
qed

lemma updated_runs_follow: "rows_follow same_run rs (updated_runs u t s rs)"
proof (cases "retires u")
  case (Some st)
  show ?thesis
  proof (cases "map_of rs (se_story_run_id s)")
    case (Some r)
    have "same_run r (r\<lparr>sr_state := st, sr_updated_at := t\<rparr>)"
      using retired_run[OF \<open>retires u = Some st\<close>] by (simp add: same_run_def)
    then show ?thesis using Some \<open>retires u = Some st\<close> by (simp add: updated_runs_def rows_follow_put)
  qed (simp add: updated_runs_def \<open>retires u = Some st\<close> rows_follow_refl)
qed (simp add: updated_runs_def rows_follow_refl)

lemma runs_ok_retired:
  assumes "runs_ok rs" "map_of rs k = Some r" "sr_run_id q = k" "\<not> occupies q"
  shows "runs_ok (dict_put k q rs)"
  using assms unfolding runs_ok_def by (auto simp: map_of_dict_put)

lemma updated_runs_ok:
  assumes "runs_ok rs"
  shows "runs_ok (updated_runs u t s rs)"
proof (cases "retires u")
  case (Some st)
  show ?thesis
  proof (cases "map_of rs (se_story_run_id s)")
    case (Some r)
    have "sr_run_id r = se_story_run_id s" using assms Some by (simp add: runs_ok_def)
    then show ?thesis
      using runs_ok_retired[OF assms Some, of "r\<lparr>sr_state := st, sr_updated_at := t\<rparr>"]
        retired_run[OF \<open>retires u = Some st\<close>] Some \<open>retires u = Some st\<close>
      by (simp add: updated_runs_def)
  qed (simp add: updated_runs_def assms \<open>retires u = Some st\<close>)
qed (simp add: updated_runs_def assms)

lemma updated_session_ok:
  assumes "session_ok rs sid s" "\<forall>n. up_count u = Some n \<longrightarrow> n \<le> 10"
  shows "session_ok (updated_runs u t s rs) sid (apply_update u t s)"
proof -
  obtain r where r: "map_of rs (se_story_run_id s) = Some r" "terminal s \<longrightarrow> \<not> occupies r"
    using assms(1) by (auto simp: session_ok_def)
  have base: "se_session_id (apply_update u t s) = sid" "se_turn_count (apply_update u t s) \<le> 10"
    "se_story_run_id (apply_update u t s) = se_story_run_id s"
    using assms by (auto simp: session_ok_def apply_update_def split: option.splits)
  show ?thesis
  proof (cases "retires u")
    case None
    then have "terminal (apply_update u t s) \<Longrightarrow> terminal s"
      by (auto simp: terminal_def apply_update_def retires_def split: option.splits session_state.splits)
    with None base r show ?thesis by (auto simp: session_ok_def updated_runs_def)
  next
    case (Some st)
    with base r retired_run[OF Some] show ?thesis
      by (auto simp: session_ok_def updated_runs_def map_of_dict_put)
  qed
qed

lemma update_step:
  assumes "fst (update_session sid u w) = Inr ()"
  shows "history_step w (snd (update_session sid u w))"
  using update_session_result[OF assms]
proof (elim disjE exE conjE)
  fix s
  assume s: "map_of (w_sessions w) sid = Some s" and n: "\<forall>n. up_count u = Some n \<longrightarrow> n \<le> 10"
    and x: "snd (update_session sid u w) =
         w\<lparr>w_runs := updated_runs u (w_clock w) s (w_runs w),
           w_sessions := dict_put sid (apply_update u (w_clock w) s) (w_sessions w)\<rparr>"
  let ?s = "apply_update u (w_clock w) s" and ?rs = "updated_runs u (w_clock w) s (w_runs w)"
  let ?ss = "dict_put sid ?s (w_sessions w)"
  have f: "rows_follow same_session (w_sessions w) ?ss"
    by (rule rows_follow_put[where P = same_session, OF s same_session_update]) simp
  have "evolves w (w\<lparr>w_runs := ?rs, w_sessions := ?ss\<rparr>)"
    using evolves_tables[OF updated_runs_follow f, of "w_turns w" "w_agent_runs w"] by (simp add: rows_follow_refl)
  moreover have "db_ok (w\<lparr>w_runs := ?rs, w_sessions := ?ss\<rparr>)" if ok: "db_ok w"
  proof -
    have old: "session_ok ?rs k q" if "map_of (w_sessions w) k = Some q" for k q
      using that ok sessions_ok_runs[OF _ updated_runs_follow] by (auto simp: db_ok_def sessions_ok_def)
    have "session_ok ?rs sid ?s"
      by (rule updated_session_ok) (use s n ok in \<open>simp_all add: db_ok_def sessions_ok_def\<close>)
    moreover have "se_story_run_id ?s = se_story_run_id s" by (simp add: apply_update_def)
    ultimately have "sessions_ok ?rs ?ss"
      using s old ok by (auto simp: db_ok_def sessions_ok_def map_of_dict_put)
    then show ?thesis
      using ok updated_runs_ok turns_ok_sessions[OF _ f] agent_runs_ok_runs[OF _ updated_runs_follow]
      by (simp add: db_ok_def)
  qed
  ultimately show ?thesis by (simp add: x history_step_def)
qed (simp add: history_refl)

section \<open>Claims and the rest\<close>

lemma claims_step:
  "claims_kept w (w\<lparr>w_claims := d\<rparr>) \<Longrightarrow> history_step w (w\<lparr>w_claims := d\<rparr>)"
  by (rule history_side) (simp_all add: rep_grows_def)

lemma claim_insert_step: "history_step w (snd (claim_insert k fp w))"
  by (cases "map_of (w_claims w) k")
     (auto simp: claim_insert_def comp_simps history_refl claims_kept_def same_claim_def map_of_dict_put
        intro!: claims_step)

lemma claim_release_step: "history_step w (snd (claim_release k w))"
  by (cases "map_of (w_claims w) k")
     (auto simp: claim_release_def comp_simps history_refl claims_kept_def same_claim_def map_of_dict_remove
        intro!: claims_step)

lemma claim_complete_step: "history_step w (snd (claim_complete k x w))"
  by (cases "map_of (w_claims w) k")
     (auto simp: claim_complete_def comp_simps history_refl claims_kept_def same_claim_def map_of_dict_put
        intro!: claims_step)

interpretation histories: api_steps db_ok history_step env "\<lambda>_. True" for env
proof unfold_locales
  show "db_ok x" if "db_ok w" "history_step w x" for w x
    using that by (simp add: history_step_def)
  show "history_step w (w\<lparr>w_bucket := b\<rparr>)" if "art_grows (w_bucket w) b" for w b
    by (rule history_side) (simp_all add: claims_kept_refl rep_grows_def that)
  show "history_step w (w\<lparr>w_reports := b\<rparr>)" if "rep_grows (w_reports w) b" for w b
    by (rule history_side) (simp_all add: claims_kept_refl that)
  show "history_step w (w\<lparr>w_turns := dict_put (tu_session_id t, tu_turn_number t) t (w_turns w)\<rparr>)"
    if "map_of (w_turns w) (tu_session_id t, tu_turn_number t) = None"
      "map_of (w_sessions w) (tu_session_id t) \<noteq> None" "valid_TurnRecord t" for w t
    by (rule new_turn_step) (use that in \<open>simp_all add: valid_TurnRecord_def\<close>)
qed ((rule history_refl stamp_inside claim_insert_step claim_release_step claim_complete_step
      | (rule new_run_step new_session_step agent_run_step update_step; assumption)
      | (erule history_trans, assumption)
      | (rule history_side; simp add: claims_kept_refl rep_grows_def suffix_ConsI))+)

end
