(* ===== verification/Interleavings.thy ===== *)
theory Interleavings
  imports Histories
begin

text \<open>
  Pools of requests over the shared state: any number of handlers in flight, each stopping for
  good at any action (a crash), new requests at any moment, time passing, and the agents writing
  through their own tools in between. The histories of such pools, and the two invariants clients
  see: one active run per story, and an ended session that frees its story. The last section
  follows a run whose creator died before its session was inserted.
\<close>

section \<open>Pools of requests\<close>

text \<open>What happens besides the handlers: time passes, agents save artifacts and reports.\<close>

definition outside_step :: "world \<Rightarrow> world \<Rightarrow> bool" where
  "outside_step w x =
     (art_grows (w_bucket w) (w_bucket x) \<and> rep_grows (w_reports w) (w_reports x) \<and>
      w_clock w \<le> w_clock x \<and>
      x = w\<lparr>w_clock := w_clock x, w_bucket := w_bucket x, w_reports := w_reports x\<rparr>)"

abbreviation api_pool :: "app_env \<Rightarrow> world \<Rightarrow> unit handler list \<times> world \<Rightarrow> bool" where
  "api_pool env \<equiv> pool_reach outside_step (range (serve env))"

lemma outside_same:
  "outside_step w x \<Longrightarrow>
   w_runs x = w_runs w \<and> w_sessions x = w_sessions w \<and> w_turns x = w_turns w \<and>
   w_agent_runs x = w_agent_runs w \<and> w_claims x = w_claims w \<and> w_leases x = w_leases w \<and>
   w_calls x = w_calls w \<and> w_tokens x = w_tokens w \<and> w_events x = w_events w \<and> w_clock w \<le> w_clock x \<and>
   art_grows (w_bucket w) (w_bucket x) \<and> rep_grows (w_reports w) (w_reports x)"
  unfolding outside_step_def by (cases w; cases x) simp

lemma outside_history: "outside_step w x \<Longrightarrow> history_step w x"
  using outside_same[of w x] by (intro history_side) (simp_all add: claims_kept_refl)

interpretation api_history: interleaving history_step db_ok outside_step "range (serve env)" for env
proof unfold_locales
  show "obeys history_step (\<lambda>_ _. True) db_ok p" if "p \<in> range (serve env)" for p
  proof -
    have "closed_under history_step db_ok" by (simp add: closed_under_def history_step_def)
    then show ?thesis
      using that by (auto intro!: inside_obeys histories.serve_inside)
  qed
  show "db_ok x" if "db_ok w" "history_step w x" for w x
    using that by (simp add: history_step_def)
qed (fact history_refl | erule history_trans, assumption | erule outside_history)+

lemma pool_db_ok: "api_pool env w0 (ps, w) \<Longrightarrow> db_ok w0 \<Longrightarrow> db_ok w"
  using api_history.pool_invariant[of env w0 "(ps, w)"] by simp

lemma pool_history: "api_pool env w0 (ps, w) \<Longrightarrow> db_ok w0 \<Longrightarrow> evolves w0 w"
  using api_history.pool_evolves[of env w0 "(ps, w)"] by (simp add: history_step_def)

section \<open>What clients can rely on\<close>

lemma rows_follow_eq: "rows_follow (=) d e \<longleftrightarrow> map_of d \<subseteq>\<^sub>m map_of e"
  unfolding rows_follow_def map_le_def by (metis domI domD)

text \<open>C3. What any interleaving of requests and crashes leaves of the past. Between two moments:
  every story run is still there under its key with its id, story, user and creation time, and a
  released run has not become active again; every session is still there with its id, run, story,
  user, requested formats and creation time; every turn is still there, unchanged, except that the
  list of produced artifacts of a finalize turn may have been replaced; agent runs, artifact records
  and keys, report claims, bytes and metadata are unchanged; a completed idempotency claim is still
  completed for the same fingerprint; the clock, the log and the counters have only grown. The other
  columns of runs and sessions (their states, the turn count, the references to the final review and
  the reports, the update times) are not claimed to stay.\<close>

theorem interleaved_history:
  assumes "api_pool env w0 (ps, w)" "db_ok w0"
  shows "(\<forall>k r. map_of (w_runs w0) k = Some r \<longrightarrow> (\<exists>q. map_of (w_runs w) k = Some q \<and>
      sr_run_id q = sr_run_id r \<and> sr_run_story q = sr_run_story r \<and> sr_user_id q = sr_user_id r \<and>
      sr_created_at q = sr_created_at r \<and> (occupies q \<longrightarrow> occupies r))) \<and>
    (\<forall>k s. map_of (w_sessions w0) k = Some s \<longrightarrow> (\<exists>q. map_of (w_sessions w) k = Some q \<and>
      se_session_id q = se_session_id s \<and> se_story_run_id q = se_story_run_id s \<and>
      se_story_id q = se_story_id s \<and> se_user_id q = se_user_id s \<and>
      se_requested_formats q = se_requested_formats s \<and> se_created_at q = se_created_at s)) \<and>
    (\<forall>k t. map_of (w_turns w0) k = Some t \<longrightarrow> (\<exists>q. map_of (w_turns w) k = Some q \<and>
      (q = t \<or> tu_outcome t = Some Finalize \<and> q\<lparr>tu_produced := tu_produced t\<rparr> = t))) \<and>
    map_of (w_agent_runs w0) \<subseteq>\<^sub>m map_of (w_agent_runs w) \<and>
    (\<forall>k c. map_of (w_claims w0) k = Some c \<and> cl_completed c \<longrightarrow> (\<exists>d. map_of (w_claims w) k = Some d \<and>
      cl_completed d \<and> cl_fingerprint d = cl_fingerprint c)) \<and>
    map_of (ao_records (w_bucket w0)) \<subseteq>\<^sub>m map_of (ao_records (w_bucket w)) \<and>
    map_of (ao_keys (w_bucket w0)) \<subseteq>\<^sub>m map_of (ao_keys (w_bucket w)) \<and>
    map_of (ro_claims (w_reports w0)) \<subseteq>\<^sub>m map_of (ro_claims (w_reports w)) \<and>
    map_of (ro_bytes (w_reports w0)) \<subseteq>\<^sub>m map_of (ro_bytes (w_reports w)) \<and>
    map_of (ro_meta (w_reports w0)) \<subseteq>\<^sub>m map_of (ro_meta (w_reports w)) \<and>
    w_clock w0 \<le> w_clock w \<and> w_calls w0 \<le> w_calls w \<and> w_tokens w0 \<le> w_tokens w \<and>
    suffix (w_events w0) (w_events w)"
proof -
  note past = pool_history[OF assms, unfolded evolves_def rows_follow_eq art_grows_def rep_grows_def]
  have turn: "same_turn t q \<Longrightarrow> q = t \<or> tu_outcome t = Some Finalize \<and> q\<lparr>tu_produced := tu_produced t\<rparr> = t" for t q
    by (cases t; cases q) (auto simp: same_turn_def)
  have turns: "\<exists>q. map_of (w_turns w) k = Some q \<and>
      (q = t \<or> tu_outcome t = Some Finalize \<and> q\<lparr>tu_produced := tu_produced t\<rparr> = t)"
    if "map_of (w_turns w0) k = Some t" for k t
    using rows_followD[of same_turn "w_turns w0" "w_turns w" k t] past that turn by blast
  have claims: "\<exists>d. map_of (w_claims w) k = Some d \<and> cl_completed d \<and> cl_fingerprint d = cl_fingerprint c"
    if "map_of (w_claims w0) k = Some c" "cl_completed c" for k c
    using past that unfolding claims_kept_def same_claim_def by blast
  show ?thesis
    by (intro conjI allI impI)
       (use past turns claims in \<open>simp_all add: rows_follow_def same_run_def same_session_def\<close>)
qed

text \<open>C2. In every state any interleaving of requests can reach, a user has at most one active
  run of a story: two active run rows of the same user and story are the same row.\<close>

theorem one_active_run_per_story:
  assumes "api_pool env w0 (ps, w)" "db_ok w0"
    "map_of (w_runs w) a = Some r" "map_of (w_runs w) b = Some q" "occupies r" "occupies q"
    "sr_user_id r = sr_user_id q" "sr_run_story r = sr_run_story q"
  shows "a = b"
  using pool_db_ok[OF assms(1,2)] assms(3-8) unfolding db_ok_def runs_ok_def by metis

text \<open>C4. A session that ended (parked or completed) has freed its story: whatever runs
  concurrently, the session's story run exists and is not active. So a new session of the story
  is never blocked by an ended one.\<close>

theorem ended_session_frees_story:
  assumes "api_pool env w0 (ps, w)" "db_ok w0"
    "map_of (w_sessions w) sid = Some s" "se_state s = Parked \<or> se_state s = Completed"
  shows "\<exists>r. map_of (w_runs w) (se_story_run_id s) = Some r \<and> \<not> occupies r"
proof -
  have "session_ok (w_runs w) sid s"
    using pool_db_ok[OF assms(1,2)] assms(3) by (simp add: db_ok_def sessions_ok_def)
  then show ?thesis using assms(4) by (auto simp: session_ok_def terminal_def)
qed

text \<open>C8. References between the tables never dangle and keys are consistent in every reachable
  state: a session has a run of its own and at most ten turns counted, a turn belongs to an
  existing session under its own number, an agent run is a valid record of an existing story run.\<close>

theorem tables_consistent:
  assumes "api_pool env w0 (ps, w)" "db_ok w0"
  shows "(\<forall>sid s. map_of (w_sessions w) sid = Some s \<longrightarrow>
      se_session_id s = sid \<and> se_turn_count s \<le> 10 \<and> map_of (w_runs w) (se_story_run_id s) \<noteq> None \<and>
      (\<forall>tid t. map_of (w_sessions w) tid = Some t \<and> se_story_run_id t = se_story_run_id s \<longrightarrow> tid = sid)) \<and>
    (\<forall>sid n t. map_of (w_turns w) (sid, n) = Some t \<longrightarrow>
      tu_session_id t = sid \<and> tu_turn_number t = n \<and> 1 \<le> n \<and> map_of (w_sessions w) sid \<noteq> None) \<and>
    (\<forall>k a. map_of (w_agent_runs w) k = Some a \<longrightarrow>
      ag_run_id a = k \<and> valid_AgentRunRecord a \<and> map_of (w_runs w) (ag_story_run_id a) \<noteq> None)"
proof -
  have ok: "sessions_ok (w_runs w) (w_sessions w)" "turns_ok (w_sessions w) (w_turns w)"
    "agent_runs_ok (w_runs w) (w_agent_runs w)"
    using pool_db_ok[OF assms] by (simp_all add: db_ok_def)
  have "se_session_id s = sid \<and> se_turn_count s \<le> 10 \<and> map_of (w_runs w) (se_story_run_id s) \<noteq> None \<and>
      (\<forall>tid t. map_of (w_sessions w) tid = Some t \<and> se_story_run_id t = se_story_run_id s \<longrightarrow> tid = sid)"
    if "map_of (w_sessions w) sid = Some s" for sid s
    using ok(1) that unfolding sessions_ok_def session_ok_def by fastforce
  moreover have "tu_session_id t = sid \<and> tu_turn_number t = n \<and> 1 \<le> n \<and> map_of (w_sessions w) sid \<noteq> None"
    if "map_of (w_turns w) (sid, n) = Some t" for sid n t
    using ok(2) that unfolding turns_ok_def turn_row_ok_def by auto
  moreover have "ag_run_id a = k \<and> valid_AgentRunRecord a \<and> map_of (w_runs w) (ag_story_run_id a) \<noteq> None"
    if "map_of (w_agent_runs w) k = Some a" for k a
    using ok(3) that unfolding agent_runs_ok_def by auto
  ultimately show ?thesis by blast
qed

section \<open>A run whose creator died\<close>

text \<open>
  \<open>create_story_run\<close> and \<open>create_session\<close> commit separately. A run inserted by a handler that
  stops in between is active and has no session; only a retry with the same key goes on with it.
\<close>

definition orphan :: "string \<Rightarrow> world \<Rightarrow> bool" where
  "orphan rid w =
     ((\<exists>r. map_of (w_runs w) rid = Some r \<and> occupies r) \<and>
      (\<forall>k s. map_of (w_sessions w) k = Some s \<longrightarrow> se_story_run_id s \<noteq> rid))"

definition orphan_step :: "string \<Rightarrow> world \<Rightarrow> world \<Rightarrow> bool" where
  "orphan_step rid w x = (orphan rid w \<longrightarrow> orphan rid x \<and> map_of (w_runs x) rid = map_of (w_runs w) rid)"

lemma orphan_side: "w_runs x = w_runs w \<Longrightarrow> w_sessions x = w_sessions w \<Longrightarrow> orphan_step rid w x"
  by (simp add: orphan_step_def orphan_def)

lemma orphan_refl: "orphan_step rid w w"
  by (simp add: orphan_step_def)

lemma orphan_trans: "orphan_step rid w x \<Longrightarrow> orphan_step rid x y \<Longrightarrow> orphan_step rid w y"
  by (simp add: orphan_step_def)

lemma orphan_update:
  assumes "fst (update_session sid u w) = Inr ()"
  shows "orphan_step rid w (snd (update_session sid u w))"
  using update_session_result[OF assms]
proof (elim disjE exE conjE)
  fix s
  assume s: "map_of (w_sessions w) sid = Some s"
    and x: "snd (update_session sid u w) =
         w\<lparr>w_runs := updated_runs u (w_clock w) s (w_runs w),
           w_sessions := dict_put sid (apply_update u (w_clock w) s) (w_sessions w)\<rparr>"
  have "map_of (updated_runs u (w_clock w) s (w_runs w)) rid = map_of (w_runs w) rid"
    if "se_story_run_id s \<noteq> rid"
    using that by (auto simp: updated_runs_def map_of_dict_put split: option.split)
  moreover have "se_story_run_id (apply_update u (w_clock w) s) = se_story_run_id s"
    by (simp add: apply_update_def)
  ultimately show ?thesis
    using s by (auto simp: x orphan_step_def orphan_def map_of_dict_put)
qed (simp add: orphan_refl)

lemma orphan_claims:
  "orphan_step rid w (snd (claim_insert k fp w))"
  "orphan_step rid w (snd (claim_release k w))"
  "orphan_step rid w (snd (claim_complete k x w))"
  by (rule orphan_side; simp add: claim_insert_def claim_release_def claim_complete_def comp_simps split: option.split)+

interpretation orphans: api_steps "\<lambda>_. True" "orphan_step (run_id_of (derived env key ''run''))" env
    "\<lambda>other. run_id_of (derived env other ''run'') \<noteq> run_id_of (derived env key ''run'')" for env key
proof unfold_locales
  let ?R = "orphan_step (run_id_of (derived env key ''run''))"
  show "?R w (w\<lparr>w_runs := dict_put (sr_run_id r) r (w_runs w)\<rparr>)"
    if "map_of (w_runs w) (sr_run_id r) = None" for w r
    using that by (auto simp: orphan_step_def orphan_def map_of_dict_put)
  show "?R w (w\<lparr>w_sessions := dict_put (se_session_id s) s (w_sessions w)\<rparr>)"
    if "run_id_of (derived env other ''run'') \<noteq> run_id_of (derived env key ''run'')"
      "se_story_run_id s = run_id_of (derived env other ''run'')" for s w other
    using that by (auto simp: orphan_step_def orphan_def map_of_dict_put)
  have stamp: "?R w (snd (stamp_turn sid n refs w))" for sid n refs w
    by (rule orphan_side) (auto simp: stamp_turn_def comp_simps split: option.split)
  show "inside (\<lambda>_. True) ?R (set_finalizing_turn_artifacts sid refs)" for sid refs
    unfolding set_finalizing_turn_artifacts_def
    by (intro inside_intros inside_perform) (simp_all add: stamp comp_simps orphan_refl)
  show "?R w (w\<lparr>w_turns := dict_put (tu_session_id t, tu_turn_number t) t (w_turns w)\<rparr>)" for w t
    by (rule orphan_side) simp_all
qed (auto intro: orphan_refl orphan_update orphan_claims orphan_side elim: orphan_trans)

lemma outside_orphan: "outside_step w x \<Longrightarrow> orphan_step rid w x"
  using outside_same[of w x] by (intro orphan_side) simp_all

definition foreign_requests :: "app_env \<Rightarrow> uuid \<Rightarrow> api_request set" where
  "foreign_requests env key =
     {q. \<forall>other. creation_key q = Some other \<longrightarrow>
        run_id_of (derived env other ''run'') \<noteq> run_id_of (derived env key ''run'')}"

interpretation orphan_pool: interleaving "orphan_step (run_id_of (derived env key ''run''))" "\<lambda>_. True"
  outside_step "serve env ` foreign_requests env key" for env key
proof unfold_locales
  let ?R = "orphan_step (run_id_of (derived env key ''run''))"
  have "closed_under ?R (\<lambda>_. True)" by (simp add: closed_under_def)
  then show "obeys ?R (\<lambda>_ _. True) (\<lambda>_. True) p" if "p \<in> serve env ` foreign_requests env key" for p
    using that by (auto intro!: inside_obeys orphans.serve_inside simp: foreign_requests_def)
qed (rule orphan_refl TrueI | (erule orphan_trans, assumption) | erule outside_orphan)+

text \<open>C12. If the creation of a session stops between inserting its story run and inserting its
  session, the story stays blocked: whatever other requests run afterwards, for however long
  (retries, turns, finalizations, abandons, creations under keys that derive another run), the
  run stays active without a session, and inserting another active run of the same user and story
  fails with the one-active-run constraint.\<close>

theorem orphan_run_blocks_story:
  assumes "pool_reach outside_step (serve env ` foreign_requests env key) w0 (ps, w)"
    "orphan (run_id_of (derived env key ''run'')) w0"
    "map_of (w_runs w0) (run_id_of (derived env key ''run'')) = Some r"
    "sr_user_id q = sr_user_id r" "sr_run_story q = sr_run_story r" "occupies q"
    "map_of (w_runs w) (sr_run_id q) = None"
  shows "create_story_run q w = (Inl (ConstraintViolation OneActiveRunPerStory), w)"
proof -
  let ?rid = "run_id_of (derived env key ''run'')"
  have "orphan_step ?rid w0 w"
    using orphan_pool.pool_evolves[OF assms(1)] by simp
  then have "orphan ?rid w" "map_of (w_runs w) ?rid = Some r"
    using assms(2,3) by (simp_all add: orphan_step_def)
  then have "run_conflict q w"
    using assms(4,5,6) map_of_values[of "w_runs w" ?rid r]
    by (auto simp: run_conflict_def orphan_def list_ex_iff)
  then show ?thesis using assms(7) by (simp add: create_story_run_def comp_simps)
qed

section \<open>At concrete inputs\<close>

definition demo_app :: app_env where
  "demo_app =
     \<lparr>en_fingerprint = (\<lambda>_. ''f''), en_uuid5 = (\<lambda>s. of_nat (length s)), en_token = of_nat,
      en_fault = (\<lambda>_. Healthy), en_delay = (\<lambda>_. 7), en_rng = (\<lambda>_. 0),
      en_story = (\<lambda>_ _. Inl (server_error STORY_NOT_FOUND False)),
      en_review = (\<lambda>_ _ _. Inl AgentTransportError), en_synthesis = (\<lambda>_ _. Inl AgentTransportError),
      en_facilitator = (\<lambda>_ _. Inl AgentTransportError), en_sign = (\<lambda>_ _. ''u''), en_url_ttl = 9,
      en_art = demo_env, en_rep = demo_rep_env, en_deadline = 1000, en_attempts = 2\<rparr>"

definition demo_sid :: string where
  "demo_sid = session_id_of 9"

definition demo_rid :: string where
  "demo_rid = run_id_of 8"

definition demo_user :: uuid where
  "demo_user = 0x40008000000000000001"

definition demo_story_run :: "uuid \<Rightarrow> StoryRunRecord" where
  "demo_story_run key =
     \<lparr>sr_run_id = run_id_of (derived demo_app key ''run''), sr_run_story = ''story-01'', sr_user_id = demo_user,
      sr_state = Active, sr_created_at = 0, sr_updated_at = 0\<rparr>"

definition demo_session :: "session_state \<Rightarrow> SessionRecord" where
  "demo_session st =
     \<lparr>se_session_id = demo_sid, se_story_run_id = demo_rid, se_story_id = ''story-01'', se_user_id = demo_user,
      se_state = st, se_requested_formats = [Md], se_turn_count = 1,
      se_final_review_reference = None, se_report_references = [], se_created_at = 0, se_updated_at = 0\<rparr>"

text \<open>One active run without a session, and one parked session with its released run.\<close>

definition demo_tables :: world where
  "demo_tables =
     empty_world\<lparr>w_runs := [(sr_run_id (demo_story_run 5), demo_story_run 5),
        (demo_rid, (demo_story_run 5)\<lparr>sr_run_id := demo_rid, sr_state := Parked\<rparr>)],
       w_sessions := [(demo_sid, demo_session Parked)]\<rparr>"

definition demo_tables_later :: world where
  "demo_tables_later = demo_tables\<lparr>w_clock := 3\<rparr>"

lemma demo_run_key: "sr_run_id (demo_story_run 5) \<noteq> demo_rid"
proof -
  have "derived demo_app 5 ''run'' = 40" by (simp add: derived_def demo_app_def)
  then show ?thesis by (auto simp: demo_story_run_def demo_rid_def run_id_of_def dest: uuid_str_inj)
qed

lemma demo_tables_ok: "db_ok demo_tables"
  using demo_run_key
  by (auto simp: demo_tables_def db_ok_def table_defs empty_world_def dict_keys_def demo_session_def
      terminal_def occupies_def)

lemma demo_outside: "outside_step demo_tables demo_tables_later"
  by (simp add: outside_step_def demo_tables_later_def demo_tables_def empty_world_def rep_grows_def)

lemma demo_pool:
  "p \<in> requests \<Longrightarrow> pool_reach outside_step requests demo_tables ([p], demo_tables_later)"
  by (rule pool_next, rule pool_next, rule pool_init, erule pool_arrive, rule pool_env, rule demo_outside)

lemma demo_api_pool:
  "api_pool demo_app demo_tables ([serve demo_app (ReadReport demo_sid 1 demo_user)], demo_tables_later)"
  by (rule demo_pool) (rule rangeI)

lemma interleaved_history_witness:
  "\<exists>s. map_of (w_sessions demo_tables_later) demo_sid = Some s \<and> se_story_run_id s = demo_rid"
proof -
  have "map_of (w_sessions demo_tables) demo_sid = Some (demo_session Parked)"
    by (simp add: demo_tables_def)
  then obtain q where "map_of (w_sessions demo_tables_later) demo_sid = Some q"
    "se_story_run_id q = se_story_run_id (demo_session Parked)"
    using interleaved_history[OF demo_api_pool demo_tables_ok] by meson
  then show ?thesis by (simp add: demo_session_def)
qed

lemma one_active_run_per_story_witness:
  "sr_run_id (demo_story_run 5) = sr_run_id (demo_story_run 5)"
  by (rule one_active_run_per_story[OF demo_api_pool demo_tables_ok,
        where r = "demo_story_run 5" and q = "demo_story_run 5"])
     (simp_all add: demo_tables_later_def demo_tables_def occupies_def demo_story_run_def)

lemma ended_session_frees_story_witness:
  "\<exists>r. map_of (w_runs demo_tables_later) (se_story_run_id (demo_session Parked)) = Some r \<and> \<not> occupies r"
  by (rule ended_session_frees_story[OF demo_api_pool demo_tables_ok, where sid = "demo_sid"])
     (simp_all add: demo_tables_later_def demo_tables_def demo_session_def)

lemma tables_consistent_witness:
  "se_session_id (demo_session Parked) = demo_sid \<and> map_of (w_runs demo_tables_later) demo_rid \<noteq> None"
proof -
  have "map_of (w_sessions demo_tables_later) demo_sid = Some (demo_session Parked)"
    by (simp add: demo_tables_later_def demo_tables_def)
  moreover have "se_story_run_id (demo_session Parked) = demo_rid" by (simp add: demo_session_def)
  ultimately show ?thesis
    using tables_consistent[OF demo_api_pool demo_tables_ok] by metis
qed

lemma orphan_run_blocks_story_witness:
  "create_story_run ((demo_story_run 5)\<lparr>sr_run_id := ''new''\<rparr>) demo_tables_later =
     (Inl (ConstraintViolation OneActiveRunPerStory), demo_tables_later)"
proof -
  have "pool_reach outside_step (serve demo_app ` foreign_requests demo_app 5) demo_tables
      ([serve demo_app (ReadReport demo_sid 1 demo_user)], demo_tables_later)"
    by (rule demo_pool, rule imageI) (simp add: foreign_requests_def)
  then show ?thesis
    by (rule orphan_run_blocks_story[where r = "demo_story_run 5"])
       (use demo_run_key in \<open>auto simp: demo_tables_later_def demo_tables_def orphan_def occupies_def
          demo_story_run_def demo_session_def run_id_of_def demo_rid_def\<close>)
qed

end
