(* ===== verification/Lone_Runs.thy ===== *)
theory Lone_Runs
  imports Frames
begin

text \<open>
  Hoare triples for a handler that runs without interference but may stop at any action:
  \<open>holds I P p Q E\<close> says that from a state in \<open>P\<close> every state \<open>p\<close> goes through (so every state a
  crash could leave) satisfies \<open>I\<close>, a returned value and the final state satisfy \<open>Q\<close>, and a
  raised exception and its state satisfy \<open>E\<close>. Programs whose actions stay inside a relation that
  keeps \<open>P\<close> are skipped by one rule.
\<close>

definition holds ::
    "('s \<Rightarrow> bool) \<Rightarrow> ('s \<Rightarrow> bool) \<Rightarrow> ('s, 'e, 'a) prog \<Rightarrow> ('a \<Rightarrow> 's \<Rightarrow> bool) \<Rightarrow> ('e \<Rightarrow> 's \<Rightarrow> bool) \<Rightarrow> bool" where
  "holds I P p Q E =
     (\<forall>s. P s \<longrightarrow> always I p s \<and> (case run p s of (Inr x, t) \<Rightarrow> Q x t | (Inl e, t) \<Rightarrow> E e t))"

lemma holdsI:
  "(\<And>s. P s \<Longrightarrow> always I p s) \<Longrightarrow> (\<And>s x t. P s \<Longrightarrow> run p s = (Inr x, t) \<Longrightarrow> Q x t) \<Longrightarrow>
   (\<And>s e t. P s \<Longrightarrow> run p s = (Inl e, t) \<Longrightarrow> E e t) \<Longrightarrow> holds I P p Q E"
  by (auto simp: holds_def split: prod.split sum.split)

lemma holds_always: "holds I P p Q E \<Longrightarrow> P s \<Longrightarrow> always I p s"
  by (simp add: holds_def)

lemma holds_returned: "holds I P p Q E \<Longrightarrow> P s \<Longrightarrow> run p s = (Inr x, t) \<Longrightarrow> Q x t"
  by (fastforce simp: holds_def)

lemma holds_raised: "holds I P p Q E \<Longrightarrow> P s \<Longrightarrow> run p s = (Inl e, t) \<Longrightarrow> E e t"
  by (fastforce simp: holds_def)

lemma holds_weaken:
  "holds I P p Q E \<Longrightarrow> (\<And>s. P' s \<Longrightarrow> P s) \<Longrightarrow> (\<And>x t. Q x t \<Longrightarrow> Q' x t) \<Longrightarrow> (\<And>e t. E e t \<Longrightarrow> E' e t) \<Longrightarrow>
   holds I P' p Q' E'"
  unfolding holds_def by (fastforce split: prod.split sum.split)

section \<open>Rules\<close>

named_theorems holds_intros \<open>introduction rules for holds\<close>

lemma holds_Ret [holds_intros]: "(\<And>s. P s \<Longrightarrow> I s) \<Longrightarrow> (\<And>s. P s \<Longrightarrow> Q x s) \<Longrightarrow> holds I P (Ret x) Q E"
  by (simp add: holds_def)

lemma holds_Raise [holds_intros]: "(\<And>s. P s \<Longrightarrow> I s) \<Longrightarrow> (\<And>s. P s \<Longrightarrow> E e s) \<Longrightarrow> holds I P (Raise e) Q E"
  by (simp add: holds_def)

lemma holds_chain:
  assumes p: "holds I P p M E" and k: "\<And>x. holds I (M x) (k x) Q E"
  shows "holds I P (chain p k) Q E"
proof (rule holdsI)
  fix s
  assume s: "P s"
  show "always I (chain p k) s"
    using holds_always[OF p s] holds_returned[OF p s] holds_always[OF k] by (blast intro: always_chain)
  fix x t
  assume "run (chain p k) s = (Inr x, t)"
  then show "Q x t"
    using holds_returned[OF p s] holds_returned[OF k] by (auto simp: run_chain split: prod.splits sum.splits)
next
  fix s e t
  assume s: "P s" and "run (chain p k) s = (Inl e, t)"
  then show "E e t"
    using holds_returned[OF p s] holds_raised[OF p s] holds_raised[OF k]
    by (auto simp: run_chain split: prod.splits sum.splits)
qed

lemma holds_rescue:
  assumes p: "holds I P p Q M" and h: "\<And>e. holds I (M e) (h e) Q E"
  shows "holds I P (rescue p h) Q E"
proof (rule holdsI)
  fix s
  assume s: "P s"
  show "always I (rescue p h) s"
    using holds_always[OF p s] holds_raised[OF p s] holds_always[OF h] by (blast intro: always_rescue)
  fix x t
  assume "run (rescue p h) s = (Inr x, t)"
  then show "Q x t"
    using holds_returned[OF p s] holds_raised[OF p s] holds_returned[OF h]
    by (auto simp: run_rescue split: prod.splits sum.splits)
next
  fix s e t
  assume s: "P s" and "run (rescue p h) s = (Inl e, t)"
  then show "E e t"
    using holds_raised[OF p s] holds_raised[OF h] by (auto simp: run_rescue split: prod.splits sum.splits)
qed

lemma holds_ensure:
  assumes p: "holds I P p M N" and q: "\<And>x. holds I (M x) q (\<lambda>_. Q x) E" "\<And>e. holds I (N e) q (\<lambda>_. E e) E"
  shows "holds I P (ensure p q) Q E"
proof (rule holdsI)
  fix s
  assume s: "P s"
  have "always I q t" if "run p s = (r, t)" for r t
    using holds_returned[OF p s] holds_raised[OF p s] holds_always[OF q(1)] holds_always[OF q(2)] that
    by (cases r) blast+
  then show "always I (ensure p q) s"
    using holds_always[OF p s] by (blast intro: always_ensure)
  fix x t
  assume "run (ensure p q) s = (Inr x, t)"
  then show "Q x t"
    using holds_returned[OF p s] holds_returned[OF q(1)] by (auto simp: run_ensure split: prod.splits sum.splits)
next
  fix s e t
  assume s: "P s" and r: "run (ensure p q) s = (Inl e, t)"
  obtain a u where a: "run p s = (a, u)" by (cases "run p s") auto
  show "E e t"
  proof (cases a)
    case (Inl b)
    then show ?thesis
      using r a holds_raised[OF p s, of b u] holds_raised[OF q(2)[of b], of u] holds_returned[OF q(2)[of b], of u]
      by (auto simp: run_ensure split: prod.splits sum.splits)
  next
    case (Inr b)
    then show ?thesis
      using r a holds_returned[OF p s, of b u] holds_raised[OF q(1)[of b], of u]
      by (auto simp: run_ensure split: prod.splits sum.splits)
  qed
qed

lemma holds_perform:
  assumes "\<And>s. P s \<Longrightarrow> I s" "\<And>s x t. P s \<Longrightarrow> m s = (Inr x, t) \<Longrightarrow> I t \<and> Q x t"
    "\<And>s e t. P s \<Longrightarrow> m s = (Inl e, t) \<Longrightarrow> I t \<and> E e t"
  shows "holds I P (perform m) Q E"
proof (rule holdsI)
  fix s
  assume s: "P s"
  have "I (snd (m s))"
    using assms(2,3)[OF s] by (cases "m s"; cases "fst (m s)") auto
  then show "always I (perform m) s" by (rule always_perform[rotated]) (rule assms(1)[OF s])
qed (use assms(2,3) in \<open>auto simp: run_perform\<close>)

lemma holds_transaction:
  assumes "\<And>s. P s \<Longrightarrow> I s" "\<And>s x t. P s \<Longrightarrow> m s = (Inr x, t) \<Longrightarrow> I t \<and> Q x t" "\<And>s e. P s \<Longrightarrow> E e s"
  shows "holds I P (transaction m) Q E"
  unfolding transaction_def
  by (rule holds_perform) (use assms in \<open>auto split: prod.splits sum.splits\<close>)

lemma holds_demand:
  "(\<And>s. P s \<Longrightarrow> I s) \<Longrightarrow> (\<And>s. P s \<Longrightarrow> \<not> b \<Longrightarrow> E e s) \<Longrightarrow>
   holds I P (demand b e) (\<lambda>_ s. P s \<and> b) E"
  by (simp add: demand_def holds_def)

text \<open>A condition that does not depend on the state.\<close>

lemma holds_pure: "(b \<Longrightarrow> holds I P p Q E) \<Longrightarrow> holds I (\<lambda>s. P s \<and> b) p Q E"
  by (simp add: holds_def)

text \<open>What stays inside a relation under which \<open>P\<close> is stable.\<close>

lemma holds_inside:
  assumes p: "inside (\<lambda>_. True) R p" and R: "\<And>s. R s s" "\<And>s t u. R s t \<Longrightarrow> R t u \<Longrightarrow> R s u"
    and P: "\<And>s t. P s \<Longrightarrow> R s t \<Longrightarrow> P t" "\<And>s. P s \<Longrightarrow> I s" "\<And>e s. P s \<Longrightarrow> E e s"
  shows "holds I P p (\<lambda>_. P) E"
proof (rule holdsI)
  have c: "closed_under R (\<lambda>_. True)" by (simp add: closed_under_def)
  fix s
  assume s: "P s"
  have "always (R s) p s" by (rule inside_always[OF p c TrueI R(1)]) (rule R(2))
  then show "always I p s"
    unfolding always_visits using P s by blast
  have "R s (snd (run p s))" by (rule inside_run[OF p c TrueI R(1)]) (rule R(2))
  then have "P (snd (run p s))" using P(1) s by blast
  then show "run p s = (Inr x, t) \<Longrightarrow> P t" for x t by simp
  from \<open>P (snd (run p s))\<close> show "run p s = (Inl e, t) \<Longrightarrow> E e t" for e t using P(3) by simp
qed

end
