(* ===== verification/Lifecycle.thy ===== *)
theory Lifecycle
  imports Interleavings Lone_Runs
begin

text \<open>
  The dialogue lifecycle a client is promised, as an abstract machine on a session's state and
  facilitator turn count, and the proof that a turn request, served alone but possibly stopped
  at any action, moves the stored session along that machine: an answer reports the move that was
  made and is the recorded response of its idempotency claim; an error or a crash leaves the
  session in one of the phases a retry continues from.
\<close>

section \<open>The abstract machine\<close>

datatype phase = Phase (ph_state: session_state) (ph_count: nat)

text \<open>The second argument is the outcome a request reports; None is an error or no answer at all.\<close>

inductive turn_move :: "phase \<Rightarrow> turn_outcome option \<Rightarrow> phase \<Rightarrow> bool" where
  move_on: "n < 9 \<Longrightarrow> turn_move (Phase Active n) (Some Continue) (Phase Active (Suc n))"
| move_park: "turn_move (Phase Active 9) (Some Park) (Phase Parked 10)"
| move_accept: "turn_move (Phase Active n) (Some Finalize) (Phase Completed n)"
| move_agree: "n < 9 \<Longrightarrow> turn_move (Phase Active n) (Some Finalize) (Phase Completed (Suc n))"
| move_resume: "turn_move (Phase Finalizing n) (Some Finalize) (Phase Completed n)"
| fail_stay: "turn_move ph None ph"
| fail_accept: "turn_move (Phase Active n) None (Phase Finalizing n)"
| fail_agree: "n < 9 \<Longrightarrow> st = Active \<or> st = Finalizing \<Longrightarrow> turn_move (Phase Active n) None (Phase st (Suc n))"
| fail_back: "turn_move (Phase Finalizing n) None (Phase Active n)"
| fail_late: "turn_move ph (Some r) q \<Longrightarrow> turn_move ph None q"

inductive_cases turn_moveE: "turn_move ph (Some r) q"

text \<open>A session that has ended never moves.\<close>

lemma ended_moves: "turn_move ph r q \<Longrightarrow> ph_state ph = Parked \<or> ph_state ph = Completed \<Longrightarrow> q = ph"
  by (induction rule: turn_move.induct) auto

section \<open>Where the stored session is\<close>

definition phase_of :: "SessionRecord \<Rightarrow> phase" where
  "phase_of s = Phase (se_state s) (se_turn_count s)"

definition in_phase :: "string \<Rightarrow> phase \<Rightarrow> world \<Rightarrow> bool" where
  "in_phase sid ph w = (\<exists>s. map_of (w_sessions w) sid = Some s \<and> se_session_id s = sid \<and> phase_of s = ph)"

definition working :: "string \<Rightarrow> claim_key \<Rightarrow> phase \<Rightarrow> world \<Rightarrow> bool" where
  "working sid k ph w = (in_phase sid ph w \<and> map_of (w_claims w) k \<noteq> None)"

definition recorded :: "claim_key \<Rightarrow> canonical \<Rightarrow> world \<Rightarrow> bool" where
  "recorded k c w = (\<exists>row. map_of (w_claims w) k = Some row \<and> cl_completed row \<and> cl_response row = Some c)"

definition safe :: "phase \<Rightarrow> string \<Rightarrow> world \<Rightarrow> bool" where
  "safe ph0 sid w = (\<exists>q. turn_move ph0 None q \<and> in_phase sid q w)"

definition answered :: "phase \<Rightarrow> string \<Rightarrow> claim_key \<Rightarrow> TurnResponse \<Rightarrow> world \<Rightarrow> bool" where
  "answered ph0 sid k r w =
     (\<exists>q c. turn_move ph0 (Some (tr_outcome r)) q \<and> ph_state q = tr_state r \<and> in_phase sid q w \<and>
        recorded k (CanonTurn c) w \<and> ct_outcome c = tr_outcome r \<and> ct_turn_number c = tr_turn_number r \<and>
        ct_facilitator_reply c = tr_facilitator_reply r)"

fun move_phase :: "session_update \<Rightarrow> phase \<Rightarrow> phase" where
  "move_phase u (Phase st n) =
     Phase (case up_state u of None \<Rightarrow> st | Some x \<Rightarrow> x) (case up_count u of None \<Rightarrow> n | Some x \<Rightarrow> x)"

declare move_phase.simps [simp del]

lemma phase_of_update: "phase_of (apply_update u t s) = move_phase u (phase_of s)"
  by (simp add: phase_of_def apply_update_def move_phase.simps)

text \<open>Everything but the session rows and the claims may change.\<close>

definition quiet :: "world \<Rightarrow> world \<Rightarrow> bool" where
  "quiet w x = (w_sessions x = w_sessions w \<and> w_claims x = w_claims w)"

lemma quiet_refl: "quiet w w"
  and quiet_trans: "quiet w x \<Longrightarrow> quiet x y \<Longrightarrow> quiet w y"
  by (simp_all add: quiet_def)

lemma quiet_stable:
  "in_phase sid ph w \<Longrightarrow> quiet w x \<Longrightarrow> in_phase sid ph x"
  "working sid k ph w \<Longrightarrow> quiet w x \<Longrightarrow> working sid k ph x"
  "recorded k c w \<Longrightarrow> quiet w x \<Longrightarrow> recorded k c x"
  "answered ph0 sid k r w \<Longrightarrow> quiet w x \<Longrightarrow> answered ph0 sid k r x"
  "safe ph0 sid w \<Longrightarrow> quiet w x \<Longrightarrow> safe ph0 sid x"
  unfolding answered_def safe_def by (auto simp: in_phase_def working_def recorded_def quiet_def)

interpretation quiet: service_steps "\<lambda>_. True" quiet
  by unfold_locales (simp_all add: quiet_def)

abbreviation quietly :: "'a handler \<Rightarrow> bool" where
  "quietly p \<equiv> inside (\<lambda>_. True) quiet p"

lemma quiet_perform: "(\<And>w. quiet w (snd (m w))) \<Longrightarrow> quietly (perform m)"
  by (rule inside_perform) simp

lemma quiet_reads:
  "quietly (perform (list_turns sid))" "quietly (perform (World.get_session sid user))"
  "quietly (perform (get_turn sid n))"
  by (auto intro!: quiet_perform simp: list_turns_def World.get_session_def get_turn_def checked_def
      comp_simps quiet_refl split: option.split)

lemma quiet_create_turn: "quietly (create_turn_or_get t)"
  unfolding create_turn_or_get_def create_turn_def get_turn_def checked_def
  by (intro inside_intros quiet_perform) (auto simp: comp_simps quiet_def split: option.split)

lemma quiet_stamp: "quietly (set_finalizing_turn_artifacts sid refs)"
  unfolding set_finalizing_turn_artifacts_def stamp_turn_def
  by (intro inside_intros quiet_perform) (auto simp: comp_simps quiet_def split: option.split)

lemma quiet_clear: "quietly (clear_and_release sid token)"
  unfolding clear_and_release_def lease_release_def
  by (intro inside_intros quiet.stage_inside quiet_perform) (auto simp: comp_simps quiet_def)

lemma quiet_acquire: "quietly (lease_acquire tok sid)"
proof -
  have "quietly (attempt_acquire tok sid)"
    unfolding attempt_acquire_def fresh_token_def lease_upsert_def lease_retry_after_def Let_def
    by (intro inside_intros quiet_perform) (auto simp: comp_simps quiet_def split: option.split)
  then have "quietly (acquire_loop tok sid n)" for n
    by (induction n) (auto intro!: inside_intros)
  then show ?thesis by (simp add: lease_acquire_def)
qed

lemmas quietly_intros =
  inside_intros quiet.service_inside quiet_reads quiet_create_turn quiet_stamp quiet_clear quiet_acquire
  quiet.latest_synthesis_inside quiet.fresh_deadline_inside quiet.delegate_turn_inside
  quiet.summarize_turn_inside quiet.flow3_work_inside quiet.turn_response_inside

section \<open>Triples\<close>

lemma safe_intro: "in_phase sid q w \<Longrightarrow> turn_move ph0 None q \<Longrightarrow> safe ph0 sid w"
  by (auto simp: safe_def)

lemma working_phase: "working sid k ph w \<Longrightarrow> in_phase sid ph w"
  by (simp add: working_def)

lemma quiet_holds:
  "quietly p \<Longrightarrow> turn_move ph0 None ph \<Longrightarrow>
   holds (safe ph0 sid) (working sid k ph) p (\<lambda>_. working sid k ph) (\<lambda>_. safe ph0 sid)"
  by (rule holds_inside[where R = quiet])
     (auto intro: quiet_stable(2) safe_intro quiet_refl quiet_trans dest: working_phase)

lemma quiet_holds_safe:
  "quietly p \<Longrightarrow> holds (safe ph0 sid) (safe ph0 sid) p (\<lambda>_. safe ph0 sid) (\<lambda>_. safe ph0 sid)"
  by (rule holds_inside[where R = quiet]) (auto intro: quiet_stable quiet_refl quiet_trans)

text \<open>The two ways a handler writes the session row.\<close>

lemma updated_phase:
  assumes "in_phase sid ph w" "update_session sid u w = (Inr (), x)"
  shows "in_phase sid (move_phase u ph) x \<and> w_claims x = w_claims w"
proof -
  obtain s where s: "map_of (w_sessions w) sid = Some s" "se_session_id s = sid" "phase_of s = ph"
    using assms(1) by (auto simp: in_phase_def)
  have x: "x = w\<lparr>w_runs := updated_runs u (w_clock w) s (w_runs w),
      w_sessions := dict_put sid (apply_update u (w_clock w) s) (w_sessions w)\<rparr>"
    using update_session_result[of sid u w] assms(2) s(1) by auto
  have "phase_of (apply_update u (w_clock w) s) = move_phase u ph"
    by (simp add: phase_of_update s(3))
  moreover have "se_session_id (apply_update u (w_clock w) s) = sid"
    by (simp add: apply_update_def s(2))
  ultimately show ?thesis by (simp add: x in_phase_def map_of_dict_put)
qed

lemma commit_holds:
  assumes "turn_move ph0 None ph" "turn_move ph0 None (move_phase u ph)"
  shows "holds (safe ph0 sid) (working sid k ph)
    (transaction (andThen (update_session sid u) (\<lambda>_. claim_complete k c)))
    (\<lambda>_ w. in_phase sid (move_phase u ph) w \<and> recorded k c w) (\<lambda>_. safe ph0 sid)"
proof (rule holds_transaction)
  fix w x t
  assume w: "working sid k ph w" and m: "andThen (update_session sid u) (\<lambda>_. claim_complete k c) w = (Inr x, t)"
  then obtain v where v: "update_session sid u w = (Inr (), v)" "snd (claim_complete k c v) = t"
    by (auto simp: comp_simps split: prod.splits sum.splits)
  have ph: "in_phase sid (move_phase u ph) v" "w_claims v = w_claims w"
    using updated_phase[OF _ v(1)] w by (auto simp: working_def)
  then have "in_phase sid (move_phase u ph) t \<and> recorded k c t"
    using v(2) w by (auto simp: claim_complete_def comp_simps working_def recorded_def in_phase_def map_of_dict_put)
  then show "safe ph0 sid t \<and> in_phase sid (move_phase u ph) t \<and> recorded k c t"
    using assms(2) safe_intro by blast
qed (use assms(1) safe_intro in \<open>auto simp: working_def\<close>)

lemma update_alone_holds:
  assumes "retires u = None" "turn_move ph0 None ph" "turn_move ph0 None (move_phase u ph)"
  shows "holds (safe ph0 sid) (working sid k ph) (update_session_alone sid u)
    (\<lambda>_. working sid k (move_phase u ph)) (\<lambda>_. safe ph0 sid)"
proof -
  have row: "update_session_row sid u w = update_session sid u w" for w
    using assms(1) by (simp add: update_session_def comp_simps split: prod.split sum.split)
  have same: "safe ph0 sid t" if "update_session sid u w = (Inl e, t)" "working sid k ph w" for w e t
    using that assms(1,2) safe_intro[of sid ph w ph0]
    by (auto simp: update_session_def update_session_row_def comp_simps working_def
        split: option.splits if_splits prod.splits sum.splits)
  have "holds (safe ph0 sid) (working sid k ph) (perform (update_session_row sid u))
    (\<lambda>_. working sid k (move_phase u ph)) (\<lambda>_. safe ph0 sid)"
  proof (rule holds_perform)
    fix w x t
    assume w: "working sid k ph w" and m: "update_session_row sid u w = (Inr x, t)"
    have "in_phase sid (move_phase u ph) t \<and> w_claims t = w_claims w"
      using updated_phase[of sid ph w u t] w m row by (simp add: working_def)
    with w show "safe ph0 sid t \<and> working sid k (move_phase u ph) t"
      using assms(3) safe_intro[of sid "move_phase u ph" t] by (simp add: working_def)
  qed (use row same assms(2) safe_intro in \<open>auto simp: working_def\<close>)
  then show ?thesis
    unfolding update_session_alone_def assms(1)
    by (rule holds_chain)
       (use assms(3) safe_intro in \<open>auto intro!: holds_Ret simp: working_def\<close>)
qed

section \<open>The endings of a turn\<close>

lemma holds_construct:
  "(ok x \<Longrightarrow> holds I P (k x) Q E) \<Longrightarrow> (\<And>s. P s \<Longrightarrow> I s) \<Longrightarrow> (\<And>s. P s \<Longrightarrow> E ValidationError s) \<Longrightarrow>
   holds I P (chain (construct ok x) k) Q E"
  by (cases "ok x") (simp_all add: construct_def demand_def holds_Raise)

lemma holds_construct_last:
  "(\<And>s. P s \<Longrightarrow> I s) \<Longrightarrow> (\<And>s. P s \<Longrightarrow> ok x \<Longrightarrow> Q x s) \<Longrightarrow> (\<And>s. P s \<Longrightarrow> E ValidationError s) \<Longrightarrow>
   holds I P (construct ok x) Q E"
  by (simp add: construct_def demand_def holds_def)

text \<open>A committed move: the session row has moved and the claim holds the canonical result.\<close>

definition committed :: "phase \<Rightarrow> string \<Rightarrow> claim_key \<Rightarrow> CanonicalTurnResult \<Rightarrow> world \<Rightarrow> bool" where
  "committed ph0 sid k c w =
     (recorded k (CanonTurn c) w \<and> (\<exists>q. turn_move ph0 (Some (ct_outcome c)) q \<and> ph_state q = ct_state c \<and> in_phase sid q w))"

lemma committed_safe: "committed ph0 sid k c w \<Longrightarrow> safe ph0 sid w"
  by (auto simp: committed_def intro: safe_intro fail_late)

lemma committed_answers:
  "committed ph0 sid k c w \<Longrightarrow> tr_outcome r = ct_outcome c \<Longrightarrow> tr_state r = ct_state c \<Longrightarrow>
   tr_turn_number r = ct_turn_number c \<Longrightarrow> tr_facilitator_reply r = ct_facilitator_reply c \<Longrightarrow>
   answered ph0 sid k r w"
  unfolding committed_def answered_def by auto

lemma committed_quiet: "committed ph0 sid k c w \<Longrightarrow> quiet w x \<Longrightarrow> committed ph0 sid k c x"
  unfolding committed_def by (blast intro: quiet_stable)

lemma committed_holds:
  "quietly p \<Longrightarrow> holds (safe ph0 sid) (committed ph0 sid k c) p (\<lambda>_. committed ph0 sid k c) (\<lambda>_. safe ph0 sid)"
  by (rule holds_inside[where R = quiet])
     (auto intro: quiet_refl quiet_trans committed_safe committed_quiet)

lemma persist_holds:
  fixes k :: turn_work and sid :: string and n :: nat
  assumes "n \<le> 9" "outcome = Park \<longleftrightarrow> n = 9" "outcome \<noteq> Finalize"
  defines "key \<equiv> turn_key sid (tw_key k)" and "p0 \<equiv> Phase Active n"
  shows "holds (safe p0 sid) (working sid key p0)
    (persist_and_respond k sid turn outcome synthesis resolutions (n + 1)) (answered p0 sid key)
    (\<lambda>_. safe p0 sid)"
proof -
  let ?c = "canonical_turn turn sid (case tu_outcome turn of None \<Rightarrow> Continue | Some x \<Rightarrow> x)
      (if outcome = Park then Parked else Active) synthesis []"
  define q where "q = move_phase (persist_update outcome (n + 1)) p0"
  have q: "q = (if n = 9 then Phase Parked 10 else Phase Active (n + 1))"
    using assms(2) by (simp add: q_def persist_update_def no_update_def p0_def move_phase.simps)
  have moved: "turn_move p0 (Some (if n = 9 then Park else Continue)) q"
    using assms(1) move_on[of n] by (auto simp: q p0_def intro: move_park)
  have late: "turn_move p0 None (move_phase (persist_update outcome (n + 1)) p0)"
    using moved fail_late by (simp only: q_def[symmetric])
  have stay: "safe p0 sid w" if "working sid key p0 w" for w
    using that safe_intro[OF _ fail_stay] by (simp add: working_def)
  have commit: "committed p0 sid key ?c w"
    if "valid_CanonicalTurnResult ?c" "in_phase sid q w" "recorded key (CanonTurn ?c) w" for w
  proof -
    have "expected_state (ct_outcome ?c) = ct_state ?c"
      using that(1) unfolding valid_CanonicalTurnResult_def by simp
    then have "ct_outcome ?c = (if n = 9 then Park else Continue)"
      using assms(2) by (cases "ct_outcome ?c") (auto simp: canonical_turn_def split: if_splits)
    then have "turn_move p0 (Some (ct_outcome ?c)) q" using moved by simp
    moreover have "ph_state q = ct_state ?c"
      unfolding q using assms(2) by (simp add: canonical_turn_def)
    ultimately show ?thesis using that(2,3) by (auto simp: committed_def)
  qed
  have transact: "holds (safe p0 sid) (working sid key p0)
      (transaction (andThen (update_session sid (persist_update outcome (n + 1)))
        (\<lambda>_. claim_complete key (CanonTurn ?c))))
      (\<lambda>_. committed p0 sid key ?c) (\<lambda>_. safe p0 sid)" if "valid_CanonicalTurnResult ?c"
    by (rule holds_weaken[OF commit_holds[OF fail_stay late]])
       (use commit[OF that, unfolded q_def] in blast)+
  have emitted: "quietly (if outcome = Park then emit (SessionParked sid (n + 1)) else Ret ())"
    by (intro quietly_intros)
  show ?thesis
    unfolding persist_and_respond_def key_def[symmetric]
    by (rule holds_construct[OF _ stay stay], rule holds_chain[OF transact], assumption,
        rule holds_chain[OF committed_holds[OF emitted]], rule holds_construct_last)
       (auto intro: committed_safe committed_answers)
qed

lemma flow3_holds:
  assumes "se_session_id (f3_session c) = sid" "turn_move p0 None (Phase st m)"
    "turn_move p0 None (Phase Finalizing m)" "turn_move p0 None (Phase Active m)"
  shows "holds (safe p0 sid) (working sid key (Phase st m)) (run_flow3 env c turns synthesis)
    (\<lambda>_. working sid key (Phase Finalizing m)) (\<lambda>_. safe p0 sid)"
proof -
  have state: "retires (set_state x) = None" if "x = Active \<or> x = Finalizing" for x
    using that by (auto simp: set_state_def no_update_def retires_def)
  have moves: "move_phase (set_state x) (Phase y m) = Phase x m" for x y
    by (simp add: set_state_def no_update_def move_phase.simps)
  have set_to: "holds (safe p0 sid) (working sid key (Phase y m)) (update_session_alone sid (set_state x))
      (\<lambda>_. working sid key (Phase x m)) (\<lambda>_. safe p0 sid)"
    if "x = Active \<or> x = Finalizing" "turn_move p0 None (Phase y m)" for x y
    using update_alone_holds[OF state[OF that(1)] that(2), of sid key] that(1) assms(3,4) by (auto simp: moves)
  have stay: "safe p0 sid w" if "working sid key (Phase Finalizing m) w" for w
    using that assms(3) by (auto intro: safe_intro dest: working_phase)
  have work: "holds (safe p0 sid) (working sid key (Phase Finalizing m)) (flow3_work env c turns synthesis)
      (\<lambda>_. working sid key (Phase Finalizing m)) (\<lambda>_. working sid key (Phase Finalizing m))"
    by (rule holds_inside[where R = quiet])
       (auto intro: quiet.flow3_work_inside quiet_refl quiet_trans quiet_stable(2) stay)
  have give_up: "holds (safe p0 sid) (working sid key (Phase Finalizing m))
      (case e of FinalizationFailed a b False \<Rightarrow>
         chain (update_session_alone sid (set_state Active)) (\<lambda>_. Raise e) | _ \<Rightarrow> Raise e)
      (\<lambda>_. working sid key (Phase Finalizing m)) (\<lambda>_. safe p0 sid)" for e :: exc
    using assms(3,4)
    by (auto split: exc.split bool.split intro!: holds_Raise holds_chain[OF set_to]
        intro: safe_intro dest: working_phase)
  show ?thesis
    unfolding run_flow3_def Let_def assms(1)
    by (rule holds_chain[OF set_to] holds_chain[OF holds_rescue[OF work give_up]]
          holds_chain[OF quiet_holds[OF quiet_stamp]] holds_Ret stay assms(2,3) | simp)+
qed

lemma finalize_holds:
  assumes "se_session_id (tw_session k) = sid" "turn_move p0 None (Phase st m)"
    "turn_move p0 None (Phase Finalizing m)" "turn_move p0 None (Phase Active m)"
    "turn_move p0 (Some Finalize) (Phase Completed m)" "cnt = None \<or> cnt = Some m"
  defines "key \<equiv> turn_key sid (tw_key k)"
  shows "holds (safe p0 sid) (working sid key (Phase st m))
    (finalize_and_respond k turn turns synthesis cnt) (answered p0 sid key) (\<lambda>_. safe p0 sid)"
proof -
  let ?c = "\<lambda>result. canonical_turn turn sid Finalize Completed synthesis (fz_reports result)"
  have ended: "move_phase (complete_update result cnt) (Phase Finalizing m) = Phase Completed m" for result
    using assms(6) by (auto simp: complete_update_def move_phase.simps)
  have stay: "safe p0 sid w" if "working sid key (Phase Finalizing m) w" for w
    using that assms(3) by (auto intro: safe_intro dest: working_phase)
  have transact: "holds (safe p0 sid) (working sid key (Phase Finalizing m))
      (complete_session sid key (CanonTurn (?c result)) result cnt)
      (\<lambda>_. committed p0 sid key (?c result)) (\<lambda>_. safe p0 sid)" for result
    unfolding complete_session_def
    by (rule holds_weaken[OF commit_holds[OF assms(3)]])
       (use assms(5) fail_late in \<open>auto simp: ended committed_def canonical_turn_def\<close>)
  have answer: "holds (safe p0 sid) (committed p0 sid key c) (turn_response (tw_env k) c resolutions)
      (answered p0 sid key) (\<lambda>_. safe p0 sid)" for c resolutions
    unfolding turn_response_def
    by (rule holds_chain[OF committed_holds[OF quiet.signer_downloads_inside]], rule holds_construct_last)
       (auto intro: committed_safe committed_answers)
  have flow: "holds (safe p0 sid) (working sid key (Phase st m))
      (run_flow3 (tw_env k) (flow3_of k) turns synthesis)
      (\<lambda>_. working sid key (Phase Finalizing m)) (\<lambda>_. safe p0 sid)"
    by (rule flow3_holds) (use assms(1-4) in \<open>simp_all add: flow3_of_def\<close>)
  show ?thesis
    unfolding finalize_and_respond_def Let_def assms(1) key_def[symmetric]
    by (rule holds_chain[OF flow], rule holds_construct[OF _ stay stay],
        rule holds_chain[OF transact], rule answer)
qed

section \<open>The turn\<close>

lemma accept_holds:
  fixes k :: turn_work and m :: nat and sid :: string
  assumes "se_session_id (tw_session k) = sid"
  defines "key \<equiv> turn_key sid (tw_key k)" and "p0 \<equiv> Phase Active m"
  shows "holds (safe p0 sid) (working sid key p0) (accept_turn k n) (answered p0 sid key) (\<lambda>_. safe p0 sid)"
proof -
  have q: "holds (safe p0 sid) (working sid key p0) p (\<lambda>_. working sid key p0) (\<lambda>_. safe p0 sid)"
    if "quietly p" for p
    using that by (rule quiet_holds) (rule fail_stay)
  have final: "holds (safe p0 sid) (working sid key p0) (finalize_and_respond k turn turns synthesis None)
      (answered p0 sid key) (\<lambda>_. safe p0 sid)" for turn turns synthesis
    unfolding key_def p0_def
    by (rule finalize_holds[OF assms(1)]) (simp_all add: turn_move.intros)
  show ?thesis
    unfolding accept_turn_def stage_of_def construct_def
    by (rule holds_chain[OF q] final quietly_intros)+
qed

lemma finish_holds:
  fixes k :: turn_work and m :: nat and sid :: string
  assumes "se_session_id (tw_session k) = sid" "m \<le> 9"
  defines "key \<equiv> turn_key sid (tw_key k)" and "p0 \<equiv> Phase Active m"
  shows "holds (safe p0 sid) (working sid key p0) (finish_turn k n (m + 1) message d final rationale)
    (answered p0 sid key) (\<lambda>_. safe p0 sid)"
proof -
  let ?o = "evaluate_gate (m + 1) (fo_delegation final)"
  have q: "holds (safe p0 sid) (working sid key ph) p (\<lambda>_. working sid key ph) (\<lambda>_. safe p0 sid)"
    if "quietly p" "turn_move p0 None ph" for p ph
    using that by (rule quiet_holds)
  have park: "?o = Park \<longleftrightarrow> m = 9"
    using assms(2) by (auto simp: evaluate_gate_def PARK_TURN_def)
  have persist: "holds (safe p0 sid) (working sid key p0)
      (persist_and_respond k sid turn ?o synthesis resolutions (m + 1)) (answered p0 sid key)
      (\<lambda>_. safe p0 sid)" if "?o \<noteq> Finalize" for turn synthesis resolutions
    unfolding key_def p0_def using assms(2) park that by (rule persist_holds)
  show ?thesis
  proof (cases "?o = Finalize")
    case True
    then have m: "m < 9" using park assms(2) by auto
    have moved: "turn_move p0 None (Phase Active (m + 1))"
      using m unfolding p0_def by (auto intro: fail_agree)
    have counted: "holds (safe p0 sid) (working sid key p0)
        (update_session_alone sid (no_update\<lparr>up_count := Some (m + 1)\<rparr>))
        (\<lambda>_. working sid key (Phase Active (m + 1))) (\<lambda>_. safe p0 sid)"
      using update_alone_holds[of "no_update\<lparr>up_count := Some (m + 1)\<rparr>" p0 p0 sid key] moved
      by (simp add: no_update_def retires_def p0_def move_phase.simps fail_stay)
    have final: "holds (safe p0 sid) (working sid key (Phase Active (m + 1)))
        (finalize_and_respond k turn turns synthesis (Some (m + 1))) (answered p0 sid key)
        (\<lambda>_. safe p0 sid)" for turn turns synthesis
      unfolding key_def
      by (rule finalize_holds[OF assms(1)]) (use m moved in \<open>auto simp: p0_def intro: fail_agree move_agree\<close>)
    show ?thesis
      unfolding finish_turn_def stage_of_def construct_def Let_def assms(1) if_P[OF True]
      by (rule holds_chain[OF counted] holds_chain[OF q] final fail_stay moved quietly_intros)+
  next
    case False
    show ?thesis
      unfolding finish_turn_def construct_def Let_def assms(1) if_not_P[OF False]
      by (rule holds_chain[OF q] persist[OF False] fail_stay quietly_intros)+
  qed
qed

lemma message_holds:
  fixes k :: turn_work and m :: nat and sid :: string
  assumes "se_session_id (tw_session k) = sid" "se_turn_count (tw_session k) = m"
  defines "key \<equiv> turn_key sid (tw_key k)" and "p0 \<equiv> Phase Active m"
  shows "holds (safe p0 sid) (working sid key p0) (message_turn k n message turns) (answered p0 sid key)
    (\<lambda>_. safe p0 sid)"
proof (cases "m \<le> 9")
  case True
  have q: "holds (safe p0 sid) (working sid key p0) p (\<lambda>_. working sid key p0) (\<lambda>_. safe p0 sid)"
    if "quietly p" for p
    using that by (rule quiet_holds) (rule fail_stay)
  have finish: "holds (safe p0 sid) (working sid key p0) (finish_turn k n (m + 1) message d final rationale)
      (answered p0 sid key) (\<lambda>_. safe p0 sid)" for d final rationale
    unfolding key_def p0_def by (rule finish_holds[OF assms(1) True])
  show ?thesis
    unfolding message_turn_def Let_def assms(2) case_prod_beta
    by (rule holds_chain[OF q] finish quietly_intros)+
next
  case False
  then show ?thesis
    by (auto simp: message_turn_def assms(2) PARK_TURN_def demand_def p0_def
        intro!: holds_Raise intro: safe_intro fail_stay dest: working_phase)
qed

lemma active_holds:
  fixes k :: turn_work and m :: nat and sid :: string
  assumes "se_session_id (tw_session k) = sid" "phase_of (tw_session k) = Phase Active m"
  defines "key \<equiv> turn_key sid (tw_key k)" and "p0 \<equiv> Phase Active m"
  shows "holds (safe p0 sid) (working sid key p0) (active_turn k q) (answered p0 sid key) (\<lambda>_. safe p0 sid)"
proof -
  have "se_turn_count (tw_session k) = m" using assms(2) by (simp add: phase_of_def)
  then show ?thesis
    unfolding active_turn_def key_def p0_def
    using accept_holds[OF assms(1)] message_holds[OF assms(1)]
    by (intro holds_chain[OF quiet_holds[OF quiet_reads(1) fail_stay]])
       (auto intro!: holds_Raise intro: safe_intro fail_stay dest: working_phase split: option.split)
qed

lemma turn_fresh_holds:
  assumes "\<And>d. holds I P (f (k\<lparr>tw_deadline := d\<rparr>)) Q (\<lambda>_. safe ph0 sid)"
    "P = working sid key ph" "turn_move ph0 None ph" "I = safe ph0 sid"
  shows "holds I P (chain (fresh_deadline k) f) Q (\<lambda>_. safe ph0 sid)"
proof (rule holds_chain)
  show "holds I P (fresh_deadline k) (\<lambda>k' w. P w \<and> (\<exists>d. k' = k\<lparr>tw_deadline := d\<rparr>)) (\<lambda>_. safe ph0 sid)"
    unfolding fresh_deadline_def assms(2,4)
    by (rule holds_chain[OF quiet_holds[OF quiet.deadline_inside assms(3)]])
       (use assms(3) in \<open>auto intro!: holds_Ret intro: safe_intro dest: working_phase\<close>)
  show "holds I (\<lambda>w. P w \<and> (\<exists>d. k' = k\<lparr>tw_deadline := d\<rparr>)) (f k') Q (\<lambda>_. safe ph0 sid)" for k'
    by (rule holds_pure) (use assms(1) in auto)
qed

lemma resume_holds:
  fixes k :: turn_work and m :: nat and sid :: string
  assumes "se_session_id (tw_session k) = sid"
  defines "key \<equiv> turn_key sid (tw_key k)" and "p0 \<equiv> Phase Finalizing m"
  shows "holds (safe p0 sid) (working sid key p0) (resume_finalizing k) (answered p0 sid key)
    (\<lambda>_. safe p0 sid)"
proof -
  have q: "holds (safe p0 sid) (working sid key p0) p (\<lambda>_. working sid key p0) (\<lambda>_. safe p0 sid)"
    if "quietly p" for p
    using that by (rule quiet_holds) (rule fail_stay)
  have final: "holds (safe p0 sid) (working sid key p0)
      (finalize_and_respond (k\<lparr>tw_deadline := d\<rparr>) turn turns synthesis None)
      (answered p0 sid key) (\<lambda>_. safe p0 sid)" for d turn turns synthesis
    unfolding key_def p0_def
    using finalize_holds[of "k\<lparr>tw_deadline := d\<rparr>" sid p0 Finalizing m None] assms(1)
    by (simp add: p0_def turn_move.intros)
  have last: "holds (safe p0 sid) (working sid key p0)
      (chain (fresh_deadline k) (\<lambda>k. finalize_and_respond k turn turns synthesis None))
      (answered p0 sid key) (\<lambda>_. safe p0 sid)" for turn turns synthesis
    by (rule turn_fresh_holds[OF _ refl fail_stay refl]) (rule final)
  show ?thesis
    unfolding resume_finalizing_def stage_of_def
    by (rule last | rule holds_chain[OF q] quietly_intros)+
qed

lemma get_session_reads:
  "World.get_session sid user w = (r, x) \<Longrightarrow> x = w \<and> (\<forall>s. r = Inr (Some s) \<longrightarrow> map_of (w_sessions w) sid = Some s)"
  by (auto simp: World.get_session_def checked_def comp_simps split: option.splits if_splits)

lemma working_row:
  "working sid k ph w \<Longrightarrow> map_of (w_sessions w) sid = Some s \<Longrightarrow> se_session_id s = sid \<and> phase_of s = ph"
  by (auto simp: working_def in_phase_def)

text \<open>The state dispatch: the row read is the session in its phase.\<close>

lemma dispatch_holds:
  fixes ph0 :: phase and sid :: string and key :: uuid
  assumes "\<forall>r. claim \<noteq> Replay r"
  defines "k \<equiv> turn_key sid key"
  shows "holds (safe ph0 sid) (working sid k ph0) (dispatch_turn env sid q key correlation user claim)
    (answered ph0 sid k) (\<lambda>_. safe ph0 sid)"
proof -
  let ?k = "\<lambda>s. \<lparr>tw_env = env, tw_session = s, tw_key = key, tw_correlation = correlation, tw_deadline = 0\<rparr>"
  have stay: "working sid k ph0 w \<Longrightarrow> safe ph0 sid w" for w
    by (auto intro: safe_intro fail_stay dest: working_phase)
  have read: "holds (safe ph0 sid) (working sid k ph0) (perform (World.get_session sid user))
     (\<lambda>found w. working sid k ph0 w \<and> (\<forall>s. found = Some s \<longrightarrow> se_session_id s = sid \<and> phase_of s = ph0))
     (\<lambda>_. safe ph0 sid)"
    by (rule holds_perform) (use get_session_reads stay working_row in blast)+
  have released: "holds (safe ph0 sid) (working sid k ph0)
      (chain (perform (claim_release k)) (\<lambda>_. Raise e)) (answered ph0 sid k) (\<lambda>_. safe ph0 sid)" for e
  proof (rule holds_chain[where M = "\<lambda>_. safe ph0 sid"])
    show "holds (safe ph0 sid) (working sid k ph0) (perform (claim_release k)) (\<lambda>_. safe ph0 sid) (\<lambda>_. safe ph0 sid)"
      by (rule holds_perform)
         (auto simp: claim_release_def comp_simps safe_def working_def in_phase_def
            intro: fail_stay split: option.splits if_splits)
  qed (simp add: holds_Raise)
  have active: "holds (safe ph0 sid) (working sid k ph0)
      (chain (fresh_deadline (?k s)) (\<lambda>k. active_turn k q)) (answered ph0 sid k) (\<lambda>_. safe ph0 sid)"
    if "se_session_id s = sid" "phase_of s = ph0" "se_state s = Active" for s
  proof (rule turn_fresh_holds[OF _ refl fail_stay refl])
    show "holds (safe ph0 sid) (working sid k ph0) (active_turn (?k s\<lparr>tw_deadline := d\<rparr>) q)
        (answered ph0 sid k) (\<lambda>_. safe ph0 sid)" for d
      using active_holds[of "?k s\<lparr>tw_deadline := d\<rparr>" sid "se_turn_count s" q] that
      by (simp add: k_def phase_of_def)
  qed
  have resume: "holds (safe ph0 sid) (working sid k ph0) (resume_finalizing (?k s))
      (answered ph0 sid k) (\<lambda>_. safe ph0 sid)"
    if "se_session_id s = sid" "phase_of s = ph0" "se_state s = Finalizing" for s
    using resume_holds[of "?k s" sid "se_turn_count s"] that by (simp add: k_def phase_of_def)
  show ?thesis
    unfolding dispatch_turn_def Let_def k_def[symmetric]
    by (rule holds_chain[OF read], rule holds_pure)
       (auto intro!: holds_Raise active resume released intro: stay split: option.split)
qed

section \<open>The request\<close>

definition pending :: "claim_key \<Rightarrow> world \<Rightarrow> bool" where
  "pending k w = (\<forall>row. map_of (w_claims w) k = Some row \<longrightarrow> \<not> cl_completed row)"

definition ready :: "string \<Rightarrow> claim_key \<Rightarrow> phase \<Rightarrow> world \<Rightarrow> bool" where
  "ready sid k ph w = (in_phase sid ph w \<and> pending k w)"

lemma ready_safe: "ready sid k ph w \<Longrightarrow> safe ph sid w"
  by (auto simp: ready_def intro: safe_intro fail_stay)

lemma ready_quiet: "ready sid k ph w \<Longrightarrow> quiet w x \<Longrightarrow> ready sid k ph x"
  unfolding ready_def using quiet_stable(1) by (auto simp: pending_def quiet_def)

lemma ready_holds:
  "quietly p \<Longrightarrow> holds (safe ph sid) (ready sid k ph) p (\<lambda>_. ready sid k ph) (\<lambda>_. safe ph sid)"
  by (rule holds_inside[where R = quiet]) (auto intro: quiet_refl quiet_trans ready_quiet ready_safe)

lemma safe_holds:
  "quietly p \<Longrightarrow> holds (safe ph sid) (safe ph sid) p (\<lambda>_. safe ph sid) (\<lambda>_. safe ph sid)"
  by (rule holds_inside[where R = quiet]) (auto intro: quiet_refl quiet_trans quiet_stable)

lemma answered_safe: "answered ph sid k r w \<Longrightarrow> safe ph sid w"
  unfolding answered_def by (auto intro: safe_intro fail_late)

lemma answered_holds:
  "quietly p \<Longrightarrow> holds (safe ph sid) (answered ph sid k r) p (\<lambda>_. answered ph sid k r) (\<lambda>_. safe ph sid)"
  by (rule holds_inside[where R = quiet]) (auto intro: quiet_refl quiet_trans quiet_stable answered_safe)

lemma claim_holds:
  "holds (safe ph sid) (ready sid k ph) (idempotency_claim k fp)
     (\<lambda>out w. working sid k ph w \<and> (\<forall>r. out \<noteq> Replay r)) (\<lambda>_. safe ph sid)"
proof -
  let ?mid = "\<lambda>b w. ready sid k ph w \<and> map_of (w_claims w) k \<noteq> None"
  have insert: "holds (safe ph sid) (ready sid k ph) (perform (claim_insert k fp)) ?mid (\<lambda>_. safe ph sid)"
    by (rule holds_perform)
       (auto simp: claim_insert_def comp_simps ready_def pending_def in_phase_def map_of_dict_put safe_def
          intro: fail_stay split: option.splits)
  have look: "holds (safe ph sid) (?mid b) (perform (gets (\<lambda>w. map_of (w_claims w) k)))
      (\<lambda>row w. working sid k ph w \<and> (\<forall>c. row = Some c \<longrightarrow> \<not> cl_completed c)) (\<lambda>_. safe ph sid)" for b :: bool
    by (rule holds_perform) (auto simp: comp_simps ready_def pending_def working_def intro: safe_intro fail_stay)
  have judge: "holds (safe ph sid) (\<lambda>w. working sid k ph w \<and> (\<forall>c. row = Some c \<longrightarrow> \<not> cl_completed c))
      (case claim_outcome_of fp row of Inl e \<Rightarrow> Raise e | Inr r \<Rightarrow> Ret r)
      (\<lambda>out w. working sid k ph w \<and> (\<forall>r. out \<noteq> Replay r)) (\<lambda>_. safe ph sid)" for row
    by (rule holds_pure)
       (auto simp: claim_outcome_of_def intro!: holds_Ret holds_Raise intro: safe_intro fail_stay
          dest: working_phase split: option.split)
  have "holds (safe ph sid) (?mid b)
      (if b then Ret Claimed else chain (perform (gets (\<lambda>w. map_of (w_claims w) k))) (\<lambda>row.
         case claim_outcome_of fp row of Inl e \<Rightarrow> Raise e | Inr r \<Rightarrow> Ret r))
      (\<lambda>out w. working sid k ph w \<and> (\<forall>r. out \<noteq> Replay r)) (\<lambda>_. safe ph sid)" for b
  proof (cases b)
    case True
    then show ?thesis
      by (auto intro!: holds_Ret simp: working_def ready_def intro: safe_intro fail_stay)
  next
    case False
    show ?thesis unfolding if_not_P[OF False] by (rule holds_chain[OF look judge])
  qed
  then show ?thesis
    unfolding idempotency_claim_def by (rule holds_chain[OF insert])
qed

lemma execute_holds:
  "holds (safe ph sid) (ready sid (turn_key sid key) ph) (execute_turn env sid q key correlation user)
     (answered ph sid (turn_key sid key)) (\<lambda>_. safe ph sid)"
  unfolding execute_turn_def
  by (rule holds_chain[OF claim_holds], rule holds_pure)
     (auto intro: dispatch_holds split: claim_outcome.split)

lemma post_turn_holds:
  "holds (safe ph sid) (ready sid (turn_key sid key) ph) (post_turn env sid q key correlation user)
     (answered ph sid (turn_key sid key)) (\<lambda>_. safe ph sid)"
proof -
  have lease: "holds (safe ph sid) (ready sid (turn_key sid key) ph)
      (under_lease env sid (execute_turn env sid q key correlation user))
      (answered ph sid (turn_key sid key)) (\<lambda>_. safe ph sid)"
    unfolding under_lease_def
    by (rule holds_chain[OF ready_holds[OF quiet_acquire]], rule holds_ensure[OF execute_holds])
       (rule answered_holds[OF quiet_clear] safe_holds[OF quiet_clear])+
  have turn: "holds (safe ph sid) (ready sid (turn_key sid key) ph) (run_turn env sid q key correlation user)
      (answered ph sid (turn_key sid key)) (\<lambda>_. safe ph sid)"
    unfolding run_turn_def
    by (rule holds_chain[OF ready_holds[OF quiet_reads(2)]])
       (auto intro!: holds_Raise lease intro: ready_safe split: option.split)
  show ?thesis
    unfolding post_turn_def
    by (rule holds_chain[OF ready_holds], simp add: demand_def inside_intros,
        rule holds_rescue[OF turn])
       (auto intro!: holds_Raise split: exc.split)
qed

text \<open>C1. A turn request served without interference refines the abstract lifecycle. Let the
  session be in any phase and the request's key have no completed claim. If the request returns an
  answer, the session made exactly the move the answer reports (one more counted turn; parked at
  the tenth; or completed), its stored state is the answer's state, and the answer is recorded
  under the key. If it raises, or the process dies at any point in between, the session is in a
  phase that the lifecycle allows for a request without an answer: unchanged, waiting for
  finalization, one turn further, or in the state of a committed but undelivered answer.\<close>

theorem turn_refines_lifecycle:
  assumes "map_of (w_sessions w) sid = Some s" "se_session_id s = sid" "pending (turn_key sid key) w"
  shows "always (safe (phase_of s) sid) (post_turn env sid q key correlation user) w \<and>
    (case run (post_turn env sid q key correlation user) w of
       (Inr r, x) \<Rightarrow> answered (phase_of s) sid (turn_key sid key) r x
     | (Inl e, x) \<Rightarrow> safe (phase_of s) sid x)"
proof -
  have "ready sid (turn_key sid key) (phase_of s) w"
    using assms by (auto simp: ready_def in_phase_def)
  then show ?thesis
    by (rule post_turn_holds[unfolded holds_def, rule_format])
qed

text \<open>A turn on an active session whose agents are unreachable.\<close>

lemma turn_refines_lifecycle_witness:
  "always (safe (Phase Active 1) demo_sid)
     (post_turn demo_app demo_sid \<lparr>tq_message = Some ''hello'', tq_po_accepted = False\<rparr> demo_user 1 demo_user)
     (demo_tables\<lparr>w_sessions := [(demo_sid, demo_session Active)]\<rparr>)"
  using turn_refines_lifecycle[of "demo_tables\<lparr>w_sessions := [(demo_sid, demo_session Active)]\<rparr>" demo_sid
      "demo_session Active" demo_user demo_app "\<lparr>tq_message = Some ''hello'', tq_po_accepted = False\<rparr>" 1 demo_user]
  by (simp add: demo_session_def phase_of_def pending_def demo_tables_def empty_world_def)

end
