(* ===== verification/Session_Laws.thy ===== *)
theory Session_Laws
  imports Lifecycle
begin

text \<open>
  What the ending endpoints do when they run without interference: abandoning parks the session
  and frees its story, repeating the request answers the same, and an ended session refuses
  turns without moving.
\<close>

section \<open>Abandoning\<close>

lemma get_session_run:
  "map_of (w_sessions w) sid = Some s \<Longrightarrow> se_user_id s = user \<Longrightarrow> valid_SessionRecord s \<Longrightarrow>
   World.get_session sid user w = (Inr (Some s), w)"
  by (simp add: World.get_session_def checked_def comp_simps)

lemma clear_run:
  "holds_lease w sid token \<Longrightarrow>
   run (clear_and_release sid token) w =
     (Inr (), (snd (set_processing_stage sid None w))\<lparr>w_leases := dict_remove sid (w_leases w)\<rparr>)"
  by (auto simp: clear_and_release_def run_simps set_processing_stage_def lease_release_def holds_lease_def
      comp_simps split: option.splits)

abbreviation parked_answer :: "string \<Rightarrow> AbandonSessionResponse" where
  "parked_answer sid \<equiv> \<lparr>ab_session_id = sid, ab_state = Parked\<rparr>"

definition after_parking :: "string \<Rightarrow> uuid \<Rightarrow> SessionRecord \<Rightarrow> claim_row \<Rightarrow> world \<Rightarrow> world" where
  "after_parking sid key s row w =
     w\<lparr>w_runs := updated_runs (set_state Parked) (w_clock w) s (w_runs w),
       w_sessions := dict_put sid (apply_update (set_state Parked) (w_clock w) s) (w_sessions w),
       w_claims := dict_put (abandon_key sid key)
         (row\<lparr>cl_completed := True, cl_response := Some (CanonAbandon (parked_answer sid))\<rparr>) (w_claims w),
       w_events := SessionParked sid (se_turn_count s) # w_events w\<rparr>"

lemma park_session_run:
  assumes "map_of (w_sessions w) sid = Some s" "se_session_id s = sid" "SessionId sid"
    "map_of (w_claims w) (abandon_key sid key) = Some row"
  shows "run (park_session s key) w = (Inr (parked_answer sid), after_parking sid key s row w)"
proof -
  have "fst (update_session sid (set_state Parked) w) = Inr ()"
    by (simp add: update_session_def update_session_row_def retire_story_run_def update_story_run_state_def
        set_state_def no_update_def retires_def assms(1) comp_simps map_of_dict_put split: option.split)
  then have "update_session sid (set_state Parked) w =
      (Inr (), w\<lparr>w_runs := updated_runs (set_state Parked) (w_clock w) s (w_runs w),
         w_sessions := dict_put sid (apply_update (set_state Parked) (w_clock w) s) (w_sessions w)\<rparr>)"
    using update_session_result[of sid "set_state Parked" w] assms(1) by (cases "update_session sid (set_state Parked) w") auto
  then show ?thesis
    using assms
    by (simp add: park_session_def Let_def run_simps comp_simps claim_complete_def emit_def construct_def
        valid_AbandonSessionResponse_def after_parking_def)
qed

lemma with_lease_keeps [simp]:
  "w_sessions (with_lease tok sid w) = w_sessions w" "w_claims (with_lease tok sid w) = w_claims w"
  "w_runs (with_lease tok sid w) = w_runs w" "w_clock (with_lease tok sid w) = w_clock w"
  by (simp_all add: with_lease_def)

lemma with_lease_holds: "holds_lease (with_lease tok sid w) sid (tok (w_tokens w))"
  by (simp add: with_lease_def holds_lease_def map_of_dict_put)

lemma set_stage_keeps:
  "snd (set_processing_stage sid stage w) =
     w\<lparr>w_stages := (if map_of (w_sessions w) sid = None then w_stages w else dict_put sid stage (w_stages w))\<rparr>"
  by (simp add: set_processing_stage_def comp_simps split: option.split)

definition released :: "string \<Rightarrow> world \<Rightarrow> world" where
  "released sid w = (snd (set_processing_stage sid None w))\<lparr>w_leases := dict_remove sid (w_leases w)\<rparr>"

lemma released_keeps [simp]:
  "w_sessions (released sid w) = w_sessions w" "w_claims (released sid w) = w_claims w"
  "w_runs (released sid w) = w_runs w" "w_clock (released sid w) = w_clock w"
  "map_of (w_leases (released sid w)) sid = None"
  by (simp_all add: released_def set_stage_keeps map_of_dict_remove)

definition fresh_claim :: "string \<Rightarrow> claim_row" where
  "fresh_claim fp = \<lparr>cl_fingerprint = fp, cl_completed = False, cl_response = None\<rparr>"

definition parking_start :: "app_env \<Rightarrow> string \<Rightarrow> uuid \<Rightarrow> world \<Rightarrow> world" where
  "parking_start env sid key w =
     (with_lease (en_token env) sid w)\<lparr>w_claims :=
        dict_put (abandon_key sid key) (fresh_claim (en_fingerprint env BodyEmpty)) (w_claims w)\<rparr>"

definition abandoned :: "app_env \<Rightarrow> string \<Rightarrow> uuid \<Rightarrow> SessionRecord \<Rightarrow> world \<Rightarrow> world" where
  "abandoned env sid key s w =
     released sid (after_parking sid key s (fresh_claim (en_fingerprint env BodyEmpty)) (parking_start env sid key w))"

lemma abandon_run:
  assumes "is_uuid4 key" "map_of (w_sessions w) sid = Some s" "se_user_id s = user" "valid_SessionRecord s"
    "se_session_id s = sid" "se_state s = Active \<or> se_state s = Finalizing" "contended w sid = None"
    "map_of (w_claims w) (abandon_key sid key) = None"
  shows "run (abandon_session env sid key correlation user) w =
    (Inr (parked_answer sid), abandoned env sid key s w)"
proof -
  let ?w = "with_lease (en_token env) sid w" and ?v = "parking_start env sid key w"
  let ?row = "fresh_claim (en_fingerprint env BodyEmpty)"
  have sid: "SessionId sid" using assms(4,5) by (auto simp: valid_SessionRecord_def)
  have claim: "run (idempotency_claim (abandon_key sid key) (en_fingerprint env BodyEmpty)) ?w = (Inr Claimed, ?v)"
    using assms(8) by (simp add: claim_run parking_start_def fresh_claim_def)
  have reads: "World.get_session sid user w = (Inr (Some s), w)" "World.get_session sid user ?v = (Inr (Some s), ?v)"
    using assms by (auto intro!: get_session_run simp: parking_start_def)
  have park: "run (park_session s key) ?v = (Inr (parked_answer sid), after_parking sid key s ?row ?v)"
    by (rule park_session_run) (simp_all add: assms sid parking_start_def map_of_dict_put)
  have "holds_lease (after_parking sid key s ?row ?v) sid (en_token env (w_tokens w))"
    using with_lease_holds[of "en_token env" sid w]
    by (simp add: after_parking_def parking_start_def holds_lease_def)
  then have clear: "run (clear_and_release sid (en_token env (w_tokens w))) (after_parking sid key s ?row ?v) =
      (Inr (), abandoned env sid key s w)"
    by (simp add: clear_run abandoned_def released_def set_stage_keeps after_parking_def)
  show ?thesis
    using assms(1,6,7)
    by (simp add: abandon_session_def park_now_def run_simps reads acquire_run[OF assms(2)] claim park clear)
qed

lemma abandon_replay:
  assumes "is_uuid4 key" "map_of (w_sessions w) sid = Some s" "se_user_id s = user" "valid_SessionRecord s"
    "contended w sid = None" "map_of (w_claims w) (abandon_key sid key) = Some row" "cl_completed row"
    "cl_fingerprint row = en_fingerprint env BodyEmpty" "cl_response row = Some (CanonAbandon a)"
    "valid_AbandonSessionResponse a"
  shows "run (abandon_session env sid key correlation user) w =
    (Inr a, released sid (with_lease (en_token env) sid w))"
  using assms with_lease_holds[of "en_token env" sid w]
  by (simp add: abandon_session_def park_now_def run_simps get_session_run acquire_run[OF assms(2)]
      claim_run replay_abandon_def construct_def clear_run released_def set_stage_keeps)

text \<open>C5. Abandoning an active or finalizing session that nobody is working on terminates with the
  parked answer: the session is parked with its turn count unchanged, its story run is no longer
  active, the lease is gone, and repeating the request with the same key gives the same answer and
  changes no session and no run.\<close>

theorem abandon_parks:
  assumes "db_ok w" "is_uuid4 key" "map_of (w_sessions w) sid = Some s" "se_user_id s = user"
    "valid_SessionRecord s" "se_state s = Active \<or> se_state s = Finalizing" "contended w sid = None"
    "map_of (w_claims w) (abandon_key sid key) = None"
  shows "\<exists>x. run (abandon_session env sid key correlation user) w = (Inr (parked_answer sid), x) \<and>
    in_phase sid (Phase Parked (se_turn_count s)) x \<and>
    (\<exists>r. map_of (w_runs x) (se_story_run_id s) = Some r \<and> \<not> occupies r) \<and>
    map_of (w_leases x) sid = None \<and>
    (\<exists>y. run (abandon_session env sid key correlation2 user) x = (Inr (parked_answer sid), y) \<and>
       w_sessions y = w_sessions x \<and> w_runs y = w_runs x)"
proof -
  let ?x = "abandoned env sid key s w"
  have ok: "session_ok (w_runs w) sid s" using assms(1,3) by (simp add: db_ok_def sessions_ok_def)
  then have sid: "se_session_id s = sid" by (simp add: session_ok_def)
  obtain r where r: "map_of (w_runs w) (se_story_run_id s) = Some r" using ok by (auto simp: session_ok_def)
  have row: "map_of (w_sessions ?x) sid = Some (apply_update (set_state Parked) (w_clock w) s)"
    by (simp add: abandoned_def after_parking_def parking_start_def map_of_dict_put)
  have phase: "in_phase sid (Phase Parked (se_turn_count s)) ?x"
    using row sid by (simp add: in_phase_def apply_update_def set_state_def no_update_def phase_of_def)
  have run: "map_of (w_runs ?x) (se_story_run_id s) = Some (r\<lparr>sr_state := Parked, sr_updated_at := w_clock w\<rparr>)"
    using r by (simp add: abandoned_def after_parking_def parking_start_def updated_runs_def set_state_def
        no_update_def retires_def map_of_dict_put)
  have valid: "valid_SessionRecord (apply_update (set_state Parked) (w_clock w) s)"
    using assms(5) by (cases "se_final_review_reference s")
       (simp_all add: valid_SessionRecord_def validate_formats_and_artifacts_def apply_update_def
          set_state_def no_update_def Let_def)
  have "run (abandon_session env sid key correlation2 user) ?x =
      (Inr (parked_answer sid), released sid (with_lease (en_token env) sid ?x))"
  proof (rule abandon_replay[OF assms(2) row _ valid])
    show "contended ?x sid = None" by (simp add: contended_def abandoned_def)
    show "map_of (w_claims ?x) (abandon_key sid key) = Some ((fresh_claim (en_fingerprint env BodyEmpty))
        \<lparr>cl_completed := True, cl_response := Some (CanonAbandon (parked_answer sid))\<rparr>)"
      by (simp add: abandoned_def after_parking_def map_of_dict_put)
    show "valid_AbandonSessionResponse (parked_answer sid)"
      using assms(5) sid by (auto simp: valid_AbandonSessionResponse_def valid_SessionRecord_def)
  qed (simp_all add: fresh_claim_def apply_update_def assms(4))
  moreover have "map_of (w_leases ?x) sid = None" by (simp add: abandoned_def)
  ultimately show ?thesis
    using abandon_run[OF assms(2,3,4,5) sid assms(6,7,8)] phase run by (auto simp: occupies_def)
qed

section \<open>Ended sessions\<close>

text \<open>C10. A parked or completed session refuses every new turn: without interference the request
  raises, and at no point in between has the session left its state or its turn count.\<close>

theorem ended_session_refuses_turns:
  assumes "map_of (w_sessions w) sid = Some s" "se_session_id s = sid" "pending (turn_key sid key) w"
    "se_state s = Parked \<or> se_state s = Completed"
  shows "always (in_phase sid (phase_of s)) (post_turn env sid q key correlation user) w \<and>
    (\<exists>e x. run (post_turn env sid q key correlation user) w = (Inl e, x))"
proof -
  have start: "ready sid (turn_key sid key) (phase_of s) w"
    using assms(1-3) by (auto simp: ready_def in_phase_def)
  have ended: "ph_state (phase_of s) = Parked \<or> ph_state (phase_of s) = Completed"
    using assms(4) by (simp add: phase_of_def)
  have "in_phase sid (phase_of s) x" if "safe (phase_of s) sid x" for x
    using that ended_moves[OF _ ended] by (auto simp: safe_def)
  then have "always (in_phase sid (phase_of s)) (post_turn env sid q key correlation user) w"
    using holds_always[OF post_turn_holds start] by (auto simp: always_visits)
  moreover have "\<not> answered (phase_of s) sid (turn_key sid key) r x" for r x
    using ended by (auto simp: answered_def elim!: turn_moveE)
  then have "\<exists>e x. run (post_turn env sid q key correlation user) w = (Inl e, x)"
    using holds_returned[OF post_turn_holds start]
    by (cases "run (post_turn env sid q key correlation user) w"; cases "fst (run (post_turn env sid q key correlation user) w)") auto
  ultimately show ?thesis ..
qed

section \<open>The lease around a request\<close>

text \<open>C11. The lease never outlives the request that took it: whatever the work under it does,
  returns or raises, once the request is over its token holds no lease of the session.\<close>

theorem lease_released:
  assumes "map_of (w_sessions w) sid \<noteq> None" "contended w sid = None"
  shows "\<not> holds_lease (snd (run (under_lease env sid body) w)) sid (en_token env (w_tokens w))"
proof -
  obtain s where s: "map_of (w_sessions w) sid = Some s" using assms(1) by blast
  let ?token = "en_token env (w_tokens w)"
  obtain r x where body: "run body (with_lease (en_token env) sid w) = (r, x)"
    by (cases "run body (with_lease (en_token env) sid w)")
  have "\<exists>y. run (clear_and_release sid ?token) x = (Inr (), y) \<and> \<not> holds_lease y sid ?token"
    by (auto simp: clear_and_release_def run_simps lease_release_def set_processing_stage_def holds_lease_def
        comp_simps map_of_dict_remove split: option.split)
  then obtain y where "run (clear_and_release sid ?token) x = (Inr (), y)" "\<not> holds_lease y sid ?token"
    by blast
  then show ?thesis
    using acquire_run[OF s, of "en_token env"] assms(2) body by (simp add: under_lease_def run_simps)
qed

section \<open>Replays\<close>

lemma signer_downloads_run: "snd (run (signer_downloads env refs) w) = w"
proof -
  have one: "snd (run (signer_download env ref) w) = w" for ref w
    by (simp add: signer_download_def now_def run_simps comp_simps construct_def split: option.split)
  show ?thesis
    unfolding signer_downloads_def
  proof (induction refs)
    case (Cons ref refs)
    show ?case
      using one[of ref w] Cons by (auto simp: run_simps split: prod.splits sum.splits)
  qed (simp add: run_simps)
qed

lemma turn_response_run: "snd (run (turn_response env c resolutions) w) = w"
  using signer_downloads_run[of env "ct_report_references c" w]
  by (auto simp: turn_response_def run_simps construct_def split: prod.splits sum.splits)

text \<open>C9. A turn request whose key has a completed claim for the same body is answered from the
  claim: the result is the one built from the recorded canonical result and the resolutions of
  the recorded turn, with no downstream call, and no session, turn, run, agent run, claim or
  artifact changes, however often it is repeated and in whatever state the session is by now.\<close>

theorem turn_replay:
  assumes "is_uuid4 key" "map_of (w_sessions w) sid = Some s" "se_user_id s = user" "valid_SessionRecord s"
    "contended w sid = None" "map_of (w_claims w) (turn_key sid key) = Some row" "cl_completed row"
    "cl_fingerprint row = en_fingerprint env (BodyTurn q)" "cl_response row = Some (CanonTurn c)"
    "valid_CanonicalTurnResult c" "map_of (w_turns w) (ct_session_id c, ct_turn_number c) = Some t"
    "valid_TurnRecord t" "fst (run (turn_response env c (tu_resolutions t)) (with_lease (en_token env) sid w)) = Inr r"
  shows "run (post_turn env sid q key correlation user) w = (Inr r, released sid (with_lease (en_token env) sid w)) \<and>
    (let x = released sid (with_lease (en_token env) sid w) in
     w_runs x = w_runs w \<and> w_sessions x = w_sessions w \<and> w_turns x = w_turns w \<and> w_agent_runs x = w_agent_runs w \<and>
     w_claims x = w_claims w \<and> w_bucket x = w_bucket w \<and> w_reports x = w_reports w \<and> w_calls x = w_calls w)"
proof -
  let ?w = "with_lease (en_token env) sid w"
  have response: "run (turn_response env c (tu_resolutions t)) ?w = (Inr r, ?w)"
    using assms(13) turn_response_run[of env c "tu_resolutions t" ?w]
    by (cases "run (turn_response env c (tu_resolutions t)) ?w") auto
  have turn: "get_turn (ct_session_id c) (ct_turn_number c) ?w = (Inr (Some t), ?w)"
    using assms(11,12) by (simp add: get_turn_def checked_def comp_simps with_lease_def)
  have clear: "run (clear_and_release sid (en_token env (w_tokens w))) ?w = (Inr (), released sid ?w)"
    using with_lease_holds[of "en_token env" sid w] by (simp add: clear_run released_def set_stage_keeps)
  have "run (execute_turn env sid q key correlation user) ?w = (Inr r, ?w)"
    using assms(6-10) turn response
    by (simp add: execute_turn_def run_simps claim_run response_from_canonical_def construct_def)
  then have "run (post_turn env sid q key correlation user) w = (Inr r, released sid ?w)"
    using assms(1-5) clear
    by (simp add: post_turn_def run_turn_def under_lease_def run_simps get_session_run acquire_run[OF assms(2)])
  then show ?thesis
    by (simp add: Let_def released_def set_stage_keeps with_lease_def)
qed

section \<open>At concrete inputs\<close>

definition demo_active :: world where
  "demo_active = demo_tables\<lparr>w_runs := [(demo_rid, (demo_story_run 5)\<lparr>sr_run_id := demo_rid\<rparr>)],
     w_sessions := [(demo_sid, demo_session Active)]\<rparr>"

lemma demo_active_ok: "db_ok demo_active"
  by (auto simp: demo_active_def demo_tables_def db_ok_def table_defs empty_world_def dict_keys_def
      demo_session_def terminal_def)

lemma demo_user_key: "is_uuid4 demo_user"
  by (simp add: is_uuid4_def uuid_version_def demo_user_def)

lemma demo_sid_ok: "SessionId demo_sid"
  by (simp add: demo_sid_def minted_ids)

lemma demo_texts: "text_ok ''hello''" "text_ok ''hi''" "text_ok ''B-1''" "StoryId ''story-01''"
  by code_simp+

lemma demo_session_valid: "valid_SessionRecord (demo_session Active)"
  using demo_user_key demo_sid_ok
  by (simp add: valid_SessionRecord_def validate_formats_and_artifacts_def demo_session_def demo_rid_def
      minted_ids demo_texts opt_ok_def Let_def)

lemma demo_active_row: "map_of (w_sessions demo_active) demo_sid = Some (demo_session Active)"
  by (simp add: demo_active_def)

lemma abandon_parks_witness:
  "\<exists>x. run (abandon_session demo_app demo_sid demo_user 1 demo_user) demo_active = (Inr (parked_answer demo_sid), x) \<and>
     in_phase demo_sid (Phase Parked 1) x"
proof -
  have "contended demo_active demo_sid = None" "map_of (w_claims demo_active) (abandon_key demo_sid demo_user) = None"
    "se_user_id (demo_session Active) = demo_user" "se_state (demo_session Active) = Active"
    "se_turn_count (demo_session Active) = 1"
    by (simp_all add: contended_def demo_active_def demo_tables_def empty_world_def demo_session_def)
  then show ?thesis
    using abandon_parks[OF demo_active_ok demo_user_key demo_active_row _ demo_session_valid] by metis
qed

lemma ended_session_refuses_turns_witness:
  "\<exists>e x. run (post_turn demo_app demo_sid \<lparr>tq_message = None, tq_po_accepted = True\<rparr> demo_user 1 demo_user) demo_tables
     = (Inl e, x)"
  by (rule ended_session_refuses_turns[where s = "demo_session Parked", THEN conjunct2])
     (simp_all add: demo_tables_def empty_world_def demo_session_def pending_def)

lemma lease_released_witness:
  "\<not> holds_lease (snd (run (under_lease demo_app demo_sid (Raise PythonError :: unit handler)) demo_active)) demo_sid 0"
  using lease_released[of demo_active demo_sid demo_app "Raise PythonError :: unit handler"]
  by (simp add: demo_active_row contended_def demo_active_def demo_tables_def empty_world_def demo_app_def)

text \<open>A recorded second turn, replayed after the session was parked.\<close>

definition demo_turn :: TurnRecord where
  "demo_turn =
     \<lparr>tu_session_id = demo_sid, tu_turn_number = 2, tu_correlation_id = demo_user, tu_state = Succeeded,
      tu_po_message = Some ''hello'', tu_po_accepted = False, tu_facilitator_reply = Some ''hi'',
      tu_rationale_reply = None,
      tu_delegation = Some \<lparr>dd_invoke = InvokeNone, dd_extra_context = None,
        dd_reuse_previous = False, dd_open_issues = [''B-1''], dd_readiness = NeedsWork\<rparr>,
      tu_resolutions = [], tu_new_issues = [], tu_outcome = Some Continue, tu_produced = [],
      tu_created_at = 0, tu_completed_at = Some 0\<rparr>"

definition demo_canonical :: CanonicalTurnResult where
  "demo_canonical = canonical_turn demo_turn demo_sid Continue Active (demo_reference SynthesisArtifact) []"

definition demo_answer :: TurnResponse where
  "demo_answer =
     \<lparr>tr_session_id = demo_sid, tr_turn_number = 2, tr_outcome = Continue, tr_state = Active,
      tr_facilitator_reply = Some ''hi'', tr_rationale_reply = None, tr_issues = [''B-1''],
      tr_delegation = tu_delegation demo_turn, tr_resolutions = [],
      tr_synthesis = Some (demo_reference SynthesisArtifact), tr_report = []\<rparr>"

definition demo_row :: claim_row where
  "demo_row = \<lparr>cl_fingerprint = ''f'', cl_completed = True, cl_response = Some (CanonTurn demo_canonical)\<rparr>"

definition demo_recorded :: world where
  "demo_recorded = demo_active\<lparr>w_turns := [((demo_sid, 2), demo_turn)],
     w_claims := [(turn_key demo_sid demo_user, demo_row)]\<rparr>"

lemma demo_turn_valid: "valid_TurnRecord demo_turn" "valid_CanonicalTurnResult demo_canonical"
    "valid_TurnResponse demo_answer"
  using demo_user_key demo_sid_ok
  by (simp_all add: valid_TurnRecord_def valid_CanonicalTurnResult_def valid_TurnResponse_def
      validate_turn_state_def valid_DelegationDecision_def validate_combination_def demo_turn_def
      demo_canonical_def demo_answer_def canonical_turn_def turn_issues_def reports_only_def
      demo_reference_def demo_texts opt_ok_def)

lemma turn_replay_witness:
  "fst (run (post_turn demo_app demo_sid \<lparr>tq_message = Some ''hello'', tq_po_accepted = False\<rparr> demo_user 1 demo_user)
     demo_recorded) = Inr demo_answer"
proof -
  have response: "fst (run (turn_response demo_app demo_canonical (tu_resolutions demo_turn)) w) = Inr demo_answer" for w
    using demo_turn_valid(3)
    by (simp add: turn_response_def signer_downloads_def run_simps construct_def demo_canonical_def
        canonical_turn_def demo_turn_def demo_answer_def turn_issues_def)
  have "run (post_turn demo_app demo_sid \<lparr>tq_message = Some ''hello'', tq_po_accepted = False\<rparr> demo_user 1 demo_user)
     demo_recorded = (Inr demo_answer, released demo_sid (with_lease (en_token demo_app) demo_sid demo_recorded))"
    by (rule turn_replay[where s = "demo_session Active" and c = demo_canonical and t = demo_turn and row = demo_row,
          THEN conjunct1, OF demo_user_key _ _ demo_session_valid])
       (simp_all add: demo_turn_valid response, simp_all add: demo_row_def demo_recorded_def demo_active_def demo_session_def
          demo_tables_def empty_world_def contended_def demo_app_def demo_canonical_def canonical_turn_def demo_turn_def)
  then show ?thesis by simp
qed

end
