(* ===== verification/Cursors.thy ===== *)
theory Cursors
  imports Calendar
begin

text \<open>
  The list cursor of \<open>orchestration/orchestration/sessions_api.py\<close>: the update time and the id of
  the last row, as unpadded URL-safe base64. Bytes and characters coincide (strings are UTF-8).
  \<open>a2b\<close> follows \<open>binascii.a2b_base64\<close> in its lenient mode: characters outside the alphabet are
  skipped, a complete padding ends the input, and what is left of an unfinished quad is an
  error. \<open>other\<close> stands for the ISO 8601 forms that \<open>datetime.fromisoformat\<close> accepts besides the
  one \<open>isoformat\<close> writes; its second component says whether the result is timezone-aware.
\<close>

section \<open>Base 64\<close>

definition byte :: "char \<Rightarrow> nat" where
  "byte c = of_char c"

definition sextet_char :: "nat \<Rightarrow> char" where
  "sextet_char n =
     (if n < 26 then char_of (65 + n) else if n < 52 then char_of (71 + n)
      else if n < 62 then char_of (n - 4) else if n = 62 then CHR ''-'' else CHR ''_'')"

fun sextets :: "nat list \<Rightarrow> nat list" where
  "sextets [] = []"
| "sextets [a] = [a div 4, a mod 4 * 16]"
| "sextets [a, b] = [a div 4, a mod 4 * 16 + b div 16, b mod 16 * 4]"
| "sextets (a # b # c # bs) =
     [a div 4, a mod 4 * 16 + b div 16, b mod 16 * 4 + c div 64, c mod 64] @ sextets bs"

definition urlsafe_b64encode :: "string \<Rightarrow> string" where
  "urlsafe_b64encode s =
     map sextet_char (sextets (map byte s)) @ replicate ((3 - length s mod 3) mod 3) (CHR ''='')"

text \<open>\<open>str.rstrip("=")\<close>\<close>

definition rstrip_pad :: "string \<Rightarrow> string" where
  "rstrip_pad s = rev (dropWhile (\<lambda>c. c = CHR ''='') (rev s))"

text \<open>The URL-safe alphabet is translated to the standard one first, so both are read.\<close>

definition sextet_of :: "char \<Rightarrow> nat option" where
  "sextet_of c =
     (let n = byte c in
      if 65 \<le> n \<and> n \<le> 90 then Some (n - 65)
      else if 97 \<le> n \<and> n \<le> 122 then Some (n - 71)
      else if 48 \<le> n \<and> n \<le> 57 then Some (n + 4)
      else if n = 43 \<or> n = 45 then Some 62
      else if n = 47 \<or> n = 95 then Some 63 else None)"

text \<open>Position in the quad, the bits left over, the pads seen since the last data character.\<close>

fun a2b :: "nat \<Rightarrow> nat \<Rightarrow> nat \<Rightarrow> string \<Rightarrow> nat list option" where
  "a2b q left pads [] = (if q = 0 then Some [] else None)"
| "a2b q left pads (c # cs) =
     (if c = CHR ''=''
      then if 2 \<le> q \<and> 4 \<le> q + Suc pads then Some []
           else a2b q left (if 2 \<le> q then Suc pads else pads) cs
      else case sextet_of c of
          None \<Rightarrow> a2b q left pads cs
        | Some v \<Rightarrow>
            if q = 0 then a2b 1 v 0 cs
            else if q = 1 then map_option (Cons (left * 4 + v div 16)) (a2b 2 (v mod 16) 0 cs)
            else if q = 2 then map_option (Cons (left * 16 + v div 4)) (a2b 3 (v mod 4) 0 cs)
            else map_option (Cons (left * 64 + v)) (a2b 0 0 0 cs))"

definition urlsafe_b64decode :: "string \<Rightarrow> string option" where
  "urlsafe_b64decode s = map_option (map char_of) (a2b 0 0 0 s)"

text \<open>\<open>bytes.decode()\<close>: the well-formed UTF-8 sequences.\<close>

definition trail :: "nat \<Rightarrow> bool" where
  "trail b = (128 \<le> b \<and> b < 192)"

fun utf8_ok :: "nat list \<Rightarrow> bool" where
  "utf8_ok [] = True"
| "utf8_ok (a # r) =
     (if a < 128 then utf8_ok r
      else case r of
          [] \<Rightarrow> False
        | b # r2 \<Rightarrow>
            if 194 \<le> a \<and> a < 224 then trail b \<and> utf8_ok r2
            else case r2 of
                [] \<Rightarrow> False
              | c # r3 \<Rightarrow>
                  if 224 \<le> a \<and> a < 240
                  then trail b \<and> trail c \<and> (a = 224 \<longrightarrow> 160 \<le> b) \<and> (a = 237 \<longrightarrow> b < 160) \<and> utf8_ok r3
                  else case r3 of
                      [] \<Rightarrow> False
                    | d # r4 \<Rightarrow> 240 \<le> a \<and> a \<le> 244 \<and> trail b \<and> trail c \<and> trail d \<and>
                        (a = 240 \<longrightarrow> 144 \<le> b) \<and> (a = 244 \<longrightarrow> b < 144) \<and> utf8_ok r4)"

section \<open>Cursors\<close>

definition encode_cursor :: "instant \<Rightarrow> string \<Rightarrow> string" where
  "encode_cursor updated_at session_id =
     rstrip_pad (urlsafe_b64encode (isoformat updated_at @ ''|'' @ session_id))"

type_synonym iso_reader = "string \<Rightarrow> (instant \<times> bool) option"

definition fromisoformat :: "iso_reader \<Rightarrow> iso_reader" where
  "fromisoformat other s = (case read_isoformat s of None \<Rightarrow> other s | Some t \<Rightarrow> Some (t, True))"

text \<open>\<open>str.partition("|")\<close>: without a separator the rest is empty.\<close>

definition partition_bar :: "string \<Rightarrow> string \<times> string" where
  "partition_bar s = (takeWhile (\<lambda>c. c \<noteq> CHR ''|'') s, tl (dropWhile (\<lambda>c. c \<noteq> CHR ''|'') s))"

definition decode_cursor :: "iso_reader \<Rightarrow> string \<Rightarrow> (instant \<times> string) option" where
  "decode_cursor other cursor =
     (let padded = cursor @ replicate ((4 - py_len cursor mod 4) mod 4) (CHR ''='') in
      Option.bind (urlsafe_b64decode padded) (\<lambda>decoded.
      if \<not> utf8_ok (map byte decoded) then None
      else case partition_bar decoded of (updated_at, session_id) \<Rightarrow>
        if updated_at = [] \<or> session_id = [] then None
        else Option.bind (fromisoformat other updated_at) (\<lambda>(moment, aware).
          if aware then Some (moment, session_id) else None)))"

section \<open>Decoding inverts encoding\<close>

lemma byte_char: "n < 256 \<Longrightarrow> byte (char_of n) = n"
  by (simp add: byte_def)

lemma sextet_byte:
  "n < 64 \<Longrightarrow> byte (sextet_char n) =
     (if n < 26 then 65 + n else if n < 52 then 71 + n else if n < 62 then n - 4 else if n = 62 then 45 else 95)"
  by (simp add: sextet_char_def byte_char) (simp add: byte_def)

text \<open>The four ranges of the alphabet, each with its offset.\<close>

lemma sextet_ranges:
  assumes "n < 64"
  obtains "n < 26" "byte (sextet_char n) = 65 + n" | k where "n = 26 + k" "k < 26" "byte (sextet_char n) = 97 + k"
    | k where "n = 52 + k" "k < 10" "byte (sextet_char n) = 48 + k" | "n = 62" "byte (sextet_char n) = 45"
    | "n = 63" "byte (sextet_char n) = 95"
proof -
  consider "n < 26" | "n \<in> {26..<52}" | "n \<in> {52..<62}" | "n = 62" | "n = 63" using assms by fastforce
  then show ?thesis
  proof cases
    case 2
    then obtain k where "n = 26 + k" using le_Suc_ex by force
    then show ?thesis using 2 that(2)[of k] by (simp add: sextet_byte)
  next
    case 3
    then obtain k where "n = 52 + k" using le_Suc_ex by force
    then show ?thesis using 3 that(3)[of k] by (simp add: sextet_byte)
  qed (use that in \<open>simp_all add: sextet_byte\<close>)
qed

lemma sextet_round: "n < 64 \<Longrightarrow> sextet_of (sextet_char n) = Some n"
  by (erule sextet_ranges) (simp_all add: sextet_of_def Let_def)

lemma sextet_byte_plain: "n < 64 \<Longrightarrow> byte (sextet_char n) \<noteq> 61 \<and> byte (sextet_char n) < 128"
  by (erule sextet_ranges) simp_all

lemma sextet_plain:
  "n < 64 \<Longrightarrow> sextet_char n \<noteq> CHR ''=''"
  "n < 64 \<Longrightarrow> \<not> is_continuation (sextet_char n)"
  using sextet_byte_plain[of n] by (auto simp: byte_def is_continuation_def)

lemma sextets_small: "list_all (\<lambda>b. b < 256) bs \<Longrightarrow> list_all (\<lambda>n. n < 64) (sextets bs)"
  by (induction bs rule: sextets.induct) auto

lemma drop_pads: "dropWhile (\<lambda>c. c = x) (replicate k x @ cs) = dropWhile (\<lambda>c. c = x) cs"
  by (induction k) auto

lemma rstrip_encoded:
  assumes "list_all (\<lambda>n. n < 64) ns"
  shows "rstrip_pad (map sextet_char ns @ replicate k (CHR ''='')) = map sextet_char ns"
  using assms by (cases ns rule: rev_cases) (auto simp: rstrip_pad_def drop_pads sextet_plain)

text \<open>One full quad of the scanner, and the bytes a quad stands for.\<close>

lemma a2b_quad:
  assumes "p < 64" "q < 64" "r < 64" "s < 64"
  shows "a2b 0 0 0 (sextet_char p # sextet_char q # sextet_char r # sextet_char s # cs) =
    map_option (\<lambda>bs. (p * 4 + q div 16) # (q mod 16 * 16 + r div 4) # (r mod 4 * 64 + s) # bs) (a2b 0 0 0 cs)"
  using assms by (simp add: sextet_round sextet_plain option.map_comp comp_def)

lemma a2b_three:
  assumes "p < 64" "q < 64" "r < 64"
  shows "a2b 0 0 0 [sextet_char p, sextet_char q, sextet_char r, CHR ''=''] =
    Some [p * 4 + q div 16, q mod 16 * 16 + r div 4]"
  using assms by (simp add: sextet_round sextet_plain)

lemma a2b_two:
  assumes "p < 64" "q < 64"
  shows "a2b 0 0 0 [sextet_char p, sextet_char q, CHR ''='', CHR ''=''] = Some [p * 4 + q div 16]"
  using assms by (simp add: sextet_round sextet_plain)

declare a2b.simps(2) [simp del]

lemma split_bits:
  fixes a b :: nat
  assumes "b < 256"
  shows "a div 4 * 4 + (a mod 4 * 16 + b div 16) div 16 = a" "(a mod 4 * 16 + b div 16) mod 16 = b div 16"
    "b div 16 * 16 + (b mod 16 * 4 + c div 64) div 4 = b + c div 256"
    "(b mod 16 * 4 + c div 64) mod 4 * 64 + c mod 64 = c mod 256"
proof -
  have q: "b div 16 < 16" using assms by (simp add: div_less_iff_less_mult)
  have x: "(a mod 4 * 16 + b div 16) div 16 = a mod 4" "(a mod 4 * 16 + b div 16) mod 16 = b div 16"
    using q by simp_all
  then show "a div 4 * 4 + (a mod 4 * 16 + b div 16) div 16 = a" "(a mod 4 * 16 + b div 16) mod 16 = b div 16"
    by simp_all
  have "(b mod 16 * 4 + c div 64) div 4 = b mod 16 + c div 256"
    by (simp add: div_mult2_eq[of c 64 4, simplified])
  then show "b div 16 * 16 + (b mod 16 * 4 + c div 64) div 4 = b + c div 256" by simp
  have "(b mod 16 * 4 + c div 64) mod 4 = c div 64 mod 4" by (simp add: mod_add_left_eq[symmetric])
  moreover have "c mod 256 = c div 64 mod 4 * 64 + c mod 64"
    using mod_mult2_eq[of c 64 4] by simp
  ultimately show "(b mod 16 * 4 + c div 64) mod 4 * 64 + c mod 64 = c mod 256" by simp
qed

lemma last_bits:
  fixes a :: nat
  shows "a div 4 * 4 + a mod 4 * 16 div 16 = a" "a div 16 * 16 + a mod 16 * 4 div 4 = a"
proof -
  have "a mod 4 * 16 div 16 = a mod 4" "a mod 16 * 4 div 4 = a mod 16"
    by (rule nonzero_mult_div_cancel_right, rule zero_neq_numeral[symmetric])+
  then show "a div 4 * 4 + a mod 4 * 16 div 16 = a" "a div 16 * 16 + a mod 16 * 4 div 4 = a"
    by (simp_all only: div_mult_mod_eq)
qed

lemma sextet_bounds:
  fixes a b c :: nat
  assumes "a < 256" "b < 256" "c < 256"
  shows "a div 4 < 64" "a mod 4 * 16 < 64" "a mod 4 * 16 + b div 16 < 64" "b mod 16 * 4 < 64"
    "b mod 16 * 4 + c div 64 < 64" "c mod 64 < 64"
  using assms by simp_all

text \<open>The scanner on the sextets of a byte string, followed by the padding of its last quad.\<close>

definition pads :: "nat \<Rightarrow> string" where
  "pads n = replicate ((4 - n mod 4) mod 4) (CHR ''='')"

lemma pads_quad: "pads (Suc (Suc (Suc (Suc n)))) = pads n" "pads 0 = []"
  by (simp_all add: pads_def)

lemma pads_short: "pads (Suc (Suc 0)) = [CHR ''='', CHR ''='']" "pads (Suc (Suc (Suc 0))) = [CHR ''='']"
  by code_simp+

lemma a2b_sextets:
  assumes "list_all (\<lambda>b. b < 256) bs"
  shows "a2b 0 0 0 (map sextet_char (sextets bs) @ pads (length (sextets bs))) = Some bs"
  using assms
proof (induction bs rule: sextets.induct)
  case (2 a)
  then have a: "a < 256" by simp
  have "pads (length (sextets [a])) = [CHR ''='', CHR ''='']"
    by (simp only: sextets.simps list.size(3,4) add_0 add_0_right add_Suc_right One_nat_def pads_short)
  moreover have "a div 4 * 4 + (a mod 4 * 16) div 16 = a" by (rule last_bits)
  ultimately show ?case
    by (simp only: sextets.simps append.simps list.map a2b_two[OF sextet_bounds(1,2)[OF a a a]])
next
  case (3 a b)
  then have small: "a < 256" "b < 256" by simp_all
  have "pads (length (sextets [a, b])) = [CHR ''='']"
    by (simp only: sextets.simps list.size(3,4) add_0 add_0_right add_Suc_right One_nat_def pads_short)
  moreover have "b div 16 * 16 + (b mod 16 * 4) div 4 = b" by (rule last_bits)
  ultimately show ?case
    by (simp only: sextets.simps append.simps list.map a2b_three[OF sextet_bounds(1,3,4)[OF small(1,2) small(2)]]
        split_bits(1,2)[OF small(2), of a])
next
  case (4 a b c bs)
  then have small: "a < 256" "b < 256" "c < 256" "list_all (\<lambda>b. b < 256) bs" by simp_all
  have c: "c mod 256 = c" "c div 256 = 0" using small by simp_all
  have "pads (length (sextets (a # b # c # bs))) = pads (length (sextets bs))" by (simp add: pads_quad)
  then have "a2b 0 0 0 (map sextet_char (sextets (a # b # c # bs)) @ pads (length (sextets (a # b # c # bs)))) =
      map_option (\<lambda>r. a # b # c # r) (a2b 0 0 0 (map sextet_char (sextets bs) @ pads (length (sextets bs))))"
    by (simp only: sextets.simps append.simps list.map append_assoc a2b_quad[OF sextet_bounds(1,3,5,6)[OF small(1-3)]]
        split_bits(1,2)[OF small(2), of a] split_bits(3,4)[OF small(2), of c] c add_0_right)
  then show ?case using 4(1)[OF small(4)] by simp
qed (simp add: pads_def)

section \<open>The round trip of a cursor\<close>

definition plain_char :: "char \<Rightarrow> bool" where
  "plain_char c = (byte c < 128 \<and> c \<noteq> CHR ''|'')"

lemma plain_digits: "list_all plain_char (pad k n)"
proof -
  have "plain_char c" if "is_digit c" for c
    using that by (auto simp: plain_char_def is_digit_def byte_def Let_def)
  then show ?thesis
    using decimal_digits[of n] by (auto simp: pad_def Let_def list_all_iff plain_char_def byte_def)
qed

lemma plain_isoformat: "list_all plain_char (isoformat t)"
  unfolding isoformat_def Let_def
  by (cases "civil (t div 1000000 div 86400)") (simp add: plain_digits, simp add: plain_char_def byte_def)

lemma utf8_plain: "list_all plain_char s \<Longrightarrow> utf8_ok (map byte s @ bs) = utf8_ok bs"
  by (induction s) (simp_all add: plain_char_def)

lemma partition_plain:
  "list_all plain_char s \<Longrightarrow> partition_bar (s @ CHR ''|'' # r) = (s, r)"
  by (induction s) (simp_all add: partition_bar_def plain_char_def)

lemma bytes_small: "list_all (\<lambda>b. b < 256) (map byte s)"
  by (simp add: byte_def list_all_iff)

lemma unpadded_length:
  assumes "list_all (\<lambda>n. n < 64) ns"
  shows "py_len (map sextet_char ns) = length ns"
  using assms sextet_plain(2) by (induction ns) (simp_all add: py_len_def)

lemma urlsafe_round:
  defines "encoded s \<equiv> rstrip_pad (urlsafe_b64encode s)"
  fixes s :: string
  shows "urlsafe_b64decode (encoded s @ replicate ((4 - py_len (encoded s) mod 4) mod 4) (CHR ''='')) = Some s"
proof -
  let ?ns = "sextets (map byte s)"
  have small: "list_all (\<lambda>n. n < 64) ?ns" using sextets_small[OF bytes_small] .
  then have "encoded s = map sextet_char ?ns"
    unfolding encoded_def urlsafe_b64encode_def by (rule rstrip_encoded)
  then show ?thesis
    using a2b_sextets[OF bytes_small, of s] unpadded_length[OF small]
    by (simp add: urlsafe_b64decode_def pads_def byte_def comp_def)
qed

lemma length_pad: "pad k n \<noteq> []"
  using decimal.simps[of n] by (auto simp: pad_def Let_def)

lemma isoformat_nonempty: "isoformat t \<noteq> []"
  unfolding isoformat_def Let_def
  by (cases "civil (t div 1000000 div 86400)") (simp add: length_pad)

lemma cursor_decodes:
  assumes "in_years updated_at" "session_id \<noteq> []" "utf8_ok (map byte session_id)"
  shows "decode_cursor other (encode_cursor updated_at session_id) = Some (updated_at, session_id)"
proof -
  let ?raw = "isoformat updated_at @ CHR ''|'' # session_id"
  have "utf8_ok (map byte ?raw)"
    using utf8_plain[OF plain_isoformat, of updated_at "byte (CHR ''|'') # map byte session_id"] assms(3)
    by (simp add: byte_def)
  then show ?thesis
    using urlsafe_round[of ?raw] partition_plain[OF plain_isoformat] assms(2) read_isoformat_of[OF assms(1)]
    by (simp add: decode_cursor_def encode_cursor_def Let_def isoformat_nonempty fromisoformat_def)
qed

text \<open>C6. The cursor of a page's last row reads back as exactly that row's key: for every update
  time of the years 1 to 9999 and every session id, whatever other ISO forms the reader accepts.\<close>

theorem cursor_roundtrip:
  assumes "in_years updated_at" "session_id \<noteq> []" "utf8_ok (map byte session_id)"
  shows "decode_cursor other (encode_cursor updated_at session_id) = Some (updated_at, session_id)"
  by (rule cursor_decodes[OF assms])

theorem cursor_roundtrip_witness:
  "decode_cursor (\<lambda>_. None) (encode_cursor 1767225600123456 ''sess-1'') = Some (1767225600123456, ''sess-1'')"
proof (rule cursor_roundtrip)
  show "in_years 1767225600123456" by code_simp
qed (simp_all add: byte_def)

end
