(* ===== verification/Uuid_Text.thy ===== *)
theory Uuid_Text
  imports Ids
begin

text \<open>
  Reading a UUID back: the rules of \<open>uuid.UUID(text)\<close> and of \<open>int(text, 16)\<close> on ASCII text, as the user
  header (\<open>orchestration/orchestration/users.py\<close>) and the reconciliation endpoint
  (\<open>shared/agent_kit/agent_kit/facilitator_adapter.py\<close>) apply them. What \<open>str(uuid)\<close> writes reads back.
\<close>

section \<open>Parsing\<close>


fun replace :: "string \<Rightarrow> string \<Rightarrow> string" where
  "replace old [] = []"
| "replace old (c # s) =
     (if old \<noteq> [] \<and> starts_with old (c # s) then replace old (drop (length old) (c # s)) else c # replace old s)"

definition braces :: "char \<Rightarrow> bool" where
  "braces c = (c = CHR ''{'' \<or> c = CHR ''}'')"

definition hex_value :: "char \<Rightarrow> nat option" where
  "hex_value c =
     (let n = of_char c :: nat in
      if 48 \<le> n \<and> n \<le> 57 then Some (n - 48)
      else if 97 \<le> n \<and> n \<le> 102 then Some (n - 87)
      else if 65 \<le> n \<and> n \<le> 70 then Some (n - 55) else None)"

text \<open>
  The digits of \<open>int(s, 16)\<close>: single underscores may stand between digits (\<open>gap\<close>: the last
  character was one, or nothing was read yet).
\<close>

fun hex_body :: "bool \<Rightarrow> nat \<Rightarrow> string \<Rightarrow> nat option" where
  "hex_body gap n [] = (if gap then None else Some n)"
| "hex_body gap n (c # s) =
     (if c = CHR ''_'' then (if gap then None else hex_body True n s)
      else case hex_value c of None \<Rightarrow> None | Some d \<Rightarrow> hex_body False (16 * n + d) s)"

definition drop_prefix :: "string \<Rightarrow> string \<Rightarrow> string" where
  "drop_prefix p s = (if starts_with p s then drop (length p) s else s)"

text \<open>A plus sign and a \<open>0x\<close> prefix are read, and an underscore may follow the prefix.\<close>

definition int16 :: "string \<Rightarrow> nat option" where
  "int16 s =
     (let t = drop_prefix ''+'' (strip s) in
      if starts_with ''0x'' (lower t) then hex_body True 0 (drop_prefix ''_'' (drop 2 t))
      else hex_body True 0 t)"

definition parse_uuid :: "string \<Rightarrow> uuid option" where
  "parse_uuid s =
     (let t = replace ''uuid:'' (replace ''urn:'' s);
          hex = filter (\<lambda>c. c \<noteq> CHR ''-'') (rev (dropWhile braces (rev (dropWhile braces t))))
      in if py_len hex \<noteq> 32 then None else map_option of_nat (int16 hex))"

section \<open>What is written reads back\<close>

lemma replace_absent: "hd old \<notin> set s \<Longrightarrow> replace old s = s"
proof (induction s)
  case (Cons c s)
  then show ?case by (cases old) auto
qed simp

lemma hex_value_digit: "hex_value (hex_digit w) = Some (unat (w AND 15))"
proof -
  have n: "unat (w AND 15) < 16" by (rule nibble_bound)
  show ?thesis
  proof (cases "unat (w AND 15) < 10")
    case True
    then show ?thesis by (simp add: hex_value_def hex_digit_def Let_def)
  next
    case False
    then show ?thesis using n by (simp add: hex_value_def hex_digit_def Let_def)
  qed
qed

lemma nibble_value: "unat (drop_bit (4 * k) u AND (15 :: uuid)) = unat u div 16 ^ k mod 16"
proof -
  have "(15 :: uuid) = mask 4" by (simp add: mask_eq_exp_minus_1)
  then have "drop_bit (4 * k) u AND 15 = take_bit 4 (drop_bit (4 * k) u)"
    by (simp only: take_bit_eq_mask)
  then have "unat (drop_bit (4 * k) u AND 15) = take_bit 4 (drop_bit (4 * k) (unat u))"
    by (simp only: unsigned_take_bit_eq unat_drop_bit_eq)
  also have "\<dots> = unat u div 2 ^ (4 * k) mod 2 ^ 4"
    by (simp only: take_bit_eq_mod drop_bit_eq_div)
  also have "(2 :: nat) ^ (4 * k) = 16 ^ k" by (simp add: power_mult)
  finally show ?thesis by simp
qed

lemma hex_body_digits:
  "hex_body False n (map (\<lambda>i. hex_digit (drop_bit (4 * i) u)) (rev [0..<k])) =
     Some (n * 16 ^ k + unat u mod 16 ^ k)"
proof (induction k arbitrary: n)
  case (Suc k)
  have step: "unat u mod 16 ^ Suc k = unat u div 16 ^ k mod 16 * 16 ^ k + unat u mod 16 ^ k"
    using mod_mult2_eq[of "unat u" "16 ^ k" 16] by (simp add: mult.commute add.commute)
  have "hex_digit (drop_bit (4 * k) u) \<noteq> CHR ''_''"
  proof
    assume "hex_digit (drop_bit (4 * k) u) = CHR ''_''"
    then have "is_lower_hex (CHR ''_'')" using hex_digit_lower[of "drop_bit (4 * k) u"] by simp
    then show False by (simp add: is_lower_hex_def is_digit_def)
  qed
  then show ?case
    unfolding step by (simp add: Suc.IH hex_value_digit nibble_value distrib_right)
qed simp

definition hexish :: "char \<Rightarrow> bool" where
  "hexish c = (is_lower_hex c \<or> c = CHR ''-'')"

lemma hexish_not: "hexish c \<Longrightarrow> c \<notin> {CHR ''u'', CHR ''{'', CHR ''}'', CHR ''+'', CHR ''x'', CHR ''X'', CHR ''_''}"
  by (auto simp: hexish_def is_lower_hex_def is_digit_def)

lemma hexish_uuid: "c \<in> set (uuid_str u) \<Longrightarrow> hexish c"
  using list_all_take_drop[OF hex_digits_lower[of u]]
  by (auto simp: uuid_str_def Let_def hexish_def list_all_iff dest: in_set_takeD in_set_dropD)

lemma undashed: "filter (\<lambda>c. c \<noteq> CHR ''-'') (uuid_str u) = hex_digits u"
proof -
  have keep: "filter (\<lambda>c. c \<noteq> CHR ''-'') s = s" if "list_all is_lower_hex s" for s
  proof -
    have "c \<noteq> CHR ''-''" if "is_lower_hex c" for c
      using that by (auto simp: is_lower_hex_def is_digit_def)
    then show ?thesis using that by (auto simp: filter_id_conv list_all_iff)
  qed
  note parts = list_all_take_drop[OF hex_digits_lower[of u]]
  show ?thesis
    unfolding uuid_str_def Let_def
    by (subst (6) five_groups) (simp add: keep parts)
qed

lemma dropWhile_none: "\<forall>c \<in> set s. \<not> p c \<Longrightarrow> dropWhile p s = s"
  by (cases s) auto

lemma hex_plain_text:
  assumes "list_all is_lower_hex s"
  shows "py_len s = length s" "strip s = s"
proof -
  have "\<not> is_continuation c \<and> \<not> is_space c" if "is_lower_hex c" for c
    using that by (auto simp: is_lower_hex_def is_digit_def is_continuation_def is_space_def Let_def)
  then have "\<forall>c \<in> set s. \<not> is_continuation c" "\<forall>c \<in> set s. \<not> is_space c"
    using assms by (auto simp: list_all_iff)
  then show "py_len s = length s" "strip s = s"
    by (simp_all add: py_len_def strip_def lstrip_def rstrip_def dropWhile_none)
qed

lemma int16_digits: "int16 (hex_digits u) = Some (unat u)"
proof -
  let ?h = "hex_digits u"
  have no: "c \<notin> {CHR ''u'', CHR ''{'', CHR ''}'', CHR ''+'', CHR ''x'', CHR ''X'', CHR ''_''}" if "c \<in> set ?h" for c
    using hexish_not[of c] that hex_digits_lower[of u] by (auto simp: hexish_def list_all_iff)
  obtain a b r where h: "?h = a # b # r"
    using length_hex_digits[of u] by (cases ?h; cases "tl ?h") auto
  have "\<not> starts_with ''+'' ?h" using no h by (auto simp: h)
  moreover have "lower_char b \<noteq> CHR ''x''"
  proof -
    have "is_lower_hex b" using hex_digits_lower[of u] by (simp add: h)
    then show ?thesis by (auto simp: lower_char_def is_upper_def is_lower_hex_def is_digit_def Let_def)
  qed
  then have "\<not> starts_with ''0x'' (lower ?h)" by (simp add: h lower_def)
  moreover have "hex_body True 0 ?h = Some (unat u)"
  proof -
    have "hex_body True 0 ?h = hex_body False 0 ?h"
      using no[of a] by (simp add: h)
    also have "\<dots> = Some (unat u mod 16 ^ 32)"
      unfolding hex_digits_def by (simp only: hex_body_digits mult_zero_left add_0)
    also have "\<dots> = Some (unat u)"
    proof -
      have "unat u < 16 ^ 32" using unsigned_less[of u] by simp
      then show ?thesis by simp
    qed
    finally show ?thesis .
  qed
  ultimately show ?thesis
    by (simp add: int16_def drop_prefix_def hex_plain_text[OF hex_digits_lower])
qed

lemma parse_uuid_str: "parse_uuid (uuid_str u) = Some u"
proof -
  have no: "c \<notin> {CHR ''u'', CHR ''{'', CHR ''}''}" if "c \<in> set (uuid_str u)" for c
    using hexish_not[OF hexish_uuid[OF that]] by simp
  then have "CHR ''u'' \<notin> set (uuid_str u)" "\<forall>c \<in> set (uuid_str u). \<not> braces c"
    by (auto simp: braces_def)
  then have "parse_uuid (uuid_str u) =
      (if py_len (hex_digits u) \<noteq> 32 then None else map_option of_nat (int16 (hex_digits u)))"
    by (simp add: parse_uuid_def Let_def replace_absent dropWhile_none undashed)
  then show ?thesis by (simp add: int16_digits hex_plain_text(1)[OF hex_digits_lower])
qed

end
