(* ===== verification/Session_Views.thy ===== *)
theory Session_Views
  imports Session_Endings Cursors Uuid_Text
begin

text \<open>
  The reading endpoints: the session list and the session detail
  (\<open>orchestration/orchestration/sessions_api.py\<close>), story browsing (\<open>stories.py\<close>) and the user
  header (\<open>users.py\<close>), with the response models of \<open>review_schemas/api.py\<close>. A client that
  follows the pages is in \<open>Paging\<close>.
\<close>

section \<open>Response models\<close>

record SessionSummary =
  sm_session_id :: string
  sm_story_run_id :: string
  sm_story_id :: string
  sm_state :: session_state
  sm_requested_formats :: "report_format list"
  sm_stage :: "processing_stage option"
  sm_created_at :: instant
  sm_updated_at :: instant

definition valid_SessionSummary :: "'a SessionSummary_scheme \<Rightarrow> bool" where
  "valid_SessionSummary s =
     (SessionId (sm_session_id s) \<and> RunId (sm_story_run_id s) \<and> StoryId (sm_story_id s) \<and>
      1 \<le> length (sm_requested_formats s) \<and> length (sm_requested_formats s) \<le> 2 \<and>
      distinct (sm_requested_formats s))"

record TurnView =
  tv_turn_number :: nat
  tv_po_message :: "string option"
  tv_po_accepted :: bool
  tv_facilitator_reply :: "string option"
  tv_rationale_reply :: "string option"
  tv_delegation :: "DelegationDecision option"
  tv_resolutions :: "ResolutionItem list"
  tv_outcome :: "turn_outcome option"
  tv_produced :: "ArtifactReference list"

text \<open>The outcome is required: a turn recorded without one cannot be shown.\<close>

definition valid_TurnView :: "TurnView \<Rightarrow> bool" where
  "valid_TurnView t =
     (1 \<le> tv_turn_number t \<and> opt_ok text_ok (tv_po_message t) \<and> opt_ok text_ok (tv_facilitator_reply t) \<and>
      opt_ok text_ok (tv_rationale_reply t) \<and> opt_ok valid_DelegationDecision (tv_delegation t) \<and>
      list_all valid_ResolutionItem (tv_resolutions t) \<and> length (tv_resolutions t) \<le> 100 \<and>
      tv_outcome t \<noteq> None \<and>
      list_all valid_ArtifactReference (tv_produced t) \<and> length (tv_produced t) \<le> 20 \<and>
      \<not> (1 < tv_turn_number t \<and> tv_po_accepted t = (tv_po_message t \<noteq> None)))"

record SessionDetail = SessionSummary +
  sd_turn_count :: nat
  sd_turns :: "TurnView list"
  sd_artifact_references :: "ArtifactReference list"
  sd_reports :: "ReportDownload list"

definition reports_match_requested_formats :: "SessionDetail \<Rightarrow> bool" where
  "reports_match_requested_formats s =
     (let report_formats = map rl_format (sd_reports s) in
      distinct report_formats \<and>
      \<not> (sm_state s = Completed \<and> set report_formats \<noteq> set (sm_requested_formats s)) \<and>
      \<not> (sm_state s \<noteq> Completed \<and> sd_reports s \<noteq> []))"

definition valid_SessionDetail :: "SessionDetail \<Rightarrow> bool" where
  "valid_SessionDetail s =
     (valid_SessionSummary s \<and> sd_turn_count s \<le> 10 \<and>
      list_all valid_TurnView (sd_turns s) \<and> length (sd_turns s) \<le> 100 \<and>
      list_all valid_ArtifactReference (sd_artifact_references s) \<and> length (sd_artifact_references s) \<le> 1000 \<and>
      list_all valid_ReportDownload (sd_reports s) \<and> length (sd_reports s) \<le> 2 \<and>
      reports_match_requested_formats s)"

text \<open>The query's cursor is a \<open>ShortText\<close>, so surrounding whitespace is dropped.\<close>

definition ListSessionsQuery :: "int \<Rightarrow> string option \<Rightarrow> (nat \<times> string option) option" where
  "ListSessionsQuery limit cursor =
     (if limit < 1 \<or> 100 < limit then None
      else case cursor of None \<Rightarrow> Some (nat limit, None)
        | Some c \<Rightarrow> map_option (\<lambda>t. (nat limit, Some t)) (ShortText c))"

record ListSessionsResponse =
  ls_sessions :: "SessionSummary list"
  ls_next_cursor :: "string option"

definition valid_ListSessionsResponse :: "ListSessionsResponse \<Rightarrow> bool" where
  "valid_ListSessionsResponse r =
     (list_all valid_SessionSummary (ls_sessions r) \<and> length (ls_sessions r) \<le> 100 \<and>
      opt_ok short_text_ok (ls_next_cursor r))"

record ListStoriesResponse =
  lr_stories :: "StorySummary list"

definition valid_ListStoriesResponse :: "ListStoriesResponse \<Rightarrow> bool" where
  "valid_ListStoriesResponse r = (list_all valid_StorySummary (lr_stories r) \<and> length (lr_stories r) \<le> 50)"

section \<open>The session list\<close>

definition session_summary :: "SessionRecord \<Rightarrow> processing_stage option \<Rightarrow> SessionSummary" where
  "session_summary s stage =
     \<lparr>sm_session_id = se_session_id s, sm_story_run_id = se_story_run_id s, sm_story_id = se_story_id s,
      sm_state = se_state s, sm_requested_formats = se_requested_formats s, sm_stage = stage,
      sm_created_at = se_created_at s, sm_updated_at = se_updated_at s\<rparr>"

definition bad_request :: "string \<Rightarrow> uuid \<Rightarrow> exc" where
  "bad_request message correlation =
     ApiError 422 (make_error VALIDATION_ERROR message correlation False None None)"

definition cursor_of :: "SessionRecord \<Rightarrow> string" where
  "cursor_of s = encode_cursor (se_updated_at s) (se_session_id s)"

definition list_page :: "uuid \<Rightarrow> nat \<Rightarrow> (instant \<times> string) option \<Rightarrow> ListSessionsResponse handler" where
  "list_page user limit before =
     chain (perform (World.list_sessions user limit before)) (\<lambda>(page, more).
     chain (each page (\<lambda>(s, stage). construct valid_SessionSummary (session_summary s stage))) (\<lambda>sessions.
     construct valid_ListSessionsResponse
       \<lparr>ls_sessions = sessions,
        ls_next_cursor = (if more \<and> page \<noteq> [] then Some (cursor_of (fst (last page))) else None)\<rparr>))"

definition get_sessions ::
    "iso_reader \<Rightarrow> int \<Rightarrow> string option \<Rightarrow> uuid \<Rightarrow> uuid \<Rightarrow> ListSessionsResponse handler" where
  "get_sessions other limit cursor correlation user =
     (case ListSessionsQuery limit cursor of
        None \<Rightarrow> Raise (bad_request ''invalid limit or cursor'' correlation)
      | Some (n, None) \<Rightarrow> list_page user n None
      | Some (n, Some c) \<Rightarrow>
          (case decode_cursor other c of
             None \<Rightarrow> Raise (bad_request ''malformed cursor'' correlation)
           | Some before \<Rightarrow> list_page user n (Some before)))"

section \<open>The session detail\<close>

fun not_found_code :: "error_code \<Rightarrow> bool" where
  "not_found_code STORY_NOT_FOUND = True"
| "not_found_code SESSION_NOT_FOUND = True"
| "not_found_code ARTIFACT_NOT_FOUND = True"
| "not_found_code _ = False"

definition artifacts_failure :: "uuid \<Rightarrow> exc \<Rightarrow> exc" where
  "artifacts_failure correlation e =
     (case e of
        McpCallFailure b \<Rightarrow>
          if not_found_code (eb_code b)
          then ApiError 404 (make_error (eb_code b) (eb_message b) correlation False None None)
          else ApiError 503 (make_error (eb_code b) (eb_message b) correlation (eb_retryable b) None None)
      | McpTransportError \<Rightarrow> upstream ''artifact MCP unavailable'' correlation None
      | McpDeadlineExceeded \<Rightarrow> upstream ''artifact MCP unavailable'' correlation None
      | _ \<Rightarrow> e)"

definition run_artifacts :: "app_env \<Rightarrow> uuid \<Rightarrow> string \<Rightarrow> ArtifactReference list handler" where
  "run_artifacts env correlation run_id =
     (let q = \<lparr>la_run = run_id, la_type = None, la_perspective = None, la_limit = 500, la_offset = 0\<rparr> in
      chain (demand (valid_ListArtifactsInput q) ValidationError) (\<lambda>_.
      chain (deadline_of env) (\<lambda>deadline.
      rescue
        (chain (mcp_call env deadline (serve_artifact env (list_artifacts q))) (\<lambda>raw.
         chain (parsed raw) (\<lambda>out. Ret (fst out))))
        (\<lambda>e. Raise (artifacts_failure correlation e)))))"

definition turn_view :: "TurnRecord \<Rightarrow> TurnView" where
  "turn_view t =
     \<lparr>tv_turn_number = tu_turn_number t, tv_po_message = tu_po_message t, tv_po_accepted = tu_po_accepted t,
      tv_facilitator_reply = tu_facilitator_reply t, tv_rationale_reply = tu_rationale_reply t,
      tv_delegation = tu_delegation t, tv_resolutions = tu_resolutions t, tv_outcome = tu_outcome t,
      tv_produced = tu_produced t\<rparr>"

definition session_detail ::
    "SessionRecord \<Rightarrow> processing_stage option \<Rightarrow> TurnView list \<Rightarrow> ArtifactReference list \<Rightarrow>
     ReportDownload list \<Rightarrow> SessionDetail" where
  "session_detail s stage turns refs reports =
     SessionSummary.extend (session_summary s stage)
       (SessionDetail.fields (se_turn_count s) turns refs reports)"

definition get_session_detail ::
    "app_env \<Rightarrow> string \<Rightarrow> uuid \<Rightarrow> uuid \<Rightarrow> SessionDetail handler" where
  "get_session_detail env sid correlation user =
     chain (perform (World.get_session sid user)) (\<lambda>found.
     case found of
       None \<Rightarrow> Raise (not_found correlation)
     | Some s \<Rightarrow>
         chain (perform (list_turns sid)) (\<lambda>turns.
         chain (run_artifacts env correlation (se_story_run_id s)) (\<lambda>refs.
         chain (if se_state s = Completed
                then chain (report_response env (se_session_id s) (se_report_references s)) (\<lambda>r. Ret (rs_report r))
                else Ret []) (\<lambda>reports.
         chain (each turns (\<lambda>t. construct valid_TurnView (turn_view t))) (\<lambda>views.
         chain (perform (get_processing_stage sid)) (\<lambda>stage.
         construct valid_SessionDetail (session_detail s stage views refs reports)))))))"

section \<open>Stories\<close>

text \<open>\<open>str.lower\<close> is \<open>lower\<close> on ASCII; every other character is compared as it is.\<close>

definition title_filter :: "StorySummary list \<Rightarrow> string option \<Rightarrow> StorySummary list" where
  "title_filter stories needle =
     (case needle of None \<Rightarrow> stories
      | Some n \<Rightarrow> filter (\<lambda>s. contains (lower n) (lower (ss_title s))) stories)"

definition story_failure :: "string \<Rightarrow> uuid \<Rightarrow> exc \<Rightarrow> exc" where
  "story_failure invalid correlation e =
     (case e of
        McpCallFailure b \<Rightarrow> tool_failure b correlation
      | ValidationError \<Rightarrow> upstream invalid correlation None
      | McpTransportError \<Rightarrow> upstream ''story MCP unavailable'' correlation None
      | McpDeadlineExceeded \<Rightarrow> upstream ''story MCP unavailable'' correlation None
      | _ \<Rightarrow> e)"

text \<open>\<open>backlog\<close> is the story server's answer to \<open>list_stories\<close>, by call number.\<close>

definition serve_stories :: "app_env \<Rightarrow> (nat \<Rightarrow> ErrorBody + StorySummary list) \<Rightarrow> StorySummary list option db" where
  "serve_stories env backlog =
     andThen (next_call env) (\<lambda>n w.
       (deliver (en_fault env n) (case backlog n of Inl e \<Rightarrow> Inl (McpCallFailure e) | Inr x \<Rightarrow> Inr x), w))"

definition list_stories ::
    "app_env \<Rightarrow> (nat \<Rightarrow> ErrorBody + StorySummary list) \<Rightarrow> string option \<Rightarrow> uuid \<Rightarrow> ListStoriesResponse handler" where
  "list_stories env backlog needle correlation =
     chain (rescue
        (chain (deadline_of env) (\<lambda>deadline.
         chain (mcp_call env deadline (serve_stories env backlog)) parsed))
        (\<lambda>e. Raise (story_failure ''story MCP returned an invalid list_stories payload'' correlation e)))
     (\<lambda>stories. construct valid_ListStoriesResponse \<lparr>lr_stories = title_filter stories needle\<rparr>)"

definition story_detail :: "app_env \<Rightarrow> string \<Rightarrow> uuid \<Rightarrow> StoryDetail handler" where
  "story_detail env story correlation =
     rescue
       (chain (deadline_of env) (\<lambda>deadline.
        chain (mcp_call env deadline (serve_story env story)) parsed))
       (\<lambda>e. Raise (story_failure ''story MCP returned an invalid get_story payload'' correlation e))"

section \<open>The user header\<close>

definition require_user_id :: "string option \<Rightarrow> uuid \<Rightarrow> exc + uuid" where
  "require_user_id header correlation =
     (case parse_uuid (case header of None \<Rightarrow> [] | Some h \<Rightarrow> h) of
        None \<Rightarrow> Inl (bad_request ''X-User-Id must be a UUID v4'' correlation)
      | Some u \<Rightarrow> if is_uuid4 u then Inr u else Inl (bad_request ''X-User-Id must be a UUID v4'' correlation))"

end
