(* ===== verification/Paging.thy ===== *)
theory Paging
  imports Session_Views Session_Laws
begin

text \<open>
  A client that follows \<open>next_cursor\<close> through the session list
  (\<open>orchestration/orchestration/sessions_api.py\<close> over \<open>records_store.list_sessions\<close>): on a table
  nobody writes to meanwhile it sees every session of the user exactly once, newest first, and
  stops.
\<close>

section \<open>Cursors are short texts\<close>

lemma length_pad_exact: "n < 10 ^ k \<Longrightarrow> 0 < k \<Longrightarrow> length (pad k n) = k"
  using decimal_length[of n k] by (simp add: pad_def Let_def)

lemma isoformat_length:
  assumes "in_years t"
  shows "length (isoformat t) \<le> 32"
proof -
  obtain y m d where c: "civil (t div 1000000 div 86400) = (y, m, d)"
    by (cases "civil (t div 1000000 div 86400)") auto
  have y: "nat y < 10 ^ 4" using assms c by (simp add: in_years_def nat_less_iff)
  have md: "nat m < 10 ^ 2" "nat d < 10 ^ 2"
    using civil_is_date[OF c] by (auto simp: month_length_def split: if_splits)
  define tod where "tod = t div 1000000 mod 86400"
  define us where "us = t mod 1000000"
  have tod: "nat (tod div 3600) < 10 ^ 2" "nat (tod div 60 mod 60) < 10 ^ 2" "nat (tod mod 60) < 10 ^ 2" "nat us < 10 ^ 6"
    using pos_mod_bound[of 86400 "t div 1000000"] unfolding tod_def us_def
    by (simp_all add: nat_less_iff div_less_iff_less_mult)
  have "isoformat t = pad 4 (nat y) @ ''-'' @ pad 2 (nat m) @ ''-'' @ pad 2 (nat d) @ ''T'' @
      pad 2 (nat (tod div 3600)) @ '':'' @ pad 2 (nat (tod div 60 mod 60)) @ '':'' @ pad 2 (nat (tod mod 60)) @
      (if us = 0 then [] else ''.'' @ pad 6 (nat us)) @ ''+00:00''"
    unfolding isoformat_def Let_def c tod_def us_def by (simp only: prod.case)
  then show ?thesis
    by (simp only: length_append length_pad_exact[OF y] length_pad_exact[OF md(1)] length_pad_exact[OF md(2)]
        length_pad_exact[OF tod(1)] length_pad_exact[OF tod(2)] length_pad_exact[OF tod(3)] zero_less_numeral
        if_distrib[of length] length_pad_exact[OF tod(4)]) simp
qed

lemma length_sextets: "length (sextets bs) \<le> 2 * length bs"
  by (induction bs rule: sextets.induct) simp_all

lemma sextets_nonempty: "sextets (b # bs) \<noteq> []"
  by (cases bs; cases "tl bs") simp_all

lemma sextet_visible: "n < 64 \<Longrightarrow> \<not> is_space (sextet_char n)"
  by (erule sextet_ranges) (simp_all add: is_space_def byte_def Let_def)

lemma strip_visible: "list_all (\<lambda>c. \<not> is_space c) s \<Longrightarrow> strip s = s"
proof -
  assume visible: "list_all (\<lambda>c. \<not> is_space c) s"
  have keep: "dropWhile is_space r = r" if "list_all (\<lambda>c. \<not> is_space c) r" for r
    using that by (cases r) simp_all
  show ?thesis using visible keep[of s] keep[of "rev s"]
    by (simp add: strip_def lstrip_def rstrip_def list_all_iff)
qed

lemma hex_plain: "list_all is_lower_hex s \<Longrightarrow> list_all plain_char s"
  by (auto simp: list_all_iff plain_char_def is_lower_hex_def is_digit_def byte_def Let_def)

lemma hex_groups_plain: "hex_groups ns s \<Longrightarrow> list_all plain_char s"
proof (induction ns s rule: hex_groups.induct)
  case (3 n m ns s)
  then have "list_all plain_char (take n s)" "list_all plain_char (drop (Suc n) s)"
    using hex_plain by simp_all
  moreover obtain r where r: "drop n s = CHR ''-'' # r" using 3(2) by (auto simp: starts_with_append)
  moreover have "r = drop (Suc n) s" using arg_cong[OF r, of tl] by (simp add: drop_Suc tl_drop)
  moreover have "plain_char (CHR ''-'')" by (simp add: plain_char_def byte_def)
  ultimately have "list_all plain_char (take n s @ drop n s)" by (simp del: append_take_drop_id)
  then show ?case by simp
qed (simp_all add: hex_plain)

lemma session_id_text:
  assumes "SessionId sid"
  shows "length sid = 41" "utf8_ok (map byte sid)"
proof -
  show "length sid = 41" using assms by (simp add: SessionId_def)
  obtain r where r: "sid = ''sess-'' @ r" "hex_groups [8, 4, 4, 4, 12] r"
    using assms by (auto simp: SessionId_def prefixed_uuid_def starts_with_append simp del: hex_groups.simps)
  then show "utf8_ok (map byte sid)"
    using utf8_plain[OF hex_groups_plain[OF r(2)], of "[]"] by (simp add: byte_def del: hex_groups.simps)
qed

lemma cursor_short:
  assumes "in_years t" "SessionId sid"
  shows "ShortText (encode_cursor t sid) = Some (encode_cursor t sid)"
proof -
  let ?raw = "isoformat t @ CHR ''|'' # sid"
  let ?ns = "sextets (map byte ?raw)"
  have small: "list_all (\<lambda>n. n < 64) ?ns" using sextets_small[OF bytes_small] .
  then have enc: "encode_cursor t sid = map sextet_char ?ns"
    unfolding encode_cursor_def urlsafe_b64encode_def using rstrip_encoded by simp
  have "length ?ns \<le> 2 * length ?raw" using length_sextets[of "map byte ?raw"] by simp
  then have "length ?ns \<le> 500"
    using isoformat_length[OF assms(1)] session_id_text(1)[OF assms(2)] by simp
  moreover have "1 \<le> length ?ns" 
    by (cases "map byte ?raw") (simp_all add: sextets_nonempty Suc_le_eq)
  moreover have "list_all (\<lambda>c. \<not> is_space c) (map sextet_char ?ns)"
    using small sextet_visible by (simp add: list_all_iff)
  ultimately show ?thesis
    using unpadded_length[OF small] by (simp add: enc ShortText_def bounded_text_def strip_visible)
qed

section \<open>One page\<close>

text \<open>What the tables must satisfy: keyed rows that read back, with update times of the calendar.\<close>

definition listable :: "world \<Rightarrow> bool" where
  "listable w =
     (db_ok w \<and> list_all (\<lambda>s. valid_SessionRecord s \<and> in_years (se_updated_at s)) (dict_values (w_sessions w)))"

definition stage_of :: "world \<Rightarrow> SessionRecord \<Rightarrow> processing_stage option" where
  "stage_of w s = Option.bind (map_of (w_stages w) (se_session_id s)) id"

definition page :: "world \<Rightarrow> nat \<Rightarrow> SessionRecord list \<Rightarrow> ListSessionsResponse" where
  "page w limit rows =
     \<lparr>ls_sessions = map (\<lambda>s. session_summary s (stage_of w s)) (take limit rows),
      ls_next_cursor = (if limit < length rows then Some (cursor_of (last (take limit rows))) else None)\<rparr>"

lemma page_rows_in: "s \<in> set (page_rows w user k) \<Longrightarrow> s \<in> set (dict_values (w_sessions w)) \<and> se_user_id s = user"
  by (auto simp: page_rows_def newest_first_def)

lemma summary_valid: "valid_SessionRecord s \<Longrightarrow> valid_SessionSummary (session_summary s stage)"
  by (simp add: valid_SessionSummary_def valid_SessionRecord_def session_summary_def
      validate_formats_and_artifacts_def Let_def)

lemma run_each_construct:
  "list_all (\<lambda>x. ok (f x)) xs \<Longrightarrow> run (each xs (\<lambda>x. construct ok (f x))) w = (Inr (map f xs), w)"
  by (induction xs) (simp_all add: construct_def run_simps)

lemma run_list_page:
  assumes "listable w" "1 \<le> limit" "limit \<le> 100"
  shows "run (list_page user limit k) w = (Inr (page w limit (page_rows w user k)), w)"
proof -
  let ?rows = "page_rows w user k"
  let ?ps = "map (\<lambda>s. (s, stage_of w s)) (take limit ?rows)"
  let ?next = "if limit < length ?rows then Some (cursor_of (last (take limit ?rows))) else None"
  have rows: "valid_SessionRecord s" "in_years (se_updated_at s)" if "s \<in> set ?rows" for s
    using assms(1) page_rows_in[OF that] by (auto simp: listable_def list_all_iff)
  have read: "run (perform (World.list_sessions user limit k)) w = (Inr (?ps, limit < length ?rows), w)"
    using rows by (auto simp: World.list_sessions_def run_simps comp_simps stage_of_def list_all_iff
        dest: in_set_takeD)
  have each: "run (each ?ps (\<lambda>(s, stage). construct valid_SessionSummary (session_summary s stage))) w =
      (Inr (map (\<lambda>(s, stage). session_summary s stage) ?ps), w)"
    unfolding case_prod_beta
    by (rule run_each_construct) (use rows in \<open>auto simp: list_all_iff dest: in_set_takeD intro: summary_valid\<close>)
  have "opt_ok short_text_ok ?next"
  proof (cases "limit < length ?rows")
    case True
    then have "take limit ?rows \<noteq> []" using assms(2) by (cases ?rows) auto
    then have "last (take limit ?rows) \<in> set ?rows" by (meson in_set_takeD last_in_set)
    from rows[OF this] have "in_years (se_updated_at (last (take limit ?rows)))"
        "SessionId (se_session_id (last (take limit ?rows)))"
      by (simp_all only: valid_SessionRecord_def)
    then have "short_text_ok (cursor_of (last (take limit ?rows)))"
      unfolding short_text_ok_def cursor_of_def by (rule cursor_short)
    then show ?thesis by (simp add: opt_ok_def)
  qed (simp add: opt_ok_def)
  moreover have "(if limit < length ?rows \<and> ?ps \<noteq> [] then Some (cursor_of (fst (last ?ps))) else None) = ?next"
  proof (cases "take limit ?rows = []")
    case True
    then show ?thesis using assms(2) by (auto simp: take_eq_Nil)
  next
    case False
    then have "last ?ps = (last (take limit ?rows), stage_of w (last (take limit ?rows)))" by (rule last_map)
    then show ?thesis using False by simp
  qed
  moreover have summaries: "map (\<lambda>(s, stage). session_summary s stage) ?ps =
      map (\<lambda>s. session_summary s (stage_of w s)) (take limit ?rows)" by simp
  moreover have "list_all valid_SessionSummary (map (\<lambda>s. session_summary s (stage_of w s)) (take limit ?rows))"
    using rows by (auto simp: list_all_iff dest: in_set_takeD intro: summary_valid)
  moreover have "length (take limit ?rows) \<le> 100" using assms(3) by simp
  moreover have "run (list_page user limit k) w = run (construct valid_ListSessionsResponse
      \<lparr>ls_sessions = map (\<lambda>s. session_summary s (stage_of w s)) (take limit ?rows), ls_next_cursor = ?next\<rparr>) w"
    using calculation(2) by (simp only: list_page_def run_chain read each prod.case sum.case summaries)
  ultimately show ?thesis
    by (simp only: construct_def run_chain run_demand run_Ret valid_ListSessionsResponse_def
        ListSessionsResponse.simps length_map if_True simp_thms prod.case sum.case page_def)
qed

text \<open>Following a cursor drops exactly the rows up to the one it was made from.\<close>

lemma ids_distinct:
  assumes "db_ok w"
  shows "distinct (map se_session_id (dict_values (w_sessions w)))"
proof -
  have keyed: "se_session_id s = k" if "(k, s) \<in> set (w_sessions w)" for k s
    using assms that by (auto simp: db_ok_def sessions_ok_def session_ok_def dict_keys_def)
  then have "map (se_session_id \<circ> snd) (w_sessions w) = dict_keys (w_sessions w)"
    by (auto simp: dict_keys_def)
  then show ?thesis
    using assms by (simp add: db_ok_def sessions_ok_def dict_values_def)
qed

lemma keys_distinct: "db_ok w \<Longrightarrow> distinct (map row_key (dict_values (w_sessions w)))"
  using ids_distinct[of w] by (auto simp: distinct_map inj_on_def row_key_def)

lemma page_rows_distinct:
  assumes "distinct (map f (dict_values (w_sessions w)))"
  shows "distinct (map f (page_rows w user k))"
proof -
  have "distinct (map f (sort_key row_key (filter P (dict_values (w_sessions w)))))" for P
    using distinct_map_filter[OF assms, of P]
    by (metis mset_map mset_sort mset_eq_imp_distinct_iff)
  then have "distinct (rev (map f (page_rows w user k)))"
    by (simp add: page_rows_def newest_first_def rev_map)
  then show ?thesis by simp
qed

lemma page_rows_sorted:
  assumes "db_ok w"
  shows "sorted_wrt (\<lambda>s q. row_key q < row_key s) (page_rows w user k)"
proof -
  let ?sorted = "rev (page_rows w user k)"
  have "distinct (map row_key ?sorted)"
    using page_rows_distinct[OF keys_distinct[OF assms]] by (simp flip: rev_map)
  moreover have "sorted (map row_key ?sorted)" by (simp add: page_rows_def newest_first_def)
  ultimately have "sorted_wrt (<) (map row_key ?sorted)" by (simp add: strict_sorted_iff)
  then have "sorted_wrt (\<lambda>s q. row_key s < row_key q) ?sorted" by (simp add: sorted_wrt_map)
  then show ?thesis by (simp add: sorted_wrt_rev)
qed

lemma page_rows_after:
  assumes "db_ok w" "page_rows w user None = xs @ s # ys"
  shows "page_rows w user (Some (row_key s)) = ys"
proof -
  have all: "page_rows w user (Some b) = filter (\<lambda>q. row_key q < b) (page_rows w user None)" for b
    by (simp add: page_rows_def newest_first_def filter_sort[symmetric] rev_filter conj_commute flip: filter_filter)
  have "sorted_wrt (\<lambda>s q. row_key q < row_key s) (xs @ s # ys)"
    using page_rows_sorted[OF assms(1), of user None] assms(2) by simp
  then have "filter (\<lambda>q. row_key q < row_key s) xs = []" "filter (\<lambda>q. row_key q < row_key s) ys = ys"
    by (auto simp: sorted_wrt_append filter_empty_conv filter_id_conv)
  then show ?thesis by (simp add: all assms(2))
qed

section \<open>All pages\<close>

text \<open>The client: it asks again with \<open>next_cursor\<close> until there is none, for at most \<open>n\<close> pages.\<close>

fun follow :: "nat \<Rightarrow> (string option \<Rightarrow> exc + ListSessionsResponse) \<Rightarrow> string option \<Rightarrow> SessionSummary list option"
where
  "follow 0 fetch cursor = None"
| "follow (Suc n) fetch cursor =
     (case fetch cursor of
        Inl e \<Rightarrow> None
      | Inr r \<Rightarrow>
          (case ls_next_cursor r of
             None \<Rightarrow> Some (ls_sessions r)
           | Some c \<Rightarrow> map_option (\<lambda>more. ls_sessions r @ more) (follow n fetch (Some c))))"

definition fetch_page :: "iso_reader \<Rightarrow> int \<Rightarrow> uuid \<Rightarrow> uuid \<Rightarrow> world \<Rightarrow> string option \<Rightarrow> exc + ListSessionsResponse" where
  "fetch_page other limit correlation user w cursor = fst (run (get_sessions other limit cursor correlation user) w)"

lemma fetch_first:
  "listable w \<Longrightarrow> 1 \<le> limit \<Longrightarrow> limit \<le> 100 \<Longrightarrow>
   fetch_page other limit correlation user w None = Inr (page w (nat limit) (page_rows w user None))"
  by (simp add: fetch_page_def get_sessions_def ListSessionsQuery_def run_list_page nat_le_iff)

lemma fetch_next:
  assumes "listable w" "1 \<le> limit" "limit \<le> 100" "s \<in> set (page_rows w user None)"
  shows "fetch_page other limit correlation user w (Some (cursor_of s)) =
    Inr (page w (nat limit) (page_rows w user (Some (row_key s))))"
proof -
  have s: "in_years (se_updated_at s)" "SessionId (se_session_id s)"
    using assms(1) page_rows_in[OF assms(4)] by (auto simp: listable_def list_all_iff valid_SessionRecord_def)
  have "ShortText (cursor_of s) = Some (cursor_of s)" unfolding cursor_of_def by (rule cursor_short[OF s])
  moreover have "decode_cursor other (cursor_of s) = Some (row_key s)"
    unfolding cursor_of_def row_key_def
    by (rule cursor_decodes[OF s(1) _ session_id_text(2)[OF s(2)]]) (use session_id_text(1)[OF s(2)] in force)
  ultimately show ?thesis
    using assms(1-3) by (simp add: fetch_page_def get_sessions_def ListSessionsQuery_def run_list_page nat_le_iff)
qed

lemma follow_rest:
  assumes "listable w" "1 \<le> limit" "limit \<le> 100"
  shows "page_rows w user None = xs @ s # ys \<Longrightarrow> length ys < n \<Longrightarrow>
    follow n (fetch_page other limit correlation user w) (Some (cursor_of s)) =
      Some (map (\<lambda>s. session_summary s (stage_of w s)) ys)"
proof (induction n arbitrary: xs s ys)
  case (Suc n)
  have db: "db_ok w" using assms(1) by (simp add: listable_def)
  have "fetch_page other limit correlation user w (Some (cursor_of s)) = Inr (page w (nat limit) ys)"
    using fetch_next[OF assms, of s] page_rows_after[OF db Suc.prems(1)] Suc.prems(1) by simp
  moreover have "follow n (fetch_page other limit correlation user w) (Some (cursor_of (last (take (nat limit) ys)))) =
      Some (map (\<lambda>s. session_summary s (stage_of w s)) (drop (nat limit) ys))"
    if "nat limit < length ys"
  proof (rule Suc.IH)
    have "take (nat limit) ys \<noteq> []" using that assms(2) by (auto simp: take_eq_Nil)
    then have "ys = butlast (take (nat limit) ys) @ last (take (nat limit) ys) # drop (nat limit) ys"
      by (metis append.assoc append_Cons append_Nil append_butlast_last_id append_take_drop_id)
    then show "page_rows w user None =
        (xs @ s # butlast (take (nat limit) ys)) @ last (take (nat limit) ys) # drop (nat limit) ys"
      using Suc.prems(1) by simp
    show "length (drop (nat limit) ys) < n" using Suc.prems(2) that assms(2) by simp
  qed
  moreover have "map f (take k ys) @ map f (drop k ys) = map f ys" for f :: "SessionRecord \<Rightarrow> SessionSummary" and k
    by (simp flip: map_append)
  ultimately show ?case
    by (cases "nat limit < length ys") (simp_all only: follow.simps page_def ListSessionsResponse.simps sum.case
        if_True if_False option.case option.map take_all not_less)
qed simp

lemma follow_all:
  assumes "listable w" "1 \<le> limit" "limit \<le> 100"
  shows "follow (Suc (length (w_sessions w))) (fetch_page other limit correlation user w) None =
    Some (map (\<lambda>s. session_summary s (stage_of w s)) (page_rows w user None))"
proof -
  let ?rows = "page_rows w user None"
  have few: "length ?rows \<le> length (w_sessions w)"
    by (simp add: page_rows_def newest_first_def dict_values_def le_trans[OF length_filter_le])
  have "follow (length (w_sessions w)) (fetch_page other limit correlation user w)
      (Some (cursor_of (last (take (nat limit) ?rows)))) =
      Some (map (\<lambda>s. session_summary s (stage_of w s)) (drop (nat limit) ?rows))"
    if "nat limit < length ?rows"
  proof (rule follow_rest[OF assms])
    have "take (nat limit) ?rows \<noteq> []" using that assms(2) by (auto simp: take_eq_Nil)
    then show "?rows = butlast (take (nat limit) ?rows) @ last (take (nat limit) ?rows) # drop (nat limit) ?rows"
      by (metis append.assoc append_Cons append_Nil append_butlast_last_id append_take_drop_id)
    show "length (drop (nat limit) ?rows) < length (w_sessions w)" using that few assms(2) by simp
  qed
  moreover have "map f (take k ?rows) @ map f (drop k ?rows) = map f ?rows" for f :: "SessionRecord \<Rightarrow> SessionSummary" and k
    by (simp flip: map_append)
  ultimately show ?thesis
    by (cases "nat limit < length ?rows") (simp_all add: fetch_first[OF assms] page_def)
qed

lemma page_rows_spec:
  assumes "db_ok w"
  shows "distinct (map se_session_id (page_rows w user None))"
    "set (page_rows w user None) = {s \<in> set (dict_values (w_sessions w)). se_user_id s = user}"
    "sorted_wrt (\<lambda>s q. row_key q < row_key s) (page_rows w user None)"
proof -
  show sorted: "sorted_wrt (\<lambda>s q. row_key q < row_key s) (page_rows w user None)"
    by (rule page_rows_sorted[OF assms])
  show "set (page_rows w user None) = {s \<in> set (dict_values (w_sessions w)). se_user_id s = user}"
    by (auto simp: page_rows_def newest_first_def)
  show "distinct (map se_session_id (page_rows w user None))"
    by (rule page_rows_distinct[OF ids_distinct[OF assms]])
qed

text \<open>C7. Paging through the session list ends and is complete: on tables that do not change, a client
  that follows the next-page cursor from the first page gets, after finitely many pages of any admissible
  size, every session of the user exactly once, newest first.\<close>

theorem paging_complete:
  assumes "listable w" "1 \<le> limit" "limit \<le> 100"
  shows "\<exists>ss. follow (Suc (length (w_sessions w))) (fetch_page other limit correlation user w) None = Some ss \<and>
     distinct (map sm_session_id ss) \<and>
     set (map sm_session_id ss) = {se_session_id s | s. s \<in> set (dict_values (w_sessions w)) \<and> se_user_id s = user} \<and>
     sorted_wrt (\<lambda>a b. (sm_updated_at b, sm_session_id b) < (sm_updated_at a, sm_session_id a)) ss"
proof -
  have db: "db_ok w" using assms(1) by (simp add: listable_def)
  let ?ss = "map (\<lambda>s. session_summary s (stage_of w s)) (page_rows w user None)"
  have ids: "map sm_session_id ?ss = map se_session_id (page_rows w user None)"
    by (simp add: session_summary_def)
  have "sorted_wrt (\<lambda>a b. (sm_updated_at b, sm_session_id b) < (sm_updated_at a, sm_session_id a)) ?ss"
    using page_rows_spec(3)[OF db] by (simp add: sorted_wrt_map session_summary_def row_key_def)
  moreover have "distinct (map sm_session_id ?ss)" unfolding ids by (rule page_rows_spec(1)[OF db])
  moreover have "set (map sm_session_id ?ss) =
      {se_session_id s | s. s \<in> set (dict_values (w_sessions w)) \<and> se_user_id s = user}"
    unfolding ids using page_rows_spec(2)[OF db, of user] by auto
  ultimately show ?thesis using follow_all[OF assms] by blast
qed

lemma demo_listable: "listable demo_active"
proof -
  have "in_years 0" by code_simp
  then have "in_years (se_updated_at (demo_session Active))" by (simp add: demo_session_def)
  then show ?thesis
    using demo_active_ok demo_session_valid by (simp add: listable_def demo_active_def dict_values_def)
qed

theorem paging_complete_witness:
  "\<exists>ss. follow 2 (fetch_page (\<lambda>_. None) 1 0 demo_user demo_active) None = Some ss \<and>
     set (map sm_session_id ss) = {demo_sid}"
proof -
  have two: "2 = Suc (length (w_sessions demo_active))" by (simp add: demo_active_def)
  have "{se_session_id s | s. s \<in> set (dict_values (w_sessions demo_active)) \<and> se_user_id s = demo_user} = {demo_sid}"
    by (auto simp: demo_active_def dict_values_def demo_session_def)
  then show ?thesis
    unfolding two using paging_complete[OF demo_listable, of 1 "\<lambda>_. None" 0 demo_user] by auto
qed

end
