(* ===== verification/Basics.thy ===== *)
theory Basics
  imports Prelude
begin

text \<open>
  Small tools several components share: fallible pure functions as sums, splitting a string, decimal
  \<open>int(text)\<close>.
\<close>

section \<open>Fallible functions\<close>

named_theorems sum_simps \<open>when a fallible function returns\<close>

definition bind_sum :: "'e + 'a \<Rightarrow> ('a \<Rightarrow> 'e + 'b) \<Rightarrow> 'e + 'b" where
  "bind_sum x f = (case x of Inl e \<Rightarrow> Inl e | Inr y \<Rightarrow> f y)"

definition need :: "bool \<Rightarrow> 'e \<Rightarrow> 'e + unit" where
  "need b e = (if b then Inr () else Inl e)"

definition from_option :: "'e \<Rightarrow> 'a option \<Rightarrow> 'e + 'a" where
  "from_option e x = (case x of None \<Rightarrow> Inl e | Some y \<Rightarrow> Inr y)"

fun each_sum :: "('a \<Rightarrow> 'e + 'b) \<Rightarrow> 'a list \<Rightarrow> 'e + 'b list" where
  "each_sum f [] = Inr []"
| "each_sum f (x # xs) = bind_sum (f x) (\<lambda>y. bind_sum (each_sum f xs) (\<lambda>ys. Inr (y # ys)))"

lemma bind_sum_ok [sum_simps]: "bind_sum x f = Inr y \<longleftrightarrow> (\<exists>a. x = Inr a \<and> f a = Inr y)"
  by (cases x) (auto simp: bind_sum_def)

lemma bind_sum_run [simp]: "bind_sum (Inl e) f = Inl e" "bind_sum (Inr a) f = f a"
  by (simp_all add: bind_sum_def)

lemma need_ok [sum_simps]: "need b e = Inr u \<longleftrightarrow> b"
  by (simp add: need_def)

lemma from_option_ok [sum_simps]: "from_option e x = Inr y \<longleftrightarrow> x = Some y"
  by (cases x) (auto simp: from_option_def)

lemma each_sum_ok: "each_sum f xs = Inr ys \<longleftrightarrow> list_all2 (\<lambda>x y. f x = Inr y) xs ys"
proof (induction xs arbitrary: ys)
  case (Cons x xs)
  then show ?case by (cases ys) (auto simp: sum_simps)
qed auto

section \<open>Splitting\<close>

text \<open>\<open>text.split(c)\<close> for one character, and \<open>text.split()\<close> (ASCII whitespace).\<close>

fun split_on :: "char \<Rightarrow> string \<Rightarrow> string list" where
  "split_on c [] = [[]]"
| "split_on c (x # xs) =
     (if x = c then [] # split_on c xs
      else (case split_on c xs of [] \<Rightarrow> [[x]] | y # ys \<Rightarrow> (x # y) # ys))"

function words :: "string \<Rightarrow> string list" where
  "words [] = []"
| "words (c # s) =
     (if is_space c then words s
      else (c # takeWhile (\<lambda>d. \<not> is_space d) s) # words (dropWhile (\<lambda>d. \<not> is_space d) s))"
  by pat_completeness auto

termination by (relation "measure length") (auto simp: less_Suc_eq_le length_dropWhile_le)

declare words.simps(2) [simp del]

lemma words_spaceless: "w \<in> set (words s) \<Longrightarrow> w \<noteq> [] \<and> list_all (\<lambda>c. \<not> is_space c) w"
proof (induction s rule: words.induct)
  case (2 c s)
  have "list_all (\<lambda>d. \<not> is_space d) (takeWhile (\<lambda>d. \<not> is_space d) s)"
    using set_takeWhileD by (fastforce simp: list_all_iff)
  then show ?case using 2 by (auto simp: words.simps(2)[of c s] split: if_splits)
qed simp

text \<open>What follows the last \<open>/\<close> (\<open>text.rsplit("/", 1)[-1]\<close>).\<close>

definition last_segment :: "string \<Rightarrow> string" where
  "last_segment name = rev (takeWhile (\<lambda>c. c \<noteq> CHR ''/'') (rev name))"

text \<open>\<open>int(text)\<close>: a sign, digits with single underscores between them, whitespace around.\<close>

fun dec_body :: "bool \<Rightarrow> nat \<Rightarrow> string \<Rightarrow> nat option" where
  "dec_body gap n [] = (if gap then None else Some n)"
| "dec_body gap n (c # s) =
     (if c = CHR ''_'' then (if gap then None else dec_body True n s)
      else if is_digit c then dec_body False (10 * n + (of_char c - 48)) s else None)"

definition int_of_text :: "string \<Rightarrow> int option" where
  "int_of_text s =
     (case strip s of
        [] \<Rightarrow> None
      | c # t \<Rightarrow>
          if c = CHR ''-'' then map_option (\<lambda>n. - int n) (dec_body True 0 t)
          else map_option int (dec_body True 0 (if c = CHR ''+'' then t else c # t)))"

end
