(* ===== verification/Agent_Adapters.thy ===== *)
theory Agent_Adapters
  imports Turn_Rules Report_Render Uuid_Text Basics
begin

text \<open>
  The agents' HTTP adapters (\<open>shared/agent_kit/agent_kit\<close>): the single-turn reviewer and synthesis
  shells (\<open>adapter.py\<close>, \<open>synthesis_adapter.py\<close>, \<open>synthesis_input.py\<close>, \<open>reviewer_input.py\<close>) and the
  session-scoped facilitator (\<open>facilitator_adapter.py\<close>, \<open>facilitator_input.py\<close>) with its corrective
  loop, its store of completed turns and its tool guard. The model run itself, the JSON reading of a
  reply, the JSON dumps embedded in prompts and the wording of validation messages are parameters;
  a parsed value still has to satisfy the schema predicate before it is used.
\<close>

section \<open>HTTP answers\<close>

datatype 'b payload = Answer 'b | Failure ErrorBody | OtherJson

type_synonym 'b http = "nat \<times> 'b payload"

text \<open>The correlation id is fresh, and the message is cut at 2000 characters; both are kept short here.\<close>

definition error_response :: "nat \<Rightarrow> error_code \<Rightarrow> string \<Rightarrow> string \<Rightarrow> nat option \<Rightarrow> 'b http" where
  "error_response status code message who retry_after =
     (status, Failure \<lparr>eb_code = code, eb_message = message, eb_agent = Some who, eb_correlation = 0,
        eb_retryable = (retry_after \<noteq> None), eb_retry_after = retry_after\<rparr>)"

text \<open>
  An ADK event: no content, or the parts of its content, each with or without text. The single-turn
  shells concatenate all texts; the facilitator keeps the last event that has any, and an event
  without content raises there (None).
\<close>

type_synonym event = "string option list option"

definition parts_text :: "string option list \<Rightarrow> string" where
  "parts_text parts = concat (map (\<lambda>p. case p of None \<Rightarrow> [] | Some t \<Rightarrow> t) parts)"

definition all_text :: "event list \<Rightarrow> string" where
  "all_text events = concat (map (\<lambda>e. case e of None \<Rightarrow> [] | Some parts \<Rightarrow> parts_text parts) events)"

fun last_text :: "string \<Rightarrow> event list \<Rightarrow> string option" where
  "last_text acc [] = Some acc"
| "last_text acc (None # es) = None"
| "last_text acc (Some parts # es) =
     last_text (if parts_text parts = [] then acc else parts_text parts) es"

record 'r envelope =
  ev_report :: 'r
  ev_version :: string
  ev_sha :: string

definition stamped :: "string \<Rightarrow> string \<Rightarrow> bool" where
  "stamped version sha = (short_text_ok version \<and> Sha256 sha)"

record dumps =
  du_story :: "StoryDetail \<Rightarrow> string"
  du_review :: "ReviewReport \<Rightarrow> string"
  du_synthesis :: "SynthesisReport \<Rightarrow> string"
  du_reference :: "ArtifactReference \<Rightarrow> string"

definition fenced :: "string \<Rightarrow> string" where
  "fenced json = ''```json'' @ newline @ json @ newline @ ''```''"

definition paragraphs :: "string list \<Rightarrow> string" where
  "paragraphs = join (newline @ newline)"

section \<open>Single-turn agents\<close>

text \<open>
  \<open>sg_model\<close> is one fresh run (None: the run raised), \<open>sg_json\<close> reads a reply: None is not JSON,
  \<open>Some None\<close> is JSON of another shape.
\<close>

record 'r single_env =
  sg_slug :: string
  sg_version :: string
  sg_sha :: string
  sg_model :: "string \<Rightarrow> event list option"
  sg_json :: "string \<Rightarrow> 'r option option"
  sg_dumps :: dumps

datatype single_exc = OutputParseError | ReportMismatchError | RunFailed

definition parse_reply :: "('r \<Rightarrow> bool) \<Rightarrow> 'r single_env \<Rightarrow> string \<Rightarrow> single_exc + 'r" where
  "parse_reply ok env reply =
     (case sg_json env reply of
        Some (Some r) \<Rightarrow> if ok r then Inr r else Inl OutputParseError
      | _ \<Rightarrow> Inl OutputParseError)"

definition run_single :: "('r \<Rightarrow> bool) \<Rightarrow> 'r single_env \<Rightarrow> string \<Rightarrow> single_exc + 'r" where
  "run_single ok env message =
     (case sg_model env message of None \<Rightarrow> Inl RunFailed | Some events \<Rightarrow> parse_reply ok env (all_text events))"

definition run_reviewer :: "ReviewReport single_env \<Rightarrow> string \<Rightarrow> single_exc + ReviewReport" where
  "run_reviewer env message = run_single valid_ReviewReport env message"

definition run_synthesis :: "SynthesisReport single_env \<Rightarrow> string \<Rightarrow> single_exc + SynthesisReport" where
  "run_synthesis env message = run_single valid_SynthesisReport env message"

definition stamp :: "'r single_env \<Rightarrow> 'r \<Rightarrow> single_exc + 'r envelope" where
  "stamp env r =
     (if stamped (sg_version env) (sg_sha env)
      then Inr \<lparr>ev_report = r, ev_version = sg_version env, ev_sha = sg_sha env\<rparr> else Inl RunFailed)"

subsection \<open>Reviewers\<close>

record ReviewerRequest =
  vq_story :: StoryDetail
  vq_previous :: "ReviewReport option"
  vq_extra :: "string option"

definition valid_ReviewerRequest :: "ReviewerRequest \<Rightarrow> bool" where
  "valid_ReviewerRequest q = (valid_StoryDetail (vq_story q) \<and> opt_ok valid_ReviewReport (vq_previous q))"

definition render_reviewer_message :: "dumps \<Rightarrow> ReviewerRequest \<Rightarrow> string" where
  "render_reviewer_message du q =
     paragraphs
       ([''## Story under review'', fenced (du_story du (vq_story q))] @
        (case vq_previous q of None \<Rightarrow> []
         | Some r \<Rightarrow> [''## Previous review of this story (re-review baseline)'', fenced (du_review du r)]) @
        (case vq_extra q of None \<Rightarrow> [] | Some x \<Rightarrow> [''## Extra context from the Product Owner'', x]) @
        [''## Your task'', ''Produce the structured review of the story above, following your instructions.''])"

definition assemble_response ::
    "ReviewReport single_env \<Rightarrow> perspective \<Rightarrow> ReviewerRequest \<Rightarrow> ReviewReport \<Rightarrow> single_exc + ReviewReport envelope" where
  "assemble_response env p q r =
     (if rr_perspective r \<noteq> p \<or> rr_story_id r \<noteq> ss_story_id (vq_story q) \<or>
         vq_previous q = None \<and> rr_previous_review_version r \<noteq> None
      then Inl ReportMismatchError else stamp env r)"

definition single_answer :: "string \<Rightarrow> single_exc + 'r envelope \<Rightarrow> 'r envelope http" where
  "single_answer slug x =
     (case x of
        Inr a \<Rightarrow> (200, Answer a)
      | Inl RunFailed \<Rightarrow> error_response 503 UPSTREAM_UNAVAILABLE ''model call failed'' slug (Some 5)
      | Inl _ \<Rightarrow> error_response 422 VALIDATION_ERROR ''the reply does not fit the request'' slug None)"

text \<open>\<open>POST /invoke\<close>; the body is None when it is not even of the request's shape.\<close>

definition post_invoke_reviewer ::
    "ReviewReport single_env \<Rightarrow> perspective \<Rightarrow> ReviewerRequest option \<Rightarrow> ReviewReport envelope http" where
  "post_invoke_reviewer env p body =
     (case body of
        Some q \<Rightarrow>
          if valid_ReviewerRequest q
          then single_answer (sg_slug env)
            (bind_sum (run_reviewer env (render_reviewer_message (sg_dumps env) q)) (assemble_response env p q))
          else error_response 400 VALIDATION_ERROR ''invalid request'' (sg_slug env) None
      | None \<Rightarrow> error_response 400 VALIDATION_ERROR ''invalid request'' (sg_slug env) None)"

subsection \<open>Synthesis\<close>

record PerspectivePair =
  pp_report :: ReviewReport
  pp_reference :: ArtifactReference

definition reference_matches_report :: "PerspectivePair \<Rightarrow> bool" where
  "reference_matches_report p =
     (ar_perspective (pp_reference p) = Some (rr_perspective (pp_report p)) \<and>
      ar_type (pp_reference p) = review_type (rr_perspective (pp_report p)))"

definition valid_PerspectivePair :: "PerspectivePair \<Rightarrow> bool" where
  "valid_PerspectivePair p =
     (valid_ReviewReport (pp_report p) \<and> valid_ArtifactReference (pp_reference p) \<and> reference_matches_report p)"

record SynthesisRequest =
  yq_business :: PerspectivePair
  yq_engineering :: PerspectivePair

definition pairs_belong_together :: "SynthesisRequest \<Rightarrow> bool" where
  "pairs_belong_together q =
     (rr_story_id (pp_report (yq_business q)) = rr_story_id (pp_report (yq_engineering q)) \<and>
      ar_story_run_id (pp_reference (yq_business q)) = ar_story_run_id (pp_reference (yq_engineering q)))"

definition valid_SynthesisRequest :: "SynthesisRequest \<Rightarrow> bool" where
  "valid_SynthesisRequest q =
     (valid_PerspectivePair (yq_business q) \<and> valid_PerspectivePair (yq_engineering q) \<and> pairs_belong_together q)"

definition pair_sections :: "dumps \<Rightarrow> string \<Rightarrow> string \<Rightarrow> PerspectivePair \<Rightarrow> string list" where
  "pair_sections du label lowered p =
     [''## '' @ label, fenced (du_review du (pp_report p)),
      ''### Artifact reference for the '' @ lowered @ '' (echo unchanged in `inputs`)'',
      fenced (du_reference du (pp_reference p))]"

definition render_synthesis_message :: "dumps \<Rightarrow> SynthesisRequest \<Rightarrow> string" where
  "render_synthesis_message du q =
     paragraphs
       (pair_sections du ''Business review'' ''business review'' (yq_business q) @
        pair_sections du ''Engineering review'' ''engineering review'' (yq_engineering q) @
        [''## Your task'',
         ''Merge the two reviews above into one synthesis report, following your instructions. Echo the two supplied artifact references unchanged as your `inputs`.''])"

definition expected_ref :: "SynthesisRequest \<Rightarrow> perspective \<Rightarrow> ArtifactReference" where
  "expected_ref q p = pp_reference (case p of Business \<Rightarrow> yq_business q | Engineering \<Rightarrow> yq_engineering q)"

definition assemble_synthesis_response ::
    "SynthesisReport single_env \<Rightarrow> SynthesisRequest \<Rightarrow> SynthesisReport \<Rightarrow> single_exc + SynthesisReport envelope" where
  "assemble_synthesis_response env q r =
     (if sr_story_id r \<noteq> rr_story_id (pp_report (yq_business q)) \<or>
         \<not> list_all (\<lambda>(p, echoed). echoed = expected_ref q p) (sr_inputs r)
      then Inl ReportMismatchError else stamp env r)"

definition post_invoke_synthesis ::
    "SynthesisReport single_env \<Rightarrow> SynthesisRequest option \<Rightarrow> SynthesisReport envelope http" where
  "post_invoke_synthesis env body =
     (case body of
        Some q \<Rightarrow>
          if valid_SynthesisRequest q
          then single_answer (sg_slug env)
            (bind_sum (run_synthesis env (render_synthesis_message (sg_dumps env) q)) (assemble_synthesis_response env q))
          else error_response 400 VALIDATION_ERROR ''invalid request'' (sg_slug env) None
      | None \<Rightarrow> error_response 400 VALIDATION_ERROR ''invalid request'' (sg_slug env) None)"

end
