(* ===== verification/Facilitator_Adapter.thy ===== *)
theory Facilitator_Adapter
  imports Agent_Adapters
begin

text \<open>
  The session-scoped facilitator adapter (\<open>shared/agent_kit/agent_kit/facilitator_adapter.py\<close>, the
  renderer of \<open>facilitator_input.py\<close>, the durable store of \<open>turn_results.py\<close>): one model run per
  message, at most two corrective re-prompts, one stored response per completed invocation, and the
  reconciliation lookup. The state keeps the stored responses, the ADK session's messages and the
  number of model runs.
\<close>

section \<open>State and environment\<close>

record FacilitatorResponse =
  fp_output :: FacilitatorTurnOutput
  fp_version :: string
  fp_sha :: string
  fp_reprompts :: nat

definition valid_FacilitatorResponse :: "FacilitatorResponse \<Rightarrow> bool" where
  "valid_FacilitatorResponse r =
     (valid_FacilitatorTurnOutput (fp_output r) \<and> stamped (fp_version r) (fp_sha r) \<and> fp_reprompts r \<le> 2)"

record adapter_state =
  ad_results :: "(string \<times> uuid, FacilitatorResponse) dict"
  ad_transcript :: "(string \<times> string) list"
  ad_runs :: nat

datatype adapter_exc = RunRaised | CorrectionsExhausted turn_invalid | ProcessDied

text \<open>
  \<open>ap_model n transcript\<close> is what the \<open>n\<close>-th run yields (None: it raised), \<open>ap_dies n\<close> that the process
  dies during it, \<open>ap_explain\<close> the wording of a rejection.
\<close>

record adapter_env =
  ap_slug :: string
  ap_version :: string
  ap_sha :: string
  ap_model :: "nat \<Rightarrow> (string \<times> string) list \<Rightarrow> event list option"
  ap_dies :: "nat \<Rightarrow> bool"
  ap_json :: "string \<Rightarrow> FacilitatorTurnOutput option option"
  ap_explain :: "turn_invalid \<Rightarrow> string"
  ap_dumps :: dumps

type_synonym 'a adapter = "(adapter_state, adapter_exc, 'a) comp"

section \<open>Messages\<close>

definition artifact_line :: "ArtifactReference \<Rightarrow> string" where
  "artifact_line r =
     ''- `'' @ ar_artifact_id r @ ''` ('' @ artifact_type_name (ar_type r) @
     (case ar_perspective r of None \<Rightarrow> [] | Some p \<Rightarrow> '', '' @ perspective_name p) @
     '', v'' @ decimal (ar_version r) @ '')''"

definition decision_line :: "ResolutionItem \<Rightarrow> string" where
  "decision_line i =
     ''- '' @ ri_issue i @ '': '' @ disposition_name (ri_disposition i) @ '' (turn '' @ decimal (ri_turn_number i) @
     '') '' @ em_dash @ '' '' @ ri_explanation i"

definition decision_sections :: "DecisionState \<Rightarrow> string list" where
  "decision_sections d =
     (if ds_resolutions d = [] \<and> ds_open_issues d = [] then []
      else
        [''## Current decision state'',
         ''Latest recorded disposition per issue (authoritative '' @ em_dash @
         '' reconcile against this, not the conversation):'' @ newline @
         (if ds_resolutions d = [] then ''- none'' else join newline (map decision_line (ds_resolutions d))),
         ''Currently open issues: '' @
         (if ds_open_issues d = [] then ''none'' else join '', '' (ds_open_issues d))])"

definition render_facilitator_message :: "dumps \<Rightarrow> FacilitatorRequest \<Rightarrow> string" where
  "render_facilitator_message du q =
     paragraphs
       ([''## Turn context'',
         ''Story under review: '' @ sr_story_id (fq_synthesis_report q) @ ''. Story run: '' @
         ar_story_run_id (fq_synthesis_reference q) @ ''. This is turn '' @ decimal (fq_turn_number q) @
         (if fq_turn_number q = 1 then '' '' @ em_dash @ '' the opening turn (no PO message yet).'' else ''.'')] @
        (case fq_po_message q of None \<Rightarrow> [] | Some m \<Rightarrow> [''## PO message'', m]) @
        (case fq_decision_state q of None \<Rightarrow> [] | Some d \<Rightarrow> decision_sections d) @
        [''## Latest synthesis report'', fenced (du_synthesis du (fq_synthesis_report q)),
         ''### Synthesis artifact reference'', fenced (du_reference du (fq_synthesis_reference q))] @
        (if fq_evidence q = []
         then [''## Artifact references available as evidence'',
               ''None '' @ em_dash @ '' no artifacts are readable this turn.'']
         else [''## Artifact references available as evidence (this story run only)'',
               join newline (map artifact_line (fq_evidence q))]) @
        [''## Your task'',
         ''Produce this turn's `FacilitatorTurnOutput` following your instructions. Artifact reads are limited to the references listed above.''])"

definition corrective_message :: "string \<Rightarrow> string" where
  "corrective_message reasons =
     ''Your previous reply was not a valid FacilitatorTurnOutput:'' @ newline @ reasons @ newline @ newline @
     ''Reply again with a single corrected FacilitatorTurnOutput as JSON only '' @ em_dash @
     '' no prose outside the JSON object.''"

section \<open>One turn\<close>

definition CORRECTIVE_MAX :: nat where "CORRECTIVE_MAX = 2"

text \<open>\<open>make_send\<close>: append the message to the session, run the agent, take the last text.\<close>

definition send :: "adapter_env \<Rightarrow> string \<Rightarrow> string \<Rightarrow> string adapter" where
  "send env sid message =
     andThen (gets (\<lambda>s. (ad_runs s, ad_transcript s @ [(sid, message)]))) (\<lambda>(n, t).
     andThen (modify (\<lambda>s. s\<lparr>ad_transcript := t, ad_runs := n + 1\<rparr>)) (\<lambda>_.
     andThen (require (\<not> ap_dies env n) ProcessDied) (\<lambda>_.
     case Option.bind (ap_model env n t) (last_text []) of
       None \<Rightarrow> raise RunRaised
     | Some reply \<Rightarrow> andThen (modify (\<lambda>s. s\<lparr>ad_transcript := t @ [(sid, reply)]\<rparr>)) (\<lambda>_. ret reply))))"

definition parse_turn_output :: "adapter_env \<Rightarrow> string \<Rightarrow> turn_invalid + FacilitatorTurnOutput" where
  "parse_turn_output env reply =
     (case ap_json env reply of
        None \<Rightarrow> Inl NotJson
      | Some None \<Rightarrow> Inl SchemaInvalid
      | Some (Some o1) \<Rightarrow> if valid_FacilitatorTurnOutput o1 then Inr o1 else Inl SchemaInvalid)"

definition checked_output :: "adapter_env \<Rightarrow> FacilitatorRequest \<Rightarrow> string \<Rightarrow> turn_invalid + FacilitatorTurnOutput" where
  "checked_output env q reply =
     (case parse_turn_output env reply of
        Inl e \<Rightarrow> Inl e
      | Inr o1 \<Rightarrow> (case validate_turn_output o1 q of Inl e \<Rightarrow> Inl e | Inr _ \<Rightarrow> Inr o1))"

function corrections_loop ::
    "adapter_env \<Rightarrow> FacilitatorRequest \<Rightarrow> string \<Rightarrow> nat \<Rightarrow> (FacilitatorTurnOutput \<times> nat) adapter" where
  "corrections_loop env q message corrections =
     andThen (send env (fq_session_id q) message) (\<lambda>reply.
     case checked_output env q reply of
       Inr o1 \<Rightarrow> ret (o1, corrections)
     | Inl e \<Rightarrow>
         if CORRECTIVE_MAX \<le> corrections then raise (CorrectionsExhausted e)
         else corrections_loop env q (corrective_message (ap_explain env e)) (corrections + 1))"
  by pat_completeness auto

termination by (relation "measure (\<lambda>(env, q, message, corrections). CORRECTIVE_MAX - corrections)") auto

definition turn_with_corrections ::
    "adapter_env \<Rightarrow> FacilitatorRequest \<Rightarrow> (FacilitatorTurnOutput \<times> nat) adapter" where
  "turn_with_corrections env q =
     corrections_loop env q (render_facilitator_message (ap_dumps env) q) 0"

section \<open>Completed turns\<close>

definition lookup_result :: "string \<Rightarrow> uuid \<Rightarrow> FacilitatorResponse option adapter" where
  "lookup_result sid iid = gets (\<lambda>s. map_of (ad_results s) (sid, iid))"

text \<open>First wins: \<open>setdefault\<close> in memory, \<open>on conflict do nothing\<close> in Postgres.\<close>

definition save_result :: "string \<Rightarrow> uuid \<Rightarrow> FacilitatorResponse \<Rightarrow> unit adapter" where
  "save_result sid iid r = modify (\<lambda>s. s\<lparr>ad_results := dict_setdefault (sid, iid) r (ad_results s)\<rparr>)"

definition new_turn :: "adapter_env \<Rightarrow> FacilitatorRequest \<Rightarrow> FacilitatorResponse adapter" where
  "new_turn env q =
     andThen (turn_with_corrections env q) (\<lambda>(o1, corrections).
     let r = \<lparr>fp_output = o1, fp_version = ap_version env, fp_sha = ap_sha env, fp_reprompts = corrections\<rparr> in
     andThen (require (valid_FacilitatorResponse r) RunRaised) (\<lambda>_.
     andThen (save_result (fq_session_id q) (fq_invocation_id q) r) (\<lambda>_. ret r)))"

definition invalid_body :: "adapter_env \<Rightarrow> 'b http" where
  "invalid_body env = error_response 400 VALIDATION_ERROR ''invalid request'' (ap_slug env) None"

text \<open>\<open>POST /turn\<close>; a process that dies answers nothing.\<close>

definition turn :: "adapter_env \<Rightarrow> FacilitatorRequest option \<Rightarrow> FacilitatorResponse http adapter" where
  "turn env body =
     (case body of
        None \<Rightarrow> ret (invalid_body env)
      | Some q \<Rightarrow>
          if \<not> valid_FacilitatorRequest q then ret (invalid_body env)
          else on_error
            (andThen (lookup_result (fq_session_id q) (fq_invocation_id q)) (\<lambda>stored.
             case stored of
               Some r \<Rightarrow> ret (200, Answer r)
             | None \<Rightarrow> andThen (new_turn env q) (\<lambda>r. ret (200, Answer r))))
            (\<lambda>e. case e of
               ProcessDied \<Rightarrow> raise ProcessDied
             | CorrectionsExhausted _ \<Rightarrow>
                 ret (error_response 422 DELEGATION_VALIDATION ''no valid turn output'' (ap_slug env) None)
             | RunRaised \<Rightarrow>
                 ret (error_response 503 UPSTREAM_UNAVAILABLE ''model call failed'' (ap_slug env) (Some 5))))"

text \<open>\<open>GET /turn-result/{session_id}/{invocation_id}\<close>.\<close>

definition turn_result :: "adapter_env \<Rightarrow> string \<Rightarrow> string \<Rightarrow> FacilitatorResponse http adapter" where
  "turn_result env sid invocation =
     (case parse_uuid invocation of
        None \<Rightarrow> ret (error_response 400 VALIDATION_ERROR ''invocation id is not a UUID'' (ap_slug env) None)
      | Some iid \<Rightarrow>
          andThen (lookup_result sid iid) (\<lambda>stored.
          case stored of
            None \<Rightarrow> ret (error_response 404 SESSION_NOT_FOUND ''no completed turn'' (ap_slug env) None)
          | Some r \<Rightarrow> ret (200, Answer r)))"

section \<open>The tool guard\<close>

text \<open>
  A tool argument is a string, null, or another JSON value. \<open>re.match\<close> with a final \<open>$\<close> also accepts one
  trailing newline.
\<close>

datatype tool_arg = ArgText string | ArgNull | ArgOther

datatype tool = GetStory | ListStories | GetArtifact | ListArtifacts | OtherTool string

datatype rejection =
    NoActiveTurn | SourceOverride | InvalidStoryId | ForeignRun | OutsideLineage | NotPermitted

definition arg :: "(string \<times> tool_arg) list \<Rightarrow> string \<Rightarrow> tool_arg" where
  "arg args name = (case map_of args name of None \<Rightarrow> ArgNull | Some a \<Rightarrow> a)"

definition drop_newline :: "string \<Rightarrow> string" where
  "drop_newline s = (if s \<noteq> [] \<and> last s = CHR 10 then butlast s else s)"

definition story_arg_ok :: "tool_arg \<Rightarrow> bool" where
  "story_arg_ok a =
     (case a of ArgNull \<Rightarrow> True | ArgText s \<Rightarrow> StoryId s \<or> StoryId (drop_newline s) | ArgOther \<Rightarrow> False)"

definition allowed_ids :: "FacilitatorRequest \<Rightarrow> string list" where
  "allowed_ids q = ar_artifact_id (fq_synthesis_reference q) # map ar_artifact_id (fq_evidence q)"

definition artifact_arg_ok :: "FacilitatorRequest \<Rightarrow> tool_arg \<Rightarrow> bool" where
  "artifact_arg_ok q a =
     (case a of ArgNull \<Rightarrow> True | ArgText s \<Rightarrow> s \<in> set (allowed_ids q) | ArgOther \<Rightarrow> False)"

definition lineage_tool_guard ::
    "tool \<Rightarrow> (string \<times> tool_arg) list \<Rightarrow> FacilitatorRequest option \<Rightarrow> rejection option" where
  "lineage_tool_guard t args request =
     (case request of
        None \<Rightarrow> Some NoActiveTurn
      | Some q \<Rightarrow>
          if t = GetStory \<or> t = ListStories then
            (if arg args ''source'' \<noteq> ArgNull then Some SourceOverride
             else if \<not> story_arg_ok (arg args ''story_id'') then Some InvalidStoryId else None)
          else if t = GetArtifact \<or> t = ListArtifacts then
            (if arg args ''story_run_id'' \<noteq> ArgText (ar_story_run_id (fq_synthesis_reference q)) then Some ForeignRun
             else if \<not> artifact_arg_ok q (arg args ''artifact_id'') then Some OutsideLineage else None)
          else Some NotPermitted)"

section \<open>What a turn does\<close>

declare corrections_loop.simps [simp del]

lemma send_effect:
  assumes "send env sid message s = (x, t)"
  shows "ad_results t = ad_results s" "ad_runs t = ad_runs s + 1"
  using assms by (auto simp: send_def comp_simps split: if_splits option.splits)

lemma checked_output_ok:
  "checked_output env q reply = Inr o1 \<Longrightarrow> valid_FacilitatorTurnOutput o1 \<and> validate_turn_output o1 q = Inr ()"
  by (auto simp: checked_output_def parse_turn_output_def split: option.splits sum.splits if_splits)

text \<open>
  The loop from a given number of corrections: stored results stay, the runs are counted, and an
  output it returns has passed every rule.
\<close>

lemma corrections_loop_spec:
  assumes "corrections_loop env q message c s = (x, t)" "c \<le> CORRECTIVE_MAX"
  shows "ad_results t = ad_results s \<and>
    (case x of
       Inr (o1, k) \<Rightarrow> c \<le> k \<and> k \<le> CORRECTIVE_MAX \<and> ad_runs t = ad_runs s + (k - c) + 1 \<and>
         valid_FacilitatorTurnOutput o1 \<and> validate_turn_output o1 q = Inr ()
     | Inl (CorrectionsExhausted e) \<Rightarrow> ad_runs t = ad_runs s + (CORRECTIVE_MAX - c) + 1
     | Inl _ \<Rightarrow> ad_runs s < ad_runs t \<and> ad_runs t \<le> ad_runs s + (CORRECTIVE_MAX - c) + 1)"
  using assms
proof (induction env q message c arbitrary: s rule: corrections_loop.induct)
  case (1 env q message c)
  obtain y u where sent: "send env (fq_session_id q) message s = (y, u)" by fastforce
  note effect = send_effect[OF sent]
  show ?case
  proof (cases y)
    case (Inl e)
    moreover have "e \<noteq> CorrectionsExhausted i" for i
      using sent Inl by (auto simp: send_def comp_simps split: if_splits option.splits)
    ultimately show ?thesis
      using 1(2) sent effect by (cases e) (auto simp: corrections_loop.simps[of env q message c] comp_simps)
  next
    case (Inr reply)
    show ?thesis
    proof (cases "checked_output env q reply")
      case (Inr o1)
      then show ?thesis
        using 1(2,3) sent effect \<open>y = Inr reply\<close> checked_output_ok[OF Inr]
        by (auto simp: corrections_loop.simps[of env q message c] comp_simps)
    next
      case (Inl e)
      show ?thesis
      proof (cases "CORRECTIVE_MAX \<le> c")
        case True
        then show ?thesis
          using 1(2) sent effect \<open>y = Inr reply\<close> Inl
          by (auto simp: corrections_loop.simps[of env q message c] comp_simps)
      next
        case False
        then have again: "corrections_loop env q (corrective_message (ap_explain env e)) (c + 1) u = (x, t)"
          using 1(2) sent \<open>y = Inr reply\<close> Inl by (simp add: corrections_loop.simps[of env q message c] comp_simps)
        from 1(1)[OF Inl False again] False show ?thesis
          using effect by (auto split: sum.splits adapter_exc.splits)
      qed
    qed
  qed
qed

definition stored :: "adapter_state \<Rightarrow> FacilitatorRequest \<Rightarrow> FacilitatorResponse option" where
  "stored s q = map_of (ad_results s) (fq_session_id q, fq_invocation_id q)"

lemma new_turn_spec:
  assumes "new_turn env q s = (x, t)" "stored s q = None"
  shows "case x of
      Inr r \<Rightarrow> stored t q = Some r \<and> ad_runs t = ad_runs s + fp_reprompts r + 1 \<and> valid_FacilitatorResponse r \<and>
        validate_turn_output (fp_output r) q = Inr () \<and>
        ad_results t = ad_results s @ [((fq_session_id q, fq_invocation_id q), r)]
    | Inl e \<Rightarrow> ad_results t = ad_results s \<and> ad_runs s < ad_runs t \<and> ad_runs t \<le> ad_runs s + 3"
proof -
  obtain y u where loop: "turn_with_corrections env q s = (y, u)" by fastforce
  note spec = corrections_loop_spec[OF loop[unfolded turn_with_corrections_def]]
  show ?thesis
  proof (cases y)
    case (Inl e)
    then show ?thesis
      using assms(1) loop spec
      by (cases e) (auto simp: new_turn_def comp_simps CORRECTIVE_MAX_def)
  next
    case (Inr o2)
    obtain o1 k where o2: "o2 = (o1, k)" by (cases o2) auto
    show ?thesis
      using assms loop spec Inr
      by (auto simp: new_turn_def comp_simps CORRECTIVE_MAX_def o2 Let_def stored_def save_result_def
          dict_setdefault_def valid_FacilitatorResponse_def map_add_def split: if_splits)
  qed
qed

text \<open>The two laws the caller's retries rest on: a stored turn is replayed, a 200 was stored.\<close>

lemma turn_replays:
  "valid_FacilitatorRequest q \<Longrightarrow> stored s q = Some r \<Longrightarrow> turn env (Some q) s = (Inr (200, Answer r), s)"
  by (simp add: turn_def comp_simps lookup_result_def stored_def)

lemma turn_spec:
  assumes "turn env (Some q) s = (x, t)" "valid_FacilitatorRequest q" "stored s q = None"
  shows "(\<exists>r. x = Inr (200, Answer r) \<and> stored t q = Some r \<and> ad_runs t = ad_runs s + fp_reprompts r + 1 \<and>
       valid_FacilitatorResponse r \<and> validate_turn_output (fp_output r) q = Inr () \<and>
       ad_results t = ad_results s @ [((fq_session_id q, fq_invocation_id q), r)]) \<or>
     ((\<forall>b. x \<noteq> Inr (200, b)) \<and> ad_results t = ad_results s \<and> ad_runs s < ad_runs t \<and> ad_runs t \<le> ad_runs s + 3)"
proof -
  obtain y u where new: "new_turn env q s = (y, u)" by fastforce
  note spec = new_turn_spec[OF new assms(3)]
  show ?thesis
  proof (cases y)
    case (Inl e)
    then show ?thesis
      using assms new spec
      by (cases e) (auto simp: turn_def comp_simps lookup_result_def stored_def error_response_def)
  next
    case (Inr r)
    then show ?thesis
      using assms new spec by (auto simp: turn_def comp_simps lookup_result_def stored_def)
  qed
qed

lemma turn_cost:
  assumes "turn env (Some q) s = (x, t)" "valid_FacilitatorRequest q"
  shows "ad_runs t \<le> ad_runs s + 3"
proof (cases "stored s q")
  case None
  from turn_spec[OF assms None] show ?thesis by (auto simp: valid_FacilitatorResponse_def)
next
  case (Some r)
  then show ?thesis using turn_replays[OF assms(2) Some, of env] assms(1) by simp
qed

text \<open>The lookup endpoint reads the UUID the client wrote.\<close>

lemma turn_result_spec:
  "turn_result env (fq_session_id q) (uuid_str (fq_invocation_id q)) s =
     (case stored s q of
        None \<Rightarrow> (Inr (error_response 404 SESSION_NOT_FOUND ''no completed turn'' (ap_slug env) None), s)
      | Some r \<Rightarrow> (Inr (200, Answer r), s))"
  by (simp add: turn_result_def parse_uuid_str comp_simps lookup_result_def stored_def split: option.split)

text \<open>C27. Handling one facilitator turn request costs at most three model runs, whatever the model
  replies. A stored turn costs none and is answered as stored. A new turn that is answered with 200 took
  one run more than its recorded corrective re-prompts, its output satisfies the schema and every turn
  rule, and it is the one new stored turn; any other outcome stores nothing.\<close>

theorem facilitator_turn_bounded:
  assumes "turn env (Some q) s = (x, t)" "valid_FacilitatorRequest q"
  shows "ad_runs t \<le> ad_runs s + 3 \<and>
    (case stored s q of
       Some r \<Rightarrow> x = Inr (200, Answer r) \<and> t = s
     | None \<Rightarrow>
         (\<exists>r. x = Inr (200, Answer r) \<and> ad_runs t = ad_runs s + fp_reprompts r + 1 \<and> fp_reprompts r \<le> 2 \<and>
            valid_FacilitatorTurnOutput (fp_output r) \<and> validate_turn_output (fp_output r) q = Inr () \<and>
            ad_results t = ad_results s @ [((fq_session_id q, fq_invocation_id q), r)]) \<or>
         ((\<forall>b. x \<noteq> Inr (200, b)) \<and> ad_results t = ad_results s \<and> ad_runs s < ad_runs t))"
proof (cases "stored s q")
  case None
  from turn_spec[OF assms(1,2) None] show ?thesis
    by (auto simp: None valid_FacilitatorResponse_def)
next
  case (Some r)
  then show ?thesis using turn_replays[OF assms(2) Some, of env] assms(1) by auto
qed

section \<open>A first reply that needs a correction\<close>

definition demo_sha :: string where
  "demo_sha = replicate 64 (CHR ''a'')"

lemma demo_sha_ok: "Sha256 demo_sha"
  by (simp add: Sha256_def demo_sha_def list_all_iff is_lower_hex_def Let_def)

definition demo_ref :: "artifact_type \<Rightarrow> uuid \<Rightarrow> ArtifactReference" where
  "demo_ref ty u =
     \<lparr>ar_artifact_id = artifact_id_of u, ar_story_run_id = run_id_of 8, ar_type = ty,
      ar_perspective = expected_perspective ty, ar_version = 1, ar_created_at = 0,
      ar_content_type = expected_content_type ty, ar_checksum_sha256 = demo_sha,
      ar_is_latest = True\<rparr>"

definition demo_synthesis :: SynthesisReport where
  "demo_synthesis =
     \<lparr>sr_story_id = ''story-01'', sr_summary = ''hello'', sr_merged_findings = [], sr_conflicts = [],
      sr_questions_for_po = [], sr_resolved_from_previous = [],
      sr_inputs = [(Business, demo_ref ReviewBusiness 1), (Engineering, demo_ref ReviewEngineering 2)]\<rparr>"

definition demo_request :: FacilitatorRequest where
  "demo_request =
     \<lparr>fq_session_id = session_id_of 9, fq_turn_number = 2, fq_invocation_id = 77, fq_po_message = Some ''hi'',
      fq_synthesis_report = demo_synthesis, fq_synthesis_reference = demo_ref SynthesisArtifact 3,
      fq_evidence = [], fq_decision_state = None\<rparr>"

definition demo_output :: FacilitatorTurnOutput where
  "demo_output =
     \<lparr>fo_reply = ''hello'',
      fo_delegation = \<lparr>dd_invoke = InvokeNone, dd_extra_context = None, dd_reuse_previous = False,
        dd_open_issues = [], dd_readiness = NeedsWork\<rparr>,
      fo_resolutions = [], fo_new_issues = []\<rparr>"

definition demo_adapter :: adapter_env where
  "demo_adapter =
     \<lparr>ap_slug = ''facilitator'', ap_version = ''1'', ap_sha = demo_sha,
      ap_model = (\<lambda>n _. Some [Some [Some (if n = 0 then ''?'' else ''{}'')]]), ap_dies = (\<lambda>_. False),
      ap_json = (\<lambda>reply. if reply = ''{}'' then Some (Some demo_output) else None),
      ap_explain = (\<lambda>_. ''not JSON''),
      ap_dumps = \<lparr>du_story = (\<lambda>_. []), du_review = (\<lambda>_. []), du_synthesis = (\<lambda>_. []), du_reference = (\<lambda>_. [])\<rparr>\<rparr>"

definition idle_adapter :: adapter_state where
  "idle_adapter = \<lparr>ad_results = [], ad_transcript = [], ad_runs = 0\<rparr>"

lemma demo_ref_valid: "valid_ArtifactReference (demo_ref ty u)"
  by (simp add: valid_ArtifactReference_def demo_ref_def minted_ids demo_sha_ok)

lemma demo_words: "text_ok ''hello''" "text_ok ''hi''" "StoryId ''story-01''" "short_text_ok ''1''"
  by (simp_all add: text_ok_def short_text_ok_def Text_def ShortText_def bounded_text_def strip_def lstrip_def
      rstrip_def is_space_def py_len_def is_continuation_def StoryId_def all_digits_def is_digit_def)

lemma demo_request_valid: "valid_FacilitatorRequest demo_request"
proof -
  have "valid_SynthesisReport demo_synthesis"
    by (simp add: valid_SynthesisReport_def demo_synthesis_def demo_words dict_values_def dict_keys_def
        demo_ref_valid validate_paired_inputs_def) (auto simp: demo_ref_def)
  then show ?thesis
    by (simp add: valid_FacilitatorRequest_def demo_request_def minted_ids demo_words demo_ref_valid opt_ok_def
        turn_and_message_agree_def) (simp add: demo_ref_def)
qed

lemma demo_output_valid: "valid_FacilitatorTurnOutput demo_output"
  by (simp add: valid_FacilitatorTurnOutput_def demo_output_def demo_words valid_DelegationDecision_def opt_ok_def
      validate_combination_def resolutions_are_final_def new_issues_are_open_def)

lemma demo_turn_run:
  "\<exists>t. turn demo_adapter (Some demo_request) idle_adapter = (Inr (200, Answer
      \<lparr>fp_output = demo_output, fp_version = ''1'', fp_sha = demo_sha, fp_reprompts = 1\<rparr>), t) \<and>
     ad_runs t = 2"
proof -
  have rules: "validate_turn_output demo_output demo_request = Inr ()"
    by (simp add: validate_turn_output_def demo_output_def demo_request_def Let_def)
  note valid = demo_output_valid
  have reply: "checked_output demo_adapter demo_request ''{}'' = Inr demo_output"
    "checked_output demo_adapter demo_request ''?'' = Inl NotJson"
    using rules valid by (simp_all add: checked_output_def parse_turn_output_def demo_adapter_def)
  have env: "ap_model demo_adapter n t = Some [Some [Some (if n = 0 then ''?'' else ''{}'')]]"
      "\<not> ap_dies demo_adapter n" "ap_version demo_adapter = ''1''" "ap_sha demo_adapter = demo_sha" for n t
    by (simp_all add: demo_adapter_def)
  have "stamped ''1'' (demo_sha)"
    by (simp add: stamped_def demo_words demo_sha_ok)
  then show ?thesis
    using demo_request_valid
    by (simp add: turn_def new_turn_def turn_with_corrections_def corrections_loop.simps[of _ _ _ 0]
        corrections_loop.simps[of _ _ _ "Suc 0"] send_def comp_simps
        lookup_result_def idle_adapter_def env parts_text_def reply CORRECTIVE_MAX_def Let_def
        valid_FacilitatorResponse_def valid save_result_def)
qed

theorem facilitator_turn_bounded_witness:
  "\<exists>t. turn demo_adapter (Some demo_request) idle_adapter = (Inr (200, Answer
      \<lparr>fp_output = demo_output, fp_version = ''1'', fp_sha = demo_sha, fp_reprompts = 1\<rparr>), t) \<and>
     ad_runs t \<le> ad_runs idle_adapter + 3"
  using demo_turn_run facilitator_turn_bounded[OF _ demo_request_valid, of demo_adapter idle_adapter] by blast

end
