(* ===== verification/Turn_Attempts.thy ===== *)
theory Turn_Attempts
  imports Facilitator_Adapter
begin

text \<open>
  Turn requests that overlap (\<open>shared/agent_kit/agent_kit/facilitator_adapter.py\<close>, the note in
  \<open>turn\<close>). A client that gives up on a request does not stop its handler, so the handlers of
  several requests for one invocation may be under way in the adapter. Here a handler is a list of
  steps at its awaits: the lookup, each model run, the save. \<open>attempt_alone\<close> shows that the steps
  taken without interruption are \<open>turn\<close>; the rest is what holds of any interleaving.
\<close>

section \<open>A handler in steps\<close>

text \<open>\<open>Replied None\<close>: its process died.\<close>

datatype progress =
    Looking | Asking string nat | Saving FacilitatorResponse | Replied "FacilitatorResponse http option"

definition model_failed :: "adapter_env \<Rightarrow> FacilitatorResponse http" where
  "model_failed env = error_response 503 UPSTREAM_UNAVAILABLE ''model call failed'' (ap_slug env) (Some 5)"

definition no_valid_output :: "adapter_env \<Rightarrow> FacilitatorResponse http" where
  "no_valid_output env = error_response 422 DELEGATION_VALIDATION ''no valid turn output'' (ap_slug env) None"

definition after_reply :: "adapter_env \<Rightarrow> FacilitatorRequest \<Rightarrow> nat \<Rightarrow> string \<Rightarrow> progress" where
  "after_reply env q corrections reply =
     (case checked_output env q reply of
        Inr o1 \<Rightarrow>
          (let r = \<lparr>fp_output = o1, fp_version = ap_version env, fp_sha = ap_sha env, fp_reprompts = corrections\<rparr> in
           if valid_FacilitatorResponse r then Saving r else Replied (Some (model_failed env)))
      | Inl e \<Rightarrow>
          if CORRECTIVE_MAX \<le> corrections then Replied (Some (no_valid_output env))
          else Asking (corrective_message (ap_explain env e)) (corrections + 1))"

fun attempt_step ::
    "adapter_env \<Rightarrow> FacilitatorRequest \<Rightarrow> progress \<times> adapter_state \<Rightarrow> progress \<times> adapter_state" where
  "attempt_step env q (Looking, s) =
     (case stored s q of
        Some r \<Rightarrow> Replied (Some (200, Answer r))
      | None \<Rightarrow> Asking (render_facilitator_message (ap_dumps env) q) 0, s)"
| "attempt_step env q (Asking message corrections, s) =
     (case send env (fq_session_id q) message s of
        (Inl ProcessDied, t) \<Rightarrow> (Replied None, t)
      | (Inl _, t) \<Rightarrow> (Replied (Some (model_failed env)), t)
      | (Inr reply, t) \<Rightarrow> (after_reply env q corrections reply, t))"
| "attempt_step env q (Saving r, s) =
     (Replied (Some (200, Answer r)), snd (save_result (fq_session_id q) (fq_invocation_id q) r s))"
| "attempt_step env q (Replied x, s) = (Replied x, s)"

section \<open>Uninterrupted, it is the turn\<close>

text \<open>The corrections loop followed by the rest of \<open>turn\<close>.\<close>

definition loop_then_save ::
    "adapter_env \<Rightarrow> FacilitatorRequest \<Rightarrow> string \<Rightarrow> nat \<Rightarrow> adapter_state \<Rightarrow> progress \<times> adapter_state" where
  "loop_then_save env q message corrections s =
     (case corrections_loop env q message corrections s of
        (Inl ProcessDied, t) \<Rightarrow> (Replied None, t)
      | (Inl RunRaised, t) \<Rightarrow> (Replied (Some (model_failed env)), t)
      | (Inl (CorrectionsExhausted _), t) \<Rightarrow> (Replied (Some (no_valid_output env)), t)
      | (Inr (o1, k), t) \<Rightarrow>
          (let r = \<lparr>fp_output = o1, fp_version = ap_version env, fp_sha = ap_sha env, fp_reprompts = k\<rparr> in
           if valid_FacilitatorResponse r
           then (Replied (Some (200, Answer r)), snd (save_result (fq_session_id q) (fq_invocation_id q) r t))
           else (Replied (Some (model_failed env)), t)))"

lemma replied_stays: "(attempt_step env q ^^ n) (Replied x, s) = (Replied x, s)"
  by (induction n) simp_all

lemma send_raises: "send env sid message s = (Inl e, t) \<Longrightarrow> e = ProcessDied \<or> e = RunRaised"
  by (auto simp: send_def comp_simps split: if_splits option.splits)

lemma steps_from_asking:
  "CORRECTIVE_MAX + 2 \<le> c + n \<Longrightarrow> 2 \<le> n \<Longrightarrow>
   (attempt_step env q ^^ n) (Asking message c, s) = loop_then_save env q message c s"
proof (induction env q message c arbitrary: s n rule: corrections_loop.induct)
  case (1 env q message c)
  obtain m where n: "n = Suc m" "0 < m" using 1(3) by (cases n) auto
  obtain k where k: "m = Suc k" using n(2) by (cases m) auto
  have first: "(attempt_step env q ^^ n) (Asking message c, s) =
      (attempt_step env q ^^ m) (attempt_step env q (Asking message c, s))"
    unfolding n(1) by (simp add: funpow_swap1)
  note loop = loop_then_save_def corrections_loop.simps[of env q message c]
  obtain y u where sent: "send env (fq_session_id q) message s = (y, u)" by fastforce
  show ?case
  proof (cases y)
    case (Inl e)
    with send_raises sent have "e = ProcessDied \<or> e = RunRaised" by blast
    then show ?thesis using sent Inl by (auto simp: first loop comp_simps replied_stays)
  next
    case (Inr reply)
    show ?thesis
    proof (cases "checked_output env q reply")
      case ok: (Inr o1)
      have "(attempt_step env q ^^ m) (Saving r, v) = attempt_step env q (Saving r, v)" for r v
        unfolding k by (simp add: funpow_swap1 replied_stays)
      then show ?thesis
        using sent Inr ok
        by (auto simp: first loop comp_simps after_reply_def Let_def replied_stays)
    next
      case bad: (Inl e)
      show ?thesis
      proof (cases "CORRECTIVE_MAX \<le> c")
        case True
        then show ?thesis using sent Inr bad
          by (simp add: first loop comp_simps after_reply_def replied_stays)
      next
        case False
        have "(attempt_step env q ^^ m) (Asking (corrective_message (ap_explain env e)) (c + 1), u) =
            loop_then_save env q (corrective_message (ap_explain env e)) (c + 1) u"
          by (rule 1(1)[OF bad False]) (use 1(2) False n in \<open>auto simp: CORRECTIVE_MAX_def\<close>)
        then show ?thesis using False sent Inr bad
          by (simp add: first loop comp_simps after_reply_def)
      qed
    qed
  qed
qed

text \<open>Five steps without interruption are \<open>turn\<close>: lookup, at most three runs, save.\<close>

definition answered_by :: "'x adapter \<Rightarrow> adapter_state \<Rightarrow> 'x option \<times> adapter_state" where
  "answered_by work s = (case work s of (Inl e, t) \<Rightarrow> (None, t) | (Inr x, t) \<Rightarrow> (Some x, t))"

theorem attempt_alone:
  assumes "valid_FacilitatorRequest q" "answered_by (turn env (Some q)) s = (x, t)"
  shows "(attempt_step env q ^^ 5) (Looking, s) = (Replied x, t)"
proof (cases "stored s q")
  case (Some r)
  then show ?thesis
    using assms turn_replays[OF assms(1) Some, of env]
    by (simp add: answered_by_def eval_nat_numeral)
next
  case None
  let ?message = "render_facilitator_message (ap_dumps env) q"
  have "(attempt_step env q ^^ 5) (Looking, s) = (attempt_step env q ^^ 4) (Asking ?message 0, s)"
    using None by (simp add: numeral_eq_Suc funpow_swap1)
  also have "\<dots> = loop_then_save env q ?message 0 s"
    by (rule steps_from_asking) (simp_all add: CORRECTIVE_MAX_def)
  also have "\<dots> = (Replied x, t)"
    using assms None
    by (auto simp: loop_then_save_def answered_by_def turn_def new_turn_def turn_with_corrections_def comp_simps
        lookup_result_def stored_def save_result_def model_failed_def no_valid_output_def Let_def
        split: prod.splits sum.splits adapter_exc.splits if_splits)
  finally show ?thesis .
qed

section \<open>Several handlers\<close>

text \<open>
  The adapter with every handler it ever started. A schedule lists whose step comes next;
  \<open>fs_overlapped\<close> notes that a handler was started while another one for the same invocation was
  still under way.
\<close>

record facilitator_server =
  fs_adapter :: adapter_state
  fs_handlers :: "(FacilitatorRequest \<times> progress) list"
  fs_calls :: nat
  fs_overlapped :: bool

fun take_steps :: "adapter_env \<Rightarrow> nat list \<Rightarrow> facilitator_server \<Rightarrow> facilitator_server" where
  "take_steps env [] s = s"
| "take_steps env (i # is) s =
     (if i < length (fs_handlers s) then
        (case fs_handlers s ! i of (q, p) \<Rightarrow>
         case attempt_step env q (p, fs_adapter s) of (p', a) \<Rightarrow>
           take_steps env is (s\<lparr>fs_adapter := a, fs_handlers := (fs_handlers s)[i := (q, p')]\<rparr>))
      else take_steps env is s)"

definition same_invocation :: "FacilitatorRequest \<Rightarrow> FacilitatorRequest \<Rightarrow> bool" where
  "same_invocation q r = (fq_session_id q = fq_session_id r \<and> fq_invocation_id q = fq_invocation_id r)"

definition under_way :: "FacilitatorRequest \<Rightarrow> facilitator_server \<Rightarrow> bool" where
  "under_way q s = list_ex (\<lambda>(r, p). same_invocation q r \<and> (\<forall>x. p \<noteq> Replied x)) (fs_handlers s)"

text \<open>
  \<open>schedule n\<close> is what happens in the adapter during the \<open>n\<close>-th request it receives. A handler that has
  not replied by then goes on during later requests; its client has given up.
\<close>

definition serve_turn ::
    "adapter_env \<Rightarrow> (nat \<Rightarrow> nat list) \<Rightarrow> FacilitatorRequest \<Rightarrow> facilitator_server \<Rightarrow>
     FacilitatorResponse http option \<times> facilitator_server" where
  "serve_turn env schedule q s =
     (if \<not> valid_FacilitatorRequest q then (Some (invalid_body env), s\<lparr>fs_calls := fs_calls s + 1\<rparr>)
      else
        let t = take_steps env (schedule (fs_calls s))
              (s\<lparr>fs_handlers := fs_handlers s @ [(q, Looking)], fs_calls := fs_calls s + 1,
                 fs_overlapped := fs_overlapped s \<or> under_way q s\<rparr>) in
        (case snd (fs_handlers t ! length (fs_handlers s)) of Replied x \<Rightarrow> x | _ \<Rightarrow> None, t))"

definition serve_lookup ::
    "adapter_env \<Rightarrow> (nat \<Rightarrow> nat list) \<Rightarrow> string \<Rightarrow> string \<Rightarrow> facilitator_server \<Rightarrow>
     FacilitatorResponse http option \<times> facilitator_server" where
  "serve_lookup env schedule sid invocation s =
     (let t = take_steps env (schedule (fs_calls s)) (s\<lparr>fs_calls := fs_calls s + 1\<rparr>) in
      (fst (answered_by (turn_result env sid invocation) (fs_adapter t)), t))"

abbreviation kept_answer :: "facilitator_server \<Rightarrow> FacilitatorRequest \<Rightarrow> FacilitatorResponse option" where
  "kept_answer s q \<equiv> stored (fs_adapter s) q"

text \<open>A handler that is not interrupted answers a request as \<open>turn\<close> does.\<close>

lemma take_steps_alone:
  assumes "j < length (fs_handlers s)" "fs_handlers s ! j = (q, p)"
    "(attempt_step env q ^^ n) (p, fs_adapter s) = (p', a)"
  shows "take_steps env (replicate n j) s = s\<lparr>fs_adapter := a, fs_handlers := (fs_handlers s)[j := (q, p')]\<rparr>"
  using assms
proof (induction n arbitrary: s p)
  case 0
  then show ?case by (metis fst_conv funpow_0 list_update_id replicate_0 snd_conv take_steps.simps(1)
        facilitator_server.surjective facilitator_server.update_convs(1,2))
next
  case (Suc n)
  obtain p1 a1 where one: "attempt_step env q (p, fs_adapter s) = (p1, a1)" by fastforce
  let ?t = "s\<lparr>fs_adapter := a1, fs_handlers := (fs_handlers s)[j := (q, p1)]\<rparr>"
  have "(attempt_step env q ^^ n) (p1, fs_adapter ?t) = (p', a)"
    using Suc.prems(3) one by (simp add: funpow_swap1)
  from Suc.IH[OF _ _ this] show ?case using Suc.prems(1,2) one by simp
qed

theorem serve_turn_alone:
  assumes "valid_FacilitatorRequest q" "answered_by (turn env (Some q)) (fs_adapter s) = (x, a)"
    "sched (fs_calls s) = replicate 5 (length (fs_handlers s))"
  shows "serve_turn env sched q s =
    (x, s\<lparr>fs_adapter := a, fs_handlers := fs_handlers s @ [(q, Replied x)], fs_calls := fs_calls s + 1,
       fs_overlapped := fs_overlapped s \<or> under_way q s\<rparr>)"
proof -
  let ?s = "s\<lparr>fs_handlers := fs_handlers s @ [(q, Looking)], fs_calls := fs_calls s + 1,
    fs_overlapped := fs_overlapped s \<or> under_way q s\<rparr>"
  have "take_steps env (replicate 5 (length (fs_handlers s))) ?s =
      ?s\<lparr>fs_adapter := a, fs_handlers := fs_handlers s @ [(q, Replied x)]\<rparr>"
    using take_steps_alone[of "length (fs_handlers s)" ?s q Looking 5 env "Replied x" a]
      attempt_alone[OF assms(1,2)] by simp
  then show ?thesis using assms(1,3) by (simp add: serve_turn_def Let_def)
qed

section \<open>What any interleaving keeps\<close>

text \<open>A stored answer stays, and the runs still possible only become fewer.\<close>

definition runs_left :: "adapter_state \<Rightarrow> FacilitatorRequest \<times> progress \<Rightarrow> nat" where
  "runs_left s h =
     (case snd h of
        Looking \<Rightarrow> if stored s (fst h) = None then CORRECTIVE_MAX + 1 else 0
      | Asking message c \<Rightarrow> max 1 (CORRECTIVE_MAX + 1 - c)
      | _ \<Rightarrow> 0)"

definition model_runs :: "facilitator_server \<Rightarrow> nat" where
  "model_runs s = ad_runs (fs_adapter s) + sum_list (map (runs_left (fs_adapter s)) (fs_handlers s))"

definition results_kept :: "adapter_state \<Rightarrow> adapter_state \<Rightarrow> bool" where
  "results_kept s t = (map_of (ad_results s) \<subseteq>\<^sub>m map_of (ad_results t))"

lemma stored_kept: "results_kept s t \<Longrightarrow> stored s q = Some r \<Longrightarrow> stored t q = Some r"
  by (auto simp: results_kept_def stored_def dest: map_le_Some)

lemma runs_left_mono: "results_kept s t \<Longrightarrow> runs_left t h \<le> runs_left s h"
  by (cases "stored s (fst h)")
     (auto simp: runs_left_def dest: stored_kept split: progress.splits)

lemma stored_save_result:
  "stored (snd (save_result (fq_session_id r) (fq_invocation_id r) b s)) q =
     (if same_invocation r q \<and> stored s r = None then Some b else stored s q)"
  by (auto simp: save_result_def comp_simps stored_def dict_setdefault_def same_invocation_def map_add_def
      split: option.splits)

lemma attempt_step_effect:
  assumes "attempt_step env q (p, s) = (p', t)"
  shows "results_kept s t" "ad_runs t + runs_left t (q, p') \<le> ad_runs s + runs_left s (q, p)"
proof -
  have same: "ad_results t = ad_results s \<Longrightarrow> results_kept s t" by (simp add: results_kept_def)
  show "results_kept s t"
  proof (cases p)
    case (Asking message c)
    obtain y u where sent: "send env (fq_session_id q) message s = (y, u)" by fastforce
    then have "t = u" using assms Asking by (auto split: sum.splits adapter_exc.splits)
    then show ?thesis using same send_effect(1)[OF sent] by simp
  qed (use assms same in \<open>auto simp: save_result_def comp_simps results_kept_def dict_setdefault_def map_le_def
      map_add_def split: option.splits\<close>)
  show "ad_runs t + runs_left t (q, p') \<le> ad_runs s + runs_left s (q, p)"
  proof (cases p)
    case (Asking message c)
    obtain y u where sent: "send env (fq_session_id q) message s = (y, u)" by fastforce
    show ?thesis using assms Asking sent send_effect(2)[OF sent]
      by (auto simp: runs_left_def after_reply_def Let_def CORRECTIVE_MAX_def
          split: sum.splits adapter_exc.splits if_splits)
  qed (use assms in \<open>auto simp: runs_left_def save_result_def comp_simps CORRECTIVE_MAX_def split: option.splits\<close>)
qed

lemma handlers_sum:
  assumes "i < length hs" "results_kept s t" "ad_runs t + runs_left t h \<le> ad_runs s + runs_left s (hs ! i)"
  shows "ad_runs t + sum_list (map (runs_left t) (hs[i := h])) \<le> ad_runs s + sum_list (map (runs_left s) hs)"
proof -
  have "sum_list (map (runs_left t) (take i hs)) \<le> sum_list (map (runs_left s) (take i hs))"
    "sum_list (map (runs_left t) (drop (Suc i) hs)) \<le> sum_list (map (runs_left s) (drop (Suc i) hs))"
    by (intro sum_list_mono runs_left_mono[OF assms(2)])+
  moreover have "sum_list (map (runs_left s) hs) =
      sum_list (map (runs_left s) (take i hs)) + runs_left s (hs ! i) + sum_list (map (runs_left s) (drop (Suc i) hs))"
    by (subst id_take_nth_drop[OF assms(1)]) simp
  moreover have "sum_list (map (runs_left t) (hs[i := h])) =
      sum_list (map (runs_left t) (take i hs)) + runs_left t h + sum_list (map (runs_left t) (drop (Suc i) hs))"
    by (subst upd_conv_take_nth_drop[OF assms(1)]) simp
  ultimately show ?thesis using assms(3) by linarith
qed

text \<open>An invariant of single steps holds along every schedule.\<close>

lemma take_steps_induct:
  assumes "P s"
    and "\<And>s i q p p' a. P s \<Longrightarrow> i < length (fs_handlers s) \<Longrightarrow> fs_handlers s ! i = (q, p) \<Longrightarrow>
      attempt_step env q (p, fs_adapter s) = (p', a) \<Longrightarrow>
      P (s\<lparr>fs_adapter := a, fs_handlers := (fs_handlers s)[i := (q, p')]\<rparr>)"
  shows "P (take_steps env is s)"
  using assms(1)
proof (induction "is" arbitrary: s)
  case (Cons i "is")
  then show ?case using assms(2)[of s i] by (auto split: prod.splits)
qed simp

definition steps_kept :: "facilitator_server \<Rightarrow> facilitator_server \<Rightarrow> bool" where
  "steps_kept s t =
     (results_kept (fs_adapter s) (fs_adapter t) \<and> model_runs t \<le> model_runs s \<and>
      map fst (fs_handlers t) = map fst (fs_handlers s) \<and> fs_overlapped t = fs_overlapped s)"

lemma take_steps_kept: "steps_kept s (take_steps env is s)"
proof (rule take_steps_induct)
  show "steps_kept s s" by (simp add: steps_kept_def results_kept_def)
next
  fix u i q p p' a
  assume u: "steps_kept s u" "i < length (fs_handlers u)" "fs_handlers u ! i = (q, p)"
    and step: "attempt_step env q (p, fs_adapter u) = (p', a)"
  note effect = attempt_step_effect[OF step]
  have "ad_runs a + sum_list (map (runs_left a) ((fs_handlers u)[i := (q, p')])) \<le> model_runs u"
    unfolding model_runs_def by (rule handlers_sum) (use u effect in auto)
  moreover have "map fst ((fs_handlers u)[i := (q, p')]) = map fst (fs_handlers u)"
    using u by (simp add: map_update list_update_same_conv)
  ultimately show "steps_kept s (u\<lparr>fs_adapter := a, fs_handlers := (fs_handlers u)[i := (q, p')]\<rparr>)"
    using u(1) effect(1) unfolding steps_kept_def
    by (auto simp: model_runs_def results_kept_def intro: map_le_trans)
qed

section \<open>What a client is told\<close>

lemma same_invocation_stored: "same_invocation q r \<Longrightarrow> stored s q = stored s r"
  by (simp add: same_invocation_def stored_def)

lemma attempt_step_other:
  assumes "attempt_step env r (p, s) = (p', t)" "\<not> same_invocation r q"
  shows "stored t q = stored s q"
proof (cases p)
  case (Asking message c)
  obtain y u where sent: "send env (fq_session_id r) message s = (y, u)" by fastforce
  then have "t = u" using assms Asking by (auto split: sum.splits adapter_exc.splits)
  then show ?thesis using send_effect(1)[OF sent] by (simp add: stored_def)
next
  case (Saving b)
  then show ?thesis using assms stored_save_result[of r b s q] by auto
qed (use assms in \<open>auto split: option.splits\<close>)

text \<open>
  What handler \<open>j\<close> of the request \<open>q\<close> may have replied: a 200 carries an answer, and one is stored. When
  no other handler of the invocation was under way (\<open>calm\<close>), the answer is the stored one.
\<close>

definition own_handler :: "bool \<Rightarrow> nat \<Rightarrow> FacilitatorRequest \<Rightarrow> facilitator_server \<Rightarrow> bool" where
  "own_handler calm j q s =
     (j < length (fs_handlers s) \<and> fst (fs_handlers s ! j) = q \<and>
      (case snd (fs_handlers s ! j) of
         Looking \<Rightarrow> True
       | Replied x \<Rightarrow> (\<forall>y. x = Some (200, y) \<longrightarrow>
           (\<exists>b c. y = Answer b \<and> kept_answer s q = Some c \<and> (calm \<longrightarrow> b = c)))
       | _ \<Rightarrow> calm \<longrightarrow> kept_answer s q = None) \<and>
      (calm \<longrightarrow> (\<forall>i < length (fs_handlers s). i \<noteq> j \<longrightarrow> same_invocation (fst (fs_handlers s ! i)) q \<longrightarrow>
         (\<exists>x. snd (fs_handlers s ! i) = Replied x))))"

lemma error_status [simp]: "model_failed env \<noteq> (200, y)" "no_valid_output env \<noteq> (200, y)"
  by (simp_all add: model_failed_def no_valid_output_def error_response_def)

lemma own_step:
  assumes "own_handler calm j q s" "fs_handlers s ! j = (q, p)" "attempt_step env q (p, fs_adapter s) = (p', a)"
  shows "own_handler calm j q (s\<lparr>fs_adapter := a, fs_handlers := (fs_handlers s)[j := (q, p')]\<rparr>)"
proof (cases p)
  case (Asking message c)
  obtain y u where sent: "send env (fq_session_id q) message (fs_adapter s) = (y, u)" by fastforce
  have u: "stored u q = stored (fs_adapter s) q" using send_effect(1)[OF sent] by (simp add: stored_def)
  show ?thesis using assms Asking sent u
    by (auto simp: own_handler_def after_reply_def Let_def split: sum.splits adapter_exc.splits if_splits)
qed (use assms in \<open>auto simp: own_handler_def stored_save_result same_invocation_def split: option.splits\<close>)

lemma other_step:
  assumes own: "own_handler calm j q s" and i: "i < length (fs_handlers s)" "i \<noteq> j" "fs_handlers s ! i = (r, p)"
    and step: "attempt_step env r (p, fs_adapter s) = (p', a)"
  shows "own_handler calm j q (s\<lparr>fs_adapter := a, fs_handlers := (fs_handlers s)[i := (r, p')]\<rparr>)"
proof -
  have kept: "kept_answer s q = Some b \<Longrightarrow> stored a q = Some b" for b
    using stored_kept[OF attempt_step_effect(1)[OF step]] by simp
  have over: "same_invocation r q \<Longrightarrow> calm \<Longrightarrow> \<exists>x. p = Replied x"
    using own i by (auto simp: own_handler_def)
  then have quiet: "calm \<Longrightarrow> stored a q = kept_answer s q"
    using attempt_step_other[OF step, of q] step by (cases "same_invocation r q") auto
  have stays: "same_invocation r q \<Longrightarrow> calm \<Longrightarrow> \<exists>x. p' = Replied x" using over step by fastforce
  have others: "\<exists>x. snd ((fs_handlers s)[i := (r, p')] ! k) = Replied x"
    if "calm" "k < length (fs_handlers s)" "k \<noteq> j" "same_invocation (fst ((fs_handlers s)[i := (r, p')] ! k)) q" for k
    using own i that stays by (cases "k = i") (auto simp: own_handler_def)
  show ?thesis using own i kept quiet others
    by (cases "snd (fs_handlers s ! j)") (simp_all add: own_handler_def, metis)
qed

lemma own_along:
  assumes "own_handler calm j q s"
  shows "own_handler calm j q (take_steps env is s)"
  using assms
proof (rule take_steps_induct)
  fix s i r p p' a
  assume s: "own_handler calm j q s" "i < length (fs_handlers s)" "fs_handlers s ! i = (r, p)"
    "attempt_step env r (p, fs_adapter s) = (p', a)"
  show "own_handler calm j q (s\<lparr>fs_adapter := a, fs_handlers := (fs_handlers s)[i := (r, p')]\<rparr>)"
  proof (cases "i = j")
    case True
    then have "r = q" using s by (simp add: own_handler_def)
    then show ?thesis using own_step[OF s(1)] s True by simp
  qed (use other_step s in blast)
qed

text \<open>A handler that finds an answer replies with it.\<close>

definition replaying :: "FacilitatorResponse \<Rightarrow> nat \<Rightarrow> FacilitatorRequest \<Rightarrow> facilitator_server \<Rightarrow> bool" where
  "replaying b j q s =
     (j < length (fs_handlers s) \<and> kept_answer s q = Some b \<and>
      (fs_handlers s ! j = (q, Looking) \<or> fs_handlers s ! j = (q, Replied (Some (200, Answer b)))))"

lemma replaying_along:
  assumes "replaying b j q s"
  shows "replaying b j q (take_steps env is s)"
  using assms
proof (rule take_steps_induct)
  fix s i r p p' a
  assume s: "replaying b j q s" "i < length (fs_handlers s)" "fs_handlers s ! i = (r, p)"
    "attempt_step env r (p, fs_adapter s) = (p', a)"
  have "stored a q = Some b"
    using s(1) stored_kept[OF attempt_step_effect(1)[OF s(4)]] by (simp add: replaying_def)
  then show "replaying b j q (s\<lparr>fs_adapter := a, fs_handlers := (fs_handlers s)[i := (r, p')]\<rparr>)"
    using s by (cases "i = j") (auto simp: replaying_def)
qed

lemma under_way_alone:
  "\<not> under_way q s \<Longrightarrow> i < length (fs_handlers s) \<Longrightarrow> same_invocation (fst (fs_handlers s ! i)) q \<Longrightarrow>
   \<exists>x. snd (fs_handlers s ! i) = Replied x"
  by (auto simp: under_way_def list_ex_iff same_invocation_def dest: nth_mem[of i "fs_handlers s"] split: prod.splits)
     (metis (no_types, lifting) nth_mem prod.collapse)

text \<open>The laws of \<open>POST /turn\<close> and of the lookup, under any schedule.\<close>

lemma serve_turn_kept:
  assumes "serve_turn env sched q s = (x, t)"
  shows "kept_answer s r = Some b \<Longrightarrow> kept_answer t r = Some b"
    "model_runs t \<le> model_runs s + (if valid_FacilitatorRequest q \<and> kept_answer s q = None then 3 else 0)"
proof -
  let ?s = "s\<lparr>fs_handlers := fs_handlers s @ [(q, Looking)], fs_calls := fs_calls s + 1,
    fs_overlapped := fs_overlapped s \<or> under_way q s\<rparr>"
  have t: "t = (if valid_FacilitatorRequest q then take_steps env (sched (fs_calls s)) ?s
      else s\<lparr>fs_calls := fs_calls s + 1\<rparr>)"
    using assms by (auto simp: serve_turn_def Let_def)
  note kept = take_steps_kept[of ?s env "sched (fs_calls s)"]
  have runs: "model_runs ?s = model_runs s + (if kept_answer s q = None then 3 else 0)"
    by (simp add: model_runs_def runs_left_def CORRECTIVE_MAX_def)
  show "kept_answer s r = Some b \<Longrightarrow> kept_answer t r = Some b"
    using t kept stored_kept[of "fs_adapter s" "fs_adapter t" r b] by (auto simp: steps_kept_def split: if_splits)
  show "model_runs t \<le> model_runs s + (if valid_FacilitatorRequest q \<and> kept_answer s q = None then 3 else 0)"
    using t kept runs by (auto simp: steps_kept_def model_runs_def split: if_splits)
qed

lemma serve_turn_replays:
  assumes "serve_turn env sched q s = (x, t)" "valid_FacilitatorRequest q" "kept_answer s q = Some b"
  shows "x = None \<or> x = Some (200, Answer b)"
proof -
  let ?s = "s\<lparr>fs_handlers := fs_handlers s @ [(q, Looking)], fs_calls := fs_calls s + 1,
    fs_overlapped := fs_overlapped s \<or> under_way q s\<rparr>"
  have "replaying b (length (fs_handlers s)) q ?s" using assms(3) by (simp add: replaying_def)
  from replaying_along[OF this, of env "sched (fs_calls s)"] show ?thesis
    using assms(1,2) by (auto simp: serve_turn_def Let_def replaying_def)
qed

lemma serve_turn_answers:
  assumes "serve_turn env sched q s = (Some (200, y), t)"
  shows "\<exists>b c. y = Answer b \<and> kept_answer t q = Some c \<and> (\<not> fs_overlapped t \<longrightarrow> b = c)"
proof -
  let ?s = "s\<lparr>fs_handlers := fs_handlers s @ [(q, Looking)], fs_calls := fs_calls s + 1,
    fs_overlapped := fs_overlapped s \<or> under_way q s\<rparr>"
  let ?j = "length (fs_handlers s)" and ?t = "take_steps env (sched (fs_calls s)) ?s"
  have valid: "valid_FacilitatorRequest q" and t: "t = ?t"
    and reply: "(case snd (fs_handlers t ! ?j) of Replied x \<Rightarrow> x | _ \<Rightarrow> None) = Some (200, y)"
    using assms by (auto simp: serve_turn_def Let_def invalid_body_def error_response_def split: if_splits)
  have "own_handler (\<not> under_way q s) ?j q ?s"
    using under_way_alone[of q s] by (auto simp: own_handler_def nth_append)
  then have "own_handler (\<not> under_way q s) ?j q t" unfolding t by (rule own_along)
  moreover have "fs_overlapped t = (fs_overlapped s \<or> under_way q s)"
    using take_steps_kept[of ?s env "sched (fs_calls s)"] t by (simp add: steps_kept_def)
  ultimately show ?thesis using reply by (auto simp: own_handler_def split: progress.splits)
qed

lemma serve_lookup_reads:
  assumes "serve_lookup env sched (fq_session_id q) (uuid_str (fq_invocation_id q)) s = (x, t)"
  shows "kept_answer s r = Some b \<Longrightarrow> kept_answer t r = Some b" "model_runs t \<le> model_runs s"
    "x = Some (200, y) \<Longrightarrow> \<exists>b. y = Answer b \<and> kept_answer t q = Some b"
proof -
  let ?s = "s\<lparr>fs_calls := fs_calls s + 1\<rparr>"
  have t: "t = take_steps env (sched (fs_calls s)) ?s"
    and x: "x = fst (answered_by (turn_result env (fq_session_id q) (uuid_str (fq_invocation_id q))) (fs_adapter t))"
    using assms by (auto simp: serve_lookup_def Let_def)
  note kept = take_steps_kept[of ?s env "sched (fs_calls s)"]
  show "kept_answer s r = Some b \<Longrightarrow> kept_answer t r = Some b"
    using t kept stored_kept[of "fs_adapter s" "fs_adapter t" r b] by (simp add: steps_kept_def)
  show "model_runs t \<le> model_runs s" using t kept by (simp add: steps_kept_def model_runs_def)
  assume "x = Some (200, y)"
  then show "\<exists>b. y = Answer b \<and> kept_answer t q = Some b"
    using x by (auto simp: answered_by_def turn_result_spec error_response_def split: option.splits)
qed

end
