(* ===== verification/Agent_Transport.thy ===== *)
theory Agent_Transport
  imports Turn_Attempts Api_Models
begin

text \<open>
  The orchestration's HTTP clients of the agents (\<open>orchestration/orchestration/agent_clients.py\<close>): the
  retry loop with its deadline clamp and backoff, the reading of error envelopes, and the
  facilitator's reconciliation lookup between attempts. The remote side is a state the exchanges
  act on; the network decides per exchange whether the request or the reply is lost and how long it
  takes. An attempt the client gives up on may go on in the remote, beside the next one: for the
  facilitator the remote is the adapter with all its handlers (\<open>Turn_Attempts\<close>), which take their
  steps during later exchanges. The locale states what a client relies on when it repeats a request,
  and the facilitator adapter's model discharges it.
\<close>

section \<open>The network\<close>

datatype net_fault = Delivered | RequestLost | ReplyLost

record 'r net =
  ne_clock :: instant
  ne_exchanges :: nat
  ne_remote :: 'r

record client_env =
  ce_fault :: "nat \<Rightarrow> net_fault"
  ce_delay :: "nat \<Rightarrow> nat"
  ce_rng :: "nat \<Rightarrow> nat"

type_synonym ('r, 'a) client = "('r net, exc, 'a) comp"

text \<open>
  One exchange with a remote operation: None is any exception of the HTTP library (connection,
  timeout), which is also what a remote that died looks like. The operation answers with what the
  client sees before its timeout; what it leaves unfinished stays in the remote state, and how it
  goes on is part of the operations that act on that state later.
\<close>

definition exchange :: "client_env \<Rightarrow> ('r \<Rightarrow> 'x option \<times> 'r) \<Rightarrow> ('r, 'x option) client" where
  "exchange env work s =
     (let n = ne_exchanges s;
          s1 = s\<lparr>ne_clock := ne_clock s + int (ce_delay env n), ne_exchanges := n + 1\<rparr> in
      if ce_fault env n = RequestLost then (Inr None, s1)
      else case work (ne_remote s) of
        (x, r) \<Rightarrow> (Inr (if ce_fault env n = ReplyLost then None else x), s1\<lparr>ne_remote := r\<rparr>))"

section \<open>The retry loop\<close>

record policy =
  po_facilitator :: bool
  po_attempts :: nat
  po_timeout :: int

definition CLEANUP_RESERVE :: int where "CLEANUP_RESERVE = 5 * 1000000"

definition FACILITATOR_BACKOFF :: int where "FACILITATOR_BACKOFF = 5 * 1000000"

text \<open>The timeout of one attempt; the exchange's delay already accounts for it.\<close>

definition attempt_timeout :: "policy \<Rightarrow> instant \<Rightarrow> ('r, int) client" where
  "attempt_timeout p deadline =
     andThen (gets (\<lambda>s. deadline - ne_clock s - CLEANUP_RESERVE)) (\<lambda>remaining.
     andThen (require (0 < remaining) AgentDeadlineExceeded) (\<lambda>_. ret (min (po_timeout p) remaining)))"

definition attempt_delay :: "client_env \<Rightarrow> policy \<Rightarrow> nat \<Rightarrow> nat \<Rightarrow> int" where
  "attempt_delay env p attempt n =
     (if po_facilitator p then FACILITATOR_BACKOFF
      else (if attempt \<le> 1 then 1 else 2) * (500000 + int (ce_rng env n)))"

text \<open>Never sleep past the deadline.\<close>

definition client_backoff :: "client_env \<Rightarrow> policy \<Rightarrow> nat \<Rightarrow> instant \<Rightarrow> ('r, unit) client" where
  "client_backoff env p attempt deadline =
     modify (\<lambda>s. let d = attempt_delay env p attempt (ne_exchanges s) in
       if ne_clock s + d < deadline then s\<lparr>ne_clock := ne_clock s + d\<rparr> else s)"

definition malformed_error :: "nat \<Rightarrow> ErrorBody" where
  "malformed_error status =
     \<lparr>eb_code = UPSTREAM_UNAVAILABLE, eb_message = ''adapter returned malformed error body (HTTP '' @ decimal status @ '')'',
      eb_agent = None,
      eb_correlation = 0, eb_retryable = (500 \<le> status),
      eb_retry_after = (if 500 \<le> status then Some 5 else None)\<rparr>"

definition error_body :: "nat \<Rightarrow> 'b payload \<Rightarrow> ErrorBody" where
  "error_body status body =
     (case body of Failure e \<Rightarrow> if valid_ErrorBody e then e else malformed_error status
      | _ \<Rightarrow> malformed_error status)"

text \<open>
  Attempts \<open>k, k+1, ...\<close> with \<open>left\<close> still allowed. \<open>recover\<close> is asked after an ambiguous failure and
  never raises.
\<close>

fun call_loop ::
    "client_env \<Rightarrow> policy \<Rightarrow> instant \<Rightarrow> ('r, (nat \<times> 'b payload) option) client \<Rightarrow>
     ('r, 'b payload option) client \<Rightarrow> nat \<Rightarrow> nat \<Rightarrow> ('r, 'b payload \<times> nat) client" where
  "call_loop env p deadline post recover k 0 = raise AgentTransportError"
| "call_loop env p deadline post recover k (Suc left) =
     andThen (attempt_timeout p deadline) (\<lambda>timeout.
     andThen post (\<lambda>reply.
     case reply of
       None \<Rightarrow>
         andThen recover (\<lambda>recovered.
         case recovered of
           Some body \<Rightarrow> ret (body, k)
         | None \<Rightarrow>
             if 0 < left
             then andThen (client_backoff env p k deadline) (\<lambda>_. call_loop env p deadline post recover (k + 1) left)
             else raise AgentTransportError)
     | Some (status, body) \<Rightarrow>
         if status = 200 then ret (body, k)
         else
           let e = error_body status body in
           andThen (if eb_retryable e then recover else ret None) (\<lambda>recovered.
           case recovered of
             Some body \<Rightarrow> ret (body, k)
           | None \<Rightarrow>
               if 0 < left \<and> eb_retryable e
               then andThen (client_backoff env p k deadline) (\<lambda>_. call_loop env p deadline post recover (k + 1) left)
               else raise (AgentCallFailure e))))"

definition http_call ::
    "client_env \<Rightarrow> policy \<Rightarrow> instant \<Rightarrow> ('r, (nat \<times> 'b payload) option) client \<Rightarrow>
     ('r, 'b payload option) client \<Rightarrow> ('r, 'b payload \<times> nat) client" where
  "http_call env p deadline post recover = call_loop env p deadline post recover 1 (po_attempts p)"

definition no_recovery :: "('r, 'b payload option) client" where
  "no_recovery = ret None"

text \<open>Reading the body of a 200: another JSON raises, and the report is validated.\<close>

definition read_answer :: "('b \<Rightarrow> bool) \<Rightarrow> 'b payload \<Rightarrow> ('r, 'b) client" where
  "read_answer ok body =
     (case body of Answer b \<Rightarrow> andThen (require (ok b) ValidationError) (\<lambda>_. ret b) | _ \<Rightarrow> raise PythonError)"

section \<open>The three clients\<close>

definition http_reviewer_invoke ::
    "client_env \<Rightarrow> policy \<Rightarrow> instant \<Rightarrow> ('r, (nat \<times> ReviewReport envelope payload) option) client \<Rightarrow>
     ('r, ReviewReport envelope \<times> nat) client" where
  "http_reviewer_invoke env p deadline post =
     andThen (http_call env p deadline post no_recovery) (\<lambda>(body, attempts).
     andThen (read_answer (\<lambda>a. valid_ReviewReport (ev_report a)) body) (\<lambda>a. ret (a, attempts)))"

definition http_synthesis_invoke ::
    "client_env \<Rightarrow> policy \<Rightarrow> instant \<Rightarrow> ('r, (nat \<times> SynthesisReport envelope payload) option) client \<Rightarrow>
     ('r, SynthesisReport envelope \<times> nat) client" where
  "http_synthesis_invoke env p deadline post =
     andThen (http_call env p deadline post no_recovery) (\<lambda>(body, attempts).
     andThen (read_answer (\<lambda>a. valid_SynthesisReport (ev_report a)) body) (\<lambda>a. ret (a, attempts)))"

text \<open>The facilitator's exchanges with its adapter; a process that dies leaves no reply.\<close>

definition post_turn_request ::
    "client_env \<Rightarrow> adapter_env \<Rightarrow> (nat \<Rightarrow> nat list) \<Rightarrow> FacilitatorRequest \<Rightarrow>
     (facilitator_server, FacilitatorResponse http option) client" where
  "post_turn_request env ad sched q = exchange env (serve_turn ad sched q)"

definition recover_turn ::
    "client_env \<Rightarrow> adapter_env \<Rightarrow> (nat \<Rightarrow> nat list) \<Rightarrow> FacilitatorRequest \<Rightarrow>
     (facilitator_server, FacilitatorResponse payload option) client" where
  "recover_turn env ad sched q =
     andThen (exchange env (serve_lookup ad sched (fq_session_id q) (uuid_str (fq_invocation_id q)))) (\<lambda>reply.
     case reply of None \<Rightarrow> ret None | Some (status, body) \<Rightarrow> ret (if status = 200 then Some body else None))"

definition http_facilitator_invoke ::
    "client_env \<Rightarrow> policy \<Rightarrow> instant \<Rightarrow> adapter_env \<Rightarrow> (nat \<Rightarrow> nat list) \<Rightarrow> FacilitatorRequest \<Rightarrow>
     (facilitator_server, FacilitatorResponse \<times> nat) client" where
  "http_facilitator_invoke env p deadline ad sched q =
     andThen (http_call env p deadline (post_turn_request env ad sched q) (recover_turn env ad sched q))
       (\<lambda>(body, attempts).
     andThen (read_answer (\<lambda>r. valid_FacilitatorTurnOutput (fp_output r)) body) (\<lambda>r. ret (r, attempts)))"

section \<open>What repeating a request rests on\<close>

text \<open>
  \<open>finished\<close> is the answer the remote keeps for the request, \<open>cost\<close> counts its expensive work, done or
  under way. Work on a finished request replays the answer, or nothing within the timeout, and adds no
  cost; a 200 means that an answer is kept, which is the one replied if no other work on the request
  was under way (\<open>calm\<close>); one request adds at most \<open>most\<close> units of cost. A recovery only reads.
\<close>

locale repeatable =
  fixes work :: "'r \<Rightarrow> (nat \<times> 'b payload) option \<times> 'r"
    and recover :: "('r, 'b payload option) client"
    and finished :: "'r \<Rightarrow> 'b option"
    and cost :: "'r \<Rightarrow> nat"
    and most :: nat
    and calm :: "'r \<Rightarrow> bool"
  assumes work_replays: "finished r = Some b \<Longrightarrow> work r = (x, t) \<Longrightarrow>
      (x = None \<or> x = Some (200, Answer b)) \<and> finished t = Some b \<and> cost t \<le> cost r"
    and work_answers: "work r = (Some (200, body), t) \<Longrightarrow>
      \<exists>b c. body = Answer b \<and> finished t = Some c \<and> (calm t \<longrightarrow> b = c)"
    and work_cost: "work r = (x, t) \<Longrightarrow> cost t \<le> cost r + most"
    and recover_reads: "recover s = (y, s2) \<Longrightarrow>
      ne_exchanges s2 = ne_exchanges s + 1 \<and> cost (ne_remote s2) \<le> cost (ne_remote s) \<and>
      (\<forall>b. finished (ne_remote s) = Some b \<longrightarrow> finished (ne_remote s2) = Some b) \<and>
      (\<exists>z. y = Inr z \<and> (z = None \<or> (\<exists>b. finished (ne_remote s2) = Some b \<and> z = Some (Answer b))))"
begin

text \<open>What a 200 that arrives in \<open>t\<close> tells a client that started in \<open>s\<close>.\<close>

definition told :: "'r net \<Rightarrow> 'r net \<Rightarrow> 'b payload \<Rightarrow> bool" where
  "told s t body =
     (\<exists>b c. body = Answer b \<and> finished (ne_remote t) = Some c \<and>
        (calm (ne_remote t) \<or> finished (ne_remote s) \<noteq> None \<longrightarrow> b = c))"

definition evolved :: "nat \<Rightarrow> 'r net \<Rightarrow> 'r net \<Rightarrow> bool" where
  "evolved n s t =
     (cost (ne_remote t) \<le> cost (ne_remote s) + n * most \<and> ne_exchanges t \<le> ne_exchanges s + 2 * n \<and>
      (\<forall>b. finished (ne_remote s) = Some b \<longrightarrow>
         finished (ne_remote t) = Some b \<and> cost (ne_remote t) \<le> cost (ne_remote s)))"

lemma exchange_work:
  assumes "exchange env work s = (y, t)"
  shows "ne_exchanges t = ne_exchanges s + 1 \<and> evolved 1 s t \<and>
    (\<exists>x. y = Inr x \<and> (\<forall>z. x = Some (200, z) \<longrightarrow> told s t z))"
proof -
  obtain x r where w: "work (ne_remote s) = (x, r)" by fastforce
  note cost = work_cost[OF w]
  have kept: "finished (ne_remote s) = Some b \<Longrightarrow>
      finished r = Some b \<and> cost r \<le> cost (ne_remote s) \<and> (x = None \<or> x = Some (200, Answer b))" for b
    using work_replays[OF _ w] by blast
  have new: "x = Some (200, z) \<Longrightarrow> \<exists>b c. z = Answer b \<and> finished r = Some c \<and> (calm r \<longrightarrow> b = c)" for z
    using work_answers w by simp
  have "told s (s\<lparr>ne_clock := k, ne_exchanges := n, ne_remote := r\<rparr>) z" if "x = Some (200, z)" for z k n
    using that kept new[OF that] by (cases "finished (ne_remote s)") (auto simp: told_def)
  then show ?thesis
    using assms w cost kept by (auto simp: exchange_def Let_def evolved_def split: if_splits)
qed

lemma backoff_quiet:
  "client_backoff env p k deadline s = (y, t) \<Longrightarrow>
   y = Inr () \<and> ne_remote t = ne_remote s \<and> ne_exchanges t = ne_exchanges s"
  by (auto simp: client_backoff_def comp_simps Let_def)

lemma evolved_0: "ne_remote t = ne_remote s \<Longrightarrow> ne_exchanges t = ne_exchanges s \<Longrightarrow> evolved n s t"
  by (simp add: evolved_def)

lemma evolved_trans: "evolved m s t \<Longrightarrow> evolved n t u \<Longrightarrow> evolved (m + n) s u"
  unfolding evolved_def by (fastforce simp: distrib_right)

text \<open>One attempt up to the point where the loop decides: it is over, or the next attempt starts.\<close>

lemma attempt_evolves:
  assumes "exchange env work s = (y, t)"
  shows "evolved 1 s t" "recover t = (z, u) \<Longrightarrow> evolved 1 s u"
proof -
  note e = exchange_work[OF assms]
  show "evolved 1 s t" using e by blast
  assume r: "recover t = (z, u)"
  show "evolved 1 s u" using e recover_reads[OF r] by (fastforce simp: evolved_def)
qed

lemma recovered_finished: "recover t = (Inr (Some body), u) \<Longrightarrow> told s u body"
  using recover_reads[of t "Inr (Some body)" u] by (auto simp: told_def)

lemma replied_finished: "exchange env work s = (Inr (Some (200, body)), t) \<Longrightarrow> told s t body"
  using exchange_work[of env s "Inr (Some (200, body))" t] by simp

definition outcome :: "nat \<Rightarrow> nat \<Rightarrow> 'r net \<Rightarrow> (exc + 'b payload \<times> nat) \<times> 'r net \<Rightarrow> bool" where
  "outcome k n s res =
     (evolved n s (snd res) \<and>
      (\<forall>body a. fst res = Inr (body, a) \<longrightarrow>
         k \<le> a \<and> a < k + n \<and> told s (snd res) body))"

lemma outcome_raise: "evolved n s t \<Longrightarrow> outcome k n s (Inl e, t)"
  by (simp add: outcome_def)

lemma outcome_more:
  assumes "evolved 1 s t" "outcome (k + 1) n t res"
  shows "outcome k (Suc n) s res"
proof -
  have "told t u body \<Longrightarrow> told s u body" for u body
    using assms(1) by (fastforce simp: told_def evolved_def)
  then show ?thesis using assms evolved_trans[of 1 s t n "snd res"] by (auto simp: outcome_def)
qed

lemma outcome_stop:
  "evolved 1 s t \<Longrightarrow> told s t body \<Longrightarrow> outcome k (Suc n) s (Inr (body, k), t)"
  using evolved_trans[OF _ evolved_0, of 1 s t t n] by (auto simp: outcome_def)

lemma outcome_failed: "evolved 1 s t \<Longrightarrow> outcome k (Suc n) s (Inl e, t)"
  using evolved_trans[OF _ evolved_0, of 1 s t t n] by (simp add: outcome_def)

text \<open>The next attempt, or the exception of the last one, after a failure that left \<open>t\<close>.\<close>

lemma call_next:
  assumes "\<And>s. outcome (k + 1) n s (call_loop env p deadline (exchange env work) recover (k + 1) n s)" "evolved 1 s t"
  shows "outcome k (Suc n) s
     ((if c then andThen (client_backoff env p k deadline)
          (\<lambda>_. call_loop env p deadline (exchange env work) recover (k + 1) n)
       else raise e) t)"
proof (cases c)
  case True
  obtain y u where b: "client_backoff env p k deadline t = (y, u)" by fastforce
  have quiet: "y = Inr ()" "ne_remote u = ne_remote t" "ne_exchanges u = ne_exchanges t"
    using backoff_quiet[OF b] by simp_all
  have "evolved 1 s u" using assms(2) quiet by (simp add: evolved_def)
  from outcome_more[OF this assms(1)] show ?thesis
    using True b quiet(1) by (simp add: comp_simps)
next
  case False
  then show ?thesis using outcome_failed[OF assms(2)] by (simp add: comp_simps)
qed

lemma call_outcome: "outcome k n s (call_loop env p deadline (exchange env work) recover k n s)"
proof (induction n arbitrary: k s)
  case 0
  then show ?case by (simp add: comp_simps outcome_raise evolved_0)
next
  case (Suc n)
  note again = call_next[OF Suc.IH]
  have timeout: "attempt_timeout p deadline s =
      (if 0 < deadline - ne_clock s - CLEANUP_RESERVE
       then (Inr (min (po_timeout p) (deadline - ne_clock s - CLEANUP_RESERVE)), s) else (Inl AgentDeadlineExceeded, s))"
    by (simp add: attempt_timeout_def comp_simps)
  obtain y t where ex: "exchange env work s = (y, t)" by fastforce
  obtain x where y: "y = Inr x" using exchange_work[OF ex] by blast
  note one = attempt_evolves(1)[OF ex]
  obtain z u where rec: "recover t = (z, u)" by fastforce
  obtain w where z: "z = Inr w" using recover_reads[OF rec] by blast
  note two = attempt_evolves(2)[OF ex rec]
  show ?case
  proof (cases "0 < deadline - ne_clock s - CLEANUP_RESERVE")
    case False
    then show ?thesis by (simp add: comp_simps timeout outcome_raise evolved_0)
  next
    case True
    show ?thesis
    proof (cases x)
      case None
      show ?thesis
      proof (cases w)
        case None2: None
        show ?thesis using again[where c = "0 < n" and e = AgentTransportError, OF two] True ex y None rec z None2
          by (simp add: andThen_run timeout)
      next
        case (Some body)
        show ?thesis using outcome_stop[OF two recovered_finished] True ex y None rec z Some
          by (simp add: comp_simps timeout)
      qed
    next
      case (Some reply)
      obtain status body where reply: "reply = (status, body)" by (cases reply) auto
      show ?thesis
      proof (cases "status = 200")
        case True2: True
        show ?thesis using outcome_stop[OF one replied_finished] True True2 ex y Some reply
          by (simp add: comp_simps timeout)
      next
        case False
        let ?e = "error_body status body"
        show ?thesis
        proof (cases "eb_retryable ?e")
          case retry: True
          show ?thesis
          proof (cases w)
            case None
            show ?thesis using again[where c = "0 < n \<and> eb_retryable ?e" and e = "AgentCallFailure ?e", OF two] True False ex y Some reply
                rec z None retry
              by (simp add: andThen_run timeout Let_def)
          next
            case (Some answer)
            show ?thesis using outcome_stop[OF two recovered_finished] True False ex y \<open>x = Some reply\<close> reply rec z Some retry
              by (simp add: comp_simps timeout Let_def)
          qed
        next
          case no: False
          show ?thesis using outcome_failed[OF one] True False ex y Some reply no
            by (simp add: comp_simps timeout Let_def)
        qed
      qed
    qed
  qed
qed

end

section \<open>The facilitator's adapter is repeatable\<close>

text \<open>An invalid request has no answer to keep: it is refused with 400, and nobody looks it up.\<close>

definition kept :: "FacilitatorRequest \<Rightarrow> facilitator_server \<Rightarrow> FacilitatorResponse option" where
  "kept q s = (if valid_FacilitatorRequest q then kept_answer s q else None)"

definition lookup_kept ::
    "client_env \<Rightarrow> adapter_env \<Rightarrow> (nat \<Rightarrow> nat list) \<Rightarrow> FacilitatorRequest \<Rightarrow>
     (facilitator_server, FacilitatorResponse payload option) client" where
  "lookup_kept env ad sched q =
     (if valid_FacilitatorRequest q then recover_turn env ad sched q
      else andThen (exchange env (\<lambda>s. (None, s))) (\<lambda>_ :: FacilitatorResponse http option. ret None))"

lemma recover_turn_reads:
  assumes "recover_turn env ad sched q s = (y, t)"
  shows "ne_exchanges t = ne_exchanges s + 1 \<and> model_runs (ne_remote t) \<le> model_runs (ne_remote s) \<and>
    (\<forall>b. kept_answer (ne_remote s) q = Some b \<longrightarrow> kept_answer (ne_remote t) q = Some b) \<and>
    (\<exists>z. y = Inr z \<and> (z = None \<or> (\<exists>b. kept_answer (ne_remote t) q = Some b \<and> z = Some (Answer b))))"
proof -
  obtain x r where look: "serve_lookup ad sched (fq_session_id q) (uuid_str (fq_invocation_id q)) (ne_remote s) = (x, r)"
    by fastforce
  note reads = serve_lookup_reads[OF look]
  show ?thesis
    using assms look reads(1)[of q] reads(2,3)
    by (auto simp: recover_turn_def comp_simps exchange_def Let_def split: if_splits option.splits prod.splits)
qed

lemma serve_turn_valid: "serve_turn ad sched q s = (Some (200, y), t) \<Longrightarrow> valid_FacilitatorRequest q"
  by (auto simp: serve_turn_def invalid_body_def error_response_def split: if_splits)

interpretation facilitator_calls:
  repeatable "serve_turn ad sched q" "lookup_kept env ad sched q" "kept q" model_runs 3 "\<lambda>s. \<not> fs_overlapped s"
  for env ad sched q
proof
  fix r b x t
  assume w: "kept q r = Some b" "serve_turn ad sched q r = (x, t)"
  then have k: "kept_answer r q = Some b" "valid_FacilitatorRequest q" by (simp_all add: kept_def split: if_splits)
  show "(x = None \<or> x = Some (200, Answer b)) \<and> kept q t = Some b \<and> model_runs t \<le> model_runs r"
    using serve_turn_replays[OF w(2) k(2,1)] serve_turn_kept[OF w(2)] k by (simp add: kept_def)
next
  fix r y t
  assume w: "serve_turn ad sched q r = (Some (200, y), t)"
  show "\<exists>b c. y = Answer b \<and> kept q t = Some c \<and> (\<not> fs_overlapped t \<longrightarrow> b = c)"
    using serve_turn_answers[OF w] serve_turn_valid[OF w] by (simp add: kept_def)
next
  fix r x t
  assume "serve_turn ad sched q r = (x, t)"
  from serve_turn_kept(2)[OF this] show "model_runs t \<le> model_runs r + 3" by (auto split: if_splits)
next
  fix s :: "facilitator_server net" and y s2
  assume r: "lookup_kept env ad sched q s = (y, s2)"
  show "ne_exchanges s2 = ne_exchanges s + 1 \<and> model_runs (ne_remote s2) \<le> model_runs (ne_remote s) \<and>
    (\<forall>b. kept q (ne_remote s) = Some b \<longrightarrow> kept q (ne_remote s2) = Some b) \<and>
    (\<exists>z. y = Inr z \<and> (z = None \<or> (\<exists>b. kept q (ne_remote s2) = Some b \<and> z = Some (Answer b))))"
  proof (cases "valid_FacilitatorRequest q")
    case True
    then show ?thesis using recover_turn_reads[of env ad sched q s y s2] r by (simp add: lookup_kept_def kept_def)
  next
    case False
    then show ?thesis
      using r by (auto simp: lookup_kept_def kept_def comp_simps exchange_def Let_def split: if_splits)
  qed
qed

lemma facilitator_call_spec:
  assumes "http_facilitator_invoke env p deadline ad sched q s = (x, t)" "valid_FacilitatorRequest q"
  shows "model_runs (ne_remote t) \<le> model_runs (ne_remote s) + 3 * po_attempts p"
    "ne_exchanges t \<le> ne_exchanges s + 2 * po_attempts p"
    "kept_answer (ne_remote s) q = Some b \<Longrightarrow>
       kept_answer (ne_remote t) q = Some b \<and> model_runs (ne_remote t) \<le> model_runs (ne_remote s)"
    "x = Inr (r, a) \<Longrightarrow> 1 \<le> a \<and> a \<le> po_attempts p \<and> (\<exists>c. kept_answer (ne_remote t) q = Some c \<and>
       (\<not> fs_overlapped (ne_remote t) \<or> kept_answer (ne_remote s) q \<noteq> None \<longrightarrow> r = c))"
proof -
  let ?call = "call_loop env p deadline (exchange env (serve_turn ad sched q)) (lookup_kept env ad sched q) 1 (po_attempts p)"
  obtain y u where call: "?call s = (y, u)" by fastforce
  have out: "facilitator_calls.outcome q 1 (po_attempts p) s (y, u)"
    using facilitator_calls.call_outcome[of q 1 "po_attempts p" s env p deadline ad sched env] call by simp
  have inv: "http_facilitator_invoke env p deadline ad sched q s =
      (case y of Inl e \<Rightarrow> (Inl e, u)
       | Inr (body, n) \<Rightarrow> (case read_answer (\<lambda>r. valid_FacilitatorTurnOutput (fp_output r)) body u of
           (Inl e, v) \<Rightarrow> (Inl e, v) | (Inr r, v) \<Rightarrow> (Inr (r, n), v)))"
    using call assms(2)
    by (auto simp: http_facilitator_invoke_def http_call_def post_turn_request_def lookup_kept_def comp_simps
        split: sum.splits prod.splits)
  have quiet: "read_answer ok (body :: FacilitatorResponse payload) u = (z, v) \<Longrightarrow> v = u" for ok body z v
    by (auto simp: read_answer_def comp_simps split: payload.splits if_splits)
  have u: "t = u"
    using assms(1) inv quiet by (auto split: sum.splits prod.splits)
  show "model_runs (ne_remote t) \<le> model_runs (ne_remote s) + 3 * po_attempts p"
    "ne_exchanges t \<le> ne_exchanges s + 2 * po_attempts p"
    "kept_answer (ne_remote s) q = Some b \<Longrightarrow>
       kept_answer (ne_remote t) q = Some b \<and> model_runs (ne_remote t) \<le> model_runs (ne_remote s)"
    using out u assms(2)
    by (auto simp: facilitator_calls.outcome_def facilitator_calls.evolved_def kept_def)
  assume "x = Inr (r, a)"
  then obtain body where y: "y = Inr (body, a)" and read: "read_answer (\<lambda>r. valid_FacilitatorTurnOutput (fp_output r)) body u = (Inr r, u)"
    using assms(1) inv quiet by (fastforce split: sum.splits prod.splits)
  from y out obtain b c where c: "body = Answer b" "kept q (ne_remote u) = Some c" "1 \<le> a" "a < 1 + po_attempts p"
    "\<not> fs_overlapped (ne_remote u) \<or> kept q (ne_remote s) \<noteq> None \<longrightarrow> b = c"
    by (auto simp: facilitator_calls.outcome_def facilitator_calls.told_def)
  moreover have "b = r" using read c(1) by (auto simp: read_answer_def comp_simps split: if_splits)
  ultimately show "1 \<le> a \<and> a \<le> po_attempts p \<and> (\<exists>c. kept_answer (ne_remote t) q = Some c \<and>
       (\<not> fs_overlapped (ne_remote t) \<or> kept_answer (ne_remote s) q \<noteq> None \<longrightarrow> r = c))"
    using assms(2) u by (simp add: kept_def)
qed

text \<open>C26. What a facilitator call gives however unreliable the network is, even when an attempt it
  gave up on goes on in the adapter beside the next one. The call makes at most twice as many exchanges
  as it may attempt and adds at most three model runs per attempt. If it returns an output, an answer is
  stored for the invocation; unless two attempts of one invocation were under way at once (then the
  runner-up is told its own output), the output is the stored answer. Any later call for the invocation,
  over any network, schedule and state that still stores that answer, adds no model run and can only
  return the stored answer.\<close>

theorem facilitator_called_once:
  assumes "http_facilitator_invoke env p deadline ad sched q s = (Inr (r, a), t)" "valid_FacilitatorRequest q"
  shows "1 \<le> a \<and> a \<le> po_attempts p \<and>
    ne_exchanges t \<le> ne_exchanges s + 2 * po_attempts p \<and>
    model_runs (ne_remote t) \<le> model_runs (ne_remote s) + 3 * po_attempts p \<and>
    (\<exists>b. kept_answer (ne_remote t) q = Some b \<and> (\<not> fs_overlapped (ne_remote t) \<longrightarrow> r = b) \<and>
       (\<forall>env2 p2 deadline2 ad2 sched2 u x v.
          kept_answer (ne_remote u) q = Some b \<longrightarrow>
          http_facilitator_invoke env2 p2 deadline2 ad2 sched2 q u = (x, v) \<longrightarrow>
          model_runs (ne_remote v) \<le> model_runs (ne_remote u) \<and> (\<forall>r2 a2. x = Inr (r2, a2) \<longrightarrow> r2 = b)))"
proof -
  note call = facilitator_call_spec[OF assms]
  obtain b where b: "kept_answer (ne_remote t) q = Some b" "\<not> fs_overlapped (ne_remote t) \<longrightarrow> r = b"
    using call(4)[OF refl] by auto
  have "model_runs (ne_remote v) \<le> model_runs (ne_remote u) \<and> (\<forall>r2 a2. x = Inr (r2, a2) \<longrightarrow> r2 = b)"
    if "kept_answer (ne_remote u) q = Some b" "http_facilitator_invoke env2 p2 deadline2 ad2 sched2 q u = (x, v)"
    for env2 p2 deadline2 ad2 sched2 u x v
    using facilitator_call_spec(3,4)[OF that(2) assms(2)] that(1) by force
  with b call(1,2) call(4)[OF refl] show ?thesis by (intro conjI exI[of _ b]) simp_all
qed

text \<open>A run whose only reply is lost: the lookup recovers the turn at the first attempt.\<close>

definition demo_client :: client_env where
  "demo_client = \<lparr>ce_fault = (\<lambda>n. if n = 0 then ReplyLost else Delivered), ce_delay = (\<lambda>_. 7), ce_rng = (\<lambda>_. 0)\<rparr>"

definition demo_policy :: policy where
  "demo_policy = \<lparr>po_facilitator = True, po_attempts = 2, po_timeout = 120000000\<rparr>"

definition demo_server :: facilitator_server where
  "demo_server = \<lparr>fs_adapter = idle_adapter, fs_handlers = [], fs_calls = 0, fs_overlapped = False\<rparr>"

definition demo_net :: "facilitator_server net" where
  "demo_net = \<lparr>ne_clock = 0, ne_exchanges = 0, ne_remote = demo_server\<rparr>"

definition demo_schedule :: "nat \<Rightarrow> nat list" where
  "demo_schedule n = (if n = 0 then replicate 5 0 else [])"

definition demo_response :: "nat \<Rightarrow> FacilitatorResponse" where
  "demo_response n = \<lparr>fp_output = demo_output, fp_version = ''1'', fp_sha = demo_sha, fp_reprompts = n\<rparr>"

lemma demo_response_valid: "n \<le> 2 \<Longrightarrow> valid_FacilitatorResponse (demo_response n)"
  by (simp add: valid_FacilitatorResponse_def demo_response_def demo_output_valid stamped_def demo_words demo_sha_ok)

lemma demo_call_run:
  "\<exists>t. http_facilitator_invoke demo_client demo_policy 100000000 demo_adapter demo_schedule demo_request demo_net =
     (Inr (demo_response 1, 1), t) \<and> \<not> fs_overlapped (ne_remote t)"
proof -
  obtain t where run: "turn demo_adapter (Some demo_request) idle_adapter = (Inr (200, Answer (demo_response 1)), t)"
    using demo_turn_run by (auto simp: demo_response_def)
  have idle: "stored idle_adapter demo_request = None" by (simp add: stored_def idle_adapter_def)
  have kept: "stored t demo_request = Some (demo_response 1)"
    using turn_spec[OF run demo_request_valid idle] by auto
  have "valid_FacilitatorTurnOutput (fp_output (demo_response 1))"
    using demo_response_valid[of 1] by (simp add: valid_FacilitatorResponse_def)
  moreover have "serve_turn demo_adapter demo_schedule demo_request demo_server =
      (Some (200, Answer (demo_response 1)), demo_server\<lparr>fs_adapter := t,
         fs_handlers := [(demo_request, Replied (Some (200, Answer (demo_response 1))))], fs_calls := 1\<rparr>)"
    using serve_turn_alone[OF demo_request_valid, of demo_adapter demo_server _ t demo_schedule] run
    by (simp add: answered_by_def demo_server_def demo_schedule_def under_way_def)
  ultimately show ?thesis
    using kept
    by (simp add: http_facilitator_invoke_def http_call_def demo_policy_def eval_nat_numeral attempt_timeout_def comp_simps
        demo_net_def CLEANUP_RESERVE_def post_turn_request_def exchange_def demo_client_def Let_def
        recover_turn_def serve_lookup_def demo_schedule_def answered_by_def turn_result_spec read_answer_def
        demo_server_def)
qed

theorem facilitator_called_once_witness:
  "\<exists>t :: facilitator_server net. kept_answer (ne_remote t) demo_request = Some (demo_response 1) \<and>
     model_runs (ne_remote t) \<le> model_runs (ne_remote demo_net) + 3 * po_attempts demo_policy"
proof -
  obtain t where "http_facilitator_invoke demo_client demo_policy 100000000 demo_adapter demo_schedule demo_request
      demo_net = (Inr (demo_response 1, 1), t)" "\<not> fs_overlapped (ne_remote t)"
    using demo_call_run by blast
  from facilitator_called_once[OF this(1) demo_request_valid] this(2)
  have "kept_answer (ne_remote t) demo_request = Some (demo_response 1)"
    "model_runs (ne_remote t) \<le> model_runs (ne_remote demo_net) + 3 * po_attempts demo_policy"
    by blast+
  then show ?thesis by (intro exI[of _ t] conjI)
qed

text \<open>
  The runner-up's own output: the first attempt looks up, times out, and runs the model while the second
  one, which also found nothing, waits; both save, the first wins, and the second is told its own answer.
\<close>

definition overlapping :: "nat \<Rightarrow> nat list" where
  "overlapping n = [[0], [], [1, 0, 0, 0, 1, 1]] ! n"

lemma overlapping_attempts_differ:
  "\<exists>t. http_facilitator_invoke (demo_client\<lparr>ce_fault := \<lambda>_. Delivered\<rparr>) demo_policy 100000000 demo_adapter
       overlapping demo_request demo_net = (Inr (demo_response 0, 2), t) \<and>
     kept_answer (ne_remote t) demo_request = Some (demo_response 1) \<and> fs_overlapped (ne_remote t)"
proof -
  have rules: "validate_turn_output demo_output demo_request = Inr ()"
    by (simp add: validate_turn_output_def demo_output_def demo_request_def Let_def)
  have reply: "checked_output demo_adapter demo_request ''{}'' = Inr demo_output"
    "checked_output demo_adapter demo_request ''?'' = Inl NotJson"
    using rules demo_output_valid by (simp_all add: checked_output_def parse_turn_output_def demo_adapter_def)
  have env: "ap_model demo_adapter n t = Some [Some [Some (if n = 0 then ''?'' else ''{}'')]]"
      "\<not> ap_dies demo_adapter n" "ap_version demo_adapter = ''1''" "ap_sha demo_adapter = demo_sha" for n t
    by (simp_all add: demo_adapter_def)
  have response: "\<lparr>fp_output = demo_output, fp_version = ''1'', fp_sha = demo_sha, fp_reprompts = n\<rparr> = demo_response n" for n
    by (simp add: demo_response_def)
  have valid: "valid_FacilitatorResponse (demo_response 0)" "valid_FacilitatorResponse (demo_response (Suc 0))"
    by (simp_all add: demo_response_valid)
  have out_ok: "valid_FacilitatorTurnOutput (fp_output (demo_response 0))"
    using valid by (simp add: valid_FacilitatorResponse_def)
  have after: "after_reply demo_adapter demo_request c ''{}'' = Saving (demo_response c)" if "c \<le> 1" for c
    using that valid by (cases c) (simp_all add: after_reply_def reply Let_def env response)
  have again: "after_reply demo_adapter demo_request 0 ''?'' =
      Asking (corrective_message (ap_explain demo_adapter NotJson)) (Suc 0)"
    by (simp add: after_reply_def reply CORRECTIVE_MAX_def)
  have sid: "same_invocation demo_request demo_request" by (simp add: same_invocation_def)
  show ?thesis
    using demo_request_valid
    by (simp add: http_facilitator_invoke_def http_call_def demo_policy_def eval_nat_numeral attempt_timeout_def comp_simps
        demo_net_def CLEANUP_RESERVE_def post_turn_request_def exchange_def demo_client_def Let_def
        recover_turn_def serve_lookup_def serve_turn_def overlapping_def answered_by_def turn_result_spec read_answer_def
        demo_server_def idle_adapter_def send_def env parts_text_def after again under_way_def sid stored_def
        error_response_def client_backoff_def attempt_delay_def FACILITATOR_BACKOFF_def save_result_def dict_setdefault_def
        out_ok response)
qed

end
