(* ===== verification/Agent_Engine.thy ===== *)
theory Agent_Engine
  imports Agent_Transport
begin

text \<open>
  The Agent Engine clients of the orchestration (\<open>orchestration/orchestration/ae_client.py\<close>,
  \<open>ae_messages.py\<close>, the corrective message of \<open>ae_turn_validation.py\<close>): reading a streamed reply and a
  Google error, the attempt chain of the stateless agents, and the facilitator's session, recovery
  from the recorded events and corrective loop. The engine's answers, the reading of JSON and the
  hash are parameters.
\<close>

section \<open>Messages\<close>

text \<open>The mirrors of the adapters' renderers, as \<open>ae_messages.py\<close> writes them.\<close>

definition ae_reviewer_message :: "dumps \<Rightarrow> ReviewerRequest \<Rightarrow> string" where
  "ae_reviewer_message du q =
     join (newline @ newline)
       ([''## Story under review'', ''```json'' @ newline @ du_story du (vq_story q) @ newline @ ''```''] @
        (if vq_previous q \<noteq> None
         then [''## Previous review of this story (re-review baseline)'',
               ''```json'' @ newline @ du_review du (the (vq_previous q)) @ newline @ ''```''] else []) @
        (if vq_extra q \<noteq> None then [''## Extra context from the Product Owner'', the (vq_extra q)] else []) @
        [''## Your task'', ''Produce the structured review of the story above, following your instructions.''])"

definition ae_synthesis_message :: "dumps \<Rightarrow> SynthesisRequest \<Rightarrow> string" where
  "ae_synthesis_message du q =
     join (newline @ newline)
       (concat (map (\<lambda>(label, pair).
          [''## '' @ label,
           ''```json'' @ newline @ du_review du (pp_report pair) @ newline @ ''```'',
           ''### Artifact reference for the '' @ lower label @ '' (echo unchanged in `inputs`)'',
           ''```json'' @ newline @ du_reference du (pp_reference pair) @ newline @ ''```''])
          [(''Business review'', yq_business q), (''Engineering review'', yq_engineering q)]) @
        [''## Your task'',
         ''Merge the two reviews above into one synthesis report, following your instructions. Echo the two supplied artifact references unchanged as your `inputs`.''])"

definition ae_facilitator_message :: "dumps \<Rightarrow> FacilitatorRequest \<Rightarrow> string" where
  "ae_facilitator_message du q =
     join (newline @ newline)
       ([''## Turn context'',
         ''Story under review: '' @ sr_story_id (fq_synthesis_report q) @ ''. Story run: '' @
         ar_story_run_id (fq_synthesis_reference q) @ ''. This is turn '' @ decimal (fq_turn_number q) @
         (if fq_turn_number q = 1 then '' '' @ em_dash @ '' the opening turn (no PO message yet).'' else ''.'')] @
        (if fq_po_message q \<noteq> None then [''## PO message'', the (fq_po_message q)] else []) @
        (case fq_decision_state q of
           None \<Rightarrow> []
         | Some d \<Rightarrow>
             if ds_resolutions d \<noteq> [] \<or> ds_open_issues d \<noteq> [] then
               (let listed = join newline (map (\<lambda>i.
                      ''- '' @ ri_issue i @ '': '' @ disposition_name (ri_disposition i) @
                      '' (turn '' @ decimal (ri_turn_number i) @ '') '' @ em_dash @ '' '' @ ri_explanation i)
                      (ds_resolutions d));
                    open_listed = (if ds_open_issues d \<noteq> [] then join '', '' (ds_open_issues d) else ''none'') in
                [''## Current decision state'',
                 ''Latest recorded disposition per issue (authoritative '' @ em_dash @
                 '' reconcile against this, not the conversation):'' @ newline @
                 (if listed \<noteq> [] then listed else ''- none''),
                 ''Currently open issues: '' @ open_listed])
             else []) @
        [''## Latest synthesis report'',
         ''```json'' @ newline @ du_synthesis du (fq_synthesis_report q) @ newline @ ''```'',
         ''### Synthesis artifact reference'',
         ''```json'' @ newline @ du_reference du (fq_synthesis_reference q) @ newline @ ''```''] @
        (if fq_evidence q \<noteq> []
         then [''## Artifact references available as evidence (this story run only)'',
               join newline (map (\<lambda>r.
                 ''- `'' @ ar_artifact_id r @ ''` ('' @ artifact_type_name (ar_type r) @
                 (case ar_perspective r of None \<Rightarrow> [] | Some p \<Rightarrow> '', '' @ perspective_name p) @
                 '', v'' @ decimal (ar_version r) @ '')'') (fq_evidence q))]
         else [''## Artifact references available as evidence'',
               ''None '' @ em_dash @ '' no artifacts are readable this turn.'']) @
        [''## Your task'',
         ''Produce this turn's `FacilitatorTurnOutput` following your instructions. Artifact reads are limited to the references listed above.''])"

text \<open>What \<open>test_ae_message_mirrors.py\<close> samples holds for every request: the mirrors render the same bytes.\<close>

lemma ae_reviewer_message_same: "ae_reviewer_message du q = render_reviewer_message du q"
  by (cases "vq_previous q"; cases "vq_extra q")
     (simp_all add: ae_reviewer_message_def render_reviewer_message_def paragraphs_def fenced_def)

lemma ae_synthesis_message_same: "ae_synthesis_message du q = render_synthesis_message du q"
proof -
  have "lower ''Business review'' = ''business review''" "lower ''Engineering review'' = ''engineering review''"
    by code_simp+
  then show ?thesis
    by (simp add: ae_synthesis_message_def render_synthesis_message_def paragraphs_def fenced_def pair_sections_def)
qed

lemma join_empty: "join sep xs = [] \<Longrightarrow> xs = [] \<or> hd xs = []"
  by (cases "(sep, xs)" rule: join.cases) auto

lemma listed_nonempty: "(join newline (map decision_line xs) = []) = (xs = [])"
  using join_empty[of newline "map decision_line xs"] by (cases xs) (auto simp: decision_line_def)

lemma ae_facilitator_message_same: "ae_facilitator_message du q = render_facilitator_message du q"
proof -
  have lines: "map decision_line xs = map (\<lambda>i.
      ''- '' @ ri_issue i @ '': '' @ disposition_name (ri_disposition i) @
      '' (turn '' @ decimal (ri_turn_number i) @ '') '' @ em_dash @ '' '' @ ri_explanation i) xs" for xs
    by (simp add: decision_line_def)
  have refs: "map artifact_line xs = map (\<lambda>r.
      ''- `'' @ ar_artifact_id r @ ''` ('' @ artifact_type_name (ar_type r) @
      (case ar_perspective r of None \<Rightarrow> [] | Some p \<Rightarrow> '', '' @ perspective_name p) @
      '', v'' @ decimal (ar_version r) @ '')'') xs" for xs
    by (simp add: artifact_line_def)
  have message: "(if fq_po_message q \<noteq> None then [h, the (fq_po_message q)] else []) =
      (case fq_po_message q of None \<Rightarrow> [] | Some m \<Rightarrow> [h, m])" for h
    by (simp split: option.split)
  have decisions: "(if ds_resolutions d \<noteq> [] \<or> ds_open_issues d \<noteq> [] then xs else []) =
      (if ds_resolutions d = [] \<and> ds_open_issues d = [] then [] else xs)" for d and xs :: "string list"
    by simp
  have swap: "(if xs \<noteq> [] then a else b) = (if xs = [] then b else a)" for xs :: "'x list" and a b :: 'y
    by simp
  show ?thesis
    unfolding ae_facilitator_message_def render_facilitator_message_def paragraphs_def fenced_def decision_sections_def
      Let_def lines[symmetric] refs[symmetric] message decisions swap listed_nonempty ..
qed

definition ae_corrective_message :: "string \<Rightarrow> nat \<Rightarrow> string" where
  "ae_corrective_message reasons n =
     ''This is turn '' @ decimal n @ '' (corrective re-prompt, same turn).'' @ newline @ newline @
     ''Your previous reply was not a valid FacilitatorTurnOutput:'' @ newline @ reasons @ newline @ newline @
     ''Reply again with a single corrected FacilitatorTurnOutput as JSON only '' @ em_dash @
     '' no prose outside the JSON object.''"

section \<open>Streams\<close>

text \<open>An event of a stream or a session: who wrote it, and its parts, each with or without text.\<close>

record ae_event =
  ae_author :: "string option"
  ae_parts :: "string option list"

text \<open>
  The endpoint of an engine resource; the region is what follows the first \<open>/locations/\<close>. None is the
  \<open>ValueError\<close> for a name without one.
\<close>

fun after_first :: "string \<Rightarrow> string \<Rightarrow> string option" where
  "after_first m [] = (if m = [] then Some [] else None)"
| "after_first m (c # s) = (if starts_with m (c # s) then Some (drop (length m) (c # s)) else after_first m s)"

definition endpoint :: "string \<Rightarrow> string \<Rightarrow> string option" where
  "endpoint resource suffix =
     (case after_first ''/locations/'' resource of
        None \<Rightarrow> None
      | Some rest \<Rightarrow>
          Some (''https://'' @ takeWhile (\<lambda>c. c \<noteq> CHR ''/'') rest @ ''-aiplatform.googleapis.com/v1/'' @ resource @ suffix))"

text \<open>\<open>json\<close> reads one chunk: None is not JSON, \<open>Some None\<close> is JSON but not an object.\<close>

definition stream_chunk :: "string \<Rightarrow> string" where
  "stream_chunk line =
     (let c = strip line in if starts_with ''data:'' c then strip (drop 5 c) else c)"

definition parse_stream_documents :: "(string \<Rightarrow> ae_event option option) \<Rightarrow> string \<Rightarrow> ae_event list" where
  "parse_stream_documents json text =
     List.map_filter (\<lambda>line. if stream_chunk line = [] then None else Option.bind (json (stream_chunk line)) id)
       (split_on (CHR 10) text)"

definition event_texts :: "ae_event \<Rightarrow> string list" where
  "event_texts e = filter (\<lambda>t. t \<noteq> []) (List.map_filter id (ae_parts e))"

definition by_user :: "ae_event \<Rightarrow> bool" where
  "by_user e = (ae_author e = Some ''user'')"

definition final_model_reply :: "ae_event list \<Rightarrow> string" where
  "final_model_reply events =
     foldl (\<lambda>reply e. if by_user e then reply else foldl (\<lambda>_ t. t) reply (event_texts e)) [] events"

section \<open>The reply of a turn in the session's events\<close>

definition turn_marker :: "nat \<Rightarrow> string" where
  "turn_marker n = ''This is turn '' @ decimal n"

text \<open>\<open>re.search\<close> of the marker not followed by a digit.\<close>

fun has_marker :: "string \<Rightarrow> string \<Rightarrow> bool" where
  "has_marker m [] = False"
| "has_marker m (c # s) =
     (starts_with m (c # s) \<and> (case drop (length m) (c # s) of [] \<Rightarrow> True | d # _ \<Rightarrow> \<not> is_digit d) \<or> has_marker m s)"

definition is_own :: "nat \<Rightarrow> ae_event \<Rightarrow> bool" where
  "is_own n e = list_ex (has_marker (turn_marker n)) (event_texts e)"

definition scan_event :: "nat \<Rightarrow> nat option \<times> bool \<Rightarrow> nat \<times> ae_event \<Rightarrow> nat option \<times> bool" where
  "scan_event n = (\<lambda>(own, later) (i, e).
     if \<not> by_user e then (own, later)
     else if is_own n e then (Some i, False)
     else if own \<noteq> None then (own, True) else (own, later))"

definition recovered_turn_reply :: "ae_event list \<Rightarrow> nat \<Rightarrow> string option" where
  "recovered_turn_reply events n =
     (case foldl (scan_event n) (None, False) (enumerate 0 events) of
        (Some i, False) \<Rightarrow>
          (let reply = final_model_reply (drop (i + 1) events) in if reply = [] then None else Some reply)
      | _ \<Rightarrow> None)"

section \<open>Errors of the engine\<close>

text \<open>
  The body of a Google error: not JSON, an object whose \<open>error\<close> is an object with or without a message
  (or is missing), or anything else, which raises.
\<close>

datatype google_body = GoogleNotJson | GoogleError "string option" | GoogleOther

definition error_from_google :: "nat \<Rightarrow> google_body \<Rightarrow> ErrorBody option" where
  "error_from_google status body =
     (let envelope = (\<lambda>message.
        \<lparr>eb_code = UPSTREAM_UNAVAILABLE,
         eb_message = (case message of Some (c # m) \<Rightarrow> c # m | _ \<Rightarrow> ''AE returned HTTP '' @ decimal status),
         eb_agent = Some ''agent-engine'', eb_correlation = 0,
         eb_retryable = (500 \<le> status \<or> status = 429), eb_retry_after = Some 5\<rparr>) in
      case body of
        GoogleNotJson \<Rightarrow> Some (envelope None)
      | GoogleError message \<Rightarrow> Some (envelope message)
      | GoogleOther \<Rightarrow> None)"

section \<open>The engine\<close>

record ae_session =
  as_id :: "string option"
  as_name :: "string option"
  as_user :: "string option"

text \<open>
  The engine's operations on its state, each answering a status with a body (None in the body:
  another JSON shape), then the readers of JSON, the wording of a rejected turn, the hash and the
  deploy label. \<open>ag_fresh\<close> is the random user of a stateless invocation.
\<close>

record 'r ae_env =
  ag_query :: "string \<Rightarrow> string option \<Rightarrow> string \<Rightarrow> 'r \<Rightarrow> (nat \<times> string) option \<times> 'r"
  ag_list :: "string \<Rightarrow> 'r \<Rightarrow> (nat \<times> ae_session list option) option \<times> 'r"
  ag_create :: "string \<Rightarrow> 'r \<Rightarrow> (nat \<times> ae_session option) option \<times> 'r"
  ag_events :: "string \<Rightarrow> string \<Rightarrow> 'r \<Rightarrow> (nat \<times> ae_event list option) option \<times> 'r"
  ag_chunk :: "string \<Rightarrow> ae_event option option"
  ag_google :: "string \<Rightarrow> google_body"
  ag_review :: "string \<Rightarrow> ReviewReport option"
  ag_synthesis :: "string \<Rightarrow> SynthesisReport option"
  ag_turn :: "string \<Rightarrow> FacilitatorTurnOutput option option"
  ag_explain :: "turn_invalid \<Rightarrow> string"
  ag_unread :: string
  ag_sha :: "string \<Rightarrow> string"
  ag_fresh :: "nat \<Rightarrow> string"
  ag_version :: string
  ag_dumps :: dumps

type_synonym 'r stream_post = "('r, (nat \<times> ae_event list payload) option) client"

definition ae_stream_post :: "client_env \<Rightarrow> 'r ae_env \<Rightarrow> string \<Rightarrow> string option \<Rightarrow> string \<Rightarrow> 'r stream_post" where
  "ae_stream_post env ag user session message =
     andThen (exchange env (ag_query ag user session message)) (\<lambda>reply. ret
       (case reply of
          None \<Rightarrow> None
        | Some (status, text) \<Rightarrow>
            if status \<noteq> 200
            then map_option (\<lambda>e. (status, Failure e)) (error_from_google status (ag_google ag text))
            else Some (200, Answer (parse_stream_documents (ag_chunk ag) text))))"

text \<open>The reply text of a 200; the real transport only answers it with events.\<close>

definition stream_reply :: "ae_event list payload \<Rightarrow> string" where
  "stream_reply body = (case body of Answer events \<Rightarrow> final_model_reply events | _ \<Rightarrow> [])"

definition ae_failure :: "error_code \<Rightarrow> string \<Rightarrow> exc" where
  "ae_failure code message =
     AgentCallFailure \<lparr>eb_code = code, eb_message = message, eb_agent = None, eb_correlation = 0,
       eb_retryable = False, eb_retry_after = None\<rparr>"

definition validated_reply :: "('b \<Rightarrow> bool) \<Rightarrow> 'b option \<Rightarrow> ('r, 'b) client" where
  "validated_reply ok parsed =
     (case parsed of
        Some b \<Rightarrow> if ok b then ret b else raise (ae_failure VALIDATION_ERROR ''AE reply failed schema validation'')
      | None \<Rightarrow> raise (ae_failure VALIDATION_ERROR ''AE reply failed schema validation''))"

subsection \<open>Stateless agents\<close>

text \<open>Attempts \<open>k, k+1, ...\<close> with \<open>left\<close> still allowed; \<open>last\<close> is what exhaustion raises.\<close>

fun stream_loop ::
    "client_env \<Rightarrow> policy \<Rightarrow> instant \<Rightarrow> 'r stream_post \<Rightarrow> nat \<Rightarrow> nat \<Rightarrow> exc \<Rightarrow> ('r, string \<times> nat) client" where
  "stream_loop env p deadline post k 0 last_error = raise last_error"
| "stream_loop env p deadline post k (Suc left) last_error =
     andThen (attempt_timeout p deadline) (\<lambda>timeout.
     andThen post (\<lambda>reply.
     let again = (\<lambda>e.
       andThen (if 0 < left then client_backoff env p k deadline else ret ()) (\<lambda>_.
         stream_loop env p deadline post (k + 1) left e)) in
     case reply of
       None \<Rightarrow> again AgentTransportError
     | Some (status, body) \<Rightarrow>
         if status = 200 then
           (if strip (stream_reply body) \<noteq> [] then ret (stream_reply body, k) else again AgentTransportError)
         else
           let e = error_body status body in
           if \<not> eb_retryable e then raise (AgentCallFailure e) else again (AgentCallFailure e)))"

definition ae_stream :: "client_env \<Rightarrow> policy \<Rightarrow> instant \<Rightarrow> 'r ae_env \<Rightarrow> string \<Rightarrow> ('r, string \<times> nat) client" where
  "ae_stream env p deadline ag message =
     stream_loop env p deadline
       (andThen (gets ne_exchanges) (\<lambda>n. ae_stream_post env ag (ag_fresh ag n) None message))
       1 (po_attempts p) AgentTransportError"

definition ae_reviewer_invoke ::
    "client_env \<Rightarrow> policy \<Rightarrow> instant \<Rightarrow> 'r ae_env \<Rightarrow> ReviewerRequest \<Rightarrow> ('r, ReviewReport envelope \<times> nat) client" where
  "ae_reviewer_invoke env p deadline ag q =
     (let message = ae_reviewer_message (ag_dumps ag) q in
      andThen (ae_stream env p deadline ag message) (\<lambda>(text, attempts).
      andThen (validated_reply valid_ReviewReport (ag_review ag text)) (\<lambda>report.
      ret (\<lparr>ev_report = report, ev_version = ag_version ag, ev_sha = ag_sha ag message\<rparr>, attempts))))"

definition ae_synthesis_invoke ::
    "client_env \<Rightarrow> policy \<Rightarrow> instant \<Rightarrow> 'r ae_env \<Rightarrow> SynthesisRequest \<Rightarrow> ('r, SynthesisReport envelope \<times> nat) client" where
  "ae_synthesis_invoke env p deadline ag q =
     (let message = ae_synthesis_message (ag_dumps ag) q in
      andThen (ae_stream env p deadline ag message) (\<lambda>(text, attempts).
      andThen (validated_reply valid_SynthesisReport (ag_synthesis ag text)) (\<lambda>report.
      ret (\<lparr>ev_report = report, ev_version = ag_version ag, ev_sha = ag_sha ag message\<rparr>, attempts))))"

subsection \<open>The facilitator\<close>

definition runtime_query :: "client_env \<Rightarrow> ('r \<Rightarrow> (nat \<times> 'x option) option \<times> 'r) \<Rightarrow> ('r, 'x) client" where
  "runtime_query env work =
     andThen (exchange env work) (\<lambda>reply.
     case reply of
       None \<Rightarrow> raise PythonError
     | Some (status, body) \<Rightarrow>
         if status \<noteq> 200 then raise AgentTransportError
         else (case body of None \<Rightarrow> raise PythonError | Some b \<Rightarrow> ret b))"

definition name_of :: "ae_session \<Rightarrow> string" where
  "name_of s = (case as_name s of None \<Rightarrow> [] | Some n \<Rightarrow> n)"

definition session_key :: "ae_session \<Rightarrow> string" where
  "session_key s = (case as_id s of Some (c # i) \<Rightarrow> c # i | _ \<Rightarrow> last_segment (name_of s))"

definition real_list_sessions :: "client_env \<Rightarrow> 'r ae_env \<Rightarrow> string \<Rightarrow> ('r, ae_session list) client" where
  "real_list_sessions env ag user =
     andThen (runtime_query env (ag_list ag user)) (\<lambda>sessions.
     ret (filter (\<lambda>s. case as_user s of None \<Rightarrow> True | Some u \<Rightarrow> u = user) sessions))"

definition real_create_session :: "client_env \<Rightarrow> 'r ae_env \<Rightarrow> string \<Rightarrow> ('r, ae_session) client" where
  "real_create_session env ag user =
     andThen (runtime_query env (ag_create ag user)) (\<lambda>s.
     ret (if as_id s = None then s\<lparr>as_id := Some (last_segment (name_of s))\<rparr> else s))"

definition real_list_events :: "client_env \<Rightarrow> 'r ae_env \<Rightarrow> string \<Rightarrow> string \<Rightarrow> ('r, ae_event list) client" where
  "real_list_events env ag user session = runtime_query env (ag_events ag user session)"

definition resolve_session :: "client_env \<Rightarrow> 'r ae_env \<Rightarrow> string \<Rightarrow> ('r, string) client" where
  "resolve_session env ag sid =
     andThen (real_list_sessions env ag sid) (\<lambda>sessions.
     case sessions of
       s # _ \<Rightarrow> ret (session_key s)
     | [] \<Rightarrow> andThen (real_create_session env ag sid) (\<lambda>s. ret (session_key s)))"

text \<open>\<open>FacilitatorTurnOutput.model_validate_json\<close>.\<close>

definition read_output :: "'r ae_env \<Rightarrow> string \<Rightarrow> FacilitatorTurnOutput option" where
  "read_output ag text =
     (case ag_turn ag text of Some (Some o1) \<Rightarrow> if valid_FacilitatorTurnOutput o1 then Some o1 else None | _ \<Rightarrow> None)"

definition ae_recover :: "client_env \<Rightarrow> 'r ae_env \<Rightarrow> FacilitatorRequest \<Rightarrow> ('r, FacilitatorTurnOutput option) client" where
  "ae_recover env ag q =
     on_error
       (andThen (resolve_session env ag (fq_session_id q)) (\<lambda>session.
        andThen (real_list_events env ag (fq_session_id q) session) (\<lambda>events.
        ret (Option.bind (recovered_turn_reply events (fq_turn_number q)) (read_output ag)))))
       (\<lambda>_. ret None)"

definition turn_post :: "client_env \<Rightarrow> 'r ae_env \<Rightarrow> FacilitatorRequest \<Rightarrow> string \<Rightarrow> string \<Rightarrow> 'r stream_post" where
  "turn_post env ag q session message = ae_stream_post env ag (fq_session_id q) (Some session) message"

text \<open>
  The attempts of a turn. A reply that is not JSON raises out of the loop; one of another shape is
  returned as None and refused afterwards.
\<close>

fun ae_turn_loop ::
    "client_env \<Rightarrow> policy \<Rightarrow> instant \<Rightarrow> 'r ae_env \<Rightarrow> FacilitatorRequest \<Rightarrow> string \<Rightarrow> nat \<Rightarrow> nat \<Rightarrow> exc \<Rightarrow>
     ('r, FacilitatorTurnOutput option \<times> nat) client" where
  "ae_turn_loop env p deadline ag q session k 0 last_error = raise last_error"
| "ae_turn_loop env p deadline ag q session k (Suc left) last_error =
     andThen (attempt_timeout p deadline) (\<lambda>timeout.
     andThen (turn_post env ag q session (ae_facilitator_message (ag_dumps ag) q)) (\<lambda>reply.
     let again = (\<lambda>e.
       andThen (ae_recover env ag q) (\<lambda>recovered.
       case recovered of
         Some o1 \<Rightarrow> ret (Some o1, k)
       | None \<Rightarrow>
           andThen (if 0 < left then client_backoff env p k deadline else ret ()) (\<lambda>_.
           ae_turn_loop env p deadline ag q session (k + 1) left e))) in
     case reply of
       None \<Rightarrow> again AgentTransportError
     | Some (status, body) \<Rightarrow>
         if status = 200 then
           (if strip (stream_reply body) \<noteq> []
            then (case ag_turn ag (stream_reply body) of None \<Rightarrow> raise PythonError | Some x \<Rightarrow> ret (x, k))
            else again AgentTransportError)
         else
           let e = error_body status body in
           if \<not> eb_retryable e then raise (AgentCallFailure e) else again (AgentCallFailure e)))"

definition corrective_turn ::
    "client_env \<Rightarrow> policy \<Rightarrow> instant \<Rightarrow> 'r ae_env \<Rightarrow> FacilitatorRequest \<Rightarrow> string \<Rightarrow> string \<Rightarrow> ('r, string) client" where
  "corrective_turn env p deadline ag q session reasons =
     andThen (attempt_timeout p deadline) (\<lambda>timeout.
     andThen (turn_post env ag q session (ae_corrective_message reasons (fq_turn_number q))) (\<lambda>reply.
     case reply of
       None \<Rightarrow> raise PythonError
     | Some (status, body) \<Rightarrow>
         if status \<noteq> 200 then raise (AgentCallFailure (error_body status body))
         else if strip (stream_reply body) = [] then raise AgentTransportError
         else ret (stream_reply body)))"

text \<open>
  One correction: the output to check next (None for a reply that does not read) with the reason to
  send if it is None. Only the client's own two exceptions are reconciled.
\<close>

definition reconciled :: "exc \<Rightarrow> bool" where
  "reconciled e = (case e of AgentTransportError \<Rightarrow> True | AgentCallFailure _ \<Rightarrow> True | _ \<Rightarrow> False)"

definition corrected ::
    "client_env \<Rightarrow> policy \<Rightarrow> instant \<Rightarrow> 'r ae_env \<Rightarrow> FacilitatorRequest \<Rightarrow> string \<Rightarrow> string \<Rightarrow>
     ('r, FacilitatorTurnOutput option \<times> string) client" where
  "corrected env p deadline ag q session reason =
     on_error
       (andThen (corrective_turn env p deadline ag q session reason) (\<lambda>reply.
        ret (case read_output ag reply of None \<Rightarrow> (None, ag_unread ag) | Some o1 \<Rightarrow> (Some o1, reason))))
       (\<lambda>e. if reconciled e
        then andThen (ae_recover env ag q) (\<lambda>recovered.
          case recovered of None \<Rightarrow> raise e | Some o1 \<Rightarrow> ret (Some o1, reason))
        else raise e)"

definition turn_verdict ::
    "'r ae_env \<Rightarrow> FacilitatorRequest \<Rightarrow> string \<Rightarrow> FacilitatorTurnOutput option \<Rightarrow> string + FacilitatorTurnOutput" where
  "turn_verdict ag q reason x =
     (case x of
        None \<Rightarrow> Inl reason
      | Some o1 \<Rightarrow> (case validate_facilitator_turn o1 q of Inr _ \<Rightarrow> Inr o1 | Inl e \<Rightarrow> Inl (ag_explain ag e)))"

function ae_corrections ::
    "client_env \<Rightarrow> policy \<Rightarrow> instant \<Rightarrow> 'r ae_env \<Rightarrow> FacilitatorRequest \<Rightarrow> string \<Rightarrow>
     FacilitatorTurnOutput option \<Rightarrow> nat \<Rightarrow> string \<Rightarrow> ('r, FacilitatorTurnOutput \<times> nat) client" where
  "ae_corrections env p deadline ag q session x corrections reason =
     (case turn_verdict ag q reason x of
        Inr o1 \<Rightarrow> ret (o1, corrections)
      | Inl why \<Rightarrow>
          if CORRECTIVE_MAX \<le> corrections then raise (ae_failure DELEGATION_VALIDATION ''no valid turn output'')
          else andThen (corrected env p deadline ag q session why) (\<lambda>(y, why2).
            ae_corrections env p deadline ag q session y (corrections + 1) why2))"
  by pat_completeness auto

termination
  by (relation "measure (\<lambda>(env, p, deadline, ag, q, session, x, corrections, reason). CORRECTIVE_MAX - corrections)") auto

declare ae_corrections.simps [simp del]

definition ae_facilitator_invoke ::
    "client_env \<Rightarrow> policy \<Rightarrow> instant \<Rightarrow> 'r ae_env \<Rightarrow> FacilitatorRequest \<Rightarrow> ('r, FacilitatorResponse \<times> nat) client" where
  "ae_facilitator_invoke env p deadline ag q =
     andThen (resolve_session env ag (fq_session_id q)) (\<lambda>session.
     andThen (ae_turn_loop env p deadline ag q session 1 (po_attempts p) AgentTransportError) (\<lambda>(x, attempts).
     andThen (validated_reply valid_FacilitatorTurnOutput x) (\<lambda>o1.
     andThen (ae_corrections env p deadline ag q session (Some o1) 0 []) (\<lambda>(o2, corrections).
     ret (\<lparr>fp_output = o2, fp_version = ag_version ag,
           fp_sha = ag_sha ag (ae_facilitator_message (ag_dumps ag) q), fp_reprompts = corrections\<rparr>, attempts)))))"

section \<open>What a recovered reply is\<close>

lemma has_marker_iff:
  assumes "m \<noteq> []"
  shows "has_marker m s \<longleftrightarrow> (\<exists>a b. s = a @ m @ b \<and> (b = [] \<or> \<not> is_digit (hd b)))"
proof (induction s)
  case Nil
  then show ?case using assms by simp
next
  case (Cons c s)
  have here: "starts_with m (c # s) \<and> (case drop (length m) (c # s) of [] \<Rightarrow> True | d # _ \<Rightarrow> \<not> is_digit d) \<longleftrightarrow>
      (\<exists>b. c # s = m @ b \<and> (b = [] \<or> \<not> is_digit (hd b)))"
  proof (cases "starts_with m (c # s)")
    case True
    then obtain b where b: "c # s = m @ b" by (auto simp: starts_with_append)
    then show ?thesis unfolding b by (cases b) (simp_all add: starts_with_append)
  next
    case False
    then show ?thesis by (auto simp: starts_with_append)
  qed
  show ?case
  proof
    assume "has_marker m (c # s)"
    then show "\<exists>a b. c # s = a @ m @ b \<and> (b = [] \<or> \<not> is_digit (hd b))"
      unfolding has_marker.simps here Cons.IH by (metis append_Cons append_Nil)
  next
    assume "\<exists>a b. c # s = a @ m @ b \<and> (b = [] \<or> \<not> is_digit (hd b))"
    then obtain a b where "c # s = a @ m @ b" "b = [] \<or> \<not> is_digit (hd b)" by blast
    then show "has_marker m (c # s)"
      unfolding has_marker.simps here Cons.IH by (cases a) force+
  qed
qed

lemma turn_marker_nonempty: "turn_marker n \<noteq> []" by (simp add: turn_marker_def)

text \<open>All texts of the events that are not the user's; the reply is the last one.\<close>

definition reply_texts :: "ae_event list \<Rightarrow> string list" where
  "reply_texts es = concat (map event_texts (filter (\<lambda>e. \<not> by_user e) es))"

lemma final_reply_texts: "final_model_reply es = (if reply_texts es = [] then [] else last (reply_texts es))"
proof -
  have texts: "foldl (\<lambda>_ t. t) r ts = (if ts = [] then r else last ts)" for r and ts :: "string list"
    by (induction ts arbitrary: r) auto
  have "foldl (\<lambda>reply e. if by_user e then reply else foldl (\<lambda>_ t. t) reply (event_texts e)) r es =
      (if reply_texts es = [] then r else last (reply_texts es))" for r
    by (induction es arbitrary: r) (auto simp: reply_texts_def texts)
  then show ?thesis by (simp add: final_model_reply_def)
qed

lemma reply_texts_nonempty: "t \<in> set (reply_texts es) \<Longrightarrow> t \<noteq> []"
  by (auto simp: reply_texts_def event_texts_def)

text \<open>The scan after a prefix of the events: the last own message, and whether another user spoke since.\<close>

definition silent :: "ae_event list \<Rightarrow> bool" where
  "silent es = list_all (\<lambda>e. \<not> by_user e) es"

lemma scan_append:
  "foldl (scan_event n) st (enumerate k (xs @ ys)) =
   foldl (scan_event n) (foldl (scan_event n) st (enumerate k xs)) (enumerate (k + length xs) ys)"
  by (simp add: enumerate_append_eq)

lemma scan_result:
  "foldl (scan_event n) (None, False) (enumerate 0 es) = (Some i, False) \<longleftrightarrow>
   i < length es \<and> by_user (es ! i) \<and> is_own n (es ! i) \<and> silent (drop (i + 1) es)"
proof (induction es arbitrary: i rule: rev_induct)
  case Nil
  then show ?case by simp
next
  case (snoc e es)
  obtain own later where st: "foldl (scan_event n) (None, False) (enumerate 0 es) = (own, later)" by fastforce
  have step: "foldl (scan_event n) (None, False) (enumerate 0 (es @ [e])) = scan_event n (own, later) (length es, e)"
    by (simp only: scan_append st) simp
  have drops: "i < length es \<Longrightarrow> drop (Suc i) (es @ [e]) = drop (Suc i) es @ [e]" by simp
  show ?case
  proof (cases "by_user e \<and> is_own n e")
    case True
    then show ?thesis
      using step drops by (auto simp: scan_event_def silent_def nth_append less_Suc_eq)
  next
    case False
    have never: "own = None \<Longrightarrow> \<not> later"
      using st
    proof (induction es arbitrary: own later rule: rev_induct)
      case (snoc x xs)
      obtain o2 l2 where "foldl (scan_event n) (None, False) (enumerate 0 xs) = (o2, l2)" by fastforce
      then show ?case
        using snoc by (auto simp only: scan_append) (auto simp: scan_event_def split: if_splits)
    qed simp
    show ?thesis
      using step False snoc[of i] st drops
      by (cases "i < length es")
         (auto simp: scan_event_def silent_def nth_append less_Suc_eq split: if_splits)
  qed
qed

lemma recovered_iff:
  "recovered_turn_reply events n = Some r \<longleftrightarrow>
   r \<noteq> [] \<and> (\<exists>before own after. events = before @ own # after \<and> by_user own \<and> is_own n own \<and> silent after \<and>
     final_model_reply after = r)"
proof
  assume rec: "recovered_turn_reply events n = Some r"
  then obtain i where i: "foldl (scan_event n) (None, False) (enumerate 0 events) = (Some i, False)"
    and reply: "final_model_reply (drop (i + 1) events) = r" "r \<noteq> []"
    by (auto simp: recovered_turn_reply_def Let_def split: prod.splits option.splits bool.splits if_splits)
  note at = i[unfolded scan_result]
  have "events = take i events @ events ! i # drop (i + 1) events"
    using at by (simp add: id_take_nth_drop)
  then show "r \<noteq> [] \<and> (\<exists>before own after. events = before @ own # after \<and> by_user own \<and> is_own n own \<and>
      silent after \<and> final_model_reply after = r)"
    using at reply by blast
next
  assume "r \<noteq> [] \<and> (\<exists>before own after. events = before @ own # after \<and> by_user own \<and> is_own n own \<and>
      silent after \<and> final_model_reply after = r)"
  then obtain before own after where ev: "events = before @ own # after" "by_user own" "is_own n own" "silent after"
      "final_model_reply after = r" "r \<noteq> []" by blast
  have "foldl (scan_event n) (None, False) (enumerate 0 events) = (Some (length before), False)"
    unfolding scan_result using ev by (simp add: nth_append)
  then show "recovered_turn_reply events n = Some r"
    using ev by (simp add: recovered_turn_reply_def)
qed

section \<open>The cost of a turn\<close>

text \<open>\<open>spends k m\<close>: the computation makes at most \<open>k\<close> exchanges, whatever comes back.\<close>

definition spends :: "nat \<Rightarrow> ('r, 'a) client \<Rightarrow> bool" where
  "spends k m \<longleftrightarrow> (\<forall>s. ne_exchanges (snd (m s)) \<le> ne_exchanges s + k)"

named_theorems spends_intros \<open>counting the exchanges of a computation\<close>

lemma spendsD: "spends k m \<Longrightarrow> m s = (x, t) \<Longrightarrow> ne_exchanges t \<le> ne_exchanges s + k"
  unfolding spends_def by (metis snd_conv)

lemma spends_more: "spends j m \<Longrightarrow> j \<le> k \<Longrightarrow> spends k m"
  unfolding spends_def by (meson add_left_mono le_trans)

lemma spends_quiet [spends_intros]: "spends 0 (ret x)" "spends 0 (raise e)" "spends 0 (gets f)"
  by (simp_all add: spends_def comp_simps)

lemma spends_andThen [spends_intros]:
  assumes "spends j m" "\<And>x. spends k (f x)"
  shows "spends (j + k) (andThen m f)"
  unfolding spends_def
proof
  fix s
  obtain x t where m: "m s = (x, t)" by fastforce
  note first = spendsD[OF assms(1) m]
  show "ne_exchanges (snd (andThen m f s)) \<le> ne_exchanges s + (j + k)"
  proof (cases x)
    case (Inl e)
    then show ?thesis using m first by (simp add: comp_simps)
  next
    case (Inr y)
    obtain z u where "f y t = (z, u)" by fastforce
    then show ?thesis using m first spendsD[OF assms(2)[of y]] Inr by (fastforce simp: comp_simps)
  qed
qed

lemma spends_then: "spends j m \<Longrightarrow> (\<And>x. spends k (f x)) \<Longrightarrow> j + k \<le> n \<Longrightarrow> spends n (andThen m f)"
  by (rule spends_more[OF spends_andThen])

lemma spends_cases [spends_intros]:
  "spends n a \<Longrightarrow> spends n b \<Longrightarrow> spends n (if c then a else b)"
  "spends n a \<Longrightarrow> (\<And>y. spends n (f y)) \<Longrightarrow> spends n (case x of None \<Rightarrow> a | Some y \<Rightarrow> f y)"
  "(\<And>y z. spends n (g y z)) \<Longrightarrow> spends n (case u of (y, z) \<Rightarrow> g y z)"
  by (auto split: option.split prod.split)

lemma spends_on_error [spends_intros]:
  assumes "spends j m" "\<And>e. spends k (h e)"
  shows "spends (j + k) (on_error m h)"
  unfolding spends_def
proof
  fix s
  obtain x t where m: "m s = (x, t)" by fastforce
  note first = spendsD[OF assms(1) m]
  show "ne_exchanges (snd (on_error m h s)) \<le> ne_exchanges s + (j + k)"
  proof (cases x)
    case (Inl e)
    obtain z u where "h e t = (z, u)" by fastforce
    then show ?thesis using m first spendsD[OF assms(2)[of e]] Inl by (fastforce simp: comp_simps)
  next
    case (Inr y)
    then show ?thesis using m first by (simp add: comp_simps)
  qed
qed

lemma spends_exchange [spends_intros]: "spends 1 (exchange env work)"
  by (auto simp: spends_def exchange_def Let_def split: prod.split)

lemma spends_timeout: "spends 0 (attempt_timeout p deadline)"
  by (simp add: spends_def attempt_timeout_def comp_simps)

lemma spends_backoff: "spends 0 (if b then client_backoff env p k deadline else ret ())"
  by (simp add: spends_def client_backoff_def comp_simps Let_def)

lemma spends_runtime: "spends 1 (runtime_query env work)"
  unfolding runtime_query_def
  by (rule spends_then[where k = 0, OF spends_exchange]) (auto intro: spends_quiet split: option.split)

lemma spends_resolve: "spends 2 (resolve_session env ag sid)"
proof -
  have list: "spends 1 (real_list_sessions env ag sid)" and create: "spends 1 (real_create_session env ag sid)"
    unfolding real_list_sessions_def real_create_session_def
    by (rule spends_then[OF spends_runtime spends_quiet(1)], simp)+
  have "spends 1 (case sessions of s # _ \<Rightarrow> ret (session_key s)
      | [] \<Rightarrow> andThen (real_create_session env ag sid) (\<lambda>s. ret (session_key s)))" for sessions
    using spends_andThen[OF create spends_quiet(1)] spends_more[OF spends_quiet(1), of 1]
    by (cases sessions) auto
  from spends_andThen[OF list this] show ?thesis by (simp add: resolve_session_def numeral_eq_Suc)
qed

lemma spends_recover: "spends 3 (ae_recover env ag q)"
  unfolding ae_recover_def real_list_events_def
  by (rule spends_more[OF spends_on_error[OF spends_andThen[OF spends_resolve spends_andThen[OF spends_runtime spends_quiet(1)]] spends_quiet(1)]])
     simp

lemma spends_post: "spends 1 (ae_stream_post env ag user session message)"
  unfolding ae_stream_post_def by (rule spends_then[OF spends_exchange spends_quiet(1)]) simp

lemma spends_turn_loop: "spends (4 * n) (ae_turn_loop env p deadline ag q session k n e)"
proof (induction n arbitrary: k e)
  case 0
  then show ?case by (simp add: spends_quiet)
next
  case (Suc n)
  have again: "spends (3 + 4 * n) (andThen (ae_recover env ag q) (\<lambda>recovered.
      case recovered of Some o1 \<Rightarrow> ret (Some o1, k)
      | None \<Rightarrow> andThen (if 0 < n then client_backoff env p k deadline else ret ()) (\<lambda>_.
          ae_turn_loop env p deadline ag q session (k + 1) n e2)))" for e2
  proof (rule spends_andThen[OF spends_recover])
    fix recovered
    show "spends (4 * n) (case recovered of Some o1 \<Rightarrow> ret (Some o1, k)
      | None \<Rightarrow> andThen (if 0 < n then client_backoff env p k deadline else ret ()) (\<lambda>_.
          ae_turn_loop env p deadline ag q session (k + 1) n e2))"
    proof (cases recovered)
      case None
      show ?thesis unfolding None option.case by (rule spends_then[OF spends_backoff Suc.IH]) simp
    next
      case (Some o1)
      then show ?thesis by (simp add: spends_more[OF spends_quiet(1)])
    qed
  qed
  have low: "spends (3 + 4 * n) (ret x)" "spends (3 + 4 * n) (raise e2)" for x :: "FacilitatorTurnOutput option \<times> nat" and e2
    by (rule spends_more[OF spends_quiet(1)] spends_more[OF spends_quiet(2)], simp)+
  have "spends (0 + (1 + (3 + 4 * n))) (ae_turn_loop env p deadline ag q session k (Suc n) e)"
    unfolding ae_turn_loop.simps Let_def turn_post_def
    by (intro spends_andThen[OF spends_timeout] spends_andThen[OF spends_post])
       (intro spends_cases again low)
  then show ?case by (simp add: add.commute)
qed

lemma spends_corrected: "spends 4 (corrected env p deadline ag q session reason)"
proof -
  have "spends 0 (case reply of None \<Rightarrow> raise PythonError
     | Some (status, body) \<Rightarrow>
         if status \<noteq> 200 then raise (AgentCallFailure (error_body status body))
         else if strip (stream_reply body) = [] then raise AgentTransportError
         else ret (stream_reply body))" for reply :: "(nat \<times> ae_event list payload) option"
    by (auto intro: spends_quiet split: option.split)
  from spends_andThen[OF spends_timeout spends_andThen[OF spends_post this]]
  have turn: "spends 1 (corrective_turn env p deadline ag q session reason)"
    by (simp add: corrective_turn_def turn_post_def)
  have "spends 3 (if reconciled e then andThen (ae_recover env ag q) (\<lambda>recovered.
      case recovered of None \<Rightarrow> raise e | Some o1 \<Rightarrow> ret (Some o1, reason)) else raise e)" for e
  proof -
    have "spends 3 (andThen (ae_recover env ag q) (\<lambda>recovered.
        case recovered of None \<Rightarrow> raise e | Some o1 \<Rightarrow> ret (Some o1, reason)))"
      by (rule spends_then[where k = 0, OF spends_recover]) (auto intro: spends_quiet split: option.split)
    then show ?thesis by (auto intro: spends_more[OF spends_quiet(2)])
  qed
  from spends_on_error[OF spends_andThen[OF turn spends_quiet(1)] this] show ?thesis
    by (simp add: corrected_def)
qed

lemma spends_corrections: "spends (4 * (CORRECTIVE_MAX - c)) (ae_corrections env p deadline ag q session x c reason)"
proof (induction env p deadline ag q session x c reason rule: ae_corrections.induct)
  case (1 env p deadline ag q session x c reason)
  show ?case
  proof (cases "turn_verdict ag q reason x")
    case (Inr o1)
    then show ?thesis
      using spends_more[OF spends_quiet(1)] by (simp add: ae_corrections.simps[of env p deadline ag q session x c reason])
  next
    case (Inl why)
    show ?thesis
    proof (cases "CORRECTIVE_MAX \<le> c")
      case True
      then show ?thesis
        using Inl spends_quiet(2) by (simp add: ae_corrections.simps[of env p deadline ag q session x c reason])
    next
      case False
      have "spends (4 + 4 * (CORRECTIVE_MAX - (c + 1))) (andThen (corrected env p deadline ag q session why)
          (\<lambda>(y, why2). ae_corrections env p deadline ag q session y (c + 1) why2))"
        using 1[OF Inl False] by (intro spends_andThen[OF spends_corrected]) (auto split: prod.split)
      moreover have "4 + 4 * (CORRECTIVE_MAX - (c + 1)) = 4 * (CORRECTIVE_MAX - c)" using False by simp
      ultimately show ?thesis
        using Inl False by (simp add: ae_corrections.simps[of env p deadline ag q session x c reason])
    qed
  qed
qed

section \<open>What a turn returns\<close>

lemma turn_loop_attempts:
  assumes "ae_turn_loop env p deadline ag q session k n e s = (Inr (x, a), t)"
  shows "k \<le> a \<and> a < k + n"
  using assms
proof (induction n arbitrary: k e s)
  case 0
  then show ?case by (simp add: comp_simps)
next
  case (Suc n)
  obtain y u where "attempt_timeout p deadline s = (y, u)" by fastforce
  moreover obtain z v where "turn_post env ag q session (ae_facilitator_message (ag_dumps ag) q) u = (z, v)" by fastforce
  ultimately show ?case
    using Suc.prems
    by (auto simp: andThen_run ret_run raise_run Let_def dest!: Suc.IH split: sum.splits option.splits if_splits prod.splits)
qed

lemma corrected_valid:
  assumes "corrected env p deadline ag q session reason s = (Inr (Some o1, why), t)"
  shows "valid_FacilitatorTurnOutput o1"
proof -
  have read: "read_output ag reply = Some o2 \<Longrightarrow> valid_FacilitatorTurnOutput o2" for reply o2
    by (auto simp: read_output_def split: option.splits if_splits)
  have rec: "ae_recover env ag q u = (Inr (Some o2), v) \<Longrightarrow> valid_FacilitatorTurnOutput o2" for u o2 v
    using read by (auto simp: ae_recover_def comp_simps bind_eq_Some_conv split: sum.splits prod.splits)
  show ?thesis
    using assms read rec
    by (auto simp: corrected_def comp_simps split: sum.splits prod.splits option.splits if_splits)
qed

lemma corrections_result:
  assumes "ae_corrections env p deadline ag q session x c reason s = (Inr (o1, k), t)" "c \<le> CORRECTIVE_MAX"
    "\<And>o2. x = Some o2 \<Longrightarrow> valid_FacilitatorTurnOutput o2"
  shows "valid_FacilitatorTurnOutput o1 \<and> validate_facilitator_turn o1 q = Inr () \<and> c \<le> k \<and> k \<le> CORRECTIVE_MAX"
  using assms
proof (induction env p deadline ag q session x c reason arbitrary: s rule: ae_corrections.induct)
  case (1 env p deadline ag q session x c reason)
  note unfold = ae_corrections.simps[of env p deadline ag q session x c reason]
  show ?case
  proof (cases "turn_verdict ag q reason x")
    case (Inr o2)
    then have "x = Some o2" "validate_facilitator_turn o2 q = Inr ()"
      by (auto simp: turn_verdict_def split: option.splits sum.splits)
    moreover have "o1 = o2 \<and> k = c" using "1.prems"(1) Inr by (auto simp: unfold comp_simps)
    ultimately show ?thesis using "1.prems"(2,3) by simp
  next
    case (Inl why)
    have more: "\<not> CORRECTIVE_MAX \<le> c"
      using "1.prems"(1) Inl by (auto simp: unfold comp_simps)
    obtain z u where one: "corrected env p deadline ag q session why s = (z, u)" by fastforce
    then obtain y why2 where z: "z = Inr (y, why2)"
        "ae_corrections env p deadline ag q session y (c + 1) why2 u = (Inr (o1, k), t)"
      using "1.prems"(1) Inl more by (auto simp: unfold comp_simps split: sum.splits)
    have "y = Some o2 \<Longrightarrow> valid_FacilitatorTurnOutput o2" for o2
      using corrected_valid one z(1) by blast
    from "1.IH"[OF Inl more, of y why2 u] z(2) this more show ?thesis by auto
  qed
qed

text \<open>C29. What a facilitator turn on the Agent Engine costs and returns, whatever the engine and the network
  answer: at most four exchanges per attempt and ten more; and an output that is returned is valid, satisfies
  every rule of its turn, needed at most two corrections and at most the allowed attempts.\<close>

theorem ae_turn_checked:
  assumes "ae_facilitator_invoke env p deadline ag q s = (x, t)"
  shows "ne_exchanges t \<le> ne_exchanges s + 4 * po_attempts p + 10 \<and>
    (\<forall>r a. x = Inr (r, a) \<longrightarrow>
       valid_FacilitatorTurnOutput (fp_output r) \<and> validate_facilitator_turn (fp_output r) q = Inr () \<and>
       fp_reprompts r \<le> 2 \<and> 1 \<le> a \<and> a \<le> po_attempts p)"
proof (intro conjI allI impI)
  have "spends 0 (validated_reply valid_FacilitatorTurnOutput y)" for y
    by (auto simp: validated_reply_def spends_quiet split: option.split)
  then have rest: "spends (0 + (4 * (CORRECTIVE_MAX - 0) + 0)) (andThen (validated_reply valid_FacilitatorTurnOutput y)
      (\<lambda>o1. andThen (ae_corrections env p deadline ag q session (Some o1) 0 []) (\<lambda>z. ret (f z))))" for y session and f :: "_ \<Rightarrow> 'z"
    by (intro spends_andThen spends_corrections spends_quiet(1))
  have "spends (2 + (4 * po_attempts p + (0 + (4 * (CORRECTIVE_MAX - 0) + 0)))) (ae_facilitator_invoke env p deadline ag q)"
    unfolding ae_facilitator_invoke_def case_prod_unfold
    by (intro spends_andThen[OF spends_resolve] spends_andThen[OF spends_turn_loop] rest)
  from spendsD[OF this assms] show "ne_exchanges t \<le> ne_exchanges s + 4 * po_attempts p + 10"
    by (simp add: CORRECTIVE_MAX_def)
  fix r a
  assume "x = Inr (r, a)"
  then obtain session u y v o1 w o2 k where run:
    "ae_turn_loop env p deadline ag q session 1 (po_attempts p) AgentTransportError u = (Inr (y, a), v)"
    "validated_reply valid_FacilitatorTurnOutput y v = (Inr o1, w)"
    "ae_corrections env p deadline ag q session (Some o1) 0 [] w = (Inr (o2, k), t)"
    "fp_output r = o2" "fp_reprompts r = k"
    using assms by (fastforce simp: ae_facilitator_invoke_def comp_simps split: sum.splits prod.splits)
  have "valid_FacilitatorTurnOutput o1"
    using run(2) by (auto simp: validated_reply_def comp_simps split: option.splits if_splits)
  from corrections_result[OF run(3)] this
  show "valid_FacilitatorTurnOutput (fp_output r)" "validate_facilitator_turn (fp_output r) q = Inr ()" "fp_reprompts r \<le> 2"
    using run(4,5) by (auto simp: CORRECTIVE_MAX_def)
  show "1 \<le> a" "a \<le> po_attempts p" using turn_loop_attempts[OF run(1)] by simp_all
qed

section \<open>Two faults\<close>

lemma marker_in_context:
  assumes "has_marker m s" "m \<noteq> []" "b = [] \<or> \<not> is_digit (hd b)"
  shows "has_marker m (a @ s @ b)"
proof -
  obtain c d where "s = c @ m @ d" "d = [] \<or> \<not> is_digit (hd d)"
    using assms(1) has_marker_iff[OF assms(2)] by blast
  then have "a @ s @ b = (a @ c) @ m @ (d @ b)" "d @ b = [] \<or> \<not> is_digit (hd (d @ b))"
    using assms(3) by (simp, cases d) auto
  then show ?thesis using has_marker_iff[OF assms(2)] by blast
qed

lemma marker_in_join:
  assumes "has_marker m x" "m \<noteq> []" "x \<in> set xs" "sep = [] \<or> \<not> is_digit (hd sep)" "sep \<noteq> []"
  shows "has_marker m (join sep xs)"
  using assms(3)
proof (induction xs rule: induct_list012)
  case (3 y z ys)
  show ?case
  proof (cases "x = y")
    case True
    have "sep @ join sep (z # ys) = [] \<or> \<not> is_digit (hd (sep @ join sep (z # ys)))" using assms(4,5) by simp
    from marker_in_context[OF assms(1,2) this, of "[]"] True show ?thesis by simp
  next
    case False
    then have "has_marker m (join sep (z # ys))" using 3 by simp
    from marker_in_context[OF this assms(2), of "[]" "y @ sep"] show ?thesis by simp
  qed
qed (use assms(1) in auto)

definition user_event :: "string \<Rightarrow> ae_event" where
  "user_event message = \<lparr>ae_author = Some ''user'', ae_parts = [Some message]\<rparr>"

definition model_event :: "string \<Rightarrow> ae_event" where
  "model_event reply = \<lparr>ae_author = Some ''facilitator'', ae_parts = [Some reply]\<rparr>"

text \<open>C30. The recovery can answer a turn with the reply of another one. The marker of a turn is looked for
  anywhere in a user message, so if the product owner's message of some turn contains the words by which
  turn k is recognised, then after that turn was served the recovery for turn k returns its recorded
  reply, although turn k was never received.\<close>

theorem ae_recovery_confuses_turns:
  assumes "fq_po_message q = Some m" "has_marker (turn_marker k) m" "r \<noteq> []"
  shows "recovered_turn_reply (before @ [user_event (ae_facilitator_message du q), model_event r]) k = Some r"
proof -
  have space: "\<not> is_digit (hd (newline @ newline))" by (simp add: newline_def is_digit_def)
  have "has_marker (turn_marker k) (ae_facilitator_message du q)"
    unfolding ae_facilitator_message_def
    by (rule marker_in_join[OF assms(2) turn_marker_nonempty]) (use assms(1) space in \<open>simp_all add: newline_def\<close>)
  then have own: "is_own k (user_event (ae_facilitator_message du q))"
    by (auto simp: is_own_def event_texts_def user_event_def)
  show ?thesis
    unfolding recovered_iff
    using own assms(3)
    by (intro conjI exI[of _ before] exI[of _ "user_event (ae_facilitator_message du q)"] exI[of _ "[model_event r]"])
       (simp_all add: by_user_def user_event_def silent_def model_event_def final_model_reply_def event_texts_def)
qed

text \<open>What Google says about a refused request is lost. Its error is wrapped with a retry hint even when
  it is not retryable, which the error schema forbids, so for every status below 500 but 429 the client
  reports a malformed error body instead of Google's message.\<close>

theorem google_refusal_masked:
  assumes "error_from_google status body = Some e" "status < 500" "status \<noteq> 429"
  shows "error_body status (Failure e) = malformed_error status \<and> \<not> eb_retryable (malformed_error status)"
proof -
  have "\<not> eb_retryable e \<and> eb_retry_after e = Some 5"
    using assms by (auto simp: error_from_google_def Let_def split: google_body.splits)
  then show ?thesis using assms(2) by (simp add: error_body_def valid_ErrorBody_def malformed_error_def)
qed

theorem google_refusal_masked_witness:
  "\<exists>e. error_from_google 403 (GoogleError (Some ''permission denied'')) = Some e \<and>
     eb_message e = ''permission denied'' \<and> error_body 403 (Failure e) = malformed_error 403"
proof -
  obtain e where e: "error_from_google 403 (GoogleError (Some ''permission denied'')) = Some e"
      "eb_message e = ''permission denied''"
    by (simp add: error_from_google_def Let_def)
  from google_refusal_masked[OF e(1)] e show ?thesis by auto
qed

definition later_request :: FacilitatorRequest where
  "later_request = demo_request\<lparr>fq_turn_number := 2, fq_po_message := Some ''This is turn 3 material''\<rparr>"

theorem ae_recovery_confuses_turns_witness:
  "recovered_turn_reply
     [user_event (ae_facilitator_message (ap_dumps demo_adapter) later_request), model_event ''reply to turn 2''] 3 =
   Some ''reply to turn 2''"
proof -
  have "turn_marker 3 = ''This is turn 3''" unfolding turn_marker_def by code_simp
  then have "has_marker (turn_marker 3) ''This is turn 3 material''" by (simp add: is_digit_def)
  from ae_recovery_confuses_turns[OF _ this, of later_request "''reply to turn 2''" "[]"]
  show ?thesis by (simp add: later_request_def)
qed

text \<open>An engine that answers every turn of the demonstration session with the demonstration output.\<close>

definition demo_engine :: "unit ae_env" where
  "demo_engine =
     \<lparr>ag_query = (\<lambda>user session message u. (Some (200, ''{}''), u)),
      ag_list = (\<lambda>user u. (Some (200, Some [\<lparr>as_id = Some ''7'', as_name = None, as_user = None\<rparr>]), u)),
      ag_create = (\<lambda>user u. (None, u)), ag_events = (\<lambda>user session u. (None, u)),
      ag_chunk = (\<lambda>c. Some (Some (model_event ''reply''))), ag_google = (\<lambda>_. GoogleNotJson),
      ag_review = (\<lambda>_. None), ag_synthesis = (\<lambda>_. None), ag_turn = (\<lambda>_. Some (Some demo_output)),
      ag_explain = (\<lambda>_. ''rejected''), ag_unread = ''unread'', ag_sha = (\<lambda>_. demo_sha),
      ag_fresh = (\<lambda>_. ''orch-0''), ag_version = ''facilitator-1'', ag_dumps = ap_dumps demo_adapter\<rparr>"

definition clear_client :: client_env where
  "clear_client = \<lparr>ce_fault = (\<lambda>_. Delivered), ce_delay = (\<lambda>_. 7), ce_rng = (\<lambda>_. 0)\<rparr>"

definition unit_net :: "unit net" where
  "unit_net = \<lparr>ne_clock = 0, ne_exchanges = 0, ne_remote = ()\<rparr>"

lemma demo_engine_run:
  "\<exists>t. ae_facilitator_invoke clear_client demo_policy 100000000 demo_engine demo_request unit_net =
     (Inr (\<lparr>fp_output = demo_output, fp_version = ''facilitator-1'', fp_sha = demo_sha, fp_reprompts = 0\<rparr>, 1), t)"
proof -
  note valid = demo_output_valid
  have rules: "validate_facilitator_turn demo_output demo_request = Inr ()"
    by (simp add: validate_facilitator_turn_def validate_issue_descriptors_def demo_output_def demo_request_def)
  have reply: "final_model_reply (parse_stream_documents (\<lambda>c. Some (Some (model_event ''reply''))) ''{}'') = ''reply''"
    by code_simp
  have word: "strip ''reply'' \<noteq> []" by code_simp
  have loop: "ae_turn_loop clear_client demo_policy 100000000 demo_engine demo_request ''7'' 1 2 AgentTransportError
      (unit_net\<lparr>ne_clock := 7, ne_exchanges := 1\<rparr>) =
      (Inr (Some demo_output, 1), unit_net\<lparr>ne_clock := 14, ne_exchanges := 2\<rparr>)"
    by (simp add: eval_nat_numeral comp_simps attempt_timeout_def demo_policy_def CLEANUP_RESERVE_def turn_post_def
        ae_stream_post_def exchange_def clear_client_def demo_engine_def Let_def unit_net_def stream_reply_def reply word)
  have attempts: "po_attempts demo_policy = 2" by (simp add: demo_policy_def)
  have label: "ag_version demo_engine = ''facilitator-1''" "ag_sha demo_engine message = demo_sha" for message
    by (simp_all add: demo_engine_def)
  have resolve: "resolve_session clear_client demo_engine sid unit_net = (Inr ''7'', unit_net\<lparr>ne_clock := 7, ne_exchanges := 1\<rparr>)" for sid
    by (simp add: resolve_session_def real_list_sessions_def runtime_query_def exchange_def clear_client_def demo_engine_def
        comp_simps Let_def unit_net_def session_key_def)
  show ?thesis
    by (simp add: ae_facilitator_invoke_def comp_simps resolve attempts loop validated_reply_def valid
        ae_corrections.simps turn_verdict_def rules label del: One_nat_def)
qed

theorem ae_turn_checked_witness:
  "\<exists>t :: unit net. ne_exchanges t \<le> 18 \<and> validate_facilitator_turn demo_output demo_request = Inr ()"
proof -
  obtain t where "ae_facilitator_invoke clear_client demo_policy 100000000 demo_engine demo_request unit_net =
     (Inr (\<lparr>fp_output = demo_output, fp_version = ''facilitator-1'', fp_sha = demo_sha, fp_reprompts = 0\<rparr>, 1), t)"
    using demo_engine_run by blast
  from ae_turn_checked[OF this] show ?thesis
    by (intro exI[of _ t]) (simp add: unit_net_def demo_policy_def)
qed

end
