(* ===== verification/Compaction.thy ===== *)
theory Compaction
  imports Report_Render
begin

text \<open>
  The facilitator's context policy: the classification of a prompt's size
  (\<open>shared/agent_kit/agent_kit/telemetry.py\<close>) and the compaction of the model request at the highest
  level (\<open>compaction.py\<close>). The summarizer and the token counts of the model are parameters. The last
  sections follow a session through growing history and repeated model calls.
\<close>

section \<open>Context levels\<close>

datatype prompt_level = LevelOk | LevelWarn | LevelSummarize

definition DEFAULT_CONTEXT_TOKEN_LIMIT :: nat where "DEFAULT_CONTEXT_TOKEN_LIMIT = 1048576"

text \<open>
  \<open>prompt_tokens / limit\<close> against 0.75 and 0.5. The float quotient of two integers below \<open>2 ^ 50\<close> is on
  the same side of these thresholds as the exact one.
\<close>

definition context_level :: "nat \<Rightarrow> nat \<Rightarrow> prompt_level" where
  "context_level prompt_tokens limit =
     (if 3 * limit \<le> 4 * prompt_tokens then LevelSummarize
      else if limit \<le> 2 * prompt_tokens then LevelWarn else LevelOk)"

section \<open>Summaries\<close>

record Summary =
  su_unresolved_issues :: "string list"
  su_decisions :: "string list"
  su_story_id :: string
  su_run_id :: string
  su_artifact_references :: "string list"
  su_open_points :: "string list"

definition valid_Summary :: "Summary \<Rightarrow> bool" where
  "valid_Summary s =
     (su_unresolved_issues s \<noteq> [] \<and> su_decisions s \<noteq> [] \<and> su_story_id s \<noteq> [] \<and> su_run_id s \<noteq> [] \<and>
      su_artifact_references s \<noteq> [] \<and> su_open_points s \<noteq> [])"

definition summary_lines :: "Summary \<Rightarrow> string list" where
  "summary_lines s =
     [''[conversation summary '' @ em_dash @ '' replaces all earlier turns]'',
      ''story: '' @ su_story_id s @ '' (run '' @ su_run_id s @ '')'',
      ''unresolved issues: '' @ join '', '' (su_unresolved_issues s),
      ''decisions: '' @ join ''; '' (su_decisions s),
      ''artifacts: '' @ join '', '' (su_artifact_references s),
      ''open points: '' @ join ''; '' (su_open_points s)]"

text \<open>One content of a model request: a role and parts, each with or without text.\<close>

record model_content =
  mc_role :: string
  mc_parts :: "string option list option"

definition summary_content :: "Summary \<Rightarrow> model_content" where
  "summary_content s = \<lparr>mc_role = ''user'', mc_parts = Some [Some (join newline (summary_lines s))]\<rparr>"

definition content_texts :: "model_content \<Rightarrow> string list" where
  "content_texts c =
     (case mc_parts c of None \<Rightarrow> [] | Some parts \<Rightarrow> filter (\<lambda>t. t \<noteq> []) (List.map_filter id parts))"

definition texts_of :: "model_content list \<Rightarrow> string" where
  "texts_of contents = join newline (concat (map content_texts contents))"

section \<open>The callback\<close>

text \<open>What the session state holds under the checkpoint key; \<open>Corrupt\<close> is anything unreadable.\<close>

datatype checkpoint = NoCheckpoint | Corrupt | Stored Summary int

record context_state =
  cx_level :: "prompt_level option"
  cx_checkpoint :: checkpoint

definition load_checkpoint :: "context_state \<Rightarrow> (Summary \<times> nat) option" where
  "load_checkpoint s =
     (case cx_checkpoint s of
        Stored summary n \<Rightarrow> if valid_Summary summary \<and> 0 \<le> n then Some (summary, nat n) else None
      | _ \<Rightarrow> None)"

definition KEEP_RECENT_TURNS :: nat where "KEEP_RECENT_TURNS = 4"

text \<open>\<open>contents[-keep:]\<close>, which is everything for 0.\<close>

definition recent :: "nat \<Rightarrow> 'a list \<Rightarrow> 'a list" where
  "recent keep xs = (if keep = 0 then xs else drop (length xs - keep) xs)"

definition compacted :: "nat \<Rightarrow> Summary \<Rightarrow> model_content list \<Rightarrow> model_content list" where
  "compacted keep summary contents = summary_content summary # recent keep contents"

definition usable_checkpoint :: "nat \<Rightarrow> context_state \<Rightarrow> model_content list \<Rightarrow> Summary option" where
  "usable_checkpoint keep s contents =
     (case load_checkpoint s of
        None \<Rightarrow> None
      | Some (summary, n) \<Rightarrow> if length contents \<le> n + keep then Some summary else None)"

definition summarize :: "(string \<Rightarrow> Summary option) \<Rightarrow> model_content list \<Rightarrow> Summary option" where
  "summarize summarizer contents =
     (case summarizer (texts_of contents) of
        None \<Rightarrow> None | Some s \<Rightarrow> if valid_Summary s then Some s else None)"

definition compaction_before_model ::
    "(string \<Rightarrow> Summary option) \<Rightarrow> nat \<Rightarrow> context_state \<Rightarrow> model_content list \<Rightarrow>
     context_state \<times> model_content list" where
  "compaction_before_model summarizer keep s contents =
     (if cx_level s \<noteq> Some LevelSummarize then (s, contents)
      else case usable_checkpoint keep s contents of
          Some summary \<Rightarrow> (s, compacted keep summary contents)
        | None \<Rightarrow>
            (case summarize summarizer contents of
               None \<Rightarrow> (s, contents)
             | Some summary \<Rightarrow>
                 (s\<lparr>cx_checkpoint := Stored summary (int (length contents))\<rparr>, compacted keep summary contents)))"

text \<open>\<open>after_model\<close> of the telemetry: no count or no limit leaves the level alone.\<close>

definition telemetry_after_model :: "nat option \<Rightarrow> nat \<Rightarrow> context_state \<Rightarrow> context_state" where
  "telemetry_after_model prompt_tokens limit s =
     (case prompt_tokens of
        None \<Rightarrow> s
      | Some n \<Rightarrow> if limit = 0 then s else s\<lparr>cx_level := Some (context_level n limit)\<rparr>)"

section \<open>A session\<close>

text \<open>
  The history only grows (session events are never deleted); each model call sends what the callback
  makes of it and records the level of what was sent.
\<close>

record context_env =
  ce_summarizer :: "string \<Rightarrow> Summary option"
  ce_keep :: nat
  ce_tokens :: "model_content list \<Rightarrow> nat option"
  ce_limit :: nat

definition model_call ::
    "context_env \<Rightarrow> context_state \<Rightarrow> model_content list \<Rightarrow> context_state \<times> model_content list" where
  "model_call env s history =
     (case compaction_before_model (ce_summarizer env) (ce_keep env) s history of
        (t, sent) \<Rightarrow> (telemetry_after_model (ce_tokens env sent) (ce_limit env) t, sent))"

inductive session_reach :: "context_env \<Rightarrow> context_state \<Rightarrow> model_content list \<Rightarrow> bool" for env where
  session_start: "cx_checkpoint s = NoCheckpoint \<Longrightarrow> session_reach env s []"
| session_grow: "session_reach env s history \<Longrightarrow> session_reach env s (history @ later)"
| session_call: "session_reach env s history \<Longrightarrow> session_reach env (fst (model_call env s history)) history"

text \<open>The outcomes of the callback: untouched, the stored checkpoint re-applied, a fresh summary.\<close>

lemma compaction_cases:
  obtains "compaction_before_model f keep s h = (s, h)"
  | summary n where "load_checkpoint s = Some (summary, n)" "length h \<le> n + keep"
      "compaction_before_model f keep s h = (s, compacted keep summary h)"
  | summary where "summarize f h = Some summary"
      "compaction_before_model f keep s h = (s\<lparr>cx_checkpoint := Stored summary (int (length h))\<rparr>, compacted keep summary h)"
proof (cases "cx_level s = Some LevelSummarize")
  case False
  then show ?thesis using that(1) by (simp add: compaction_before_model_def)
next
  case True
  show ?thesis
  proof (cases "usable_checkpoint keep s h")
    case None
    then show ?thesis
      using True that(1,3) by (cases "summarize f h") (simp_all add: compaction_before_model_def)
  next
    case (Some summary)
    then obtain n where "load_checkpoint s = Some (summary, n)" "length h \<le> n + keep"
      by (auto simp: usable_checkpoint_def split: option.splits prod.splits if_splits)
    then show ?thesis using True Some that(2) by (simp add: compaction_before_model_def)
  qed
qed

text \<open>A stored checkpoint summarizes the prefix of the history it counts.\<close>

lemma checkpoint_of_prefix:
  assumes "session_reach env s history" "load_checkpoint s = Some (summary, n)"
  shows "n \<le> length history \<and> summarize (ce_summarizer env) (take n history) = Some summary"
  using assms
proof (induction arbitrary: summary n rule: session_reach.induct)
  case (session_start s)
  then show ?case by (simp add: load_checkpoint_def)
next
  case (session_grow s history later)
  then show ?case by fastforce
next
  case (session_call s history)
  let ?t = "fst (compaction_before_model (ce_summarizer env) (ce_keep env) s history)"
  have "cx_checkpoint (fst (model_call env s history)) = cx_checkpoint ?t"
    by (auto simp: model_call_def telemetry_after_model_def split: prod.split option.split)
  then have load: "load_checkpoint ?t = Some (summary, n)"
    using session_call.prems by (simp add: load_checkpoint_def)
  consider "?t = s"
    | new where "summarize (ce_summarizer env) history = Some new" "?t = s\<lparr>cx_checkpoint := Stored new (int (length history))\<rparr>"
    by (rule compaction_cases[of "ce_summarizer env" "ce_keep env" s history]) auto
  then show ?case
  proof cases
    case 1
    then show ?thesis using session_call.IH load by simp
  next
    case 2
    then show ?thesis using load by (auto simp: load_checkpoint_def split: if_splits)
  qed
qed

text \<open>C28. Compaction never drops history silently: in every session, a model call sends either the whole
  history, or a valid summary followed by the most recent contents, and then the summary was made from a
  prefix of this very history that reaches at least to where the verbatim contents begin.\<close>

theorem compaction_loses_nothing:
  assumes "session_reach env s history"
  shows "snd (model_call env s history) = history \<or>
    (\<exists>summary n. snd (model_call env s history) = summary_content summary # recent (ce_keep env) history \<and>
       valid_Summary summary \<and> summarize (ce_summarizer env) (take n history) = Some summary \<and>
       history = take n history @ drop n history \<and> length (drop n history) \<le> length (recent (ce_keep env) history))"
proof -
  let ?sent = "snd (compaction_before_model (ce_summarizer env) (ce_keep env) s history)"
  have sent: "snd (model_call env s history) = ?sent"
    by (simp add: model_call_def split: prod.split)
  consider "?sent = history"
    | summary n where "load_checkpoint s = Some (summary, n)" "length history \<le> n + ce_keep env"
        "?sent = compacted (ce_keep env) summary history"
    | summary where "summarize (ce_summarizer env) history = Some summary" "?sent = compacted (ce_keep env) summary history"
    by (rule compaction_cases[of "ce_summarizer env" "ce_keep env" s history]) auto
  then show ?thesis
  proof cases
    case 1
    then show ?thesis using sent by simp
  next
    case 2
    have "valid_Summary summary" using 2(1) by (auto simp: load_checkpoint_def split: checkpoint.splits if_splits)
    moreover have "length (drop n history) \<le> length (recent (ce_keep env) history)"
      using 2(2) checkpoint_of_prefix[OF assms 2(1)] by (auto simp: recent_def)
    ultimately show ?thesis
      using sent 2 checkpoint_of_prefix[OF assms 2(1)] by (auto simp: compacted_def)
  next
    case 3
    then have "valid_Summary summary" by (auto simp: summarize_def split: option.splits if_splits)
    then show ?thesis
      using sent 3 by (intro disjI2 exI[of _ summary] exI[of _ "length history"]) (simp add: compacted_def)
  qed
qed

text \<open>A compaction does not last: once the compacted request itself is small enough to be classified
  below the highest level, the next model call sends the whole history again, however long it is.\<close>

theorem compaction_not_reapplied:
  assumes "model_call env s history = (t, sent)" "ce_tokens env sent = Some n" "0 < ce_limit env"
    "4 * n < 3 * ce_limit env"
  shows "snd (model_call env t (history @ later)) = history @ later"
proof -
  have "cx_level t \<noteq> Some LevelSummarize"
    using assms by (auto simp: model_call_def telemetry_after_model_def context_level_def split: prod.splits option.splits if_splits)
  then show ?thesis by (simp add: model_call_def compaction_before_model_def)
qed

definition demo_summary :: Summary where
  "demo_summary =
     \<lparr>su_unresolved_issues = [''B-1''], su_decisions = [''none''], su_story_id = ''story-01'', su_run_id = ''run-1'',
      su_artifact_references = [''art-1''], su_open_points = [''scope'']\<rparr>"

definition demo_context :: context_env where
  "demo_context =
     \<lparr>ce_summarizer = (\<lambda>_. Some demo_summary), ce_keep = 1,
      ce_tokens = (\<lambda>contents. Some (length contents)), ce_limit = 4\<rparr>"

definition demo_content :: model_content where
  "demo_content = \<lparr>mc_role = ''user'', mc_parts = Some [Some ''hello'']\<rparr>"

definition full_state :: context_state where
  "full_state = \<lparr>cx_level = Some LevelSummarize, cx_checkpoint = NoCheckpoint\<rparr>"

lemma demo_context_reach: "session_reach demo_context full_state [demo_content, demo_content, demo_content]"
  using session_grow[OF session_start[of full_state demo_context], of "[demo_content, demo_content, demo_content]"]
  by (simp add: full_state_def)

lemma demo_context_call:
  "snd (model_call demo_context full_state [demo_content, demo_content, demo_content]) = [summary_content demo_summary, demo_content]"
  by (simp add: model_call_def compaction_before_model_def full_state_def usable_checkpoint_def load_checkpoint_def
      summarize_def demo_context_def valid_Summary_def demo_summary_def compacted_def recent_def)

theorem compaction_loses_nothing_witness:
  "\<exists>n. summarize (\<lambda>_. Some demo_summary) (take n [demo_content, demo_content, demo_content]) = Some demo_summary \<and>
     length (drop n [demo_content, demo_content, demo_content]) \<le> 1"
proof -
  have "summarize (\<lambda>_. Some demo_summary) xs = Some demo_summary" for xs
    by (simp add: summarize_def valid_Summary_def demo_summary_def)
  then show ?thesis
    using compaction_loses_nothing[OF demo_context_reach] unfolding demo_context_call
    by (auto simp: demo_context_def recent_def)
qed

theorem compaction_not_reapplied_witness:
  "snd (model_call demo_context (fst (model_call demo_context full_state [demo_content, demo_content, demo_content]))
      [demo_content, demo_content, demo_content, demo_content]) =
   [demo_content, demo_content, demo_content, demo_content]"
proof -
  let ?h = "[demo_content, demo_content, demo_content]"
  have "model_call demo_context full_state ?h =
      (fst (model_call demo_context full_state ?h), [summary_content demo_summary, demo_content])"
    using demo_context_call by (simp add: prod_eq_iff)
  then have "snd (model_call demo_context (fst (model_call demo_context full_state ?h)) (?h @ [demo_content])) = ?h @ [demo_content]"
    by (rule compaction_not_reapplied[where n = 2]) (simp_all add: demo_context_def)
  then show ?thesis by simp
qed

end
