(* ===== verification/Story_Prepare.thy ===== *)
theory Story_Prepare
  imports Basics Schema_Review Cursors Report_Render
begin

text \<open>
  From Azure DevOps work items to stories: flattening rich text
  (\<open>mcp_servers/story/story_mcp/flatten.py\<close>), the wire shapes (\<open>shared/ado_wire/ado_wire/wire.py\<close>,
  \<open>dataset/loader/dataset_loader/envelope.py\<close>) and the preparation step
  (\<open>mcp_servers/story/story_mcp/prepare.py\<close>). The tokenizer of the HTML parser is a parameter, and so are the
  ISO 8601 forms other than the one the service itself writes; whitespace is ASCII whitespace.
\<close>

section \<open>Flattening\<close>

datatype html_event = HtmlData string | HtmlStart string | HtmlEnd string

type_synonym html_reader = "string \<Rightarrow> html_event list"

definition BLOCK_TAGS :: "string list" where
  "BLOCK_TAGS =
     [''p'', ''li'', ''br'', ''div'', ''ul'', ''ol'', ''tr'', ''table'', ''h1'', ''h2'', ''h3'', ''h4'', ''h5'', ''h6'', ''blockquote'']"

definition normalize_line :: "string \<Rightarrow> string" where
  "normalize_line s = join '' '' (words s)"

definition flush_line :: "string list \<Rightarrow> string \<Rightarrow> string list" where
  "flush_line lines current =
     (let line = normalize_line current in if line = [] then lines else lines @ [line])"

fun collect_lines :: "string list \<Rightarrow> string \<Rightarrow> html_event list \<Rightarrow> string list" where
  "collect_lines lines current [] = flush_line lines current"
| "collect_lines lines current (HtmlData d # es) = collect_lines lines (current @ d) es"
| "collect_lines lines current (HtmlStart t # es) =
     (if t \<in> set BLOCK_TAGS then collect_lines (flush_line lines current) [] es else collect_lines lines current es)"
| "collect_lines lines current (HtmlEnd t # es) =
     (if t \<in> set BLOCK_TAGS then collect_lines (flush_line lines current) [] es else collect_lines lines current es)"

definition html_to_blocks :: "html_reader \<Rightarrow> string \<Rightarrow> string list" where
  "html_to_blocks html s = (if s = [] then [] else collect_lines [] [] (html s))"

definition html_to_text :: "html_reader \<Rightarrow> string \<Rightarrow> string" where
  "html_to_text html s = join newline (html_to_blocks html s)"

section \<open>Wire shapes\<close>

text \<open>A field of a work item; an absent field is absent from the list. An array, an object, a boolean or a
  fraction is given by its truth value.\<close>

datatype json_field = FieldNull | FieldText string | FieldInt int | FieldOther bool

record ado_relation =
  rl_rel :: "string option"
  rl_url :: string

record WorkItem =
  wi_id :: int
  wi_fields :: "(string \<times> json_field) list"
  wi_relations :: "ado_relation list"

record WorkItemComment =
  wc_text :: string
  wc_author :: "string option"
  wc_created :: "string option"

record StoryEnvelope =
  se_case_id :: string
  se_story_id :: string
  se_template :: string
  se_scenario :: string
  se_ado_source_id :: int
  se_exported_at :: string
  se_work_item :: WorkItem
  se_comments :: "WorkItemComment list"
  se_linked :: "string list"

text \<open>\<open>t[1-6]\<close>, the scenario names with their optional \<open>-2\<close>, and \<open>t[1-6]/[a-z][a-z0-9-]*\<close>.\<close>

definition is_template :: "string \<Rightarrow> bool" where
  "is_template s = (case s of [t, n] \<Rightarrow> t = CHR ''t'' \<and> n \<in> set ''123456'' | _ \<Rightarrow> False)"

definition BASE_SCENARIOS :: "string list" where
  "BASE_SCENARIOS =
     [''clean'', ''business-weak'', ''engineering-weak'', ''conflicting'', ''partial-resolution'', ''unresolvable'',
      ''hidden-conflict'']"

definition T1_ONLY_SCENARIOS :: "string list" where
  "T1_ONLY_SCENARIOS = [''comments-benign'', ''comments-clarify-business'', ''comments-complete-engineering'']"

definition is_scenario :: "string \<Rightarrow> bool" where
  "is_scenario s =
     (s \<in> set BASE_SCENARIOS \<or> s \<in> set (map (\<lambda>b. b @ ''-2'') BASE_SCENARIOS) \<or> s \<in> set T1_ONLY_SCENARIOS)"

definition is_case_id :: "string \<Rightarrow> bool" where
  "is_case_id s =
     (is_template (take 2 s) \<and> take 1 (drop 2 s) = ''/'' \<and>
      (case drop 3 s of [] \<Rightarrow> False
       | c # rest \<Rightarrow> is_lower c \<and> list_all (\<lambda>d. is_lower d \<or> is_digit d \<or> d = CHR ''-'') rest))"

definition t1_only_scenario_stays_in_t1 :: "StoryEnvelope \<Rightarrow> bool" where
  "t1_only_scenario_stays_in_t1 e = (se_scenario e \<in> set T1_ONLY_SCENARIOS \<longrightarrow> se_template e = ''t1'')"

definition valid_StoryEnvelope :: "StoryEnvelope \<Rightarrow> bool" where
  "valid_StoryEnvelope e =
     (is_case_id (se_case_id e) \<and> StoryId (se_story_id e) \<and> is_template (se_template e) \<and>
      is_scenario (se_scenario e) \<and> 1 \<le> se_ado_source_id e \<and> se_exported_at e \<noteq> [] \<and>
      list_all (\<lambda>c. wc_text c \<noteq> []) (se_comments e) \<and> length (se_comments e) \<le> 50 \<and>
      list_all is_case_id (se_linked e) \<and> length (se_linked e) \<le> 5 \<and> distinct (se_linked e) \<and>
      t1_only_scenario_stays_in_t1 e)"

section \<open>Preparation\<close>

text \<open>
  What goes wrong: a \<open>ValueError\<close> (which \<open>PreparationError\<close> and the validation errors are), the story
  server's own exceptions, and everything else.
\<close>

datatype story_exc =
    ValueError | StoryNotFound | InvalidSourceOverride | SourceNotConfigured | SourceUnavailable nat | OtherError

type_synonym 'a fallible = "story_exc + 'a"

record prepare_env =
  pe_html :: html_reader
  pe_iso :: iso_reader

type_synonym context_index = "(int, WorkItem) dict"

definition context_index_of :: "WorkItem list \<Rightarrow> context_index" where
  "context_index_of items = foldl (\<lambda>d wi. dict_put (wi_id wi) wi d) [] items"

definition field_of :: "WorkItem \<Rightarrow> string \<Rightarrow> json_field option" where
  "field_of item name = map_of (wi_fields item) name"

definition text_field :: "WorkItem \<Rightarrow> string \<Rightarrow> string fallible" where
  "text_field item name = (case field_of item name of Some (FieldText s) \<Rightarrow> Inr s | _ \<Rightarrow> Inl ValueError)"

text \<open>\<open>item.fields.get(name) or ""\<close>, which the HTML parser can only read when it is a string.\<close>

definition html_field :: "WorkItem \<Rightarrow> string \<Rightarrow> string fallible" where
  "html_field item name =
     (case field_of item name of
        None \<Rightarrow> Inr []
      | Some FieldNull \<Rightarrow> Inr []
      | Some (FieldText s) \<Rightarrow> Inr s
      | Some (FieldInt n) \<Rightarrow> if n = 0 then Inr [] else Inl OtherError
      | Some (FieldOther truthy) \<Rightarrow> if truthy then Inl OtherError else Inr [])"

definition parent_of :: "context_index \<Rightarrow> WorkItem \<Rightarrow> WorkItem fallible" where
  "parent_of index item =
     (case field_of item ''System.Parent'' of
        Some (FieldInt n) \<Rightarrow> from_option ValueError (map_of index n)
      | _ \<Rightarrow> Inl ValueError)"

definition epic_and_feature :: "WorkItem \<Rightarrow> context_index \<Rightarrow> (WorkItem \<times> WorkItem) fallible" where
  "epic_and_feature story index =
     bind_sum (parent_of index story) (\<lambda>feature.
     bind_sum (parent_of index feature) (\<lambda>epic. Inr (epic, feature)))"

definition flat_field :: "prepare_env \<Rightarrow> WorkItem \<Rightarrow> string \<Rightarrow> string fallible" where
  "flat_field env item name = bind_sum (html_field item name) (\<lambda>s. Inr (html_to_text (pe_html env) s))"

definition block_field :: "prepare_env \<Rightarrow> WorkItem \<Rightarrow> string \<Rightarrow> string list fallible" where
  "block_field env item name = bind_sum (html_field item name) (\<lambda>s. Inr (html_to_blocks (pe_html env) s))"

definition epic_context :: "prepare_env \<Rightarrow> WorkItem \<Rightarrow> WorkItem \<Rightarrow> string fallible" where
  "epic_context env epic feature =
     bind_sum (text_field epic ''System.Title'') (\<lambda>e.
     bind_sum (text_field feature ''System.Title'') (\<lambda>f.
     bind_sum (flat_field env feature ''System.Description'') (\<lambda>d.
     Inr (join newline (dash_join e f # (if d \<noteq> [] then [d] else []))))))"

text \<open>The schema's strings are stripped and bounded when a model is built.\<close>

definition as_text :: "string \<Rightarrow> string fallible" where
  "as_text s = from_option ValueError (Text s)"

definition as_short_text :: "string \<Rightarrow> string fallible" where
  "as_short_text s = from_option ValueError (ShortText s)"

definition read_created :: "iso_reader \<Rightarrow> string \<Rightarrow> instant fallible" where
  "read_created reader s =
     (case fromisoformat reader (concat (map (\<lambda>c. if c = CHR ''Z'' then ''+00:00'' else [c]) s)) of
        Some (t, True) \<Rightarrow> Inr t | _ \<Rightarrow> Inl ValueError)"

definition prepare_comment :: "prepare_env \<Rightarrow> WorkItemComment \<Rightarrow> StoryComment fallible" where
  "prepare_comment env c =
     bind_sum (from_option OtherError (wc_author c)) (\<lambda>a.
     bind_sum (from_option OtherError (wc_created c)) (\<lambda>d.
     bind_sum (read_created (pe_iso env) d) (\<lambda>t.
     bind_sum (as_short_text a) (\<lambda>author.
     bind_sum (as_text (wc_text c)) (\<lambda>body.
     Inr \<lparr>sc_author = author, sc_text = body, sc_created_at = t\<rparr>)))))"

definition prepare_comments :: "prepare_env \<Rightarrow> WorkItemComment list \<Rightarrow> StoryComment list fallible" where
  "prepare_comments env cs =
     bind_sum (each_sum (prepare_comment env) cs) (\<lambda>mapped. Inr (sort_key sc_created_at mapped))"

definition relation_of :: "string option \<Rightarrow> relation option" where
  "relation_of rel =
     (if rel = Some ''System.LinkTypes.Related'' then Some Related
      else if rel = Some ''System.LinkTypes.Dependency-Forward'' \<or> rel = Some ''System.LinkTypes.Dependency-Reverse''
      then Some Depends else None)"

text \<open>\<open>int(str(url).rstrip("/").rsplit("/", 1)[-1])\<close>.\<close>

definition relation_target :: "ado_relation \<Rightarrow> int fallible" where
  "relation_target r =
     from_option ValueError (int_of_text (last_segment (rev (dropWhile (\<lambda>c. c = CHR ''/'') (rev (rl_url r))))))"

fun relation_table :: "ado_relation list \<Rightarrow> (int, relation) dict \<Rightarrow> (int, relation) dict fallible" where
  "relation_table [] d = Inr d"
| "relation_table (r # rs) d =
     bind_sum (relation_target r) (\<lambda>n.
     relation_table rs (case relation_of (rl_rel r) of None \<Rightarrow> d | Some rel \<Rightarrow> dict_put n rel d))"

definition context_story_from_work_item ::
    "prepare_env \<Rightarrow> WorkItem \<Rightarrow> StoryComment list \<Rightarrow> relation \<Rightarrow> string \<Rightarrow> ContextStory fallible" where
  "context_story_from_work_item env item comments rel story_id =
     bind_sum (text_field item ''System.Title'') (\<lambda>title0.
     bind_sum (flat_field env item ''System.Description'') (\<lambda>d0.
     bind_sum (block_field env item ''Microsoft.VSTS.Common.AcceptanceCriteria'') (\<lambda>ac0.
     bind_sum (as_short_text title0) (\<lambda>title.
     bind_sum (as_text d0) (\<lambda>d.
     bind_sum (each_sum as_text ac0) (\<lambda>ac.
     bind_sum (need (StoryId story_id \<and> length ac \<le> 100 \<and> length comments \<le> 50) ValueError) (\<lambda>_.
     Inr \<lparr>cs_story_id = story_id, cs_title = title, cs_relation = rel, cs_description = d,
          cs_acceptance_criteria = ac, cs_comments = comments\<rparr>)))))))"

definition linked_story ::
    "prepare_env \<Rightarrow> (int, relation) dict \<Rightarrow> (string, StoryEnvelope) dict \<Rightarrow> string \<Rightarrow> ContextStory fallible" where
  "linked_story env table peers case_id =
     bind_sum (from_option ValueError (map_of peers case_id)) (\<lambda>peer.
     bind_sum (prepare_comments env (se_comments peer)) (\<lambda>comments.
     context_story_from_work_item env (se_work_item peer) comments
       (case map_of table (wi_id (se_work_item peer)) of None \<Rightarrow> Related | Some rel \<Rightarrow> rel) (se_story_id peer)))"

definition context_stories ::
    "prepare_env \<Rightarrow> WorkItem \<Rightarrow> string list \<Rightarrow> (string, StoryEnvelope) dict \<Rightarrow> ContextStory list fallible" where
  "context_stories env story linked peers =
     bind_sum (relation_table (wi_relations story) []) (\<lambda>table. each_sum (linked_story env table peers) linked)"

definition prepare_work_item ::
    "prepare_env \<Rightarrow> WorkItem \<Rightarrow> string \<Rightarrow> WorkItemComment list \<Rightarrow> context_index \<Rightarrow> ContextStory list \<Rightarrow>
     StoryDetail fallible" where
  "prepare_work_item env story story_id comments index linked =
     bind_sum (epic_and_feature story index) (\<lambda>(epic, feature).
     bind_sum (text_field story ''System.Title'') (\<lambda>title0.
     bind_sum (text_field story ''System.State'') (\<lambda>status0.
     bind_sum (flat_field env story ''System.Description'') (\<lambda>d0.
     bind_sum (block_field env story ''Microsoft.VSTS.Common.AcceptanceCriteria'') (\<lambda>ac0.
     bind_sum (epic_context env epic feature) (\<lambda>ec0.
     bind_sum (flat_field env epic ''System.Description'') (\<lambda>rc0.
     bind_sum (prepare_comments env comments) (\<lambda>cs.
     bind_sum (as_short_text title0) (\<lambda>title.
     bind_sum (as_short_text status0) (\<lambda>status.
     bind_sum (as_text d0) (\<lambda>d.
     bind_sum (each_sum as_text ac0) (\<lambda>ac.
     bind_sum (as_text ec0) (\<lambda>ec.
     bind_sum (as_text rc0) (\<lambda>rc.
     bind_sum (need (StoryId story_id \<and> length ac \<le> 100 \<and> length cs \<le> 50 \<and> length linked \<le> 5) ValueError) (\<lambda>_.
     Inr \<lparr>ss_story_id = story_id, ss_title = title, ss_status = status, sd_description = d,
          sd_acceptance_criteria = ac, sd_epic_context = ec, sd_roadmap_context = rc, sd_comments = cs,
          sd_context_stories = linked\<rparr>)))))))))))))))"

definition prepare_story ::
    "prepare_env \<Rightarrow> context_index \<Rightarrow> (string, StoryEnvelope) dict \<Rightarrow> StoryEnvelope \<Rightarrow> StoryDetail fallible" where
  "prepare_story env index peers e =
     bind_sum (context_stories env (se_work_item e) (se_linked e) peers) (\<lambda>linked.
     prepare_work_item env (se_work_item e) (se_story_id e) (se_comments e) index linked)"

record PreparedBacklog =
  pb_details :: "(string, StoryDetail) dict"
  pb_summaries :: "StorySummary list"

definition summary_of :: "StoryDetail \<Rightarrow> StorySummary" where
  "summary_of d = \<lparr>ss_story_id = ss_story_id d, ss_title = ss_title d, ss_status = ss_status d\<rparr>"

text \<open>The envelopes in file order and the items of the context folder.\<close>

definition prepare_backlog :: "prepare_env \<Rightarrow> StoryEnvelope list \<Rightarrow> WorkItem list \<Rightarrow> PreparedBacklog fallible" where
  "prepare_backlog env envelopes items =
     (let index = context_index_of items;
          peers = foldl (\<lambda>d e. dict_put (se_case_id e) e d) [] envelopes in
      bind_sum (each_sum (\<lambda>e. bind_sum (prepare_story env index peers e) (\<lambda>d. Inr (se_story_id e, d))) envelopes) (\<lambda>pairs.
      let details = foldl (\<lambda>d (k, v). dict_put k v d) [] pairs in
      Inr \<lparr>pb_details = details, pb_summaries = map (\<lambda>(k, d). summary_of d) (sort_key fst details)\<rparr>))"

section \<open>What flattening yields\<close>

text \<open>A line of the projection: words of visible characters with one space between them.\<close>

definition flat_line :: "string \<Rightarrow> bool" where
  "flat_line s = (\<exists>ws. ws \<noteq> [] \<and> s = join '' '' ws \<and> (\<forall>w \<in> set ws. w \<noteq> [] \<and> list_all (\<lambda>c. \<not> is_space c) w))"

lemma join_words_empty: "(\<forall>w \<in> set ws. w \<noteq> []) \<Longrightarrow> (join sep ws = []) = (ws = [])"
  by (cases "(sep, ws)" rule: join.cases) auto

lemma normalized_line: "normalize_line s \<noteq> [] \<Longrightarrow> flat_line (normalize_line s)"
  unfolding normalize_line_def flat_line_def
  using words_spaceless[of _ s] by (intro exI[of _ "words s"]) auto

lemma flushed_lines: "list_all flat_line lines \<Longrightarrow> list_all flat_line (flush_line lines current)"
  using normalized_line by (simp add: flush_line_def Let_def)

lemma collected_lines: "list_all flat_line lines \<Longrightarrow> list_all flat_line (collect_lines lines current es)"
  by (induction lines current es rule: collect_lines.induct) (simp_all add: flushed_lines)

lemma blocks_flat: "list_all flat_line (html_to_blocks html s)"
  by (simp add: html_to_blocks_def collected_lines)

lemma flat_line_visible: "flat_line s \<Longrightarrow> s \<noteq> [] \<and> \<not> is_space (hd s) \<and> \<not> is_space (last s)"
proof -
  have "ws \<noteq> [] \<Longrightarrow> \<forall>w \<in> set ws. w \<noteq> [] \<and> list_all (\<lambda>c. \<not> is_space c) w \<Longrightarrow>
      join '' '' ws \<noteq> [] \<and> \<not> is_space (hd (join '' '' ws)) \<and> \<not> is_space (last (join '' '' ws))" for ws
  proof (induction ws rule: induct_list012)
    case (2 x)
    then show ?case by (auto simp: list_all_iff)
  next
    case (3 x y zs)
    then show ?case by (auto simp: list_all_iff)
  qed simp
  then show "flat_line s \<Longrightarrow> ?thesis" by (auto simp: flat_line_def)
qed

section \<open>What preparation yields\<close>

lemma strip_idem: "strip (strip s) = strip s"
proof -
  have keep: "lstrip (rstrip t) = rstrip t" if "t = [] \<or> \<not> is_space (hd t)" for t
  proof -
    obtain u where "t = rstrip t @ u"
      by (metis append_Nil2 dropWhile_eq_Nil_conv rev_append rev_rev_ident rstrip_def takeWhile_dropWhile_id)
    then have "rstrip t = [] \<or> \<not> is_space (hd (rstrip t))"
      using that by (metis hd_append2 append_is_Nil_conv)
    then show ?thesis by (cases "rstrip t") (auto simp: lstrip_def)
  qed
  have "lstrip s = [] \<or> \<not> is_space (hd (lstrip s))"
    by (induction s) (auto simp: lstrip_def)
  from keep[OF this] show ?thesis by (simp add: strip_def)
qed

lemma stripped_ok: "as_text s = Inr t \<Longrightarrow> text_ok t" "as_short_text s = Inr t \<Longrightarrow> short_text_ok t"
proof -
  have "bounded_text n s = Some t \<Longrightarrow> bounded_text n t = Some t" for n
    using strip_idem[of s] by (auto simp: bounded_text_def Let_def split: if_splits)
  then show "as_text s = Inr t \<Longrightarrow> text_ok t" "as_short_text s = Inr t \<Longrightarrow> short_text_ok t"
    by (simp_all add: as_text_def as_short_text_def sum_simps text_ok_def short_text_ok_def Text_def ShortText_def)
qed

lemma texts_ok: "each_sum as_text xs = Inr ys \<Longrightarrow> list_all text_ok ys"
  unfolding each_sum_ok by (induction rule: list_all2_induct) (simp_all add: stripped_ok)

lemma prepared_comments:
  assumes "prepare_comments env cs = Inr ys"
  shows "list_all valid_StoryComment ys" "sorted (map sc_created_at ys)" "length ys = length cs"
proof -
  obtain mapped where m: "list_all2 (\<lambda>c y. prepare_comment env c = Inr y) cs mapped" "ys = sort_key sc_created_at mapped"
    using assms by (auto simp: prepare_comments_def sum_simps each_sum_ok)
  have "prepare_comment env c = Inr y \<Longrightarrow> valid_StoryComment y" for c y
    by (auto simp: prepare_comment_def sum_simps valid_StoryComment_def stripped_ok)
  with m(1) have "list_all valid_StoryComment mapped"
    by (induction rule: list_all2_induct) auto
  then show "list_all valid_StoryComment ys" "sorted (map sc_created_at ys)" "length ys = length cs"
    using m by (auto simp: list_all_iff dest: list_all2_lengthD)
qed

lemma prepared_context_story:
  assumes "context_story_from_work_item env item comments rel sid = Inr c" "list_all valid_StoryComment comments"
  shows "valid_ContextStory c \<and> cs_story_id c = sid"
  using assms by (auto simp: context_story_from_work_item_def sum_simps valid_ContextStory_def stripped_ok texts_ok)

lemma prepared_work_item:
  assumes "prepare_work_item env item sid cs index linked = Inr d" "list_all valid_ContextStory linked"
  shows "valid_StoryDetail d \<and> ss_story_id d = sid \<and> sorted (map sc_created_at (sd_comments d))"
  using assms
  by (auto simp: prepare_work_item_def sum_simps valid_StoryDetail_def valid_StorySummary_def stripped_ok texts_ok
      prepared_comments)

lemma prepared_story:
  assumes "prepare_story env index peers e = Inr d"
  shows "valid_StoryDetail d \<and> ss_story_id d = se_story_id e \<and> sorted (map sc_created_at (sd_comments d))"
proof -
  obtain table linked where l: "list_all2 (\<lambda>c y. linked_story env table peers c = Inr y) (se_linked e) linked"
    and d: "prepare_work_item env (se_work_item e) (se_story_id e) (se_comments e) index linked = Inr d"
    using assms by (auto simp: prepare_story_def context_stories_def sum_simps each_sum_ok)
  have "linked_story env table peers c = Inr y \<Longrightarrow> valid_ContextStory y" for c y
    using prepared_context_story prepared_comments(1) by (fastforce simp: linked_story_def sum_simps)
  with l have "list_all valid_ContextStory linked" by (induction rule: list_all2_induct) auto
  then show ?thesis using prepared_work_item[OF d] by simp
qed

lemma foldl_put_entries:
  "(k, v) \<in> set (foldl (\<lambda>d (k, v). dict_put k v d) d pairs) \<Longrightarrow> (k, v) \<in> set d \<or> (k, v) \<in> set pairs"
proof (induction pairs arbitrary: d)
  case (Cons p pairs)
  then show ?case using set_dict_put by (cases p) fastforce
qed simp

lemma foldl_put_keys:
  "set (dict_keys (foldl (\<lambda>d (k, v). dict_put k v d) d pairs)) = set (dict_keys d) \<union> fst ` set pairs"
proof (induction pairs arbitrary: d)
  case (Cons p pairs)
  then show ?case by (cases p) (auto simp: keys_dict_put)
qed simp

lemma foldl_put_distinct: "distinct (dict_keys d) \<Longrightarrow> distinct (dict_keys (foldl (\<lambda>d (k, v). dict_put k v d) d pairs))"
  by (induction pairs arbitrary: d) auto

lemma backlog_entries:
  assumes "prepare_backlog env envelopes items = Inr b"
  shows "set (dict_keys (pb_details b)) = se_story_id ` set envelopes" "distinct (dict_keys (pb_details b))"
    "(k, d) \<in> set (pb_details b) \<Longrightarrow>
       valid_StoryDetail d \<and> ss_story_id d = k \<and> sorted (map sc_created_at (sd_comments d))"
    "pb_summaries b = map (\<lambda>(k, d). summary_of d) (sort_key fst (pb_details b))"
proof -
  let ?ids = "se_story_id ` set envelopes"
  obtain pairs index peers where pairs:
    "list_all2 (\<lambda>e p. bind_sum (prepare_story env index peers e) (\<lambda>d. Inr (se_story_id e, d)) = Inr p) envelopes pairs"
    and b: "pb_details b = foldl (\<lambda>d (k, v). dict_put k v d) [] pairs"
      "pb_summaries b = map (\<lambda>(k, d). summary_of d) (sort_key fst (pb_details b))"
    using assms by (auto simp: prepare_backlog_def Let_def bind_sum_ok each_sum_ok)
  have good: "\<forall>p \<in> set pairs. valid_StoryDetail (snd p) \<and> ss_story_id (snd p) = fst p \<and>
      sorted (map sc_created_at (sd_comments (snd p)))"
    using pairs by (induction rule: list_all2_induct) (auto simp: bind_sum_ok dest: prepared_story)
  have ids: "fst ` set pairs = ?ids"
    using pairs by (induction rule: list_all2_induct) (auto simp: bind_sum_ok)
  show "set (dict_keys (pb_details b)) = ?ids" "distinct (dict_keys (pb_details b))"
    unfolding b(1) using foldl_put_keys[of "[]" pairs] foldl_put_distinct[of "[]" pairs] ids
    by (simp_all add: dict_keys_def)
  show "(k, d) \<in> set (pb_details b) \<Longrightarrow> valid_StoryDetail d \<and> ss_story_id d = k \<and>
      sorted (map sc_created_at (sd_comments d))"
    unfolding b(1) using foldl_put_entries[of k d "[]" pairs] good by fastforce
  show "pb_summaries b = map (\<lambda>(k, d). summary_of d) (sort_key fst (pb_details b))" by (rule b(2))
qed

lemma backlog_listed:
  assumes "prepare_backlog env envelopes items = Inr b"
  shows "map ss_story_id (pb_summaries b) = sorted_list_of_set (se_story_id ` set envelopes)"
proof -
  note keys = backlog_entries(1,2)[OF assms]
  have "map ss_story_id (pb_summaries b) = map fst (sort_key fst (pb_details b))"
    unfolding backlog_entries(4)[OF assms] using backlog_entries(3)[OF assms] by (auto simp: summary_of_def)
  also have "\<dots> = sorted_list_of_set (se_story_id ` set envelopes)"
  proof (rule sorted_distinct_set_unique)
    show "distinct (map fst (sort_key fst (pb_details b)))"
      using keys(2) by (metis dict_keys_def distinct_map distinct_sort set_sort)
  qed (use keys(1) in \<open>auto simp: dict_keys_def\<close>)
  finally show ?thesis .
qed

text \<open>A prepared backlog: one valid story per envelope id, listed once each by ascending id.\<close>

definition backlog_ok :: "string set \<Rightarrow> PreparedBacklog \<Rightarrow> bool" where
  "backlog_ok ids b =
     (set (dict_keys (pb_details b)) = ids \<and> distinct (dict_keys (pb_details b)) \<and>
      (\<forall>k d. map_of (pb_details b) k = Some d \<longrightarrow>
         valid_StoryDetail d \<and> ss_story_id d = k \<and> sorted (map sc_created_at (sd_comments d))) \<and>
      map ss_story_id (pb_summaries b) = sorted_list_of_set ids \<and>
      (\<forall>s \<in> set (pb_summaries b). \<exists>d. map_of (pb_details b) (ss_story_id s) = Some d \<and> s = summary_of d))"

text \<open>C33. Preparing a dataset either fails or yields, for every envelope id, a valid story under that very
  id with its comments oldest first, and a list of all of them in ascending id order without repetition.\<close>

theorem prepared_backlog_ok:
  assumes "prepare_backlog env envelopes items = Inr b"
  shows "backlog_ok (se_story_id ` set envelopes) b"
proof -
  note keys = backlog_entries(1,2)[OF assms] and entry = backlog_entries(3)[OF assms] and b = backlog_entries(4)[OF assms]
  have "s \<in> set (pb_summaries b) \<Longrightarrow> \<exists>d. map_of (pb_details b) (ss_story_id s) = Some d \<and> s = summary_of d" for s
  proof -
    assume "s \<in> set (pb_summaries b)"
    then obtain k d where kd: "(k, d) \<in> set (pb_details b)" "s = summary_of d" unfolding b by auto
    then have "map_of (pb_details b) k = Some d" using keys(2) by (simp add: dict_keys_def)
    then show ?thesis using kd entry[OF kd(1)] by (auto simp: summary_of_def)
  qed
  then show ?thesis
    using keys backlog_listed[OF assms] entry[OF map_of_SomeD] by (auto simp: backlog_ok_def)
qed

lemma each_sum_member: "each_sum f xs = Inr ys \<Longrightarrow> x \<in> set xs \<Longrightarrow> \<exists>y. f x = Inr y"
  by (induction xs arbitrary: ys) (auto simp: bind_sum_ok)

text \<open>C34. One unrelated link makes the whole dataset unusable. The preparation reads a number from the end
  of every relation's address before it looks at the relation's type, so a story with, say, an attachment
  or a hyperlink, whose address does not end in a number, fails and with it the whole backlog.\<close>

theorem unrelated_link_breaks_backlog:
  assumes "e \<in> set envelopes" "r \<in> set (wi_relations (se_work_item e))" "relation_target r = Inl ValueError"
  shows "\<exists>x. prepare_backlog env envelopes items = Inl x"
proof -
  have table: "r \<in> set rs \<Longrightarrow> relation_table rs d \<noteq> Inr y" for rs d y
    using assms(3) by (induction rs arbitrary: d) (auto simp: bind_sum_ok)
  have fails: "prepare_story env index peers e \<noteq> Inr d" for index peers d
    using table[OF assms(2)] by (auto simp: prepare_story_def context_stories_def bind_sum_ok)
  have "each_sum (\<lambda>e. bind_sum (prepare_story env index peers e) (\<lambda>d. Inr (se_story_id e, d))) envelopes \<noteq> Inr pairs"
    for index peers pairs
    using each_sum_member[OF _ assms(1)] fails by (fastforce simp: bind_sum_ok)
  then have "prepare_backlog env envelopes items \<noteq> Inr b" for b
    by (auto simp: prepare_backlog_def Let_def bind_sum_ok)
  then show ?thesis by (cases "prepare_backlog env envelopes items") auto
qed

section \<open>A dataset of one story\<close>

definition demo_prepare :: prepare_env where
  "demo_prepare = \<lparr>pe_html = (\<lambda>s. [HtmlStart ''p'', HtmlData s, HtmlEnd ''p'']), pe_iso = (\<lambda>_. None)\<rparr>"

definition demo_item :: "int \<Rightarrow> int \<Rightarrow> ado_relation list \<Rightarrow> WorkItem" where
  "demo_item n parent relations =
     \<lparr>wi_id = n,
      wi_fields = [(''System.Title'', FieldText ''t''), (''System.State'', FieldText ''open''),
        (''System.Description'', FieldText ''d''), (''System.Parent'', FieldInt parent),
        (''System.WorkItemType'', FieldText ''User Story''), (''System.AreaPath'', FieldText ''p'')],
      wi_relations = relations\<rparr>"

definition demo_envelope :: "ado_relation list \<Rightarrow> StoryEnvelope" where
  "demo_envelope relations =
     \<lparr>se_case_id = ''t1/clean'', se_story_id = ''story-01'', se_template = ''t1'', se_scenario = ''clean'',
      se_ado_source_id = 3, se_exported_at = ''x'', se_work_item = demo_item 3 2 relations, se_comments = [],
      se_linked = []\<rparr>"

definition demo_context_items :: "WorkItem list" where
  "demo_context_items = [demo_item 2 1 [], demo_item 1 0 []]"

lemma demo_backlog: "\<exists>b. prepare_backlog demo_prepare [demo_envelope []] demo_context_items = Inr b"
proof -
  have "html_to_text (pe_html demo_prepare) ''d'' = ''d''" by code_simp
  moreover have "as_text ''d'' = Inr ''d''" "as_text (join newline [dash_join ''t'' ''t'', ''d'']) = Inr (join newline [dash_join ''t'' ''t'', ''d''])"
    "as_short_text ''t'' = Inr ''t''" "as_short_text ''open'' = Inr ''open''" "StoryId ''story-01''"
    by code_simp+
  ultimately show ?thesis
    by (simp add: prepare_backlog_def Let_def demo_envelope_def demo_context_items_def demo_item_def prepare_story_def
        context_stories_def prepare_work_item_def epic_and_feature_def parent_of_def field_of_def context_index_of_def
        from_option_def text_field_def flat_field_def block_field_def html_field_def epic_context_def prepare_comments_def
        need_def html_to_blocks_def)
qed

theorem prepared_backlog_ok_witness:
  "\<exists>b. prepare_backlog demo_prepare [demo_envelope []] demo_context_items = Inr b \<and> backlog_ok {''story-01''} b"
proof -
  obtain b where b: "prepare_backlog demo_prepare [demo_envelope []] demo_context_items = Inr b"
    using demo_backlog by blast
  from prepared_backlog_ok[OF this] b show ?thesis by (auto simp: demo_envelope_def)
qed

theorem unrelated_link_breaks_backlog_witness:
  "\<exists>x. prepare_backlog demo_prepare
     [demo_envelope [\<lparr>rl_rel = Some ''AttachedFile'', rl_url = ''https://dev.azure.com/a/1f-2''\<rparr>]] demo_context_items = Inl x"
proof -
  let ?r = "\<lparr>rl_rel = Some ''AttachedFile'', rl_url = ''https://dev.azure.com/a/1f-2''\<rparr>"
  have "relation_target ?r = Inl ValueError" by code_simp
  then show ?thesis
    by (intro unrelated_link_breaks_backlog[of "demo_envelope [?r]" _ ?r]) (simp_all add: demo_envelope_def demo_item_def)
qed

end
