(* ===== verification/Mcp_Ingress.thy ===== *)
theory Mcp_Ingress
  imports Basics Services Artifact_Laws
begin

text \<open>
  The front of the MCP servers: the ID-token middleware (\<open>shared/mcp_ingress/mcp_ingress/auth.py\<close>), the
  caller lists of each server's \<open>app.py\<close>, and the dispatch of the artifact and report tools
  (\<open>mcp_servers/artifact/artifact_mcp/server.py\<close>, \<open>mcp_servers/report/report_mcp/server.py\<close>). The token
  verifier and the reading of JSON arguments are parameters.
\<close>

section \<open>The middleware\<close>

text \<open>Header values are decoded as Latin-1, one character per byte.\<close>

record scope =
  sp_http :: bool
  sp_path :: string
  sp_headers :: "(string \<times> string) list"

datatype passage = Respond nat string | Admit "string option"

definition is_bearer :: "string \<Rightarrow> bool" where
  "is_bearer value = (CHR '' '' \<in> set value \<and> lower (takeWhile (\<lambda>c. c \<noteq> CHR '' '') value) = ''bearer'')"

fun bearer_token :: "(string \<times> string) list \<Rightarrow> string option" where
  "bearer_token [] = None"
| "bearer_token ((name, value) # headers) =
     (if name = ''authorization'' \<and> is_bearer value
      then Some (drop 1 (dropWhile (\<lambda>c. c \<noteq> CHR '' '') value)) else bearer_token headers)"

type_synonym verifier = "string \<Rightarrow> string \<Rightarrow> string option"

definition ingress :: "verifier \<Rightarrow> string \<Rightarrow> scope \<Rightarrow> passage" where
  "ingress verifier audience sc =
     (if \<not> sp_http sc then Admit None
      else if sp_path sc = ''/health'' then Admit None
      else if audience = [] then Respond 503 ''auth audience is not configured''
      else case bearer_token (sp_headers sc) of
          None \<Rightarrow> Respond 401 ''missing bearer token''
        | Some token \<Rightarrow>
            (case verifier token audience of
               None \<Rightarrow> Respond 401 ''invalid token''
             | Some email \<Rightarrow> Admit (Some email)))"

text \<open>\<open>build_app\<close> leaves the middleware out when auth is disabled.\<close>

record ingress_config =
  ig_disabled :: bool
  ig_verifier :: verifier
  ig_audience :: string

definition passes :: "ingress_config \<Rightarrow> scope \<Rightarrow> passage" where
  "passes cfg sc = (if ig_disabled cfg then Admit None else ingress (ig_verifier cfg) (ig_audience cfg) sc)"

section \<open>Caller lists\<close>

type_synonym environ = "string \<Rightarrow> string option"

definition getenv :: "environ \<Rightarrow> string \<Rightarrow> string" where
  "getenv env name = (case env name of None \<Rightarrow> [] | Some v \<Rightarrow> v)"

definition allowlist_from_env :: "environ \<Rightarrow> string \<Rightarrow> string list" where
  "allowlist_from_env env name = filter (\<lambda>email. email \<noteq> []) (map strip (split_on (CHR '','') (getenv env name)))"

definition auth_disabled_from_env :: "environ \<Rightarrow> string \<Rightarrow> bool" where
  "auth_disabled_from_env env name = (getenv env name \<in> {''1'', ''true'', ''True''})"

text \<open>The story and report servers: no bypass unless auth is disabled and no list was injected.\<close>

definition resolve_callers :: "environ \<Rightarrow> string \<Rightarrow> string list option \<Rightarrow> bool \<Rightarrow> string list option" where
  "resolve_callers env name injected disabled =
     (if disabled \<and> injected = None then None
      else case injected of Some callers \<Rightarrow> Some callers | None \<Rightarrow> Some (allowlist_from_env env name))"

record CallerRoles =
  cr_orchestration :: "string list"
  cr_facilitator :: "string list"

definition roles_from_env :: "environ \<Rightarrow> CallerRoles" where
  "roles_from_env env =
     \<lparr>cr_orchestration = allowlist_from_env env ''ARTIFACT_ORCHESTRATION_CALLERS'',
      cr_facilitator = allowlist_from_env env ''ARTIFACT_FACILITATOR_CALLERS''\<rparr>"

definition artifact_roles :: "environ \<Rightarrow> CallerRoles option \<Rightarrow> bool \<Rightarrow> CallerRoles option" where
  "artifact_roles env injected disabled =
     (if disabled \<and> injected = None then None
      else case injected of Some roles \<Rightarrow> Some roles | None \<Rightarrow> Some (roles_from_env env))"

definition read_allowed :: "CallerRoles \<Rightarrow> string \<Rightarrow> bool" where
  "read_allowed roles caller = (caller \<in> set (cr_orchestration roles) \<or> caller \<in> set (cr_facilitator roles))"

definition role_allows :: "CallerRoles \<Rightarrow> bool \<Rightarrow> string \<Rightarrow> bool" where
  "role_allows roles write caller =
     (caller \<in> set (cr_orchestration roles) \<or> \<not> write \<and> read_allowed roles caller)"

text \<open>The story and report servers compare with one list.\<close>

definition listed_callers :: "string list option \<Rightarrow> (string \<Rightarrow> bool) option" where
  "listed_callers callers = map_option (\<lambda>cs caller. caller \<in> set cs) callers"

section \<open>Dispatch\<close>

text \<open>The correlation id of a call: the header's when it is a version 4 UUID, a fresh one otherwise.\<close>

definition correlation_id_from_header :: "(string \<Rightarrow> uuid option) \<Rightarrow> uuid \<Rightarrow> string option \<Rightarrow> uuid" where
  "correlation_id_from_header parse fresh header =
     (case header of
        Some (c # h) \<Rightarrow> (case parse (c # h) of Some u \<Rightarrow> if is_uuid4 u then u else fresh | None \<Rightarrow> fresh)
      | _ \<Rightarrow> fresh)"

datatype 'o tool_reply = ToolOutput 'o | ToolFailed ErrorBody | NoReply

text \<open>An absent list is the local profile without auth.\<close>

definition authorize :: "(string \<Rightarrow> bool) option \<Rightarrow> string option \<Rightarrow> error_code option" where
  "authorize allowed who =
     (case allowed of
        None \<Rightarrow> None
      | Some ok \<Rightarrow>
          (case who of
             None \<Rightarrow> Some UNAUTHENTICATED
           | Some caller \<Rightarrow> if ok caller then None else Some FORBIDDEN))"

definition unknown_fields :: "string list \<Rightarrow> string list \<Rightarrow> string list" where
  "unknown_fields raw names = filter (\<lambda>name. name \<notin> set names) raw"

text \<open>
  A call: the raw argument names, and the request its tool arguments validate to (None: they do not).
  \<open>failure\<close> maps an exception to its payload, None for a server that died.
\<close>

record 'q call =
  ca_raw :: "string list"
  ca_request :: "'q option"

definition dispatch ::
    "(string \<Rightarrow> bool) option \<Rightarrow> string list \<Rightarrow> ('e \<Rightarrow> ErrorBody option) \<Rightarrow> ('q \<Rightarrow> ('s, 'e, 'o) comp) \<Rightarrow>
     string option \<Rightarrow> 'q call \<Rightarrow> 's \<Rightarrow> 'o tool_reply \<times> 's" where
  "dispatch allowed names failure handler who c s =
     (case authorize allowed who of
        Some code \<Rightarrow> (ToolFailed (server_error code False), s)
      | None \<Rightarrow>
          if unknown_fields (ca_raw c) names \<noteq> [] then (ToolFailed (server_error VALIDATION_ERROR False), s)
          else case ca_request c of
              None \<Rightarrow> (ToolFailed (server_error VALIDATION_ERROR False), s)
            | Some q \<Rightarrow>
                (case handler q s of
                   (Inr out, t) \<Rightarrow> (ToolOutput out, t)
                 | (Inl e, t) \<Rightarrow> ((case failure e of Some b \<Rightarrow> ToolFailed b | None \<Rightarrow> NoReply), t)))"

definition mcp_payload :: "exc \<Rightarrow> ErrorBody option" where
  "mcp_payload e = (case e of McpCallFailure b \<Rightarrow> Some b | _ \<Rightarrow> None)"

section \<open>The artifact and report servers\<close>

record GetArtifactInput =
  ga_artifact_id :: string
  ga_story_run_id :: string

definition valid_GetArtifactInput :: "GetArtifactInput \<Rightarrow> bool" where
  "valid_GetArtifactInput q = (ArtifactId (ga_artifact_id q) \<and> RunId (ga_story_run_id q))"

definition validated :: "('q \<Rightarrow> bool) \<Rightarrow> 'q call \<Rightarrow> 'q call" where
  "validated ok c = c\<lparr>ca_request := Option.bind (ca_request c) (\<lambda>q. if ok q then Some q else None)\<rparr>"

definition tool_save_artifact ::
    "CallerRoles option \<Rightarrow> art_env \<Rightarrow> string option \<Rightarrow> SaveArtifactInput call \<Rightarrow> art_state \<Rightarrow>
     (ArtifactReference \<times> bool) tool_reply \<times> art_state" where
  "tool_save_artifact roles env who c =
     dispatch (map_option (\<lambda>r. role_allows r True) roles)
       [''type'', ''story_run_id'', ''perspective'', ''content'', ''idempotency_key'']
       (mcp_payload \<circ> artifact_error) (save env) who (validated valid_SaveArtifactInput c)"

definition tool_get_artifact ::
    "CallerRoles option \<Rightarrow> string option \<Rightarrow> GetArtifactInput call \<Rightarrow> art_state \<Rightarrow>
     (ArtifactReference \<times> content) tool_reply \<times> art_state" where
  "tool_get_artifact roles who c =
     dispatch (map_option (\<lambda>r. role_allows r False) roles) [''artifact_id'', ''story_run_id'']
       (mcp_payload \<circ> artifact_error) (\<lambda>q. get_artifact (ga_story_run_id q) (ga_artifact_id q)) who
       (validated valid_GetArtifactInput c)"

definition tool_list_artifacts ::
    "CallerRoles option \<Rightarrow> string option \<Rightarrow> ListArtifactsInput call \<Rightarrow> art_state \<Rightarrow>
     (ArtifactReference list \<times> nat) tool_reply \<times> art_state" where
  "tool_list_artifacts roles who c =
     dispatch (map_option (\<lambda>r. role_allows r False) roles)
       [''story_run_id'', ''type'', ''perspective'', ''limit'', ''offset'']
       (mcp_payload \<circ> artifact_error) list_artifacts who (validated valid_ListArtifactsInput c)"

definition tool_render_report ::
    "string list option \<Rightarrow> rep_env \<Rightarrow> art_records \<Rightarrow> string option \<Rightarrow> RenderReportInput call \<Rightarrow> rep_state \<Rightarrow>
     (ArtifactReference \<times> bool) tool_reply \<times> rep_state" where
  "tool_render_report callers env arts who c =
     dispatch (listed_callers callers)
       [''story_run_id'', ''final_review_reference'', ''format'']
       (mcp_payload \<circ> report_error) (render_report env arts) who (validated valid_RenderReportInput c)"

text \<open>A request through the middleware: an HTTP error, or the tool run for the admitted caller.\<close>

datatype 'o served = HttpError nat string | Ran "'o tool_reply"

definition through :: "ingress_config \<Rightarrow> scope \<Rightarrow> (string option \<Rightarrow> 's \<Rightarrow> 'o tool_reply \<times> 's) \<Rightarrow> 's \<Rightarrow> 'o served \<times> 's" where
  "through cfg sc tool s =
     (case passes cfg sc of
        Respond status message \<Rightarrow> (HttpError status message, s)
      | Admit who \<Rightarrow> (case tool who s of (reply, t) \<Rightarrow> (Ran reply, t)))"

section \<open>Only verified callers\<close>

definition verified :: "ingress_config \<Rightarrow> scope \<Rightarrow> string \<Rightarrow> bool" where
  "verified cfg sc email =
     (ig_audience cfg \<noteq> [] \<and>
      (case bearer_token (sp_headers sc) of
         None \<Rightarrow> False | Some token \<Rightarrow> ig_verifier cfg token (ig_audience cfg) = Some email))"

lemma admitted_verified:
  "\<not> ig_disabled cfg \<Longrightarrow> passes cfg sc = Admit (Some email) \<Longrightarrow> verified cfg sc email"
  by (auto simp: passes_def ingress_def verified_def split: if_splits option.splits)

text \<open>A tool with a caller list that changed its store or produced an output ran for a verified caller of the list.\<close>

lemma dispatch_guarded:
  fixes reply :: "'o served"
  assumes "through cfg sc (\<lambda>who. dispatch (Some ok) names failure handler who c) s = (reply, t)"
  assumes "\<not> ig_disabled cfg" "t \<noteq> s \<or> (\<exists>out. reply = Ran (ToolOutput out))"
  shows "\<exists>email. verified cfg sc email \<and> ok email"
proof -
  obtain who where admit: "passes cfg sc = Admit who"
    using assms(1,3) by (cases "passes cfg sc") (auto simp: through_def)
  have "authorize (Some ok) who = None"
    using assms(1,3) admit by (cases "authorize (Some ok) who") (auto simp: through_def dispatch_def)
  then obtain email where "who = Some email" "ok email"
    by (auto simp: authorize_def split: option.splits if_splits)
  then show ?thesis using admitted_verified[OF assms(2)] admit by blast
qed

text \<open>Reading does not change the bucket; only the crash budget of a read is spent.\<close>

definition same_objects :: "art_state \<Rightarrow> art_state \<Rightarrow> bool" where
  "same_objects s t = (t\<lparr>ao_budget := ao_budget s\<rparr> = s)"

lemma dispatch_keeps:
  assumes "\<And>q. P s (snd (handler q s))" "P s s"
  shows "P s (snd (dispatch allowed names failure handler who c s))"
  using assms(2) by (auto simp: dispatch_def split: option.split prod.split sum.split) (metis assms(1) snd_conv)+

lemma reads_keep:
  "same_objects s (snd (tool_get_artifact roles who c s))" "same_objects s (snd (tool_list_artifacts roles who d s))"
  unfolding tool_get_artifact_def tool_list_artifacts_def
  by (rule dispatch_keeps;
      auto simp: same_objects_def get_artifact_def read_record_def read_or_none_def art_tick_def list_artifacts_def
        run_references_def comp_simps Let_def split: option.splits sum.splits prod.splits if_splits)+

text \<open>C31. With auth enabled, the artifact bucket and the report store only change for a verified caller of
  the orchestration list, only verified callers of the two lists read an artifact, and every other request
  is answered without touching a store.\<close>

theorem tools_need_verified_caller:
  assumes "\<not> ig_disabled cfg"
    "through cfg sc (\<lambda>who. tool_save_artifact (Some roles) env who save_request) s = (saved, s1)"
    "through cfg sc (\<lambda>who. tool_get_artifact (Some roles) who get_request) s = (got, s2)"
    "through cfg sc (\<lambda>who. tool_list_artifacts (Some roles) who list_request) s = (listed, s3)"
    "through cfg sc (\<lambda>who. tool_render_report (Some callers) renv arts who render_request) r = (rendered, r1)"
  shows
    "(s1 \<noteq> s \<or> (\<exists>out. saved = Ran (ToolOutput out)) \<longrightarrow>
        (\<exists>email. verified cfg sc email \<and> email \<in> set (cr_orchestration roles))) \<and>
     same_objects s s2 \<and> ((\<exists>out. got = Ran (ToolOutput out)) \<longrightarrow> (\<exists>email. verified cfg sc email \<and> read_allowed roles email)) \<and>
     same_objects s s3 \<and> ((\<exists>out. listed = Ran (ToolOutput out)) \<longrightarrow> (\<exists>email. verified cfg sc email \<and> read_allowed roles email)) \<and>
     (r1 \<noteq> r \<or> (\<exists>out. rendered = Ran (ToolOutput out)) \<longrightarrow>
        (\<exists>email. verified cfg sc email \<and> email \<in> set callers))"
proof (intro conjI impI)
  note guard = dispatch_guarded[OF _ assms(1)]
  have kept: "through cfg sc f s = (x, u) \<Longrightarrow> (\<And>who. same_objects s (snd (f who s))) \<Longrightarrow> same_objects s u"
    for f :: "string option \<Rightarrow> art_state \<Rightarrow> 'x tool_reply \<times> art_state" and x u
    by (auto simp: through_def same_objects_def split: passage.splits prod.splits) (metis snd_conv)+
  show "same_objects s s2" "same_objects s s3" using kept[OF assms(3) reads_keep(1)] kept[OF assms(4) reads_keep(2)] by simp_all
  show "\<exists>email. verified cfg sc email \<and> email \<in> set (cr_orchestration roles)"
    if "s1 \<noteq> s \<or> (\<exists>out. saved = Ran (ToolOutput out))"
    using guard[OF assms(2)[unfolded tool_save_artifact_def option.map] that] by (auto simp: role_allows_def)
  show "\<exists>email. verified cfg sc email \<and> read_allowed roles email" if "\<exists>out. got = Ran (ToolOutput out)"
    using guard[OF assms(3)[unfolded tool_get_artifact_def option.map]] that
    by (auto simp: role_allows_def read_allowed_def)
  show "\<exists>email. verified cfg sc email \<and> read_allowed roles email" if "\<exists>out. listed = Ran (ToolOutput out)"
    using guard[OF assms(4)[unfolded tool_list_artifacts_def option.map]] that
    by (auto simp: role_allows_def read_allowed_def)
  show "\<exists>email. verified cfg sc email \<and> email \<in> set callers"
    if "r1 \<noteq> r \<or> (\<exists>out. rendered = Ran (ToolOutput out))"
    using guard[OF assms(5)[unfolded tool_render_report_def listed_callers_def option.map] that] by auto
qed

definition demo_ingress :: ingress_config where
  "demo_ingress =
     \<lparr>ig_disabled = False, ig_verifier = (\<lambda>token audience. if token = ''t'' then Some ''orch'' else None),
      ig_audience = ''https://a''\<rparr>"

definition demo_scope :: scope where
  "demo_scope = \<lparr>sp_http = True, sp_path = ''/mcp'', sp_headers = [(''authorization'', ''Bearer t'')]\<rparr>"

definition demo_tool_save :: SaveArtifactInput where
  "demo_tool_save = (demo_save 302240678275694148452352 ''t'')\<lparr>sv_run := run_id_of 8\<rparr>"

lemma demo_tool_save_valid: "valid_SaveArtifactInput demo_tool_save"
proof -
  have words: "text_ok ''d''" "text_ok ''e''" "text_ok ''r''" "short_text_ok ''t''" "short_text_ok ''open''" "StoryId ''story-01''"
    by (simp_all add: text_ok_def short_text_ok_def Text_def ShortText_def bounded_text_def strip_def lstrip_def
      rstrip_def is_space_def py_len_def is_continuation_def StoryId_def all_digits_def is_digit_def)
  have "is_uuid4 302240678275694148452352" by code_simp
  then show ?thesis
    by (simp add: valid_SaveArtifactInput_def demo_tool_save_def demo_save_def minted_ids save_artifact_type_def
        demo_story_def valid_StoryDetail_def valid_StorySummary_def words type_matches_content_def)
qed

theorem tools_need_verified_caller_witness:
  "verified demo_ingress demo_scope ''orch'' \<and>
   (\<exists>s1 :: art_state. s1 \<noteq> empty_bucket \<and> (\<exists>saved.
      through demo_ingress demo_scope (\<lambda>who. tool_save_artifact (Some \<lparr>cr_orchestration = [''orch''], cr_facilitator = []\<rparr>)
        demo_env who \<lparr>ca_raw = [''type''], ca_request = Some demo_tool_save\<rparr>) empty_bucket = (saved, s1)))"
proof -
  let ?c = "\<lparr>ca_raw = [''type''], ca_request = Some demo_tool_save\<rparr>"
  let ?roles = "\<lparr>cr_orchestration = [''orch''], cr_facilitator = []\<rparr>"
  have "is_bearer ''Bearer t''" by code_simp
  then have pass: "passes demo_ingress demo_scope = Admit (Some ''orch'')"
    by (simp add: passes_def ingress_def demo_ingress_def demo_scope_def)
  obtain x t where run: "save demo_env demo_tool_save empty_bucket = (x, t)" by fastforce
  then have "ao_minted t = 1" using save_minted[of demo_env demo_tool_save empty_bucket] by (simp add: empty_bucket_def)
  then have changed: "t \<noteq> empty_bucket" by (auto simp: empty_bucket_def)
  have "\<exists>saved. through demo_ingress demo_scope (\<lambda>who. tool_save_artifact (Some ?roles) demo_env who ?c) empty_bucket = (saved, t)"
    by (cases x) (simp_all add: through_def pass tool_save_artifact_def dispatch_def authorize_def role_allows_def
        validated_def demo_tool_save_valid unknown_fields_def run)
  then obtain saved where save:
    "through demo_ingress demo_scope (\<lambda>who. tool_save_artifact (Some ?roles) demo_env who ?c) empty_bucket = (saved, t)" by blast
  have "\<exists>email. verified demo_ingress demo_scope email \<and> email \<in> set (cr_orchestration ?roles)"
    using tools_need_verified_caller[OF _ save surjective_pairing surjective_pairing surjective_pairing] changed
    by (simp add: demo_ingress_def[THEN arg_cong[where f = ig_disabled]])
  then show ?thesis using save changed by auto
qed

end
