(* ===== verification/Story_Server.thy ===== *)
theory Story_Server
  imports Story_Prepare Mcp_Ingress
begin

text \<open>
  The story MCP server (\<open>mcp_servers/story/story_mcp\<close>): the rules both sources share (\<open>backlog.py\<close>), the
  frozen dataset (\<open>mock_source.py\<close>), the live Azure DevOps source (\<open>azure_source.py\<close>), and the two tools
  with their error payloads (\<open>server.py\<close>, \<open>errors.py\<close>). The answers of the Azure REST endpoints are a
  parameter, one answer per item during a call.
\<close>

section \<open>Backlog rules\<close>

definition check_id_space :: "story_source \<Rightarrow> string \<Rightarrow> unit fallible" where
  "check_id_space source sid =
     need (case source of
        Mock \<Rightarrow> starts_with ''story-'' sid \<and> length (drop 6 sid) = 2 \<and> all_digits (drop 6 sid)
      | Azure \<Rightarrow> starts_with ''ado-'' sid \<and> 1 \<le> length (drop 4 sid) \<and> length (drop 4 sid) \<le> 8 \<and> all_digits (drop 4 sid))
       StoryNotFound"

definition apply_filter :: "string option \<Rightarrow> StorySummary list \<Rightarrow> StorySummary list" where
  "apply_filter status_filter stories =
     (case status_filter of
        None \<Rightarrow> stories
      | Some f \<Rightarrow> filter (\<lambda>s. contains (lower f) (lower (ss_status s))) stories)"

definition source_named :: "string \<Rightarrow> story_source option" where
  "source_named s = (if s = ''azure'' then Some Azure else if s = ''mock'' then Some Mock else None)"

definition resolve_source :: "story_source option \<Rightarrow> string \<Rightarrow> story_source fallible" where
  "resolve_source override fallback =
     (case override of
        Some source \<Rightarrow> Inr source
      | None \<Rightarrow> from_option InvalidSourceOverride (source_named fallback))"

section \<open>The dataset source\<close>

definition mock_source :: "PreparedBacklog \<Rightarrow> PreparedBacklog fallible" where
  "mock_source b = bind_sum (need (pb_details b \<noteq> []) ValueError) (\<lambda>_. Inr b)"

definition mock_get_story :: "PreparedBacklog \<Rightarrow> string \<Rightarrow> StoryDetail fallible" where
  "mock_get_story b sid =
     bind_sum (check_id_space Mock sid) (\<lambda>_. from_option StoryNotFound (map_of (pb_details b) sid))"

section \<open>The Azure source\<close>

text \<open>
  The REST answers: the ids of the query (None: another shape), the fields of a batch of items, one item,
  and the comments of one item as they come.
\<close>

record azure_client =
  az_wiql :: "int list option fallible"
  az_batch :: "int list \<Rightarrow> (int \<times> (string \<times> json_field) list) list fallible"
  az_item :: "int \<Rightarrow> WorkItem fallible"
  az_comments :: "int \<Rightarrow> WorkItemComment list fallible"

definition int_text :: "int \<Rightarrow> string" where
  "int_text n = (if n < 0 then ''-'' @ decimal (nat (- n)) else decimal (nat n))"

definition wiql_story_ids :: "azure_client \<Rightarrow> int list fallible" where
  "wiql_story_ids c = bind_sum (az_wiql c) (from_option (SourceUnavailable 0))"

text \<open>A missing field is a \<open>KeyError\<close>, another type or an empty text a validation error.\<close>

definition required_short_text :: "(string \<times> json_field) list \<Rightarrow> string \<Rightarrow> string fallible" where
  "required_short_text fs name =
     (case map_of fs name of
        None \<Rightarrow> Inl OtherError | Some (FieldText s) \<Rightarrow> as_short_text s | Some _ \<Rightarrow> Inl ValueError)"

definition batch_summary :: "int \<times> (string \<times> json_field) list \<Rightarrow> StorySummary fallible" where
  "batch_summary = (\<lambda>(n, fs).
     bind_sum (required_short_text fs ''System.Title'') (\<lambda>title.
     bind_sum (required_short_text fs ''System.State'') (\<lambda>status.
     bind_sum (need (StoryId (''ado-'' @ int_text n)) ValueError) (\<lambda>_.
     Inr \<lparr>ss_story_id = ''ado-'' @ int_text n, ss_title = title, ss_status = status\<rparr>))))"

definition story_summaries :: "azure_client \<Rightarrow> StorySummary list fallible" where
  "story_summaries c =
     bind_sum (wiql_story_ids c) (\<lambda>ids.
     if ids = [] then Inr [] else bind_sum (az_batch c ids) (each_sum batch_summary))"

definition client_comments :: "azure_client \<Rightarrow> int \<Rightarrow> WorkItemComment list fallible" where
  "client_comments c n =
     bind_sum (az_comments c n) (\<lambda>cs.
     let ordered = sort_key (\<lambda>x. case wc_created x of None \<Rightarrow> [] | Some d \<Rightarrow> d) cs in
     bind_sum (need (list_all (\<lambda>x. wc_text x \<noteq> []) ordered) ValueError) (\<lambda>_. Inr ordered))"

text \<open>Only a 404 of the story itself means that it does not exist.\<close>

definition fetch_story :: "azure_client \<Rightarrow> int \<Rightarrow> WorkItem fallible" where
  "fetch_story c n =
     (case az_item c n of
        Inl (SourceUnavailable status) \<Rightarrow> Inl (if status = 404 then StoryNotFound else SourceUnavailable status)
      | x \<Rightarrow> x)"

definition parent_id :: "WorkItem \<Rightarrow> int fallible" where
  "parent_id item = (case field_of item ''System.Parent'' of Some (FieldInt n) \<Rightarrow> Inr n | _ \<Rightarrow> Inl (SourceUnavailable 0))"

definition fetch_context :: "azure_client \<Rightarrow> WorkItem \<Rightarrow> context_index fallible" where
  "fetch_context c story =
     bind_sum (parent_id story) (\<lambda>n.
     bind_sum (az_item c n) (\<lambda>feature.
     bind_sum (parent_id feature) (\<lambda>m.
     bind_sum (az_item c m) (\<lambda>epic. Inr (context_index_of [feature, epic])))))"

definition fetch_linked :: "prepare_env \<Rightarrow> azure_client \<Rightarrow> ado_relation \<times> relation \<Rightarrow> ContextStory fallible" where
  "fetch_linked env c = (\<lambda>(r, rel).
     bind_sum (relation_target r) (\<lambda>n.
     bind_sum (az_item c n) (\<lambda>target.
     bind_sum (client_comments c n) (\<lambda>cs.
     bind_sum (prepare_comments env cs) (\<lambda>comments.
     context_story_from_work_item env target comments rel (''ado-'' @ int_text n))))))"

definition fetch_context_stories :: "prepare_env \<Rightarrow> azure_client \<Rightarrow> WorkItem \<Rightarrow> ContextStory list fallible" where
  "fetch_context_stories env c story =
     each_sum (fetch_linked env c)
       (List.map_filter (\<lambda>r. map_option (Pair r) (relation_of (rl_rel r))) (wi_relations story))"

definition azure_get_story :: "prepare_env \<Rightarrow> azure_client \<Rightarrow> string \<Rightarrow> StoryDetail fallible" where
  "azure_get_story env c sid =
     bind_sum (check_id_space Azure sid) (\<lambda>_.
     bind_sum (from_option ValueError (int_of_text (drop 4 sid))) (\<lambda>n.
     bind_sum (fetch_story c n) (\<lambda>story.
     bind_sum (fetch_context c story) (\<lambda>index.
     bind_sum (fetch_context_stories env c story) (\<lambda>linked.
     bind_sum (client_comments c n) (\<lambda>comments.
     prepare_work_item env story sid comments index linked))))))"

section \<open>The server\<close>

datatype backlog_source = MockSource PreparedBacklog | AzureSource azure_client

record story_server =
  st_sources :: "(story_source \<times> backlog_source) list"
  st_default :: string
  st_prepare :: prepare_env
  st_callers :: "string list option"

record ListStoriesInput =
  ls_filter :: "string option"
  ls_source :: "story_source option"

record GetStoryInput =
  gs_story_id :: string
  gs_source :: "story_source option"

definition valid_ListStoriesInput :: "ListStoriesInput \<Rightarrow> bool" where
  "valid_ListStoriesInput q = (case ls_filter q of None \<Rightarrow> True | Some f \<Rightarrow> short_text_ok f)"

definition valid_GetStoryInput :: "GetStoryInput \<Rightarrow> bool" where
  "valid_GetStoryInput q = StoryId (gs_story_id q)"

definition valid_ListStoriesOutput :: "StorySummary list \<Rightarrow> bool" where
  "valid_ListStoriesOutput stories = (list_all valid_StorySummary stories \<and> length stories \<le> 50)"

definition source_list :: "backlog_source \<Rightarrow> string option \<Rightarrow> StorySummary list fallible" where
  "source_list source f =
     (case source of
        MockSource b \<Rightarrow> Inr (apply_filter f (pb_summaries b))
      | AzureSource c \<Rightarrow> bind_sum (story_summaries c) (\<lambda>stories. Inr (apply_filter f stories)))"

definition source_get :: "prepare_env \<Rightarrow> backlog_source \<Rightarrow> string \<Rightarrow> StoryDetail fallible" where
  "source_get env source sid =
     (case source of MockSource b \<Rightarrow> mock_get_story b sid | AzureSource c \<Rightarrow> azure_get_story env c sid)"

definition server_source :: "story_server \<Rightarrow> story_source option \<Rightarrow> (story_source \<times> backlog_source) fallible" where
  "server_source srv override =
     bind_sum (resolve_source override (st_default srv)) (\<lambda>name.
     bind_sum (from_option SourceNotConfigured (map_of (st_sources srv) name)) (\<lambda>source. Inr (name, source)))"

definition server_list_stories :: "story_server \<Rightarrow> ListStoriesInput \<Rightarrow> StorySummary list fallible" where
  "server_list_stories srv q =
     bind_sum (server_source srv (ls_source q)) (\<lambda>(name, source).
     bind_sum (source_list source (ls_filter q)) (\<lambda>stories.
     bind_sum (need (valid_ListStoriesOutput stories) ValueError) (\<lambda>_. Inr stories)))"

definition server_get_story :: "story_server \<Rightarrow> GetStoryInput \<Rightarrow> StoryDetail fallible" where
  "server_get_story srv q =
     bind_sum (server_source srv (gs_source q)) (\<lambda>(name, source). source_get (st_prepare srv) source (gs_story_id q))"

fun story_error :: "story_exc \<Rightarrow> ErrorBody" where
  "story_error StoryNotFound = server_error STORY_NOT_FOUND False"
| "story_error InvalidSourceOverride = server_error VALIDATION_ERROR False"
| "story_error ValueError = server_error VALIDATION_ERROR False"
| "story_error SourceNotConfigured = server_error UPSTREAM_UNAVAILABLE False"
| "story_error (SourceUnavailable status) = server_error UPSTREAM_UNAVAILABLE True"
| "story_error OtherError = server_error UPSTREAM_UNAVAILABLE False"

definition stateless :: "('q \<Rightarrow> 'o fallible) \<Rightarrow> 'q \<Rightarrow> (unit, story_exc, 'o) comp" where
  "stateless f q = (\<lambda>s. (f q, s))"

definition story_dispatch ::
    "story_server \<Rightarrow> string list \<Rightarrow> ('q \<Rightarrow> 'o fallible) \<Rightarrow> string option \<Rightarrow> 'q call \<Rightarrow> 'o tool_reply" where
  "story_dispatch srv names handler who c =
     fst (dispatch (listed_callers (st_callers srv)) names (Some \<circ> story_error) (stateless handler) who c ())"

definition tool_list_stories :: "story_server \<Rightarrow> string option \<Rightarrow> ListStoriesInput call \<Rightarrow> StorySummary list tool_reply" where
  "tool_list_stories srv who c =
     story_dispatch srv [''filter'', ''source''] (server_list_stories srv) who (validated valid_ListStoriesInput c)"

definition tool_get_story :: "story_server \<Rightarrow> string option \<Rightarrow> GetStoryInput call \<Rightarrow> StoryDetail tool_reply" where
  "tool_get_story srv who c =
     story_dispatch srv [''story_id'', ''source''] (server_get_story srv) who (validated valid_GetStoryInput c)"

section \<open>What the tools answer\<close>

lemma dispatched:
  assumes "story_dispatch srv names f who c = ToolOutput out"
  shows "\<exists>q. ca_request c = Some q \<and> f q = Inr out \<and>
    (\<forall>cs. st_callers srv = Some cs \<longrightarrow> (\<exists>caller. who = Some caller \<and> caller \<in> set cs))"
  using assms
  by (auto simp: story_dispatch_def listed_callers_def dispatch_def stateless_def authorize_def split: option.splits if_splits sum.splits)

lemma azure_story:
  assumes "azure_get_story env c sid = Inr d"
  shows "valid_StoryDetail d \<and> ss_story_id d = sid \<and> sorted (map sc_created_at (sd_comments d))"
proof -
  obtain index linked rels cs story where l: "list_all2 (\<lambda>x y. fetch_linked env c x = Inr y) rels linked"
    and d: "prepare_work_item env story sid cs index linked = Inr d"
    using assms by (auto simp: azure_get_story_def fetch_context_stories_def sum_simps each_sum_ok)
  have "fetch_linked env c x = Inr y \<Longrightarrow> valid_ContextStory y" for x y
    using prepared_context_story prepared_comments(1) by (fastforce simp: fetch_linked_def sum_simps split: prod.splits)
  with l have "list_all valid_ContextStory linked" by (induction rule: list_all2_induct) auto
  then show ?thesis using prepared_work_item[OF d] by simp
qed

text \<open>The wiring of \<open>app.py\<close>: each source under its own name, and the dataset source holds a prepared backlog.\<close>

definition wired :: "story_server \<Rightarrow> bool" where
  "wired srv =
     (\<forall>(name, source) \<in> set (st_sources srv).
        case source of
          MockSource b \<Rightarrow> name = Mock \<and> (\<exists>env envelopes items. prepare_backlog env envelopes items = Inr b)
        | AzureSource c \<Rightarrow> name = Azure)"

text \<open>C32. A story that get_story returns is the one that was asked for: a valid story under the requested id,
  comments oldest first, from the selected source and with an id of that source's own space, for an allowed
  caller. Ids of the two sources never mix.\<close>

theorem story_tool_answers:
  assumes "tool_get_story srv who c = ToolOutput d" "wired srv"
  shows "\<exists>q source. ca_request c = Some q \<and> ss_story_id d = gs_story_id q \<and> valid_StoryDetail d \<and>
    sorted (map sc_created_at (sd_comments d)) \<and> resolve_source (gs_source q) (st_default srv) = Inr source \<and>
    check_id_space source (gs_story_id q) = Inr () \<and>
    (\<forall>cs. st_callers srv = Some cs \<longrightarrow> (\<exists>caller. who = Some caller \<and> caller \<in> set cs))"
proof -
  obtain q where q: "ca_request (validated valid_GetStoryInput c) = Some q" "server_get_story srv q = Inr d"
    "\<forall>cs. st_callers srv = Some cs \<longrightarrow> (\<exists>caller. who = Some caller \<and> caller \<in> set cs)"
    using dispatched[OF assms(1)[unfolded tool_get_story_def]] by blast
  have request: "ca_request c = Some q"
    using q(1) by (auto simp: validated_def bind_eq_Some_conv split: if_splits)
  obtain name source where sel: "resolve_source (gs_source q) (st_default srv) = Inr name"
    "map_of (st_sources srv) name = Some source" "source_get (st_prepare srv) source (gs_story_id q) = Inr d"
    using q(2) by (auto simp: server_get_story_def server_source_def sum_simps)
  note listed = map_of_SomeD[OF sel(2)]
  show ?thesis
  proof (cases source)
    case (MockSource b)
    then obtain env envelopes items where name: "name = Mock" "prepare_backlog env envelopes items = Inr b"
      using listed assms(2) by (fastforce simp: wired_def)
    have "check_id_space Mock (gs_story_id q) = Inr ()" "map_of (pb_details b) (gs_story_id q) = Some d"
      using sel(3) MockSource by (auto simp: source_get_def mock_get_story_def sum_simps)
    then show ?thesis
      using q(3) request sel(1) name backlog_entries(3)[OF name(2) map_of_SomeD] by auto
  next
    case (AzureSource cl)
    then have "name = Azure" using listed assms(2) by (fastforce simp: wired_def)
    moreover have got: "azure_get_story (st_prepare srv) cl (gs_story_id q) = Inr d"
      using sel(3) AzureSource by (simp add: source_get_def)
    moreover from got have "check_id_space Azure (gs_story_id q) = Inr ()"
      by (auto simp: azure_get_story_def bind_sum_ok)
    ultimately show ?thesis using q(3) request sel(1) azure_story[OF got] by auto
  qed
qed

text \<open>A backlog with more than fifty matching stories cannot be listed: the output model refuses it, and the
  caller is told that its own request was invalid.\<close>

theorem long_backlog_unlistable:
  assumes "server_source srv (ls_source q) = Inr (name, source)" "source_list source (ls_filter q) = Inr stories"
    "50 < length stories" "valid_ListStoriesInput q" "st_callers srv = None" "set names \<subseteq> {''filter'', ''source''}"
  shows "tool_list_stories srv who \<lparr>ca_raw = names, ca_request = Some q\<rparr> = ToolFailed (server_error VALIDATION_ERROR False)"
proof -
  have "unknown_fields names [''filter'', ''source''] = []"
    using assms(6) by (auto simp: unknown_fields_def filter_empty_conv)
  then show ?thesis
    using assms by (simp add: tool_list_stories_def story_dispatch_def listed_callers_def dispatch_def authorize_def validated_def stateless_def
        server_list_stories_def need_def valid_ListStoriesOutput_def)
qed

definition demo_story_server :: "PreparedBacklog \<Rightarrow> story_server" where
  "demo_story_server b =
     \<lparr>st_sources = [(Mock, MockSource b)], st_default = ''mock'', st_prepare = demo_prepare, st_callers = Some [''orch'']\<rparr>"

theorem story_tool_answers_witness:
  "\<exists>b d. tool_get_story (demo_story_server b) (Some ''orch'')
      \<lparr>ca_raw = [''story_id''], ca_request = Some \<lparr>gs_story_id = ''story-01'', gs_source = None\<rparr>\<rparr> = ToolOutput d \<and>
    ss_story_id d = ''story-01'' \<and> valid_StoryDetail d"
proof -
  let ?c = "\<lparr>ca_raw = [''story_id''], ca_request = Some \<lparr>gs_story_id = ''story-01'', gs_source = None\<rparr>\<rparr>"
  obtain b where b: "prepare_backlog demo_prepare [demo_envelope []] demo_context_items = Inr b"
    using demo_backlog by blast
  then have "''story-01'' \<in> set (dict_keys (pb_details b))"
    using backlog_entries(1)[OF b] by (simp add: demo_envelope_def)
  then obtain d where d: "map_of (pb_details b) ''story-01'' = Some d"
    by (auto simp: set_dict_keys)
  have "StoryId ''story-01''" "check_id_space Mock ''story-01'' = Inr ()" by code_simp+
  then have run: "tool_get_story (demo_story_server b) (Some ''orch'') ?c = ToolOutput d"
    using d by (simp add: tool_get_story_def story_dispatch_def listed_callers_def dispatch_def authorize_def demo_story_server_def validated_def
        valid_GetStoryInput_def unknown_fields_def stateless_def server_get_story_def server_source_def resolve_source_def
        source_named_def from_option_def source_get_def mock_get_story_def)
  have "wired (demo_story_server b)" using b by (auto simp: wired_def demo_story_server_def)
  from story_tool_answers[OF run this] run show ?thesis by auto
qed

definition long_backlog :: PreparedBacklog where
  "long_backlog = \<lparr>pb_details = [], pb_summaries = replicate 51 \<lparr>ss_story_id = ''ado-1'', ss_title = ''t'', ss_status = ''open''\<rparr>\<rparr>"

theorem long_backlog_unlistable_witness:
  "tool_list_stories ((demo_story_server long_backlog)\<lparr>st_callers := None\<rparr>) None
     \<lparr>ca_raw = [], ca_request = Some \<lparr>ls_filter = None, ls_source = None\<rparr>\<rparr> = ToolFailed (server_error VALIDATION_ERROR False)"
  by (rule long_backlog_unlistable[where name = Mock and source = "MockSource long_backlog" and stories = "pb_summaries long_backlog"])
     (simp_all add: server_source_def resolve_source_def source_named_def demo_story_server_def from_option_def source_list_def
       apply_filter_def long_backlog_def valid_ListStoriesInput_def)

end
