(* ===== verification/Dataset.thy ===== *)
theory Dataset
  imports Story_Server
begin

text \<open>
  The evaluation dataset (\<open>dataset/loader/dataset_loader\<close>): the models of the expected files
  (\<open>expected.py\<close>) and the loader with its cross-file rules (\<open>dataset.py\<close>). Reading and parsing a file is
  outside: a file arrives as its model, or as None when it does not validate.
\<close>

section \<open>Expected files\<close>

record PoTurn =
  pt_message :: "string option"
  pt_accepted :: bool

definition valid_PoTurn :: "PoTurn \<Rightarrow> bool" where
  "valid_PoTurn t = ((pt_message t \<noteq> None) \<noteq> pt_accepted t)"

record DelegationExpectation =
  de_invoke :: "invoke option"
  de_reuse_previous :: "bool option"
  de_extra_context :: "bool option"
  de_open_issues_empty :: "bool option"

record ProducedArtifact =
  pa_type :: artifact_type
  pa_version :: int

record ExpectedTurn =
  et_turn_number :: int
  et_outcome :: turn_outcome
  et_state_after :: session_state
  et_delegation :: "DelegationExpectation option"
  et_produced :: "ProducedArtifact list option"
  et_notes :: string

definition is_report :: "artifact_type \<Rightarrow> bool" where
  "is_report t = starts_with ''report-'' (artifact_type_name t)"

definition validate_turn :: "ExpectedTurn \<Rightarrow> bool" where
  "validate_turn t =
     (et_state_after t = expected_state (et_outcome t) \<and>
      (case et_produced t of None \<Rightarrow> True
       | Some artifacts \<Rightarrow> list_ex (\<lambda>a. is_report (pa_type a)) artifacts \<longrightarrow> et_outcome t = Finalize) \<and>
      (et_delegation t = None \<longrightarrow> et_outcome t = Finalize))"

definition valid_ExpectedTurn :: "ExpectedTurn \<Rightarrow> bool" where
  "valid_ExpectedTurn t =
     (1 \<le> et_turn_number t \<and>
      (case et_produced t of None \<Rightarrow> True | Some artifacts \<Rightarrow> list_all (\<lambda>a. 1 \<le> pa_version a) artifacts) \<and>
      validate_turn t)"

text \<open>\<open>B-1\<close>, \<open>C-12\<close>: a letter, a dash and a positive number without leading zero.\<close>

definition numbered_key :: "char list \<Rightarrow> string \<Rightarrow> bool" where
  "numbered_key letters s =
     (case s of
        c # d # n # rest \<Rightarrow>
          c \<in> set letters \<and> d = CHR ''-'' \<and> is_digit n \<and> n \<noteq> CHR ''0'' \<and> all_digits rest
      | _ \<Rightarrow> False)"

record FindingStub =
  fs_key :: string
  fs_min_severity :: severity
  fs_topic :: string
  fs_appears_in_version :: int
  fs_resolved_at_turn :: "int option"

definition valid_FindingStub :: "FindingStub \<Rightarrow> bool" where
  "valid_FindingStub f =
     (numbered_key ''BE'' (fs_key f) \<and> fs_topic f \<noteq> [] \<and> 1 \<le> fs_appears_in_version f \<and>
      (case fs_resolved_at_turn f of None \<Rightarrow> True | Some n \<Rightarrow> 2 \<le> n))"

record PerspectiveFindings =
  pf_max_severity :: severity
  pf_required :: "FindingStub list"

record ConflictStub =
  cf_key :: string
  cf_kind :: string
  cf_topic :: string
  cf_first_seen_turn :: "int option"
  cf_resolved_at_turn :: "int option"
  cf_pinned :: bool

definition valid_ConflictStub :: "ConflictStub \<Rightarrow> bool" where
  "valid_ConflictStub c =
     (numbered_key ''C'' (cf_key c) \<and> cf_kind c \<noteq> [] \<and> cf_topic c \<noteq> [] \<and>
      (case cf_first_seen_turn c of None \<Rightarrow> True | Some n \<Rightarrow> 1 \<le> n) \<and>
      (case cf_resolved_at_turn c of None \<Rightarrow> True | Some n \<Rightarrow> 2 \<le> n))"

record ExpectedConflicts =
  xc_at_turn_1 :: "ConflictStub list"
  xc_later :: "ConflictStub list"
  xc_note :: string

record ExpectedFinal =
  xf_state :: session_state
  xf_final_turn_number :: int
  xf_facilitator_turn_count :: int
  xf_finalized :: bool
  xf_po_accepted :: bool
  xf_open_issues_empty :: bool
  xf_reports :: "report_format list"

definition validate_final :: "ExpectedFinal \<Rightarrow> bool" where
  "validate_final f =
     ((if xf_state f = Completed then xf_finalized f else \<not> xf_finalized f \<and> xf_reports f = []) \<and>
      (xf_po_accepted f \<longrightarrow> xf_finalized f) \<and> (xf_po_accepted f \<longrightarrow> xf_open_issues_empty f))"

definition valid_ExpectedFinal :: "ExpectedFinal \<Rightarrow> bool" where
  "valid_ExpectedFinal f =
     (1 \<le> xf_final_turn_number f \<and> 0 \<le> xf_facilitator_turn_count f \<and> xf_facilitator_turn_count f \<le> 10 \<and>
      validate_final f)"

record ExpectedCase =
  xp_scenario :: string
  xp_requested_formats :: "report_format list"
  xp_po_script :: "PoTurn list"
  xp_turns :: "ExpectedTurn list"
  xp_findings :: "(string, PerspectiveFindings) dict"
  xp_conflicts :: "ExpectedConflicts option"
  xp_final :: ExpectedFinal

text \<open>The contract's scenario names have no \<open>-2\<close> form.\<close>

definition is_scenario_key :: "string \<Rightarrow> bool" where
  "is_scenario_key s = (s \<in> set BASE_SCENARIOS \<or> s \<in> set T1_ONLY_SCENARIOS)"

definition validate_case :: "ExpectedCase \<Rightarrow> bool" where
  "validate_case x =
     (set (dict_keys (xp_findings x)) = {''review-business'', ''review-engineering''} \<and>
      list_all (\<lambda>(name, view).
          list_all (\<lambda>f. starts_with (if name = ''review-business'' then ''B-'' else ''E-'') (fs_key f)) (pf_required view))
        (xp_findings x) \<and>
      map et_turn_number (xp_turns x) = map int [1..<Suc (length (xp_turns x))] \<and>
      length (xp_po_script x) + 1 = length (xp_turns x) \<and>
      xf_state (xp_final x) = et_state_after (last (xp_turns x)) \<and>
      xf_final_turn_number (xp_final x) = et_turn_number (last (xp_turns x)) \<and>
      (xf_state (xp_final x) = Completed \<longrightarrow>
         set (xf_reports (xp_final x)) = set (xp_requested_formats x)) \<and>
      (case xp_conflicts x of None \<Rightarrow> True
       | Some c \<Rightarrow>
           (xc_at_turn_1 c \<noteq> [] \<or> xc_later c \<noteq> []) \<longrightarrow>
           (case et_delegation (hd (xp_turns x)) of None \<Rightarrow> True
            | Some d \<Rightarrow> de_open_issues_empty d \<noteq> Some True)))"

definition valid_ExpectedCase :: "ExpectedCase \<Rightarrow> bool" where
  "valid_ExpectedCase x =
     (is_scenario_key (xp_scenario x) \<and>
      1 \<le> length (xp_requested_formats x) \<and> length (xp_requested_formats x) \<le> 2 \<and>
      1 \<le> length (xp_po_script x) \<and> length (xp_po_script x) \<le> 10 \<and> list_all valid_PoTurn (xp_po_script x) \<and>
      1 \<le> length (xp_turns x) \<and> length (xp_turns x) \<le> 11 \<and> list_all valid_ExpectedTurn (xp_turns x) \<and>
      list_all (\<lambda>(name, view). list_all valid_FindingStub (pf_required view)) (xp_findings x) \<and>
      (case xp_conflicts x of None \<Rightarrow> True
       | Some c \<Rightarrow> list_all valid_ConflictStub (xc_at_turn_1 c) \<and> list_all valid_ConflictStub (xc_later c)) \<and>
      valid_ExpectedFinal (xp_final x) \<and> validate_case x)"

section \<open>Loading\<close>

datatype dataset_error =
    InvalidEnvelope | NoStoryFiles | DuplicateCaseIds | NotSequential | CaseIdMismatch string
  | MissingFields string "string list" | SelfReference string | UnknownLinked string
  | InvalidExpected | WrongScenarioKey string | NoExpectedFiles | NoExpectedFile string | ScenariosWithoutStories

definition REQUIRED_WORK_ITEM_FIELDS :: "string list" where
  "REQUIRED_WORK_ITEM_FIELDS = [''System.Title'', ''System.WorkItemType'', ''System.AreaPath'', ''System.State'']"

definition missing_required_fields :: "WorkItem \<Rightarrow> string list" where
  "missing_required_fields item =
     filter (\<lambda>name. field_of item name \<in> {None, Some FieldNull, Some (FieldText [])}) REQUIRED_WORK_ITEM_FIELDS"

definition case_id_matches_components :: "StoryEnvelope \<Rightarrow> bool" where
  "case_id_matches_components e = (se_case_id e = se_template e @ ''/'' @ se_scenario e)"

definition story_number :: "nat \<Rightarrow> string" where
  "story_number n = ''story-'' @ pad 2 n"

fun check_stories :: "StoryEnvelope list \<Rightarrow> dataset_error + unit" where
  "check_stories [] = Inr ()"
| "check_stories (e # es) =
     bind_sum (need (case_id_matches_components e) (CaseIdMismatch (se_case_id e))) (\<lambda>_.
     bind_sum (need (missing_required_fields (se_work_item e) = [])
       (MissingFields (se_case_id e) (missing_required_fields (se_work_item e)))) (\<lambda>_.
     check_stories es))"

fun check_links :: "string set \<Rightarrow> StoryEnvelope list \<Rightarrow> dataset_error + unit" where
  "check_links known [] = Inr ()"
| "check_links known (e # es) =
     bind_sum (need (se_case_id e \<notin> set (se_linked e)) (SelfReference (se_case_id e))) (\<lambda>_.
     bind_sum (need (list_all (\<lambda>c. c \<in> known) (se_linked e)) (UnknownLinked (se_case_id e))) (\<lambda>_.
     check_links known es))"

definition validate_linked_stories :: "StoryEnvelope list \<Rightarrow> dataset_error + unit" where
  "validate_linked_stories stories = check_links (set (map se_case_id stories)) stories"

definition read_envelope :: "StoryEnvelope option \<Rightarrow> dataset_error + StoryEnvelope" where
  "read_envelope file =
     (case file of None \<Rightarrow> Inl InvalidEnvelope | Some e \<Rightarrow> bind_sum (need (valid_StoryEnvelope e) InvalidEnvelope) (\<lambda>_. Inr e))"

text \<open>
  The files are those of the template folders t1 to t6, in path order. The loader selects them with
  \<open>t?/*.json\<close> and the story server with \<open>t[1-6]/*.json\<close>; the two agree on a dataset whose only folders of
  a \<open>t\<close> and one more character are these six, which is assumed where both read the same list.
\<close>

definition load_all_stories :: "StoryEnvelope option list \<Rightarrow> dataset_error + StoryEnvelope list" where
  "load_all_stories files =
     bind_sum (each_sum read_envelope files) (\<lambda>stories.
     bind_sum (need (stories \<noteq> []) NoStoryFiles) (\<lambda>_.
     bind_sum (need (distinct (map se_case_id stories)) DuplicateCaseIds) (\<lambda>_.
     bind_sum (need (sort (map se_story_id stories) = map story_number [1..<Suc (length stories)]) NotSequential) (\<lambda>_.
     bind_sum (check_stories stories) (\<lambda>_.
     bind_sum (validate_linked_stories stories) (\<lambda>_. Inr stories))))))"

fun load_expected_from :: "(string \<times> ExpectedCase option) list \<Rightarrow> (string, ExpectedCase) dict \<Rightarrow>
    dataset_error + (string, ExpectedCase) dict" where
  "load_expected_from [] cases = Inr cases"
| "load_expected_from ((stem, file) # files) cases =
     (case file of
        None \<Rightarrow> Inl InvalidExpected
      | Some x \<Rightarrow>
          bind_sum (need (valid_ExpectedCase x) InvalidExpected) (\<lambda>_.
          bind_sum (need (stem = xp_scenario x) (WrongScenarioKey (xp_scenario x))) (\<lambda>_.
          load_expected_from files (dict_put (xp_scenario x) x cases))))"

definition load_expected :: "(string \<times> ExpectedCase option) list \<Rightarrow> dataset_error + (string, ExpectedCase) dict" where
  "load_expected files =
     bind_sum (load_expected_from files []) (\<lambda>cases. bind_sum (need (cases \<noteq> []) NoExpectedFiles) (\<lambda>_. Inr cases))"

record TestCase =
  tc_story :: StoryEnvelope
  tc_expected :: ExpectedCase

definition case_of :: "(string, ExpectedCase) dict \<Rightarrow> StoryEnvelope \<Rightarrow> dataset_error + TestCase" where
  "case_of expected e =
     bind_sum (from_option (NoExpectedFile (se_scenario e)) (map_of expected (se_scenario e))) (\<lambda>x.
     Inr \<lparr>tc_story = e, tc_expected = x\<rparr>)"

definition expand_cases :: "StoryEnvelope list \<Rightarrow> (string, ExpectedCase) dict \<Rightarrow> dataset_error + TestCase list" where
  "expand_cases stories expected =
     bind_sum (each_sum (case_of expected) stories) (\<lambda>cases.
     bind_sum (need (set (dict_keys expected) \<subseteq> set (map (xp_scenario \<circ> tc_expected) cases)) ScenariosWithoutStories) (\<lambda>_.
     Inr cases))"

section \<open>What a loaded dataset guarantees\<close>

lemma checked_links:
  "check_links known es = Inr u \<longleftrightarrow> (\<forall>e \<in> set es. se_case_id e \<notin> set (se_linked e) \<and> set (se_linked e) \<subseteq> known)"
  by (induction es) (auto simp: sum_simps list_all_iff)

lemma loaded_stories:
  assumes "load_all_stories files = Inr stories"
  shows "\<forall>e \<in> set stories. valid_StoryEnvelope e" "distinct (map se_case_id stories)"
    "sort (map se_story_id stories) = map story_number [1..<Suc (length stories)]"
    "\<forall>e \<in> set stories. se_case_id e \<notin> set (se_linked e) \<and> set (se_linked e) \<subseteq> se_case_id ` set stories"
proof -
  have read: "list_all2 (\<lambda>f e. read_envelope f = Inr e) files stories"
    and rest: "distinct (map se_case_id stories)"
      "sort (map se_story_id stories) = map story_number [1..<Suc (length stories)]"
      "validate_linked_stories stories = Inr ()"
    using assms by (auto simp: load_all_stories_def sum_simps each_sum_ok simp del: upt_Suc)
  have "read_envelope f = Inr e \<Longrightarrow> valid_StoryEnvelope e" for f e
    by (auto simp: read_envelope_def sum_simps split: option.splits)
  with read show "\<forall>e \<in> set stories. valid_StoryEnvelope e"
    by (induction rule: list_all2_induct) auto
  show "distinct (map se_case_id stories)" by (rule rest(1))
  show "sort (map se_story_id stories) = map story_number [1..<Suc (length stories)]" by (rule rest(2))
  show "\<forall>e \<in> set stories. se_case_id e \<notin> set (se_linked e) \<and> set (se_linked e) \<subseteq> se_case_id ` set stories"
    using rest(3) by (simp add: validate_linked_stories_def checked_links)
qed

lemma loaded_id:
  assumes "load_all_stories files = Inr stories" "e \<in> set stories"
  shows "check_id_space Mock (se_story_id e) = Inr ()"
proof -
  have "se_story_id e \<in> set (map story_number [1..<Suc (length stories)])"
    using loaded_stories(3)[OF assms(1)] assms(2) by (metis imageI image_set set_sort)
  then obtain n where n: "se_story_id e = story_number n" by auto
  have "StoryId (se_story_id e)"
    using loaded_stories(1)[OF assms(1)] assms(2) by (simp add: valid_StoryEnvelope_def)
  then have "length (drop 6 (se_story_id e)) = 2" "all_digits (drop 6 (se_story_id e))"
    unfolding n by (simp_all add: StoryId_def story_number_def)
  then show ?thesis by (simp add: check_id_space_def need_def n story_number_def)
qed

lemma pad_number: "number_of (pad k n) = n"
  using decimal_digits[of n] number_of_zeros by (simp add: pad_def Let_def)

lemma loaded_ids:
  assumes "load_all_stories files = Inr stories"
  shows "sorted_list_of_set (se_story_id ` set stories) = map story_number [1..<Suc (length stories)]"
proof (rule sym, rule sorted_distinct_set_unique)
  have "inj story_number" by (rule injI) (metis append_eq_append_conv pad_number story_number_def)
  then show "distinct (map story_number [1..<Suc (length stories)])" by (simp add: distinct_map inj_on_def inj_def)
  note ids = loaded_stories(3)[OF assms]
  show "sorted (map story_number [1..<Suc (length stories)])" unfolding ids[symmetric] by simp
  show "set (map story_number [1..<Suc (length stories)]) = set (sorted_list_of_set (se_story_id ` set stories))"
    unfolding ids[symmetric] by simp
qed auto

text \<open>C36. A dataset whose story files all lie in the folders t1 to t6 (where the loader's and the server's globs
  select the same files), that the loader accepts and the story server prepares, is served completely: every story of it
  is returned under its own id, the list is story-01, story-02, and so on without a gap, and every link
  names another story of the dataset.\<close>

theorem loaded_dataset_served:
  assumes "load_all_stories files = Inr stories" "prepare_backlog env stories items = Inr b"
  shows "(\<forall>e \<in> set stories. \<exists>d. mock_get_story b (se_story_id e) = Inr d \<and> valid_StoryDetail d \<and>
       ss_story_id d = se_story_id e) \<and>
     map ss_story_id (pb_summaries b) = map story_number [1..<Suc (length stories)] \<and>
     (\<forall>e \<in> set stories. \<forall>c \<in> set (se_linked e). \<exists>p \<in> set stories. se_case_id p = c \<and> p \<noteq> e)"
proof (intro conjI ballI)
  fix e assume e: "e \<in> set stories"
  then obtain d where d: "map_of (pb_details b) (se_story_id e) = Some d"
    using backlog_entries(1)[OF assms(2)] by (auto simp: set_dict_keys)
  then show "\<exists>d. mock_get_story b (se_story_id e) = Inr d \<and> valid_StoryDetail d \<and> ss_story_id d = se_story_id e"
    using loaded_id[OF assms(1) e] backlog_entries(3)[OF assms(2) map_of_SomeD[OF d]]
    by (simp add: mock_get_story_def from_option_def)
next
  show "map ss_story_id (pb_summaries b) = map story_number [1..<Suc (length stories)]"
    unfolding backlog_listed[OF assms(2)] using loaded_ids[OF assms(1)] by simp
next
  fix e c assume "e \<in> set stories" "c \<in> set (se_linked e)"
  then show "\<exists>p \<in> set stories. se_case_id p = c \<and> p \<noteq> e"
    using loaded_stories(4)[OF assms(1)] by blast
qed

lemma loaded_contracts:
  assumes "load_expected_from files cases = Inr expected"
    "\<forall>k x. map_of cases k = Some x \<longrightarrow> valid_ExpectedCase x \<and> xp_scenario x = k"
  shows "\<forall>k x. map_of expected k = Some x \<longrightarrow> valid_ExpectedCase x \<and> xp_scenario x = k"
  using assms
proof (induction files cases rule: load_expected_from.induct)
  case (2 stem content rest cases)
  from 2(2) obtain x where x: "content = Some x" "valid_ExpectedCase x"
    and rest: "load_expected_from rest (dict_put (xp_scenario x) x cases) = Inr expected"
    by (cases content) (auto simp: sum_simps)
  have good: "\<forall>k y. map_of (dict_put (xp_scenario x) x cases) k = Some y \<longrightarrow> valid_ExpectedCase y \<and> xp_scenario y = k"
    using 2(3) x(2) by (simp add: map_of_dict_put)
  show ?case by (rule 2(1)[OF x(1) rest good])
qed simp

lemma expanded:
  assumes "expand_cases stories expected = Inr cases"
  shows "list_all2 (\<lambda>e c. tc_story c = e \<and> map_of expected (se_scenario e) = Some (tc_expected c)) stories cases"
    "set (dict_keys expected) \<subseteq> set (map (xp_scenario \<circ> tc_expected) cases)"
proof -
  have "list_all2 (\<lambda>e c. case_of expected e = Inr c) stories cases"
    "set (dict_keys expected) \<subseteq> set (map (xp_scenario \<circ> tc_expected) cases)"
    using assms by (auto simp: expand_cases_def sum_simps each_sum_ok)
  then show "list_all2 (\<lambda>e c. tc_story c = e \<and> map_of expected (se_scenario e) = Some (tc_expected c)) stories cases"
    "set (dict_keys expected) \<subseteq> set (map (xp_scenario \<circ> tc_expected) cases)"
    by (auto simp: case_of_def sum_simps elim: list_all2_mono)
qed

text \<open>The expansion of a loaded dataset pairs every story once, in file order, with a valid contract of the
  story's own scenario, and leaves no contract unused.\<close>

theorem dataset_expands:
  assumes "load_all_stories files = Inr stories" "load_expected contracts = Inr expected"
    "expand_cases stories expected = Inr cases"
  shows "map tc_story cases = stories \<and> distinct (map (se_case_id \<circ> tc_story) cases) \<and>
    (\<forall>c \<in> set cases. valid_StoryEnvelope (tc_story c) \<and> valid_ExpectedCase (tc_expected c) \<and>
       xp_scenario (tc_expected c) = se_scenario (tc_story c)) \<and>
    (\<forall>k \<in> set (dict_keys expected). \<exists>c \<in> set cases. se_scenario (tc_story c) = k)"
proof -
  note paired = expanded(1)[OF assms(3)]
  have stories: "map tc_story cases = stories"
    using paired by (induction rule: list_all2_induct) auto
  have contracts: "map_of expected k = Some x \<Longrightarrow> valid_ExpectedCase x \<and> xp_scenario x = k" for k x
    using assms(2) loaded_contracts[of contracts "[]" expected] by (auto simp: load_expected_def sum_simps)
  have found: "\<forall>c \<in> set cases. map_of expected (se_scenario (tc_story c)) = Some (tc_expected c)"
    using paired by (induction rule: list_all2_induct) auto
  have scenario: "xp_scenario (tc_expected c) = se_scenario (tc_story c)" if "c \<in> set cases" for c
    using found contracts that by blast
  have "\<exists>c \<in> set cases. se_scenario (tc_story c) = k" if "k \<in> set (dict_keys expected)" for k
    using expanded(2)[OF assms(3)] that scenario by fastforce
  then show ?thesis
    using stories loaded_stories(1,2)[OF assms(1)] found contracts by (metis imageI image_set map_map)
qed

text \<open>The second variant of a scenario, which the envelope allows, can never be expanded: no contract is keyed
  by its name, so one such file makes the whole expansion fail.\<close>

lemma second_variant_unexpandable:
  assumes "e \<in> set stories" "se_scenario e = base @ ''-2''" "base \<in> set BASE_SCENARIOS" "load_expected contracts = Inr expected"
  shows "\<exists>x. expand_cases stories expected = Inl x"
proof (cases "expand_cases stories expected")
  case (Inr cases)
  have "map_of expected (se_scenario e) \<noteq> None"
    using expanded(1)[OF Inr] assms(1) by (induction rule: list_all2_induct) auto
  then obtain x where "valid_ExpectedCase x" "xp_scenario x = base @ ''-2''"
    using assms(2,4) loaded_contracts[of contracts "[]" expected] by (auto simp: load_expected_def sum_simps)
  then have "is_scenario_key (base @ ''-2'')" by (simp add: valid_ExpectedCase_def)
  then show ?thesis using assms(3) by (auto simp: is_scenario_key_def BASE_SCENARIOS_def T1_ONLY_SCENARIOS_def)
qed blast

section \<open>A dataset of one story\<close>

definition demo_contract :: ExpectedCase where
  "demo_contract =
     \<lparr>xp_scenario = ''clean'', xp_requested_formats = [Md], xp_po_script = [\<lparr>pt_message = None, pt_accepted = True\<rparr>],
      xp_turns =
        [\<lparr>et_turn_number = 1, et_outcome = Continue, et_state_after = Active,
          et_delegation = Some \<lparr>de_invoke = None, de_reuse_previous = None, de_extra_context = None, de_open_issues_empty = None\<rparr>,
          et_produced = Some [], et_notes = []\<rparr>,
         \<lparr>et_turn_number = 2, et_outcome = Finalize, et_state_after = Completed, et_delegation = None,
          et_produced = Some [\<lparr>pa_type = ReportMd, pa_version = 1\<rparr>], et_notes = []\<rparr>],
      xp_findings =
        [(''review-business'', \<lparr>pf_max_severity = Minor, pf_required = []\<rparr>),
         (''review-engineering'', \<lparr>pf_max_severity = Minor, pf_required = []\<rparr>)],
      xp_conflicts = None,
      xp_final = \<lparr>xf_state = Completed, xf_final_turn_number = 2, xf_facilitator_turn_count = 1, xf_finalized = True,
        xf_po_accepted = True, xf_open_issues_empty = True, xf_reports = [Md]\<rparr>\<rparr>"

lemma demo_dataset: "load_all_stories [Some (demo_envelope [])] = Inr [demo_envelope []]"
proof -
  have "valid_StoryEnvelope (demo_envelope [])" "story_number 1 = ''story-01''"
    "case_id_matches_components (demo_envelope [])" "missing_required_fields (se_work_item (demo_envelope [])) = []"
    by code_simp+
  then show ?thesis
    by (simp add: load_all_stories_def read_envelope_def need_def validate_linked_stories_def demo_envelope_def)
qed

lemma demo_contract_valid: "load_expected [(''clean'', Some demo_contract)] = Inr [(''clean'', demo_contract)]"
proof -
  have "valid_ExpectedCase demo_contract"
    by (simp add: valid_ExpectedCase_def demo_contract_def is_scenario_key_def BASE_SCENARIOS_def valid_PoTurn_def
        valid_ExpectedTurn_def validate_turn_def is_report_def valid_ExpectedFinal_def validate_final_def validate_case_def
        dict_keys_def insert_commute)
  then show ?thesis by (simp add: load_expected_def need_def demo_contract_def)
qed

theorem loaded_dataset_served_witness:
  "\<exists>b. prepare_backlog demo_prepare [demo_envelope []] demo_context_items = Inr b \<and>
     (\<exists>d. mock_get_story b ''story-01'' = Inr d \<and> valid_StoryDetail d)"
proof -
  obtain b where b: "prepare_backlog demo_prepare [demo_envelope []] demo_context_items = Inr b"
    using demo_backlog by blast
  from loaded_dataset_served[OF demo_dataset this] b show ?thesis by (auto simp: demo_envelope_def)
qed

theorem dataset_expands_witness:
  "\<exists>c. expand_cases [demo_envelope []] [(''clean'', demo_contract)] = Inr [c] \<and> xp_scenario (tc_expected c) = ''clean''"
proof -
  let ?c = "\<lparr>tc_story = demo_envelope [], tc_expected = demo_contract\<rparr>"
  have run: "expand_cases [demo_envelope []] [(''clean'', demo_contract)] = Inr [?c]"
    by (simp add: expand_cases_def case_of_def from_option_def need_def demo_envelope_def demo_contract_def dict_keys_def)
  from dataset_expands[OF demo_dataset demo_contract_valid run] run show ?thesis by (auto simp: demo_envelope_def)
qed

end
