(* ===== verification/Json.thy ===== *)
theory Json
  imports Prelude
begin

text \<open>
  JSON values as the services exchange and clean them: the dictionaries, lists and scalars that
  \<open>json.loads\<close> yields. Objects keep the order of their keys.
\<close>

section \<open>JSON values\<close>

datatype json = JNull | JBool bool | JNumber int | JString string | JList "json list" | JObject "(string \<times> json) list"

lemma size_json_member [termination_simp]:
  "(k, v) \<in> set kvs \<Longrightarrow> size v < Suc (size_list (size_prod (\<lambda>_. 0) size) kvs)"
  by (induction kvs) auto

end
