(* ===== verification/Ado_Export.thy ===== *)
theory Ado_Export
  imports Dataset Json
begin

text \<open>
  The export of the backlog into the dataset (\<open>dataset/tools/export_ado.py\<close>): the cleaning of a work item
  before it is written, and the story ids. Fetching, the provenance files and writing are outside.
\<close>

text \<open>The keys and the strings of a value, at any depth.\<close>

fun all_keys :: "json \<Rightarrow> string list" where
  "all_keys (JObject kvs) = concat (map (\<lambda>(k, v). k # all_keys v) kvs)"
| "all_keys (JList vs) = concat (map all_keys vs)"
| "all_keys _ = []"

fun all_strings :: "json \<Rightarrow> string list" where
  "all_strings (JString s) = [s]"
| "all_strings (JObject kvs) = concat (map (\<lambda>(k, v). all_strings v) kvs)"
| "all_strings (JList vs) = concat (map all_strings vs)"
| "all_strings _ = []"

section \<open>Cleaning\<close>

fun strip_links :: "json \<Rightarrow> json" where
  "strip_links (JObject kvs) = JObject (map (\<lambda>(k, v). (k, strip_links v)) (filter (\<lambda>(k, v). k \<noteq> ''_links'') kvs))"
| "strip_links (JList vs) = JList (map strip_links vs)"
| "strip_links v = v"

text \<open>
  An address of the organization, split at its \<open>/_apis/\<close>: the segment between (with its slash), and the
  rest up to the end of the line. Only the part behind \<open>/_apis/\<close> can hold further slashes.
\<close>

definition apis_tail :: "string \<Rightarrow> string option" where
  "apis_tail s =
     (if starts_with ''/_apis/'' s then Some (''/_apis/'' @ takeWhile (\<lambda>c. c \<noteq> char_of (10::nat)) (drop 7 s)) else None)"

definition org_match :: "string \<Rightarrow> string \<Rightarrow> (string \<times> string) option" where
  "org_match org s =
     (let base = ''https://dev.azure.com/'' @ org; rest = drop (length base) s;
          seg = takeWhile (\<lambda>c. c \<noteq> CHR ''/'') (drop 1 rest) in
      if \<not> starts_with base s \<or> \<not> starts_with ''/'' rest then None
      else case apis_tail (drop (Suc (length seg)) rest) of
          Some t \<Rightarrow> Some (''/'' @ seg, t)
        | None \<Rightarrow> map_option (Pair []) (apis_tail rest))"

definition is_project_id :: "string \<Rightarrow> bool" where
  "is_project_id s =
     (hex_groups [8, 4, 4, 4, 12] s \<or>
      (s \<noteq> [] \<and> last s = char_of (10::nat) \<and> hex_groups [8, 4, 4, 4, 12] (butlast s)))"

definition sanitize_url :: "string \<Rightarrow> string \<Rightarrow> string" where
  "sanitize_url org s =
     (case org_match org s of
        None \<Rightarrow> s
      | Some (seg, t) \<Rightarrow>
          ''https://dev.azure.com/$ADO_ORG'' @
          (if seg \<noteq> [] \<and> is_project_id (drop 1 seg) then ''/<project-id>'' else seg) @ t)"

fun sanitize_urls :: "string \<Rightarrow> json \<Rightarrow> json" where
  "sanitize_urls org (JObject kvs) = JObject (map (\<lambda>(k, v). (k, sanitize_urls org v)) kvs)"
| "sanitize_urls org (JList vs) = JList (map (sanitize_urls org) vs)"
| "sanitize_urls org (JString s) = JString (sanitize_url org s)"
| "sanitize_urls org v = v"

text \<open>An identity: an object with a display name and a unique name.\<close>

definition is_identity :: "json \<Rightarrow> bool" where
  "is_identity v =
     (case v of JObject kvs \<Rightarrow> {''displayName'', ''uniqueName''} \<subseteq> fst ` set kvs | _ \<Rightarrow> False)"

definition ACCOUNT_KEYS :: "string list" where
  "ACCOUNT_KEYS = [''id'', ''descriptor'', ''url'', ''imageUrl'']"

definition anonymous :: "json \<Rightarrow> json" where
  "anonymous v =
     (case v of
        JObject kvs \<Rightarrow>
          JObject (dict_put ''uniqueName'' (JString ''<author>@example.com'')
            (dict_put ''displayName'' (JString ''Story Author'') (filter (\<lambda>(k, v). k \<notin> set ACCOUNT_KEYS) kvs)))
      | _ \<Rightarrow> v)"

fun anonymize_identities :: "json \<Rightarrow> json" where
  "anonymize_identities (JObject kvs) =
     JObject (map (\<lambda>(k, v). (k, if is_identity v then anonymous v else anonymize_identities v)) kvs)"
| "anonymize_identities (JList vs) = JList (map anonymize_identities vs)"
| "anonymize_identities v = v"

fun sorted_keys :: "json \<Rightarrow> json" where
  "sorted_keys (JObject kvs) = JObject (map (\<lambda>(k, v). (k, sorted_keys v)) (sort_key fst kvs))"
| "sorted_keys (JList vs) = JList (map sorted_keys vs)"
| "sorted_keys v = v"

text \<open>What \<open>main\<close> does with a fetched item before it is written.\<close>

definition cleaned :: "string \<Rightarrow> json \<Rightarrow> json" where
  "cleaned org item = sorted_keys (anonymize_identities (sanitize_urls org (strip_links item)))"

section \<open>Story ids\<close>

definition SLUGS :: "string list" where
  "SLUGS =
     [''clean'', ''business-weak'', ''engineering-weak'', ''conflicting'', ''partial-resolution'', ''unresolvable'',
      ''hidden-conflict'']"

definition T1_ONLY_SLUGS :: "string list" where
  "T1_ONLY_SLUGS = [''comments-benign'', ''comments-clarify-business'', ''comments-complete-engineering'']"

definition FIRST_T1_ONLY_ID :: nat where "FIRST_T1_ONLY_ID = 43"

definition TEMPLATE_BY_AREA :: "(string option \<times> string) list" where
  "TEMPLATE_BY_AREA =
     [(None, ''t1''), (Some ''T2'', ''t2''), (Some ''T3'', ''t3''), (Some ''T4'', ''t4''), (Some ''T5'', ''t5''),
      (Some ''T6'', ''t6'')]"

definition CONTEXT_IDS :: "int list" where "CONTEXT_IDS = [2, 3, 4]"

definition position :: "'a \<Rightarrow> 'a list \<Rightarrow> nat" where
  "position x xs = length (takeWhile (\<lambda>y. y \<noteq> x) xs)"

definition base_scenario :: "string \<Rightarrow> string" where
  "base_scenario s = (if starts_with (rev ''-2'') (rev s) then take (length s - 2) s else s)"

text \<open>None: the script stops.\<close>

definition story_id_for :: "string \<Rightarrow> string \<Rightarrow> string option" where
  "story_id_for template scenario =
     (let base = base_scenario scenario in
      if template \<notin> set (map snd TEMPLATE_BY_AREA) then None
      else if base \<in> set T1_ONLY_SLUGS then
        (if scenario \<in> set T1_ONLY_SLUGS \<and> template = ''t1''
         then Some (story_number (FIRST_T1_ONLY_ID + position scenario T1_ONLY_SLUGS)) else None)
      else if base \<notin> set SLUGS then None
      else if base \<noteq> scenario then None
      else Some (story_number (digit_value (template ! 1) * length SLUGS - length SLUGS + position scenario SLUGS + 1)))"

definition template_of_area :: "string \<Rightarrow> string option" where
  "template_of_area area =
     map_of TEMPLATE_BY_AREA
       (if CHR 0x5C \<in> set area then Some (drop 1 (dropWhile (\<lambda>c. c \<noteq> CHR 0x5C) area)) else None)"

text \<open>Where an item goes: a context file, or a story file with its case and story id.\<close>

datatype export_target = ContextFile string | StoryFile string string

definition export_target_of :: "(int \<Rightarrow> (string \<times> string) option) \<Rightarrow> int \<Rightarrow> string \<Rightarrow> string \<Rightarrow> export_target option" where
  "export_target_of provenance wid area title =
     Option.bind (template_of_area area) (\<lambda>template.
     if wid \<in> set CONTEXT_IDS
     then Some (ContextFile (''context/'' @ map (\<lambda>c. if c = CHR '' '' then CHR ''-'' else c) (lower title)))
     else Option.bind (provenance wid) (\<lambda>(expected, scenario).
       if template \<noteq> expected then None
       else map_option (StoryFile (template @ ''/'' @ scenario)) (story_id_for template scenario)))"

section \<open>What is written\<close>

lemma stripped_keys: "''_links'' \<notin> set (all_keys (strip_links v))"
  by (induction v rule: strip_links.induct) auto

lemma sanitized_keys: "all_keys (sanitize_urls org v) = all_keys v"
  by (induction org v rule: sanitize_urls.induct) (auto intro!: arg_cong[where f = concat])

lemma anonymous_entries: "(k, x) \<in> set (dict_put a y (dict_put b z (filter p kvs))) \<Longrightarrow>
    (k, x) = (a, y) \<or> (k, x) = (b, z) \<or> (k, x) \<in> set kvs"
  by (drule set_dict_put, elim disjE) (auto dest: set_dict_put)

lemma anonymous_keys: "set (all_keys (anonymous v)) \<subseteq> set (all_keys v) \<union> {''displayName'', ''uniqueName''}"
proof (cases v)
  case (JObject kvs)
  then show ?thesis unfolding anonymous_def by (fastforce dest: anonymous_entries)
qed (auto simp: anonymous_def)

lemma anonymous_strings: "set (all_strings (anonymous v)) \<subseteq> set (all_strings v) \<union> {''Story Author'', ''<author>@example.com''}"
proof (cases v)
  case (JObject kvs)
  then show ?thesis unfolding anonymous_def by (fastforce dest: anonymous_entries)
qed (auto simp: anonymous_def)

lemma anonymized_keys: "set (all_keys (anonymize_identities v)) \<subseteq> set (all_keys v) \<union> {''displayName'', ''uniqueName''}"
proof (induction v rule: anonymize_identities.induct)
  case (1 kvs)
  then show ?case using anonymous_keys by (fastforce split: if_splits)
qed auto

lemma anonymized_strings:
  "set (all_strings (anonymize_identities v)) \<subseteq> set (all_strings v) \<union> {''Story Author'', ''<author>@example.com''}"
proof (induction v rule: anonymize_identities.induct)
  case (1 kvs)
  then show ?case using anonymous_strings by (fastforce split: if_splits)
qed auto

lemma sorted_keys_keys: "set (all_keys (sorted_keys v)) = set (all_keys v)"
  by (induction v rule: sorted_keys.induct) auto

lemma sorted_keys_strings: "set (all_strings (sorted_keys v)) = set (all_strings v)"
  by (induction v rule: sorted_keys.induct) auto

lemma sanitized_strings: "set (all_strings (sanitize_urls org v)) = sanitize_url org ` set (all_strings v)"
proof (induction org v rule: sanitize_urls.induct)
  case (1 org kvs)
  have "(k, v) \<in> set kvs \<Longrightarrow> set (all_strings (sanitize_urls org v)) = sanitize_url org ` set (all_strings v)" for k v
    using 1 by blast
  then show ?case by (force simp: image_iff)
qed auto

lemma slash_split: "CHR ''/'' \<notin> set a \<Longrightarrow> starts_with ''/'' r \<Longrightarrow> takeWhile (\<lambda>c. c \<noteq> CHR ''/'') (a @ r) = a"
  by (cases r) (auto simp: takeWhile_append)

lemma apis_tail_slash: "apis_tail s = Some t \<Longrightarrow> starts_with ''/'' t"
  by (auto simp: apis_tail_def split: if_splits)

lemma sanitized_unmatched:
  assumes "CHR ''/'' \<notin> set org" "org \<noteq> ''$ADO_ORG''"
  shows "org_match org (sanitize_url org s) = None"
proof (cases "org_match org s")
  case (Some m)
  obtain seg t where m: "m = (seg, t)" by (cases m)
  let ?r = "(if seg \<noteq> [] \<and> is_project_id (drop 1 seg) then ''/<project-id>'' else seg) @ t"
  have "starts_with ''/'' t \<and> (seg = [] \<or> starts_with ''/'' seg)"
    using Some apis_tail_slash by (auto simp: org_match_def m Let_def split: if_splits option.splits)
  then have r: "starts_with ''/'' ?r" by (cases t; cases seg) auto
  have url: "sanitize_url org s = ''https://dev.azure.com/'' @ ''$ADO_ORG'' @ ?r"
    by (simp add: sanitize_url_def Some m)
  show ?thesis
  proof (rule ccontr)
    assume "org_match org (sanitize_url org s) \<noteq> None"
    then obtain q where q: "sanitize_url org s = (''https://dev.azure.com/'' @ org) @ q" "starts_with ''/'' q"
      by (auto simp: org_match_def Let_def starts_with_append split: if_splits)
    then have "org @ q = ''$ADO_ORG'' @ ?r" using url by simp
    then show False
      using slash_split[OF assms(1) q(2)] slash_split[OF _ r, of "''$ADO_ORG''"] assms(2) by simp
  qed
qed (simp add: sanitize_url_def)

text \<open>The objects of a value outside an identity.\<close>

fun open_objects :: "json \<Rightarrow> (string \<times> json) list list" where
  "open_objects (JObject kvs) = kvs # concat (map (\<lambda>(k, v). if is_identity v then [] else open_objects v) kvs)"
| "open_objects (JList vs) = concat (map open_objects vs)"
| "open_objects _ = []"

definition is_anonymous :: "json \<Rightarrow> bool" where
  "is_anonymous v =
     (case v of
        JObject f \<Rightarrow>
          map_of f ''displayName'' = Some (JString ''Story Author'') \<and>
          map_of f ''uniqueName'' = Some (JString ''<author>@example.com'') \<and> set ACCOUNT_KEYS \<inter> fst ` set f = {}
      | _ \<Rightarrow> False)"

definition identities_hidden :: "json \<Rightarrow> bool" where
  "identities_hidden v = (\<forall>kvs \<in> set (open_objects v). \<forall>(k, x) \<in> set kvs. is_identity x \<longrightarrow> is_anonymous x)"

lemma dict_keys_fst: "fst ` set d = set (dict_keys d)"
  by (simp add: dict_keys_def)

lemma anonymous_hides: "is_identity v \<Longrightarrow> is_anonymous (anonymous v)"
proof (cases v)
  case (JObject kvs)
  let ?d = "filter (\<lambda>(k, v). k \<notin> set ACCOUNT_KEYS) kvs"
  have "set ACCOUNT_KEYS \<inter> set (dict_keys ?d) = {}" by (auto simp: dict_keys_def)
  moreover have "''displayName'' \<notin> set ACCOUNT_KEYS" "''uniqueName'' \<notin> set ACCOUNT_KEYS" by (simp_all add: ACCOUNT_KEYS_def)
  ultimately show ?thesis
    by (simp add: JObject anonymous_def is_anonymous_def map_of_dict_put dict_keys_fst keys_dict_put)
qed (simp_all add: is_identity_def)

lemma anonymize_keeps_kind: "is_identity (anonymize_identities v) = is_identity v"
  by (cases v) (simp_all add: is_identity_def image_image case_prod_beta)

lemma anonymous_kind: "is_identity v \<Longrightarrow> is_identity (anonymous v)"
proof (cases v)
  case (JObject kvs)
  then show ?thesis by (simp add: is_identity_def anonymous_def dict_keys_fst keys_dict_put)
qed (simp_all add: is_identity_def)

lemma anonymized_hidden: "identities_hidden (anonymize_identities v)"
proof (induction v rule: anonymize_identities.induct)
  case (1 kvs)
  have deep: "(k, v) \<in> set kvs \<Longrightarrow> \<not> is_identity v \<Longrightarrow> identities_hidden (anonymize_identities v)" for k v
    using 1 by blast
  show ?case
    unfolding identities_hidden_def
  proof (intro ballI)
    fix ob p assume ob: "ob \<in> set (open_objects (anonymize_identities (JObject kvs)))" "p \<in> set ob"
    then consider (top) k v where "(k, v) \<in> set kvs" "p = (k, if is_identity v then anonymous v else anonymize_identities v)"
      | (deep) k v where "(k, v) \<in> set kvs" "\<not> is_identity v" "ob \<in> set (open_objects (anonymize_identities v))"
      by (auto simp: anonymize_keeps_kind anonymous_kind split: if_splits)
    then show "case p of (k, x) \<Rightarrow> is_identity x \<longrightarrow> is_anonymous x"
    proof cases
      case top
      then show ?thesis by (simp add: anonymous_hides anonymize_keeps_kind)
    next
      case deep': deep
      from deep[OF deep'(1,2)] deep'(3) ob(2) show ?thesis by (auto simp: identities_hidden_def)
    qed
  qed
qed (auto simp: identities_hidden_def)

lemma map_of_filtered: "map_of kvs k = (case filter (\<lambda>p. fst p = k) kvs of [] \<Rightarrow> None | p # _ \<Rightarrow> Some (snd p))"
  by (induction kvs) auto

lemma map_of_sorted: "map_of (sort_key fst kvs) k = map_of kvs k"
  unfolding map_of_filtered by (simp add: sort_key_stable)

lemma sorted_lookup: "map_of (map (\<lambda>(k, v). (k, sorted_keys v)) (sort_key fst kvs)) k = map_option sorted_keys (map_of kvs k)"
  by (simp add: map_of_map map_of_sorted)

lemma sorted_string: "sorted_keys v = JString s \<longleftrightarrow> v = JString s"
  by (cases v) auto

lemma sorted_kind: "is_identity (sorted_keys v) = is_identity v" "is_anonymous (sorted_keys v) = is_anonymous v"
  by (cases v; simp add: is_identity_def is_anonymous_def sorted_lookup sorted_string image_image case_prod_beta)+

lemma sorted_objects:
  "ob \<in> set (open_objects (sorted_keys v)) \<Longrightarrow> \<exists>ob' \<in> set (open_objects v). set ob = (\<lambda>(k, v). (k, sorted_keys v)) ` set ob'"
proof (induction v arbitrary: ob rule: sorted_keys.induct)
  case (1 kvs)
  then consider "ob = map (\<lambda>(k, v). (k, sorted_keys v)) (sort_key fst kvs)"
    | k v where "(k, v) \<in> set kvs" "\<not> is_identity v" "ob \<in> set (open_objects (sorted_keys v))"
    by (auto simp: sorted_kind split: if_splits)
  then show ?case
  proof cases
    case 1
    then show ?thesis by auto
  next
    case (2 k v)
    have "\<exists>ob' \<in> set (open_objects v). set ob = (\<lambda>(k, v). (k, sorted_keys v)) ` set ob'"
      by (rule 1(1)[of "(k, v)" k v]) (use 2 in auto)
    then obtain ob' where "ob' \<in> set (open_objects v)" "set ob = (\<lambda>(k, v). (k, sorted_keys v)) ` set ob'" by blast
    then show ?thesis using 2(1,2) by fastforce
  qed
qed fastforce+

lemma sorted_hidden: "identities_hidden v \<Longrightarrow> identities_hidden (sorted_keys v)"
  unfolding identities_hidden_def using sorted_objects by (fastforce simp: sorted_kind)

text \<open>The regular expression finds the API addresses whose API part is the first or second segment.\<close>

lemma org_match_rest:
  "org_match org ((''https://dev.azure.com/'' @ org) @ rest) =
     (let seg = takeWhile (\<lambda>c. c \<noteq> CHR ''/'') (drop 1 rest) in
      if \<not> starts_with ''/'' rest then None
      else case apis_tail (drop (Suc (length seg)) rest) of
          Some t \<Rightarrow> Some (''/'' @ seg, t)
        | None \<Rightarrow> map_option (Pair []) (apis_tail rest))"
proof -
  have "starts_with b (b @ r)" "drop (length b) (b @ r) = r" for b r :: string
    by (simp_all add: starts_with_append)
  then show ?thesis by (simp only: org_match_def Let_def simp_thms not_False_eq_True)
qed

lemma apis_tail_found: "apis_tail (''/_apis/'' @ x) \<noteq> None"
  by (simp add: apis_tail_def)

lemma slash_first: "starts_with ''/'' (CHR ''/'' # r)"
  by simp

lemma org_match_first: "org_match org (''https://dev.azure.com/'' @ org @ ''/_apis/'' @ x) \<noteq> None"
proof -
  have "starts_with ''/'' (''/_apis/'' @ x)" by simp
  then have "org_match org ((''https://dev.azure.com/'' @ org) @ ''/_apis/'' @ x) \<noteq> None"
    unfolding org_match_rest Let_def using apis_tail_found[of x] by (simp only: simp_thms if_False) (auto split: option.splits)
  then show ?thesis unfolding append_assoc .
qed

lemma org_match_second:
  assumes "CHR ''/'' \<notin> set seg"
  shows "org_match org (''https://dev.azure.com/'' @ org @ ''/'' @ seg @ ''/_apis/'' @ x) \<noteq> None"
proof -
  have seg: "takeWhile (\<lambda>c. c \<noteq> CHR ''/'') (drop 1 (''/'' @ seg @ ''/_apis/'' @ x)) = seg"
    using slash_split[OF assms, of "''/_apis/'' @ x"] by simp
  have rest: "starts_with ''/'' (''/'' @ seg @ ''/_apis/'' @ x)"
    "drop (Suc (length seg)) (''/'' @ seg @ ''/_apis/'' @ x) = ''/_apis/'' @ x"
    by simp_all
  have "org_match org ((''https://dev.azure.com/'' @ org) @ ''/'' @ seg @ ''/_apis/'' @ x) \<noteq> None"
    unfolding org_match_rest seg Let_def rest using apis_tail_found[of x]
    by (cases "apis_tail (''/_apis/'' @ x)")
      (simp_all only: rest simp_thms if_False option.case option.distinct not_True_eq_False not_False_eq_True)
  then show ?thesis unfolding append_assoc .
qed

text \<open>C37. What the export writes of an item has no links key at any depth; every identity stored under
  a key of an object outside an identity is the placeholder without its account fields; and no string of it
  is an address of the organization whose first or second segment is the API part, whatever follows.
  Addresses with a longer path before the API part, and those inside a longer text, are not covered:
  the lemma after the theorem shows that the export leaves them.\<close>

theorem exported_item_clean:
  assumes "CHR ''/'' \<notin> set org" "org \<noteq> ''$ADO_ORG''"
  shows "''_links'' \<notin> set (all_keys (cleaned org item)) \<and> identities_hidden (cleaned org item) \<and>
    (\<forall>x. ''https://dev.azure.com/'' @ org @ ''/_apis/'' @ x \<notin> set (all_strings (cleaned org item))) \<and>
    (\<forall>seg x. CHR ''/'' \<notin> set seg \<longrightarrow>
       ''https://dev.azure.com/'' @ org @ ''/'' @ seg @ ''/_apis/'' @ x \<notin> set (all_strings (cleaned org item)))"
proof -
  have "''_links'' \<notin> set (all_keys (cleaned org item))"
    using anonymized_keys[of "sanitize_urls org (strip_links item)"] stripped_keys[of item]
    by (auto simp: cleaned_def sorted_keys_keys sanitized_keys)
  moreover have "identities_hidden (cleaned org item)"
    unfolding cleaned_def by (rule sorted_hidden[OF anonymized_hidden])
  moreover have "org_match org s = None" if "s \<in> set (all_strings (cleaned org item))" for s
  proof -
    have "s \<in> {''Story Author'', ''<author>@example.com''} \<or> s \<in> range (sanitize_url org)"
      using that anonymized_strings[of "sanitize_urls org (strip_links item)"]
      by (auto simp: cleaned_def sorted_keys_strings sanitized_strings)
    then show ?thesis
      using sanitized_unmatched[OF assms] by (auto simp: org_match_def)
  qed
  ultimately show ?thesis using org_match_first org_match_second by blast
qed

text \<open>An address with a longer path, or inside a longer text, keeps the organization.\<close>

lemma other_addresses_kept:
  "sanitize_url ''acme'' ''https://dev.azure.com/acme/p/q/_apis/x'' = ''https://dev.azure.com/acme/p/q/_apis/x''"
  "sanitize_url ''acme'' ''see https://dev.azure.com/acme/_apis/x'' = ''see https://dev.azure.com/acme/_apis/x''"
  by code_simp+

text \<open>An identity inside a list is not replaced: its names are written as they are.\<close>

lemma listed_identity_leaks:
  assumes "map_of f ''displayName'' = Some (JString name)"
  shows "name \<in> set (all_strings (anonymize_identities (JObject [(key, JList [JObject f])])))"
proof -
  have "(''displayName'', JString name) \<in> set f" using assms by (rule map_of_SomeD)
  moreover have "\<not> is_identity (JString name)" by (simp add: is_identity_def)
  ultimately have "name \<in> set (all_strings (anonymize_identities (JObject f)))" by force
  then show ?thesis by (simp add: is_identity_def)
qed

definition exported_cases :: "(string \<times> string) list" where
  "exported_cases =
     concat (map (\<lambda>t. map (Pair t) SLUGS) (map snd TEMPLATE_BY_AREA)) @ map (Pair ''t1'') T1_ONLY_SLUGS"

text \<open>The ids the export assigns are exactly the gapless sequence the loader demands: the 42 pairs of the
  grid and the three comment scenarios get story-01 to story-45 in order, and no other pair gets an id.\<close>

theorem exported_ids_sequential:
  "map (\<lambda>(t, s). story_id_for t s) exported_cases = map (Some \<circ> story_number) [1..<46] \<and>
   {(t, s). story_id_for t s \<noteq> None} = set exported_cases"
proof
  show ids: "map (\<lambda>(t, s). story_id_for t s) exported_cases = map (Some \<circ> story_number) [1..<46]" by code_simp
  show "{(t, s). story_id_for t s \<noteq> None} = set exported_cases"
  proof (intro set_eqI iffI)
    fix p assume "p \<in> {(t, s). story_id_for t s \<noteq> None}"
    then obtain t s where p: "p = (t, s)" "story_id_for t s \<noteq> None" by auto
    then have t: "t \<in> set (map snd TEMPLATE_BY_AREA)"
      by (auto simp: story_id_for_def Let_def split: if_splits)
    have "s \<in> set SLUGS \<or> s \<in> set T1_ONLY_SLUGS \<and> t = ''t1''"
      using p(2) by (auto simp: story_id_for_def Let_def split: if_splits)
    then show "p \<in> set exported_cases" using t by (auto simp: exported_cases_def p(1))
  next
    fix p assume "p \<in> set exported_cases"
    then have "(case p of (t, s) \<Rightarrow> story_id_for t s) \<in> set (map (Some \<circ> story_number) [1..<46])"
      unfolding ids[symmetric] set_map by (rule imageI)
    then show "p \<in> {(t, s). story_id_for t s \<noteq> None}" by (auto simp del: upt_Suc)
  qed
qed

theorem exported_item_clean_witness:
  "identities_hidden (cleaned ''acme'' (JObject [(''_links'', JNull), (''u'', JString ''https://dev.azure.com/acme/_apis/x'')])) \<and>
   ''https://dev.azure.com/'' @ ''acme'' @ ''/_apis/'' @ ''x'' \<notin>
     set (all_strings (cleaned ''acme'' (JObject [(''_links'', JNull), (''u'', JString ''https://dev.azure.com/acme/_apis/x'')])))"
proof -
  have "CHR ''/'' \<notin> set ''acme''" "''acme'' \<noteq> ''$ADO_ORG''" by simp_all
  from exported_item_clean[OF this] show ?thesis by blast
qed

end
