(* ===== verification/Export_Run.thy ===== *)
theory Export_Run
  imports Ado_Export
begin

text \<open>
  A whole run of the export (\<open>main\<close> of \<open>dataset/tools/export_ado.py\<close>): the provenance of the stories, the checks
  before anything is written, the comments, and the files. Azure DevOps is a parameter, and so is the reading of
  the provenance files: their entries arrive as (id, template, scenario) in the order of the text. None: the
  script stops.
\<close>

section \<open>Inputs\<close>

type_synonym provenance = "(int, string \<times> string) dict"

record export_env =
  xe_org :: string
  xe_entries :: "(int \<times> string \<times> string) list"
  xe_ids :: "int list"
  xe_show :: "int \<Rightarrow> json"
  xe_comments :: "int \<Rightarrow> json list"

fun provenance_map :: "(int \<times> string \<times> string) list \<Rightarrow> provenance \<Rightarrow> provenance option" where
  "provenance_map [] prov = Some prov"
| "provenance_map ((wid, place) # entries) prov =
     (if wid \<in> set (dict_keys prov) then None else provenance_map entries (prov @ [(wid, place)]))"

definition query_ids :: "int list \<Rightarrow> int list" where
  "query_ids ids = sort ids"

definition string_field :: "json \<Rightarrow> string \<Rightarrow> string option" where
  "string_field v name =
     (case v of JObject kvs \<Rightarrow> (case map_of kvs name of Some (JString s) \<Rightarrow> Some s | _ \<Rightarrow> None) | _ \<Rightarrow> None)"

definition area_field :: "json \<Rightarrow> string option" where
  "area_field fs =
     (case fs of
        JObject kvs \<Rightarrow> (case map_of kvs ''System.AreaPath'' of None \<Rightarrow> Some [] | Some (JString a) \<Rightarrow> Some a | _ \<Rightarrow> None)
      | _ \<Rightarrow> None)"

text \<open>Comments are cleaned like the item and put in the order they were made.\<close>

definition cleaned_comment :: "string \<Rightarrow> json \<Rightarrow> json" where
  "cleaned_comment org c = anonymize_identities (sanitize_urls org (strip_links c))"

definition fetch_comments :: "string \<Rightarrow> json list \<Rightarrow> json list option" where
  "fetch_comments org raw =
     (let comments = map (cleaned_comment org) raw in
      if list_all (\<lambda>c. string_field c ''createdDate'' \<noteq> None) comments
      then Some (sort_key (\<lambda>c. the (string_field c ''createdDate'')) comments) else None)"

section \<open>Files\<close>

record exported_file =
  ef_source :: int
  ef_story :: "(string \<times> string \<times> string) option"
  ef_item :: json
  ef_comments :: "json list"

text \<open>
  The file of one item, with its path: a context file, or a story file with its id, template and scenario. An
  absent area path counts as the empty one.
\<close>

definition export_item :: "export_env \<Rightarrow> provenance \<Rightarrow> int \<Rightarrow> (string \<times> exported_file) option" where
  "export_item env prov wid =
     (let item = cleaned_comment (xe_org env) (xe_show env wid) in
      case item of
        JObject kvs \<Rightarrow>
          Option.bind (map_of kvs ''fields'') (\<lambda>fs.
          Option.bind (Option.bind (area_field fs) template_of_area) (\<lambda>template.
          if wid \<in> set CONTEXT_IDS then
            Option.bind (string_field fs ''System.Title'') (\<lambda>title.
            Some (''context/'' @ map (\<lambda>c. if c = CHR '' '' then CHR ''-'' else c) (lower title),
                  \<lparr>ef_source = wid, ef_story = None, ef_item = sorted_keys item, ef_comments = []\<rparr>))
          else Option.bind (map_of prov wid) (\<lambda>(expected, scenario).
            if template \<noteq> expected then None
            else Option.bind (story_id_for template scenario) (\<lambda>sid.
              Option.bind (fetch_comments (xe_org env) (xe_comments env wid)) (\<lambda>comments.
              Some (template @ ''/'' @ scenario,
                    \<lparr>ef_source = wid, ef_story = Some (sid, template, scenario), ef_item = sorted_keys item,
                     ef_comments = comments\<rparr>))))))
      | _ \<Rightarrow> None)"

fun export_items :: "export_env \<Rightarrow> provenance \<Rightarrow> int list \<Rightarrow> (string, exported_file) dict \<Rightarrow>
    (string, exported_file) dict option" where
  "export_items env prov [] files = Some files"
| "export_items env prov (wid # ids) files =
     Option.bind (export_item env prov wid) (\<lambda>(path, f). export_items env prov ids (dict_put path f files))"

definition EXPECTED_STORIES :: nat where "EXPECTED_STORIES = 45"

definition export_main :: "export_env \<Rightarrow> (string, exported_file) dict option" where
  "export_main env =
     Option.bind (provenance_map (xe_entries env) []) (\<lambda>prov.
     let ids = query_ids (xe_ids env);
         story_ids = filter (\<lambda>i. i \<notin> set CONTEXT_IDS) ids;
         context_ids = filter (\<lambda>i. i \<in> set CONTEXT_IDS) ids in
     if story_ids \<noteq> sort (dict_keys prov) then None
     else if length story_ids \<noteq> EXPECTED_STORIES then None
     else if sort context_ids \<noteq> sort CONTEXT_IDS then None
     else export_items env prov ids [])"

section \<open>What a completed run has written\<close>

lemma provenance_appends: "provenance_map entries prov = Some p \<Longrightarrow> p = prov @ entries"
  by (induction entries prov rule: provenance_map.induct) (simp_all split: if_splits)

lemma provenance_distinct:
  "provenance_map entries prov = Some p \<Longrightarrow> distinct (dict_keys prov) \<Longrightarrow> distinct (dict_keys p)"
  by (induction entries prov rule: provenance_map.induct) (simp_all add: dict_keys_def split: if_splits)

text \<open>The story files of a dictionary, by path, and what one item contributes.\<close>

definition story_paths :: "(string, exported_file) dict \<Rightarrow> string set" where
  "story_paths files = {path. \<exists>f. map_of files path = Some f \<and> ef_story f \<noteq> None}"

definition case_path :: "string \<times> string \<Rightarrow> string" where
  "case_path place = fst place @ ''/'' @ snd place"

lemma exported_place:
  assumes "export_item env prov wid = Some (path, f)"
  shows "if wid \<in> set CONTEXT_IDS then ef_story f = None \<and> starts_with ''context/'' path
    else \<exists>place sid. map_of prov wid = Some place \<and> path = case_path place \<and> place \<in> set exported_cases \<and>
      story_id_for (fst place) (snd place) = Some sid \<and> ef_story f = Some (sid, place)"
proof (cases "wid \<in> set CONTEXT_IDS")
  case True
  then show ?thesis
    using assms by (auto simp: export_item_def Let_def bind_eq_Some_conv starts_with_append split: json.splits)
next
  case False
  then obtain t s sid where "map_of prov wid = Some (t, s)" "path = t @ ''/'' @ s" "story_id_for t s = Some sid"
      "ef_story f = Some (sid, t, s)"
    using assms by (auto simp: export_item_def Let_def bind_eq_Some_conv split: json.splits if_splits)
  moreover from this have "(t, s) \<in> set exported_cases" using exported_ids_sequential by blast
  ultimately show ?thesis using False by (auto simp: case_path_def)
qed

lemma case_paths:
  "inj_on case_path (set exported_cases)" "place \<in> set exported_cases \<Longrightarrow> \<not> starts_with ''context/'' (case_path place)"
proof -
  have "distinct (map case_path exported_cases)" by code_simp
  then show "inj_on case_path (set exported_cases)" by (simp add: distinct_map)
  have "list_all (\<lambda>p. \<not> starts_with ''context/'' (case_path p)) exported_cases" by code_simp
  then show "place \<in> set exported_cases \<Longrightarrow> \<not> starts_with ''context/'' (case_path place)" by (simp add: list_all_iff)
qed

text \<open>Every file is at the path of its own story, or is a context file.\<close>

definition placed :: "provenance \<Rightarrow> (string, exported_file) dict \<Rightarrow> bool" where
  "placed prov files =
     (\<forall>path f. map_of files path = Some f \<longrightarrow>
        (case ef_story f of
           None \<Rightarrow> starts_with ''context/'' path
         | Some (sid, place) \<Rightarrow> path = case_path place \<and> place \<in> set exported_cases \<and> place \<in> snd ` set prov \<and>
             story_id_for (fst place) (snd place) = Some sid))"

lemma placed_put:
  assumes "placed prov files" "export_item env prov wid = Some (path, f)"
  shows "placed prov (dict_put path f files)"
proof -
  have "case ef_story f of None \<Rightarrow> starts_with ''context/'' path
      | Some (sid, place) \<Rightarrow> path = case_path place \<and> place \<in> set exported_cases \<and> place \<in> snd ` set prov \<and>
          story_id_for (fst place) (snd place) = Some sid"
    using exported_place[OF assms(2)] by (force split: if_splits dest!: map_of_SomeD)
  with assms(1) show ?thesis unfolding placed_def by (auto simp: map_of_dict_put)
qed

lemma story_paths_put:
  assumes "placed prov files" "export_item env prov wid = Some (path, f)"
  shows "story_paths (dict_put path f files) =
    story_paths files \<union> (if wid \<in> set CONTEXT_IDS then {} else case_path ` {place. map_of prov wid = Some place})"
proof (cases "wid \<in> set CONTEXT_IDS")
  case True
  then have f: "ef_story f = None" "starts_with ''context/'' path" using exported_place[OF assms(2)] by auto
  have other: "path \<noteq> q" if g: "map_of files q = Some g" and story: "ef_story g \<noteq> None" for q g
  proof -
    obtain sid place where "ef_story g = Some (sid, place)" using story by auto
    then have "q = case_path place \<and> place \<in> set exported_cases"
      using assms(1) g unfolding placed_def by fastforce
    then show ?thesis using case_paths(2) f(2) by blast
  qed
  have "q \<in> story_paths (dict_put path f files) \<longleftrightarrow> q \<in> story_paths files" for q
    using other f(1) unfolding story_paths_def by (cases "q = path") (simp_all add: map_of_dict_put, blast)
  then show ?thesis using True by auto
next
  case False
  then obtain place sid where p: "map_of prov wid = Some place" "path = case_path place" "ef_story f = Some (sid, place)"
    using exported_place[OF assms(2)] by auto
  have "story_paths (dict_put path f files) = insert path (story_paths files)"
    by (rule set_eqI) (simp add: story_paths_def map_of_dict_put p(3))
  then show ?thesis using False p(1,2) by simp
qed

lemma items_written:
  assumes "export_items env prov ids files = Some out" "placed prov files"
  shows "placed prov out \<and> story_paths out =
    story_paths files \<union> case_path ` {place. \<exists>wid \<in> set ids. wid \<notin> set CONTEXT_IDS \<and> map_of prov wid = Some place} \<and>
    {place. \<exists>wid \<in> set ids. wid \<notin> set CONTEXT_IDS \<and> map_of prov wid = Some place} \<subseteq> set exported_cases"
  using assms
proof (induction ids arbitrary: files)
  case (Cons wid ids)
  then obtain path f where one: "export_item env prov wid = Some (path, f)"
    and rest: "export_items env prov ids (dict_put path f files) = Some out"
    by (auto simp: bind_eq_Some_conv)
  note step = Cons.IH[OF rest placed_put[OF Cons.prems(2) one]]
  have first: "place \<in> set exported_cases" if "wid \<notin> set CONTEXT_IDS" "map_of prov wid = Some place" for place
    using exported_place[OF one] that by simp
  show ?case using step first unfolding story_paths_put[OF Cons.prems(2) one] by (auto split: if_splits)
qed auto

lemma numbered_case:
  assumes "place \<in> set exported_cases" "story_id_for (fst place) (snd place) = Some sid"
  shows "sid \<in> set (map story_number [1..<46])"
proof -
  have "Some sid \<in> (\<lambda>(t, s). story_id_for t s) ` set exported_cases"
    using assms by (metis (mono_tags, lifting) case_prod_beta image_eqI)
  also have "\<dots> = Some ` set (map story_number [1..<46])"
    unfolding set_map[symmetric] conjunct1[OF exported_ids_sequential] by (simp add: image_comp)
  finally show ?thesis by blast
qed

lemma case_numbered:
  assumes "sid \<in> set (map story_number [1..<46])"
  shows "\<exists>place \<in> set exported_cases. story_id_for (fst place) (snd place) = Some sid"
proof -
  have "Some sid \<in> Some ` set (map story_number [1..<46])" using assms by (rule imageI)
  also have "\<dots> = (\<lambda>(t, s). story_id_for t s) ` set exported_cases"
    unfolding set_map[symmetric] conjunct1[OF exported_ids_sequential] by (simp add: image_comp)
  finally show ?thesis by force
qed

text \<open>
  A completed run has one story file per case that the provenance names, under the story id the numbering gives
  that case; so if no two stories claim the same case, it has written exactly story-01 to story-45.
\<close>

theorem export_complete:
  assumes "export_main env = Some files"
  shows "story_paths files = case_path ` (snd ` set (xe_entries env)) \<and>
    card (story_paths files) = card (snd ` set (xe_entries env)) \<and>
    (distinct (map snd (xe_entries env)) \<longrightarrow>
       {sid. \<exists>path f place. map_of files path = Some f \<and> ef_story f = Some (sid, place)} =
         set (map story_number [1..<46]))"
proof -
  let ?ids = "query_ids (xe_ids env)" and ?prov = "xe_entries env"
  have prov: "provenance_map ?prov [] = Some ?prov"
    using assms provenance_appends[of ?prov "[]"] by (auto simp: export_main_def bind_eq_Some_conv)
  then have keys: "distinct (map fst ?prov)" using provenance_distinct[OF prov] by (simp add: dict_keys_def)
  have same: "filter (\<lambda>i. i \<notin> set CONTEXT_IDS) ?ids = sort (map fst ?prov)"
    and count: "length (filter (\<lambda>i. i \<notin> set CONTEXT_IDS) ?ids) = 45"
    and run: "export_items env ?prov ?ids [] = Some files"
    using assms prov by (auto simp: export_main_def bind_eq_Some_conv Let_def dict_keys_def EXPECTED_STORIES_def split: if_splits)
  have "\<forall>wid. wid \<in> set ?ids \<and> wid \<notin> set CONTEXT_IDS \<longleftrightarrow> wid \<in> fst ` set ?prov"
    using arg_cong[OF same, of set] by auto
  then have places: "{place. \<exists>wid \<in> set ?ids. wid \<notin> set CONTEXT_IDS \<and> map_of ?prov wid = Some place} = snd ` set ?prov"
    using keys by (force simp: map_of_eq_Some_iff image_iff)
  have written: "placed ?prov files" "story_paths files = case_path ` (snd ` set ?prov)"
      "snd ` set ?prov \<subseteq> set exported_cases"
    using items_written[OF run] unfolding places by (simp_all add: placed_def story_paths_def)
  have card: "card (story_paths files) = card (snd ` set ?prov)"
    unfolding written(2) by (rule card_image[OF inj_on_subset[OF case_paths(1) written(3)]])
  have all: "{sid. \<exists>path f place. map_of files path = Some f \<and> ef_story f = Some (sid, place)} = set (map story_number [1..<46])"
    if "distinct (map snd ?prov)"
  proof -
    have "length ?prov = 45" using arg_cong[OF same, of length] count by simp
    then have "card (snd ` set ?prov) = 45" using distinct_card[OF that] by simp
    moreover have "card (set exported_cases) = 45"
    proof -
      have "distinct exported_cases" "length exported_cases = 45" by code_simp+
      then show ?thesis by (metis distinct_card)
    qed
    ultimately have every: "snd ` set ?prov = set exported_cases"
      using card_subset_eq[OF _ written(3)] by simp
    show ?thesis
    proof (intro set_eqI iffI)
      fix sid assume "sid \<in> {sid. \<exists>path f place. map_of files path = Some f \<and> ef_story f = Some (sid, place)}"
      then obtain path f place where "map_of files path = Some f" "ef_story f = Some (sid, place)" by blast
      then have "place \<in> set exported_cases" "story_id_for (fst place) (snd place) = Some sid"
        using written(1) unfolding placed_def by fastforce+
      then show "sid \<in> set (map story_number [1..<46])" by (rule numbered_case)
    next
      fix sid assume "sid \<in> set (map story_number [1..<46])"
      then obtain place where p: "place \<in> set exported_cases" "story_id_for (fst place) (snd place) = Some sid"
        using case_numbered by blast
      then have "case_path place \<in> story_paths files" unfolding written(2) every by simp
      then obtain f sid' place' where f: "map_of files (case_path place) = Some f" "ef_story f = Some (sid', place')"
        by (auto simp: story_paths_def)
      have found: "case_path place = case_path place' \<and> place' \<in> set exported_cases \<and>
          story_id_for (fst place') (snd place') = Some sid'"
        using written(1) f unfolding placed_def by fastforce
      then have "place = place'" using inj_onD[OF case_paths(1)] p(1) by blast
      then have "sid' = sid" using found p(2) by simp
      then show "sid \<in> {sid. \<exists>path f place. map_of files path = Some f \<and> ef_story f = Some (sid, place)}"
        using f by blast
    qed
  qed
  show ?thesis using written(2) card all by blast
qed

text \<open>
  The provenance is checked for repeated items, not for repeated cases: two stories of one case pass every check,
  and the later one replaces the file of the earlier.
\<close>

lemma shared_case_overwrites:
  assumes "export_main env = Some files" "\<not> distinct (map snd (xe_entries env))"
  shows "card (story_paths files) < length (xe_entries env)"
proof -
  have "card (set (map snd (xe_entries env))) \<noteq> length (map snd (xe_entries env))"
    using assms(2) card_distinct by blast
  then have "card (snd ` set (xe_entries env)) < length (xe_entries env)"
    using card_length[of "map snd (xe_entries env)"] by simp
  moreover have "card (story_paths files) = card (snd ` set (xe_entries env))"
    using export_complete[OF assms(1)] by blast
  ultimately show ?thesis by (rule ord_eq_less_trans[rotated])
qed

end
