(* ===== verification/Service_Settings.thy ===== *)
theory Service_Settings
  imports Mcp_Ingress
begin

text \<open>
  The configuration of the services from their environment: the orchestration settings
  (\<open>orchestration/orchestration/config.py\<close>), the web front's (\<open>webui/webui/config.py\<close>), an agent's
  \<open>config.yaml\<close> and prompt (\<open>shared/agent_kit/agent_kit/config.py\<close>, \<open>prompts.py\<close>). Reading files, YAML and
  hashing are parameters.
\<close>

section \<open>Reading variables\<close>

datatype config_error = Missing string | InvalidMode string | NotANumber

definition setting :: "environ \<Rightarrow> string \<Rightarrow> string" where
  "setting env name = strip (getenv env name)"

definition required :: "environ \<Rightarrow> string \<Rightarrow> config_error + string" where
  "required env name = (let v = setting env name in bind_sum (need (v \<noteq> []) (Missing name)) (\<lambda>_. Inr v))"

definition optional_setting :: "environ \<Rightarrow> string \<Rightarrow> string option" where
  "optional_setting env name = (let v = setting env name in if v = [] then None else Some v)"

text \<open>The truthy values of a flag.\<close>

definition flag :: "string \<Rightarrow> bool" where
  "flag val = (strip val \<in> {''1'', ''true'', ''True''})"

section \<open>The orchestration settings\<close>

definition MANDATORY :: "string list" where
  "MANDATORY = [''ORCH_DB_DSN'', ''ORCH_STORY_URL'', ''ORCH_ARTIFACT_URL'', ''ORCH_REPORT_URL'', ''ORCH_BUCKET'']"

definition AE_POINTERS :: "string list" where
  "AE_POINTERS =
     [''ORCH_AE_BUSINESS_RESOURCE'', ''ORCH_AE_ENGINEERING_RESOURCE'', ''ORCH_AE_SYNTHESIS_RESOURCE'',
      ''ORCH_AE_FACILITATOR_RESOURCE'', ''ORCH_AE_BUSINESS_VERSION'', ''ORCH_AE_ENGINEERING_VERSION'',
      ''ORCH_AE_SYNTHESIS_VERSION'', ''ORCH_AE_FACILITATOR_VERSION'']"

definition AE_MANDATORY :: "string list" where
  "AE_MANDATORY = MANDATORY @ AE_POINTERS"

definition HTTP_URLS :: "string list" where
  "HTTP_URLS = [''ORCH_BUSINESS_URL'', ''ORCH_ENGINEERING_URL'', ''ORCH_SYNTHESIS_URL'', ''ORCH_FACILITATOR_URL'']"

datatype agent_mode = HttpAgents | AeAgents

text \<open>The pointers of one agent: its HTTP endpoint, its Agent Engine resource and version label.\<close>

record agent_pointers =
  ap_url :: string
  ap_resource :: "string option"
  ap_version :: "string option"

record Settings =
  st_db_dsn :: string
  st_story_url :: string
  st_artifact_url :: string
  st_report_url :: string
  st_bucket :: string
  st_business :: agent_pointers
  st_engineering :: agent_pointers
  st_synthesis :: agent_pointers
  st_facilitator :: agent_pointers
  st_request_deadline_seconds :: nat
  st_short_call_timeout_seconds :: nat
  st_short_call_attempts :: nat
  st_facilitator_timeout_seconds :: nat
  st_facilitator_attempts :: nat
  st_lease_ttl_seconds :: nat
  st_health_probe_timeout_seconds :: nat
  st_signed_url_ttl_seconds :: int
  st_gcs_public_url :: "string option"
  st_signer_email :: "string option"
  st_mcp_id_token_auth :: bool
  st_agent_mode :: agent_mode

definition agent_mode_of :: "environ \<Rightarrow> config_error + agent_mode" where
  "agent_mode_of env =
     (let mode = (case env ''ORCH_AGENT_MODE'' of None \<Rightarrow> ''http'' | Some v \<Rightarrow> strip v) in
      if mode = [] \<or> mode = ''http'' then Inr HttpAgents
      else if mode = ''ae'' then Inr AeAgents else Inl (InvalidMode mode))"

definition pointers :: "environ \<Rightarrow> string \<Rightarrow> agent_pointers" where
  "pointers env agent =
     \<lparr>ap_url = setting env (''ORCH_'' @ agent @ ''_URL''),
      ap_resource = optional_setting env (''ORCH_AE_'' @ agent @ ''_RESOURCE''),
      ap_version = optional_setting env (''ORCH_AE_'' @ agent @ ''_VERSION'')\<rparr>"

definition signed_url_ttl :: "environ \<Rightarrow> config_error + int" where
  "signed_url_ttl env =
     (case env ''ORCH_SIGNED_URL_TTL_SECONDS'' of None \<Rightarrow> Inr 900 | Some v \<Rightarrow> from_option NotANumber (int_of_text v))"

definition settings_from_env :: "environ \<Rightarrow> config_error + Settings" where
  "settings_from_env env =
     bind_sum (agent_mode_of env) (\<lambda>mode.
     bind_sum (each_sum (required env) (if mode = AeAgents then AE_MANDATORY else MANDATORY)) (\<lambda>_.
     bind_sum (if mode = HttpAgents then each_sum (required env) HTTP_URLS else Inr []) (\<lambda>_.
     bind_sum (if mode = AeAgents then each_sum (required env) AE_POINTERS else Inr []) (\<lambda>_.
     bind_sum (signed_url_ttl env) (\<lambda>ttl.
     Inr \<lparr>st_db_dsn = setting env ''ORCH_DB_DSN'', st_story_url = setting env ''ORCH_STORY_URL'',
          st_artifact_url = setting env ''ORCH_ARTIFACT_URL'', st_report_url = setting env ''ORCH_REPORT_URL'',
          st_bucket = setting env ''ORCH_BUCKET'',
          st_business = pointers env ''BUSINESS'', st_engineering = pointers env ''ENGINEERING'',
          st_synthesis = pointers env ''SYNTHESIS'', st_facilitator = pointers env ''FACILITATOR'',
          st_request_deadline_seconds = 300, st_short_call_timeout_seconds = 60, st_short_call_attempts = 3,
          st_facilitator_timeout_seconds = 120, st_facilitator_attempts = 2, st_lease_ttl_seconds = 360,
          st_health_probe_timeout_seconds = 5, st_signed_url_ttl_seconds = ttl,
          st_gcs_public_url = optional_setting env ''ORCH_GCS_PUBLIC_URL'',
          st_signer_email = optional_setting env ''ORCH_SIGNER_EMAIL'',
          st_mcp_id_token_auth = flag (getenv env ''ORCH_MCP_ID_TOKEN_AUTH''), st_agent_mode = mode\<rparr>)))))"

section \<open>The web front\<close>

record webui_settings =
  ws_orchestration_base_url :: string
  ws_id_token_auth :: bool

definition rstrip_slash :: "string \<Rightarrow> string" where
  "rstrip_slash s = rev (dropWhile (\<lambda>c. c = CHR ''/'') (rev s))"

definition webui_settings_from_env :: "environ \<Rightarrow> config_error + webui_settings" where
  "webui_settings_from_env env =
     (let url = rstrip_slash (setting env ''ORCHESTRATION_BASE_URL'') in
      bind_sum (need (url \<noteq> []) (Missing ''ORCHESTRATION_BASE_URL'')) (\<lambda>_.
      Inr \<lparr>ws_orchestration_base_url = url,
           ws_id_token_auth = flag (getenv env ''ORCHESTRATION_ID_TOKEN_AUTH'')\<rparr>))"

section \<open>Agents\<close>

text \<open>A val of the YAML mapping with the conversions Python offers for it (None: it raises).\<close>

record 'f yaml_value =
  yv_str :: string
  yv_float :: "'f option"
  yv_int :: "int option"

record 'f AgentConfig =
  ac_model :: string
  ac_location :: string
  ac_temperature :: 'f
  ac_max_output_tokens :: int

datatype agent_config_error = NoSuchFile | NotAMapping | MissingKeys "string list" | UnknownKeys "string list" | WrongType

definition REQUIRED_KEYS :: "string list" where
  "REQUIRED_KEYS = [''model'', ''location'', ''temperature'', ''max_output_tokens'']"

text \<open>The file: absent, not a mapping, or its entries.\<close>

definition load_agent_config :: "(string \<times> 'f yaml_value) list option option \<Rightarrow> agent_config_error + 'f AgentConfig" where
  "load_agent_config content =
     bind_sum (from_option NoSuchFile content) (\<lambda>parsed.
     bind_sum (from_option NotAMapping parsed) (\<lambda>entries.
     let missing = filter (\<lambda>k. k \<notin> fst ` set entries) REQUIRED_KEYS;
         unknown = filter (\<lambda>k. k \<notin> set REQUIRED_KEYS) (map fst entries);
         val = (\<lambda>k. from_option WrongType (map_of entries k)) in
     bind_sum (need (missing = []) (MissingKeys missing)) (\<lambda>_.
     bind_sum (need (unknown = []) (UnknownKeys (sort unknown))) (\<lambda>_.
     bind_sum (val ''model'') (\<lambda>m.
     bind_sum (val ''location'') (\<lambda>l.
     bind_sum (val ''temperature'') (\<lambda>t.
     bind_sum (val ''max_output_tokens'') (\<lambda>n.
     bind_sum (from_option WrongType (yv_float t)) (\<lambda>temperature.
     bind_sum (from_option WrongType (yv_int n)) (\<lambda>tokens.
     Inr \<lparr>ac_model = yv_str m, ac_location = yv_str l, ac_temperature = temperature,
          ac_max_output_tokens = tokens\<rparr>))))))))))"

text \<open>Prompts: \<open>^[a-z0-9][a-z0-9-]*$\<close>, where the final \<open>$\<close> of \<open>re.match\<close> allows one trailing newline.\<close>

definition slug_char :: "char \<Rightarrow> bool" where
  "slug_char c = (is_lower c \<or> is_digit c)"

definition slug_text :: "string \<Rightarrow> bool" where
  "slug_text s = (case s of [] \<Rightarrow> False | c # t \<Rightarrow> slug_char c \<and> list_all (\<lambda>d. slug_char d \<or> d = CHR ''-'') t)"

definition valid_slug :: "string \<Rightarrow> bool" where
  "valid_slug s = (slug_text s \<or> s \<noteq> [] \<and> last s = char_of (10::nat) \<and> slug_text (butlast s))"

definition prompts_dir :: "string option \<Rightarrow> environ \<Rightarrow> string" where
  "prompts_dir explicit env =
     (case explicit of
        Some d \<Rightarrow> d
      | None \<Rightarrow> if getenv env ''PROMPTS_DIR'' \<noteq> [] then getenv env ''PROMPTS_DIR'' else ''/app/prompts'')"

record LoadedPrompt =
  lp_slug :: string
  lp_text :: string
  lp_sha256 :: string

datatype prompt_error = InvalidSlug | NoPromptFile | NotUtf8

text \<open>Reading bytes, decoding them and their digest are parameters.\<close>

definition load_prompt ::
    "(string \<Rightarrow> 'b option) \<Rightarrow> ('b \<Rightarrow> string option) \<Rightarrow> ('b \<Rightarrow> string) \<Rightarrow> environ \<Rightarrow> string \<Rightarrow> string option \<Rightarrow>
     prompt_error + LoadedPrompt" where
  "load_prompt read_bytes decode sha env slug explicit =
     bind_sum (need (valid_slug slug) InvalidSlug) (\<lambda>_.
     bind_sum (from_option NoPromptFile (read_bytes (prompts_dir explicit env @ ''/'' @ slug @ ''.md''))) (\<lambda>raw.
     bind_sum (from_option NotUtf8 (decode raw)) (\<lambda>content.
     Inr \<lparr>lp_slug = slug, lp_text = content, lp_sha256 = sha raw\<rparr>)))"

section \<open>A service that starts is configured\<close>

lemma required_ok: "required env name = Inr v \<longleftrightarrow> v = setting env name \<and> v \<noteq> []"
  by (auto simp: required_def Let_def sum_simps)

lemma all_required: "each_sum (required env) names = Inr vs \<Longrightarrow> \<forall>name \<in> set names. setting env name \<noteq> []"
  unfolding each_sum_ok by (induction rule: list_all2_induct) (auto simp: required_ok)

text \<open>A failing start names the first variable that is missing.\<close>

lemma first_missing:
  "each_sum (required env) names = Inl e \<Longrightarrow>
     \<exists>before name after. names = before @ name # after \<and> e = Missing name \<and> setting env name = [] \<and>
       (\<forall>n \<in> set before. setting env n \<noteq> [])"
proof (induction names)
  case (Cons n names)
  show ?case
  proof (cases "setting env n = []")
    case True
    then show ?thesis using Cons(2)
      by (intro exI[of _ "[]"] exI[of _ n] exI[of _ names]) (simp add: required_def need_def)
  next
    case False
    then have "required env n = Inr (setting env n)" by (simp add: required_ok)
    then have "each_sum (required env) names = Inl e"
      using Cons(2) by (cases "each_sum (required env) names") simp_all
    from Cons(1)[OF this] obtain before name after where "names = before @ name # after" "e = Missing name" "setting env name = []"
      "\<forall>n \<in> set before. setting env n \<noteq> []" by blast
    then show ?thesis using False by (intro exI[of _ "n # before"] exI[of _ name] exI[of _ after]) simp
  qed
qed simp

lemma settings_ok:
  assumes "settings_from_env env = Inr s"
  shows "st_db_dsn s \<noteq> []" "st_story_url s \<noteq> []" "st_artifact_url s \<noteq> []" "st_report_url s \<noteq> []" "st_bucket s \<noteq> []"
    "st_agent_mode s = HttpAgents \<Longrightarrow> a \<in> {st_business s, st_engineering s, st_synthesis s, st_facilitator s} \<Longrightarrow> ap_url a \<noteq> []"
    "st_agent_mode s = AeAgents \<Longrightarrow> a \<in> {st_business s, st_engineering s, st_synthesis s, st_facilitator s} \<Longrightarrow>
       ap_resource a \<noteq> None \<and> ap_version a \<noteq> None"
proof -
  obtain mode xs ys zs ttl where m: "agent_mode_of env = Inr mode"
    "each_sum (required env) (if mode = AeAgents then AE_MANDATORY else MANDATORY) = Inr xs"
    "(if mode = HttpAgents then each_sum (required env) HTTP_URLS else Inr []) = Inr ys"
    and s: "st_agent_mode s = mode" "st_db_dsn s = setting env ''ORCH_DB_DSN''" "st_story_url s = setting env ''ORCH_STORY_URL''"
      "st_artifact_url s = setting env ''ORCH_ARTIFACT_URL''" "st_report_url s = setting env ''ORCH_REPORT_URL''"
      "st_bucket s = setting env ''ORCH_BUCKET''" "st_business s = pointers env ''BUSINESS''"
      "st_engineering s = pointers env ''ENGINEERING''" "st_synthesis s = pointers env ''SYNTHESIS''"
      "st_facilitator s = pointers env ''FACILITATOR''"
    using assms by (auto simp: settings_from_env_def sum_simps simp del: each_sum.simps)
  have base: "\<forall>name \<in> set MANDATORY. setting env name \<noteq> []"
    using all_required[OF m(2)] by (auto simp: AE_MANDATORY_def split: if_splits)
  then show "st_db_dsn s \<noteq> []" "st_story_url s \<noteq> []" "st_artifact_url s \<noteq> []" "st_report_url s \<noteq> []" "st_bucket s \<noteq> []"
    by (simp_all add: s MANDATORY_def)
  show "ap_url a \<noteq> []" if "st_agent_mode s = HttpAgents" "a \<in> {st_business s, st_engineering s, st_synthesis s, st_facilitator s}"
  proof -
    have "\<forall>name \<in> set HTTP_URLS. setting env name \<noteq> []"
      using m(3) that(1) s(1) all_required by (auto split: if_splits)
    then show ?thesis using that(2) by (auto simp: s pointers_def HTTP_URLS_def)
  qed
  show "ap_resource a \<noteq> None \<and> ap_version a \<noteq> None"
    if "st_agent_mode s = AeAgents" "a \<in> {st_business s, st_engineering s, st_synthesis s, st_facilitator s}"
  proof -
    have "\<forall>name \<in> set AE_POINTERS. setting env name \<noteq> []"
      using all_required[OF m(2)] that(1) s(1) by (auto simp: AE_MANDATORY_def split: if_splits)
    then show ?thesis using that(2) by (auto simp: s pointers_def optional_setting_def Let_def AE_POINTERS_def)
  qed
qed

end
