(* ===== verification/Signed_Links.thy ===== *)
theory Signed_Links
  imports Report_Store Cursors Json Service_Settings
begin

text \<open>
  Download links of reports (\<open>orchestration/orchestration/signed_urls.py\<close>) and the keyless signing behind
  them (\<open>orchestration/orchestration/iam_signing.py\<close>). The storage library's V4 signature over a bucket, an
  object name and an expiry is a parameter, as are the attached credentials, their access token and the IAM
  service; the object names are the ones of the report server's bucket
  (\<open>mcp_servers/report/report_mcp/storage.py\<close>).
\<close>

section \<open>Object names\<close>

definition removeprefix :: "string \<Rightarrow> string \<Rightarrow> string" where
  "removeprefix prefix s = (if starts_with prefix s then drop (length prefix) s else s)"

definition report_object_name :: "ArtifactReference \<Rightarrow> string" where
  "report_object_name ref =
     ''runs/'' @ ar_story_run_id ref @ ''/reports/'' @ ar_artifact_id ref @ ''.'' @
     removeprefix ''report-'' (artifact_type_name (ar_type ref))"

text \<open>The report server's own layout of the rendered bytes, and the object a name stands for in it.\<close>

fun format_name :: "report_format \<Rightarrow> string" where
  "format_name Md = ''md''"
| "format_name Pdf = ''pdf''"

fun REPORT_KEY :: "string \<times> string \<times> report_format \<Rightarrow> string" where
  "REPORT_KEY (rn, aid, fmt) = ''runs/'' @ rn @ ''/reports/'' @ aid @ ''.'' @ format_name fmt"

definition report_object :: "rep_state \<Rightarrow> string \<Rightarrow> string option" where
  "report_object s = map_of (map (\<lambda>(key, b). (REPORT_KEY key, b)) (ro_bytes s))"

section \<open>Signed links\<close>

fun find_at :: "string \<Rightarrow> string \<Rightarrow> nat option" where
  "find_at n [] = (if n = [] then Some 0 else None)"
| "find_at n (c # s) = (if starts_with n (c # s) then Some 0 else map_option Suc (find_at n s))"

text \<open>A search that fails is -1 in the source: the scheme is then taken to end at 2, and the path to be the
  last character.\<close>

definition rewrite_host :: "string \<Rightarrow> string \<Rightarrow> string" where
  "rewrite_host url public_url =
     (let start = (case find_at ''://'' url of Some i \<Rightarrow> i + 3 | None \<Rightarrow> 2) in
      public_url @ (case find_at ''/'' (drop start url) of
          Some j \<Rightarrow> drop (start + j) url
        | None \<Rightarrow> drop (length url - 1) url))"

record report_signer =
  sg_bucket :: string
  sg_ttl :: int
  sg_public_url :: "string option"
  sg_signer_email :: "string option"

definition signer_from_settings :: "Settings \<Rightarrow> report_signer" where
  "signer_from_settings s =
     \<lparr>sg_bucket = st_bucket s, sg_ttl = st_signed_url_ttl_seconds s * 1000000,
      sg_public_url = (case st_gcs_public_url s of
          None \<Rightarrow> None | Some url \<Rightarrow> if url = [] then None else Some (rstrip_slash url)),
      sg_signer_email = st_signer_email s\<rparr>"

text \<open>The link of one reference at a moment, and when it expires. An empty public address is no address.\<close>

definition signed_link ::
    "(string \<Rightarrow> string \<Rightarrow> instant \<Rightarrow> string) \<Rightarrow> report_signer \<Rightarrow> instant \<Rightarrow> ArtifactReference \<Rightarrow> string \<times> instant" where
  "signed_link generate s moment ref =
     (let expires_at = moment + sg_ttl s;
          url = generate (sg_bucket s) (report_object_name ref) expires_at in
      (case sg_public_url s of
         None \<Rightarrow> url | Some public_url \<Rightarrow> if public_url = [] then url else rewrite_host url public_url,
       expires_at))"

section \<open>Keyless signing\<close>

definition iam_signer_email :: "environ \<Rightarrow> string option \<Rightarrow> string \<Rightarrow> string option" where
  "iam_signer_email env attached hint =
     (let override = strip (getenv env ''ORCH_SIGNER_EMAIL'');
          email = (if strip hint \<noteq> [] then strip hint else case attached of None \<Rightarrow> [] | Some e \<Rightarrow> e) in
      if override \<noteq> [] then Some override else if email \<noteq> [] then Some email else None)"

text \<open>Standard base 64 is the URL-safe one with two letters exchanged; decoding skips what is outside it.\<close>

definition standard_char :: "char \<Rightarrow> char" where
  "standard_char c = (if c = CHR ''-'' then CHR ''+'' else if c = CHR ''_'' then CHR ''/'' else c)"

definition b64encode :: "string \<Rightarrow> string" where
  "b64encode s = map standard_char (urlsafe_b64encode s)"

definition b64decode :: "string \<Rightarrow> string option" where
  "b64decode s = urlsafe_b64decode (filter (\<lambda>c. c \<noteq> CHR ''-'' \<and> c \<noteq> CHR ''_'') s)"

definition sign_blob_url :: "string \<Rightarrow> string" where
  "sign_blob_url email =
     ''https://iamcredentials.googleapis.com/v1/projects/-/serviceAccounts/'' @ email @ '':signBlob''"

text \<open>What the IAM call answers (None when it fails), and the signature read from it.\<close>

definition sign_bytes ::
    "(string \<Rightarrow> string \<Rightarrow> json \<Rightarrow> json option) \<Rightarrow> string \<Rightarrow> string \<Rightarrow> string \<Rightarrow> string option" where
  "sign_bytes transport token email message =
     (case transport (sign_blob_url email) token (JObject [(''payload'', JString (b64encode message))]) of
        Some (JObject kvs) \<Rightarrow>
          (case map_of kvs ''signedBlob'' of Some (JString blob) \<Rightarrow> b64decode blob | _ \<Rightarrow> None)
      | _ \<Rightarrow> None)"

section \<open>Base 64 comes back\<close>

lemma byte_eq: "c = d \<longleftrightarrow> byte c = byte d"
  by (simp add: byte_def)

lemma standard_char_facts:
  "sextet_of (standard_char c) = sextet_of c" "standard_char c = CHR ''='' \<longleftrightarrow> c = CHR ''=''"
  "standard_char c \<noteq> CHR ''-'' \<and> standard_char c \<noteq> CHR ''_''"
  by (simp_all add: standard_char_def sextet_of_def byte_def Let_def)

lemma a2b_standard: "a2b q left pd (map standard_char s) = a2b q left pd s"
proof (induction s arbitrary: q left pd)
  case (Cons c s)
  then show ?case by (cases "sextet_of c") (simp_all add: a2b.simps(2) standard_char_facts)
qed simp

lemma b64_round: "b64decode (b64encode s) = Some s"
proof -
  let ?ns = "sextets (map byte s)"
  have "filter (\<lambda>c. c \<noteq> CHR ''-'' \<and> c \<noteq> CHR ''_'') (map standard_char cs) = map standard_char cs" for cs
    by (induction cs) (simp_all add: standard_char_facts)
  then have "b64decode (b64encode s) = urlsafe_b64decode (map standard_char (urlsafe_b64encode s))"
    by (simp only: b64decode_def b64encode_def)
  also have "\<dots> = urlsafe_b64decode (urlsafe_b64encode s)"
    unfolding urlsafe_b64decode_def by (simp only: a2b_standard)
  also have "urlsafe_b64encode s = map sextet_char ?ns @ pads (length ?ns)"
  proof -
    have "(3 - length bs mod 3) mod 3 = (4 - length (sextets bs) mod 4) mod 4" for bs
    proof (induction bs rule: sextets.induct)
      case (4 a b c bs)
      have quads: "Suc (Suc (Suc n)) mod 3 = n mod 3" "Suc (Suc (Suc (Suc n))) mod 4 = n mod 4" for n :: nat
        by presburger+
      show ?case
        using 4 by (simp only: sextets.simps append.simps list.size add_0 add_0_right add_Suc_right One_nat_def quads)
    qed simp_all
    from this[of "map byte s"] show ?thesis by (simp add: urlsafe_b64encode_def pads_def)
  qed
  also have "urlsafe_b64decode \<dots> = Some s"
    using a2b_sextets[OF bytes_small, of s] by (simp add: urlsafe_b64decode_def byte_def comp_def)
  finally show ?thesis .
qed

text \<open>When IAM signs the bytes it was asked to sign, the caller gets exactly that signature.\<close>

lemma sign_bytes_returns:
  assumes "\<And>token payload. transport (sign_blob_url email) token (JObject [(''payload'', JString payload)]) =
    map_option (\<lambda>m. JObject [(''keyId'', JString ''k''), (''signedBlob'', JString (b64encode (signature m)))]) (b64decode payload)"
  shows "sign_bytes transport token email message = Some (signature message)"
  by (simp add: sign_bytes_def assms b64_round)

section \<open>A link reaches its report\<close>

lemma rewrite_host_path:
  assumes "CHR '':'' \<notin> set scheme" "CHR ''/'' \<notin> set host"
  shows "rewrite_host (scheme @ ''://'' @ host @ CHR ''/'' # path) public_url = public_url @ CHR ''/'' # path"
proof -
  have "find_at ''://'' (scheme @ ''://'' @ rest) = Some (length scheme)" for rest
    using assms(1) by (induction scheme) auto
  moreover have "find_at ''/'' (host @ CHR ''/'' # path) = Some (length host)"
    using assms(2) by (induction host) auto
  moreover have "drop (3 + k) (a # b # c # xs) = drop k xs" for k and a b c :: char and xs
    by (simp add: numeral_3_eq_3)
  ultimately show ?thesis by (simp add: rewrite_host_def)
qed

lemma format_name_of: "removeprefix ''report-'' (artifact_type_name (report_type fmt)) = format_name fmt"
  by (cases fmt) (simp_all add: removeprefix_def)

lemma tail_unique:
  "x \<notin> set b \<Longrightarrow> x \<notin> set d \<Longrightarrow> a @ x # b = c @ x # d \<Longrightarrow> a = c \<and> b = d"
proof (induction b arbitrary: d rule: rev_induct)
  case Nil
  then show ?case by (cases d rule: rev_cases) auto
next
  case (snoc y ys)
  then show ?case by (cases d rule: rev_cases) auto
qed

lemma head_unique:
  "x \<notin> set a \<Longrightarrow> x \<notin> set c \<Longrightarrow> a @ x # b = c @ x # d \<Longrightarrow> a = c \<and> b = d"
proof (induction a arbitrary: c)
  case Nil
  then show ?case by (cases c) auto
next
  case (Cons y ys)
  then show ?case by (cases c) auto
qed

lemma minted_chars: "c \<in> set (artifact_id_of u) \<Longrightarrow> c \<noteq> CHR ''/'' \<and> c \<noteq> CHR ''.''"
proof -
  have "is_lower_hex c" if "c \<in> set (hex_digits u)" using that by (auto simp: hex_digits_def)
  moreover have "c \<in> set (hex_digits u) \<or> c \<in> set ''art-''" if "c \<in> set (artifact_id_of u)"
    using that by (auto simp: artifact_id_of_def uuid_str_def Let_def dest: in_set_takeD in_set_dropD)
  ultimately show "c \<in> set (artifact_id_of u) \<Longrightarrow> c \<noteq> CHR ''/'' \<and> c \<noteq> CHR ''.''"
    by (auto simp: is_lower_hex_def is_digit_def Let_def)
qed

lemma report_key_inj:
  assumes "REPORT_KEY (rn, artifact_id_of u, fmt) = REPORT_KEY (rn', artifact_id_of v, fmt')"
  shows "(rn, artifact_id_of u, fmt) = (rn', artifact_id_of v, fmt')"
proof -
  let ?n = "\<lambda>u fmt. artifact_id_of u @ CHR ''.'' # format_name fmt"
  have slash: "CHR ''/'' \<notin> set (?n u fmt)" for u fmt
    using minted_chars[of "CHR ''/''" u] by (cases fmt) auto
  have "(rn @ ''/reports'') @ CHR ''/'' # ?n u fmt = (rn' @ ''/reports'') @ CHR ''/'' # ?n v fmt'"
    using assms by simp
  from tail_unique[OF slash slash this] have rn: "rn = rn'" and "?n u fmt = ?n v fmt'" by auto
  moreover have "CHR ''.'' \<notin> set (artifact_id_of u)" for u using minted_chars[of "CHR ''.''" u] by auto
  ultimately have "artifact_id_of u = artifact_id_of v" "format_name fmt = format_name fmt'"
    using head_unique[of "CHR ''.''" "artifact_id_of u" "artifact_id_of v" "format_name fmt" "format_name fmt'"]
    by blast+
  then show ?thesis using rn by (cases fmt; cases fmt') auto
qed

lemma map_of_renamed:
  assumes "map_of kvs k = Some b" "\<And>j. j \<in> fst ` set kvs \<Longrightarrow> f j = f k \<Longrightarrow> j = k"
  shows "map_of (map (\<lambda>(key, b). (f key, b)) kvs) (f k) = Some b"
  using assms
proof (induction kvs)
  case (Cons kv kvs)
  show ?case
  proof (cases "fst kv = k")
    case True
    then show ?thesis using Cons.prems(1) by (cases kv) simp
  next
    case False
    then have "f (fst kv) \<noteq> f k" using Cons.prems(2)[of "fst kv"] by auto
    then show ?thesis using Cons False by (cases kv) simp
  qed
qed simp

lemma stored_key_minted:
  assumes "rep_inv env arts n s" "(rn, aid, fmt) \<in> fst ` set (ro_bytes s)"
  shows "\<exists>u. aid = artifact_id_of u"
proof -
  obtain b where "map_of (ro_bytes s) (rn, aid, fmt) = Some b"
    using assms(2) by (metis domD dom_map_of_conv_image_fst)
  then obtain c where "map_of (ro_claims s) (rn, fmt) = Some c" "rc_artifact_id c = aid"
    using assms(1) unfolding rep_inv_def bytes_ok_def by blast
  then show ?thesis using assms(1) unfolding rep_inv_def claim_ids_def by blast
qed

text \<open>C35. The object that a signed link names is the report. The report service and the orchestration service each
  spell the object name; for every reference the report store has recorded, the name the signer puts into the
  link is the name of stored bytes, of that reference's format and checksum, that are the rendering of the
  finalized review the run claimed, and the local host rewriting leaves the object part of the link alone.\<close>

theorem signed_link_reaches_report:
  assumes "rep_inv env arts n s" "map_of (ro_meta s) (rn, aid) = Some ref"
  shows "\<exists>fmt c b. ar_type ref = report_type fmt \<and>
    report_object s (report_object_name ref) = Some b \<and> pv_sha256 env b = ar_checksum_sha256 ref \<and>
    map_of (ro_claims s) (rn, fmt) = Some c \<and>
    rendering env arts rn (rc_final_id c) (rc_final_checksum c) fmt = Some b \<and>
    fst (signed_link (\<lambda>bucket name expires. ''https://storage.googleapis.com/'' @ bucket @ ''/'' @ name @ query expires)
      signer moment ref) =
      (case sg_public_url signer of None \<Rightarrow> ''https://storage.googleapis.com''
        | Some p \<Rightarrow> if p = [] then ''https://storage.googleapis.com'' else p)
      @ ''/'' @ sg_bucket signer @ ''/'' @ report_object_name ref @ query (moment + sg_ttl signer)"
proof -
  obtain fmt c b where ref: "ar_artifact_id ref = aid" "ar_story_run_id ref = rn" "ar_type ref = report_type fmt"
      "ar_checksum_sha256 ref = pv_sha256 env b" and c: "map_of (ro_claims s) (rn, fmt) = Some c" "rc_artifact_id c = aid"
    and b: "map_of (ro_bytes s) (rn, aid, fmt) = Some b"
    using assms unfolding rep_inv_def metas_ok_def report_ok_def by blast
  have name: "report_object_name ref = REPORT_KEY (rn, aid, fmt)"
    by (simp add: report_object_name_def ref format_name_of)
  have "(rn, aid, fmt) \<in> fst ` set (ro_bytes s)" using b by (metis domI dom_map_of_conv_image_fst)
  then obtain u where u: "aid = artifact_id_of u" using stored_key_minted[OF assms(1)] by blast
  have "report_object s (report_object_name ref) = Some b"
    unfolding report_object_def name
  proof (rule map_of_renamed[OF b])
    fix j assume j: "j \<in> fst ` set (ro_bytes s)" "REPORT_KEY j = REPORT_KEY (rn, aid, fmt)"
    obtain rn' aid' fmt' where eq: "j = (rn', aid', fmt')" by (cases j)
    then obtain v where "aid' = artifact_id_of v" using stored_key_minted[OF assms(1)] j(1) by blast
    then show "j = (rn, aid, fmt)" using report_key_inj j(2) unfolding eq u by blast
  qed
  moreover have "rendering env arts rn (rc_final_id c) (rc_final_checksum c) fmt = Some b"
    using assms(1) b c(1) unfolding rep_inv_def bytes_ok_def by fastforce
  moreover have "rewrite_host (''https://storage.googleapis.com/'' @ sg_bucket signer @ ''/'' @ report_object_name ref @ q) p
      = p @ ''/'' @ sg_bucket signer @ ''/'' @ report_object_name ref @ q" for p q
    using rewrite_host_path[of "''https''" "''storage.googleapis.com''"] by simp
  ultimately show ?thesis using ref c by (fastforce simp: signed_link_def Let_def split: option.split)
qed

theorem signed_link_reaches_report_witness:
  "\<exists>ref b. map_of (ro_meta demo_reports) (demo_run, ar_artifact_id ref) = Some ref \<and>
    report_object demo_reports (report_object_name ref) = Some b \<and> b = ar_checksum_sha256 ref"
proof -
  obtain ref where ref: "map_of (ro_meta demo_reports) (demo_run, ar_artifact_id ref) = Some ref"
    using demo_stored by blast
  from signed_link_reaches_report[OF demo_reports_inv this] ref show ?thesis
    by (fastforce simp: demo_rep_env_def)
qed

end
