(* ===== verification/Web_Front.thy ===== *)
theory Web_Front
  imports Service_Settings
begin

text \<open>
  The web front (\<open>webui/webui/main.py\<close>): the proxy of \<open>/api/\<close> to the orchestration service with its path
  check and header filter, and the ID tokens both services attach (\<open>webui/webui/id_tokens.py\<close>,
  \<open>orchestration/orchestration/id_tokens.py\<close>). The metadata server, the clock and the upstream exchange are
  parameters; header names compare without case. A query is its list of decoded pairs: reading them off
  the URL and encoding them again is Starlette's and HTTPX's.
\<close>

section \<open>ID tokens\<close>

definition EXPIRY_MARGIN :: int where "EXPIRY_MARGIN = 60"

text \<open>The metadata server: a token and its lifetime in seconds for an audience, or None for an \<open>OSError\<close>.\<close>

record token_env =
  tk_fetch :: "string \<Rightarrow> (string \<times> int) option"
  tk_checked_at :: int
  tk_minted_at :: int

definition mint :: "token_env \<Rightarrow> string \<Rightarrow> (string \<times> int) option" where
  "mint env audience =
     (case tk_fetch env audience of
        None \<Rightarrow> None
      | Some (token, expires_in) \<Rightarrow>
          if strip token = [] then None else Some (strip token, tk_minted_at env + expires_in))"

definition bearer :: "string \<Rightarrow> string" where
  "bearer token = ''Bearer '' @ token"

text \<open>The orchestration service keeps one token per audience.\<close>

definition metadata_id_token ::
    "token_env \<Rightarrow> string \<Rightarrow> (string, string \<times> int) dict \<Rightarrow> string option \<times> (string, string \<times> int) dict" where
  "metadata_id_token env audience cache =
     (let fresh = (case mint env audience of
          None \<Rightarrow> (None, cache)
        | Some (token, expires_at) \<Rightarrow> (Some (bearer token), dict_put audience (token, expires_at) cache)) in
      case map_of cache audience of
        Some (token, expires_at) \<Rightarrow>
          if tk_checked_at env + EXPIRY_MARGIN < expires_at then (Some (bearer token), cache) else fresh
      | None \<Rightarrow> fresh)"

text \<open>The web front has one audience and keeps one token.\<close>

definition front_id_token :: "token_env \<Rightarrow> string \<Rightarrow> (string \<times> int) option \<Rightarrow> string option \<times> (string \<times> int) option" where
  "front_id_token env audience cache =
     (let fresh = (case mint env audience of
          None \<Rightarrow> (None, cache)
        | Some (token, expires_at) \<Rightarrow> (Some (bearer token), Some (token, expires_at))) in
      case cache of
        Some (token, expires_at) \<Rightarrow>
          if tk_checked_at env + EXPIRY_MARGIN < expires_at then (Some (bearer token), cache) else fresh
      | None \<Rightarrow> fresh)"

section \<open>The path check\<close>

text \<open>The loop of \<open>posixpath.normpath\<close>: the kept components, last one first.\<close>

fun norm_components :: "bool \<Rightarrow> string list \<Rightarrow> string list \<Rightarrow> string list" where
  "norm_components rooted kept [] = kept"
| "norm_components rooted kept (c # cs) =
     (if c = [] \<or> c = ''.'' then norm_components rooted kept cs
      else if c \<noteq> ''..'' \<or> (\<not> rooted \<and> kept = []) \<or> (kept \<noteq> [] \<and> hd kept = ''..'')
        then norm_components rooted (c # kept) cs
      else if kept \<noteq> [] then norm_components rooted (tl kept) cs
      else norm_components rooted kept cs)"

definition initial_slashes :: "string \<Rightarrow> string" where
  "initial_slashes path =
     (if starts_with ''//'' path \<and> \<not> starts_with ''///'' path then ''//''
      else if starts_with ''/'' path then ''/'' else [])"

definition normpath :: "string \<Rightarrow> string" where
  "normpath path =
     (if path = [] then ''.''
      else let slashes = initial_slashes path;
               norm = slashes @ join ''/'' (rev (norm_components (slashes \<noteq> []) [] (split_on (CHR ''/'') path)))
           in if norm = [] then ''.'' else norm)"

definition in_scope :: "string \<Rightarrow> bool" where
  "in_scope path = (normpath path = path \<and> starts_with ''/api/'' path)"

section \<open>The proxy\<close>

definition FORWARDED_HEADERS :: "string list" where
  "FORWARDED_HEADERS = [''content-type'', ''idempotency-key'', ''x-correlation-id'', ''x-user-id'']"

record proxy_request =
  px_method :: string
  px_path :: string
  px_query :: "(string \<times> string) list"
  px_headers :: "(string \<times> string) list"
  px_body :: string

record upstream_request =
  up_method :: string
  up_path :: string
  up_query :: "(string, string) dict"
  up_headers :: "(string, string) dict"
  up_body :: string

record upstream_response =
  ur_status :: nat
  ur_body :: string
  ur_content_type :: "string option"
  ur_correlation :: "string option"

datatype proxy_answer = NotFound | Unreachable string | Forwarded upstream_response

text \<open>The correlation header of the request as it was sent, or a fresh id.\<close>

definition unreachable :: "string \<Rightarrow> proxy_request \<Rightarrow> proxy_answer" where
  "unreachable fresh r =
     (case filter (\<lambda>(name, val). lower name = ''x-correlation-id'') (px_headers r) of
        [] \<Rightarrow> Unreachable fresh | (name, val) # _ \<Rightarrow> Unreachable val)"

definition forwarded_headers :: "(string \<times> string) list \<Rightarrow> (string, string) dict" where
  "forwarded_headers headers =
     foldl (\<lambda>d (name, val). if lower name \<in> set FORWARDED_HEADERS then dict_put name val d else d) [] headers"

text \<open>HTTPX reads \<open>request.query_params\<close> as a mapping: of the pairs with one name the last value, at the place
  of the first.\<close>

definition query_params :: "(string \<times> string) list \<Rightarrow> (string, string) dict" where
  "query_params pairs = foldl (\<lambda>d (name, val). dict_put name val d) [] pairs"

definition exchange_upstream ::
    "(upstream_request \<Rightarrow> upstream_response option) \<Rightarrow> string \<Rightarrow> proxy_request \<Rightarrow> (string, string) dict \<Rightarrow>
     proxy_answer \<times> upstream_request list" where
  "exchange_upstream orch fresh r headers =
     (let q = \<lparr>up_method = px_method r, up_path = px_path r, up_query = query_params (px_query r), up_headers = headers, up_body = px_body r\<rparr> in
      (case orch q of None \<Rightarrow> unreachable fresh r | Some a \<Rightarrow> Forwarded a, [q]))"

text \<open>The answer, the requests sent upstream, and the token cache.\<close>

definition proxy ::
    "webui_settings \<Rightarrow> token_env \<Rightarrow> (upstream_request \<Rightarrow> upstream_response option) \<Rightarrow> string \<Rightarrow> proxy_request \<Rightarrow>
     (string \<times> int) option \<Rightarrow> (proxy_answer \<times> upstream_request list) \<times> (string \<times> int) option" where
  "proxy s env orch fresh r cache =
     (if \<not> in_scope (px_path r) then ((NotFound, []), cache)
      else let headers = forwarded_headers (px_headers r) in
        if ws_id_token_auth s then
          (case front_id_token env (ws_orchestration_base_url s) cache of
             (None, cache') \<Rightarrow> ((unreachable fresh r, []), cache')
           | (Some val, cache') \<Rightarrow>
               (exchange_upstream orch fresh r (dict_put ''Authorization'' val headers), cache'))
        else (exchange_upstream orch fresh r headers, cache))"

section \<open>What the proxy lets through\<close>

lemma split_on_pieces: "p \<in> set (split_on c s) \<Longrightarrow> c \<notin> set p"
  by (induction s arbitrary: p rule: split_on.induct) (auto split: list.splits if_splits)

lemma split_on_nonempty: "split_on c s \<noteq> []"
  by (cases s) (auto split: list.splits)

lemma split_on_piece: "c \<notin> set p \<Longrightarrow> split_on c (p @ c # s) = p # split_on c s"
  by (induction p) auto

lemma split_on_plain: "c \<notin> set p \<Longrightarrow> split_on c p = [p]"
  by (induction p) auto

lemma split_join: "xs \<noteq> [] \<Longrightarrow> \<forall>x \<in> set xs. c \<notin> set x \<Longrightarrow> split_on c (join [c] xs) = xs"
  by (induction xs rule: induct_list012) (auto simp: split_on_plain split_on_piece)

text \<open>The components of a normalized rooted path: no empty one, no dot, no parent.\<close>

definition plain_component :: "string \<Rightarrow> bool" where
  "plain_component c = (c \<noteq> [] \<and> c \<noteq> ''.'' \<and> c \<noteq> ''..'' \<and> CHR ''/'' \<notin> set c)"

lemma norm_components_plain:
  "\<forall>c \<in> set cs. CHR ''/'' \<notin> set c \<Longrightarrow> list_all plain_component kept \<Longrightarrow> list_all plain_component (norm_components True kept cs)"
proof (induction cs arbitrary: kept)
  case (Cons c cs)
  have kept: "kept = [] \<or> plain_component (hd kept)" "list_all plain_component (tl kept)"
    using Cons(3) by (cases kept; simp)+
  then have "kept = [] \<or> hd kept \<noteq> ''..''" by (auto simp: plain_component_def)
  note kept = this kept(2)
  have rest: "list_all plain_component k \<Longrightarrow> list_all plain_component (norm_components True k cs)" for k
    using Cons by simp
  consider "c = [] \<or> c = ''.''" | "c \<noteq> []" "c \<noteq> ''.''" "c = ''..''" | "c \<noteq> []" "c \<noteq> ''.''" "c \<noteq> ''..''" by blast
  then show ?case
  proof cases
    case 1
    then show ?thesis using rest[OF Cons(3)] by auto
  next
    case 2
    then show ?thesis using rest[OF kept(2)] rest[OF Cons(3)] kept(1) by auto
  next
    case 3
    then have "plain_component c" using Cons(2) by (simp add: plain_component_def)
    then show ?thesis using 3 rest[of "c # kept"] Cons(3) by simp
  qed
qed simp

lemma scoped_path:
  assumes "in_scope path"
  shows "\<exists>segments. split_on (CHR ''/'') path = [] # ''api'' # segments \<and> segments \<noteq> [] \<and> list_all plain_component segments"
proof -
  obtain rest where path: "path = ''/api/'' @ rest"
    using assms by (auto simp: in_scope_def starts_with_append)
  obtain n where n: "n = rev (norm_components True [] (split_on (CHR ''/'') path))" by blast
  have "initial_slashes path = ''/''" by (simp add: path initial_slashes_def)
  then have norm: "path = ''/'' @ join ''/'' n"
    using assms by (simp add: in_scope_def normpath_def path Let_def n)
  have plain: "list_all plain_component n"
    using norm_components_plain[of "split_on (CHR ''/'') path" "[]"] split_on_pieces[of _ "CHR ''/''" path]
    by (auto simp: list_all_iff n)
  then have "\<forall>c \<in> set n. CHR ''/'' \<notin> set c" by (auto simp: list_all_iff plain_component_def)
  moreover have "n \<noteq> []" using norm path by auto
  ultimately have "split_on (CHR ''/'') path = [] # n"
    using split_join[of n "CHR ''/''"] norm by simp
  moreover have "split_on (CHR ''/'') path = [] # ''api'' # split_on (CHR ''/'') rest"
    by (simp add: path)
  ultimately show ?thesis using plain split_on_nonempty by (auto simp: list_all_iff)
qed

lemma forwarded_names: "n \<in> set (dict_keys (forwarded_headers headers)) \<Longrightarrow> lower n \<in> set FORWARDED_HEADERS"
proof -
  have "n \<in> set (dict_keys (foldl (\<lambda>d (name, val). if lower name \<in> set FORWARDED_HEADERS then dict_put name val d else d) d headers))
      \<Longrightarrow> n \<in> set (dict_keys d) \<or> lower n \<in> set FORWARDED_HEADERS" for d
  proof (induction headers arbitrary: d)
    case (Cons h headers)
    obtain m v where h: "h = (m, v)" by (cases h)
    from Cons(2) have "n \<in> set (dict_keys (if lower m \<in> set FORWARDED_HEADERS then dict_put m v d else d)) \<or> lower n \<in> set FORWARDED_HEADERS"
      unfolding h foldl_Cons prod.case by (rule Cons(1))
    then show ?case by (auto simp: keys_dict_put split: if_splits)
  qed simp
  from this[of "[]"] show "n \<in> set (dict_keys (forwarded_headers headers)) \<Longrightarrow> lower n \<in> set FORWARDED_HEADERS"
    by (simp add: forwarded_headers_def dict_keys_def)
qed

lemma query_put:
  "distinct (map fst d) \<Longrightarrow>
   distinct (map fst (foldl (\<lambda>d (name, val). dict_put name val d) d pairs)) \<and>
   map_of (foldl (\<lambda>d (name, val). dict_put name val d) d pairs) k =
     (case map_of (rev pairs) k of None \<Rightarrow> map_of d k | Some v \<Rightarrow> Some v)"
proof (induction pairs arbitrary: d)
  case (Cons p pairs)
  obtain n v where p: "p = (n, v)" by (cases p)
  have "distinct (map fst (dict_put n v d))" using Cons.prems by (rule distinct_dict_put[unfolded dict_keys_def])
  from Cons.IH[OF this] show ?case
    by (auto simp: p map_of_dict_put map_add_def split: option.splits)
qed simp

lemma query_fresh:
  "distinct (map fst (d @ pairs)) \<Longrightarrow> foldl (\<lambda>d (name, val). dict_put name val d) d pairs = d @ pairs"
proof (induction pairs arbitrary: d)
  case (Cons p pairs)
  obtain n v where p: "p = (n, v)" by (cases p)
  have "map_of d n = None" using Cons.prems by (auto simp: p map_of_eq_None_iff)
  then show ?case using Cons.IH[of "d @ [p]"] Cons.prems by (simp add: p dict_put_absent)
qed simp

lemma query_params_sent:
  "distinct (map fst (query_params pairs))" "map_of (query_params pairs) k = map_of (rev pairs) k"
  "distinct (map fst pairs) \<Longrightarrow> query_params pairs = pairs"
  using query_put[of "[]" pairs k] query_fresh[of "[]" pairs]
  by (auto simp: query_params_def split: option.splits)

text \<open>A token is usable when the cache promises it more than a minute, or it was minted for this call.\<close>

definition usable :: "token_env \<Rightarrow> string \<Rightarrow> (string \<times> int) option \<Rightarrow> string \<Rightarrow> bool" where
  "usable env audience cache token =
     ((\<exists>expires_at. cache = Some (token, expires_at) \<and> tk_checked_at env + 60 < expires_at) \<or>
      (\<exists>expires_at. mint env audience = Some (token, expires_at)))"

lemma front_token_usable:
  "front_id_token env audience cache = (Some val, cache') \<Longrightarrow> \<exists>token. val = bearer token \<and> usable env audience cache token"
  by (auto simp: front_id_token_def Let_def usable_def EXPIRY_MARGIN_def split: option.splits if_splits)

text \<open>C39. Everything the web front sends to the orchestration service has a path strictly below /api/, without an
  empty, dot or parent segment, and only the four contract headers of the caller; an authorization header is
  never the caller's, and with token auth it carries a usable token. A request is sent at most once, with the
  caller's method, path and body; each name of the query has its last value, and a query without a repeated
  name is sent as it is.\<close>

theorem proxy_guards:
  assumes "fst (proxy s env orch fresh r cache) = (answer, sent)" "q \<in> set sent"
  shows "length sent = 1 \<and> up_method q = px_method r \<and> up_path q = px_path r \<and> up_body q = px_body r \<and>
    distinct (map fst (up_query q)) \<and> (\<forall>k. map_of (up_query q) k = map_of (rev (px_query r)) k) \<and>
    (distinct (map fst (px_query r)) \<longrightarrow> up_query q = px_query r) \<and>
    (\<exists>segments. split_on (CHR ''/'') (up_path q) = [] # ''api'' # segments \<and> segments \<noteq> [] \<and> list_all plain_component segments) \<and>
    (\<forall>n \<in> set (dict_keys (up_headers q)). lower n \<in> set FORWARDED_HEADERS \<or> n = ''Authorization'' \<and> ws_id_token_auth s) \<and>
    (if ws_id_token_auth s
     then \<exists>token. map_of (up_headers q) ''Authorization'' = Some (bearer token) \<and>
       usable env (ws_orchestration_base_url s) cache token
     else map_of (up_headers q) ''Authorization'' = None)"
proof -
  have scope: "in_scope (px_path r)"
    using assms by (auto simp: proxy_def split: if_splits)
  have "lower ''Authorization'' \<notin> set FORWARDED_HEADERS" by code_simp
  then have own: "map_of (forwarded_headers (px_headers r)) ''Authorization'' = None"
    using forwarded_names[of "''Authorization''" "px_headers r"] by (auto simp: map_of_eq_None_iff dict_keys_def)
  show ?thesis
  proof (cases "ws_id_token_auth s")
    case True
    then obtain val cache' where token: "front_id_token env (ws_orchestration_base_url s) cache = (Some val, cache')"
      and run: "exchange_upstream orch fresh r (dict_put ''Authorization'' val (forwarded_headers (px_headers r))) = (answer, sent)"
      using assms scope by (auto simp: proxy_def Let_def split: prod.splits option.splits)
    then have "sent = [q]" "q = \<lparr>up_method = px_method r, up_path = px_path r, up_query = query_params (px_query r),
        up_headers = dict_put ''Authorization'' val (forwarded_headers (px_headers r)), up_body = px_body r\<rparr>"
      using assms(2) by (auto simp: exchange_upstream_def Let_def)
    then show ?thesis
      using True scoped_path[OF scope] front_token_usable[OF token] forwarded_names[of _ "px_headers r"]
        query_params_sent[of "px_query r"]
      by (auto simp: map_of_dict_put keys_dict_put split: if_splits)
  next
    case False
    then have "exchange_upstream orch fresh r (forwarded_headers (px_headers r)) = (answer, sent)"
      using assms scope by (simp add: proxy_def Let_def)
    then have "sent = [q]" "q = \<lparr>up_method = px_method r, up_path = px_path r, up_query = query_params (px_query r), up_headers = forwarded_headers (px_headers r), up_body = px_body r\<rparr>"
      using assms(2) by (auto simp: exchange_upstream_def Let_def)
    then show ?thesis
      using False scoped_path[OF scope] own forwarded_names[of _ "px_headers r"] query_params_sent[of "px_query r"] by auto
  qed
qed

definition demo_proxied :: proxy_request where
  "demo_proxied =
     \<lparr>px_method = ''GET'', px_path = ''/api/v1/stories'', px_query = [(''source'', ''mock'')], px_headers = [(''authorization'', ''Bearer x''), (''x-user-id'', ''u'')],
      px_body = []\<rparr>"

text \<open>A repeated name is not forwarded verbatim.\<close>

lemma repeated_name_collapses: "query_params [(''a'', ''1''), (''b'', ''2''), (''a'', ''3'')] = [(''a'', ''3''), (''b'', ''2'')]"
  by code_simp

theorem proxy_guards_witness:
  "\<exists>q. snd (fst (proxy \<lparr>ws_orchestration_base_url = ''https://o'', ws_id_token_auth = True\<rparr>
        \<lparr>tk_fetch = (\<lambda>a. Some (''t'', 3600)), tk_checked_at = 0, tk_minted_at = 0\<rparr> (\<lambda>q. None) ''f'' demo_proxied None)) = [q] \<and>
     up_path q = ''/api/v1/stories'' \<and> (\<exists>token. map_of (up_headers q) ''Authorization'' = Some (bearer token))"
proof -
  let ?s = "\<lparr>ws_orchestration_base_url = ''https://o'', ws_id_token_auth = True\<rparr>"
  let ?env = "\<lparr>tk_fetch = (\<lambda>a. Some (''t'', 3600)), tk_checked_at = 0, tk_minted_at = 0\<rparr>"
  let ?q = "\<lparr>up_method = ''GET'', up_path = ''/api/v1/stories'', up_query = [(''source'', ''mock'')], up_headers = [(''x-user-id'', ''u''), (''Authorization'', ''Bearer t'')], up_body = []\<rparr>"
  have run: "fst (proxy ?s ?env (\<lambda>q. None) ''f'' demo_proxied None) = (Unreachable ''f'', [?q])" by code_simp
  from proxy_guards[OF run, of ?q] run show ?thesis by (auto simp: demo_proxied_def)
qed

end
