(* ===== verification/Mcp_Wire.thy ===== *)
theory Mcp_Wire
  imports Json Uuid_Text Mcp_Ingress
begin

text \<open>
  A tool result on its way from a server to the orchestration: what \<open>_result\<close> and \<open>_error_result\<close> of the
  servers write, what \<open>parse_call_result\<close> of \<open>orchestration/orchestration/mcp_client.py\<close> reads, how an
  attempt unwraps the exception groups of the transport, and the reachability probe. Initializing the
  session and the bytes on the network are outside.
\<close>

section \<open>Error payloads\<close>

fun error_code_name :: "error_code \<Rightarrow> string" where
  "error_code_name UNAUTHENTICATED = ''UNAUTHENTICATED''"
| "error_code_name FORBIDDEN = ''FORBIDDEN''"
| "error_code_name VALIDATION_ERROR = ''VALIDATION_ERROR''"
| "error_code_name STORY_NOT_FOUND = ''STORY_NOT_FOUND''"
| "error_code_name SESSION_NOT_FOUND = ''SESSION_NOT_FOUND''"
| "error_code_name ARTIFACT_NOT_FOUND = ''ARTIFACT_NOT_FOUND''"
| "error_code_name SESSION_LOCKED = ''SESSION_LOCKED''"
| "error_code_name SESSION_READ_ONLY = ''SESSION_READ_ONLY''"
| "error_code_name STORY_SESSION_ACTIVE = ''STORY_SESSION_ACTIVE''"
| "error_code_name NOT_FINALIZING = ''NOT_FINALIZING''"
| "error_code_name REPORT_NOT_READY = ''REPORT_NOT_READY''"
| "error_code_name IDEMPOTENCY_KEY_REUSED = ''IDEMPOTENCY_KEY_REUSED''"
| "error_code_name DELEGATION_VALIDATION = ''DELEGATION_VALIDATION''"
| "error_code_name DEADLINE_EXCEEDED = ''DEADLINE_EXCEEDED''"
| "error_code_name UPSTREAM_UNAVAILABLE = ''UPSTREAM_UNAVAILABLE''"
| "error_code_name RENDER_FAILED = ''RENDER_FAILED''"
| "error_code_name REPORT_RENDER_FAILED = ''REPORT_RENDER_FAILED''"
| "error_code_name FINAL_REVIEW_INVALID = ''FINAL_REVIEW_INVALID''"

definition all_error_codes :: "error_code list" where
  "all_error_codes =
     [UNAUTHENTICATED, FORBIDDEN, VALIDATION_ERROR, STORY_NOT_FOUND, SESSION_NOT_FOUND, ARTIFACT_NOT_FOUND,
      SESSION_LOCKED, SESSION_READ_ONLY, STORY_SESSION_ACTIVE, NOT_FINALIZING, REPORT_NOT_READY,
      IDEMPOTENCY_KEY_REUSED, DELEGATION_VALIDATION, DEADLINE_EXCEEDED, UPSTREAM_UNAVAILABLE, RENDER_FAILED,
      REPORT_RENDER_FAILED, FINAL_REVIEW_INVALID]"

definition error_code_of :: "string \<Rightarrow> error_code option" where
  "error_code_of s = find (\<lambda>c. error_code_name c = s) all_error_codes"

definition error_json :: "ErrorBody \<Rightarrow> json" where
  "error_json e =
     JObject
       [(''code'', JString (error_code_name (eb_code e))),
        (''message'', JString (eb_message e)),
        (''agent'', case eb_agent e of None \<Rightarrow> JNull | Some a \<Rightarrow> JString a),
        (''correlation_id'', JString (uuid_str (eb_correlation e))),
        (''retryable'', JBool (eb_retryable e)),
        (''retry_after_seconds'', case eb_retry_after e of None \<Rightarrow> JNull | Some n \<Rightarrow> JNumber (int n))]"

text \<open>\<open>ErrorBody.model_validate\<close> on the dictionary: strict types, no unknown key, optional keys may be absent.\<close>

definition ERROR_FIELDS :: "string list" where
  "ERROR_FIELDS = [''code'', ''message'', ''agent'', ''correlation_id'', ''retryable'', ''retry_after_seconds'']"

definition string_of :: "json option \<Rightarrow> string option" where
  "string_of v = (case v of Some (JString s) \<Rightarrow> Some s | _ \<Rightarrow> None)"

definition agent_of :: "json option \<Rightarrow> string option option" where
  "agent_of v =
     (case v of None \<Rightarrow> Some None | Some JNull \<Rightarrow> Some None
      | Some (JString s) \<Rightarrow> map_option Some (ShortText s) | _ \<Rightarrow> None)"

definition retry_after_of :: "json option \<Rightarrow> nat option option" where
  "retry_after_of v =
     (case v of None \<Rightarrow> Some None | Some JNull \<Rightarrow> Some None
      | Some (JNumber n) \<Rightarrow> if 1 \<le> n \<and> n \<le> 3600 then Some (Some (nat n)) else None | _ \<Rightarrow> None)"

definition bool_of :: "json option \<Rightarrow> bool option" where
  "bool_of v = (case v of Some (JBool b) \<Rightarrow> Some b | _ \<Rightarrow> None)"

definition error_of_json :: "json \<Rightarrow> ErrorBody option" where
  "error_of_json v =
     (case v of
        JObject fs \<Rightarrow>
          if \<not> list_all (\<lambda>(k, x). k \<in> set ERROR_FIELDS) fs then None
          else Option.bind (Option.bind (string_of (map_of fs ''correlation_id'')) parse_uuid) (\<lambda>correlation.
            Option.bind (Option.bind (string_of (map_of fs ''code'')) error_code_of) (\<lambda>code.
            Option.bind (Option.bind (string_of (map_of fs ''message'')) Text) (\<lambda>message.
            Option.bind (agent_of (map_of fs ''agent'')) (\<lambda>who.
            Option.bind (bool_of (map_of fs ''retryable'')) (\<lambda>retryable.
            Option.bind (retry_after_of (map_of fs ''retry_after_seconds'')) (\<lambda>after.
            let e = \<lparr>eb_code = code, eb_message = message, eb_agent = who, eb_correlation = correlation,
                     eb_retryable = retryable, eb_retry_after = after\<rparr> in
            if valid_ErrorBody e then Some e else None))))))
      | _ \<Rightarrow> None)"

section \<open>Tool results\<close>

record call_result =
  cr_is_error :: bool
  cr_structured :: "(string \<times> json) list option"

definition result_of :: "(string \<times> json) list \<Rightarrow> call_result" where
  "result_of payload = \<lparr>cr_is_error = False, cr_structured = Some payload\<rparr>"

definition error_result :: "ErrorBody \<Rightarrow> call_result" where
  "error_result e = \<lparr>cr_is_error = True, cr_structured = Some [(''error'', error_json e)]\<rparr>"

text \<open>The fixed id \<open>00000000-0000-4000-8000-000000000000\<close>.\<close>

definition NIL_V4 :: uuid where "NIL_V4 = 0x00000000000040008000000000000000"

definition broken_contract :: "string \<Rightarrow> ErrorBody" where
  "broken_contract message =
     \<lparr>eb_code = UPSTREAM_UNAVAILABLE, eb_message = message, eb_agent = None, eb_correlation = NIL_V4,
      eb_retryable = False, eb_retry_after = None\<rparr>"

definition parse_call_result :: "call_result \<Rightarrow> ErrorBody + (string \<times> json) list" where
  "parse_call_result r =
     (if cr_is_error r then
        Inl (case Option.bind (map_of (case cr_structured r of None \<Rightarrow> [] | Some fs \<Rightarrow> fs) ''error'') error_of_json of
               Some e \<Rightarrow> e | None \<Rightarrow> broken_contract ''malformed tool error payload'')
      else from_option (broken_contract ''tool result missing structured content'') (cr_structured r))"

section \<open>One attempt\<close>

text \<open>An exception as the transport raises it: single, or a group of the task groups it crossed.\<close>

datatype 'e raised = Single 'e | Group "'e raised list"

text \<open>\<open>except*\<close> splits off what matches and keeps the nesting of the rest.\<close>

fun matching :: "('e \<Rightarrow> bool) \<Rightarrow> 'e raised \<Rightarrow> 'e raised option" where
  "matching p (Single e) = (if p e then Some (Single e) else None)"
| "matching p (Group xs) = (case filter (\<lambda>y. y \<noteq> None) (map (matching p) xs) of [] \<Rightarrow> None | ys \<Rightarrow> Some (Group (map the ys)))"

fun first_leaf :: "'e raised \<Rightarrow> 'e option" where
  "first_leaf (Single e) = Some e"
| "first_leaf (Group []) = None"
| "first_leaf (Group (x # xs)) = first_leaf x"

text \<open>
  The handler raises the first matching leaf; unmatched exceptions are raised together with it, in a group.
\<close>

definition unwrapped :: "('e \<Rightarrow> bool) \<Rightarrow> 'e raised \<Rightarrow> 'e raised" where
  "unwrapped p x =
     (case Option.bind (matching p x) first_leaf of
        None \<Rightarrow> x
      | Some e \<Rightarrow> (case matching (\<lambda>y. \<not> p y) x of None \<Rightarrow> Single e | Some rest \<Rightarrow> Group [Single e, rest]))"

text \<open>How \<open>call\<close> sees the end of an attempt: a tool error only when it stands alone.\<close>

definition attempt_outcome :: "exc raised + 'a \<Rightarrow> exc + 'a" where
  "attempt_outcome r =
     (case r of
        Inr x \<Rightarrow> Inr x
      | Inl x \<Rightarrow>
          (case unwrapped (\<lambda>e. case e of McpCallFailure b \<Rightarrow> True | _ \<Rightarrow> False) x of
             Single (McpCallFailure b) \<Rightarrow> Inl (McpCallFailure b) | _ \<Rightarrow> Inl McpTransportError))"

definition received :: "call_result \<Rightarrow> exc raised + (string \<times> json) list" where
  "received r = (case parse_call_result r of Inl e \<Rightarrow> Inl (Single (McpCallFailure e)) | Inr payload \<Rightarrow> Inr payload)"

text \<open>\<open>probe\<close> never raises, and headers are sent only when they are configured.\<close>

definition probe :: "exc raised + 'a \<Rightarrow> bool" where
  "probe r = (case r of Inl x \<Rightarrow> False | Inr y \<Rightarrow> True)"

section \<open>What arrives\<close>

lemma error_code_read: "error_code_of (error_code_name c) = Some c"
proof -
  have "list_all (\<lambda>c. error_code_of (error_code_name c) = Some c) all_error_codes" by code_simp
  moreover have "c \<in> set all_error_codes" by (cases c) (simp_all add: all_error_codes_def)
  ultimately show ?thesis by (simp add: list_all_iff)
qed

text \<open>The errors a server constructs: their texts are stripped already.\<close>

definition built_error :: "ErrorBody \<Rightarrow> bool" where
  "built_error e =
     (valid_ErrorBody e \<and> text_ok (eb_message e) \<and> (case eb_agent e of None \<Rightarrow> True | Some a \<Rightarrow> short_text_ok a))"

lemma error_read: "built_error e \<Longrightarrow> error_of_json (error_json e) = Some e"
  by (cases e)
     (auto simp: built_error_def error_of_json_def error_json_def ERROR_FIELDS_def string_of_def agent_of_def bool_of_def
       retry_after_of_def parse_uuid_str error_code_read text_ok_def short_text_ok_def valid_ErrorBody_def split: option.splits)

text \<open>One exception inside \<open>n\<close> task groups.\<close>

fun nested :: "nat \<Rightarrow> 'e \<Rightarrow> 'e raised" where
  "nested 0 e = Single e"
| "nested (Suc n) e = Group [nested n e]"

lemma nested_matching: "matching p (nested n e) = (if p e then Some (nested n e) else None)"
  by (induction n) auto

lemma nested_leaf: "first_leaf (nested n e) = Some e"
  by (induction n) auto

lemma nested_unwrapped: "p e \<Longrightarrow> unwrapped p (nested n e) = Single e"
  by (simp add: unwrapped_def nested_matching nested_leaf)

text \<open>A tool error next to another failure counts as a lost connection, so that even a terminal one is retried.\<close>

lemma accompanied_tool_error:
  "attempt_outcome (Inl (Group [Single (McpCallFailure e), Single DatabaseError])) = Inl McpTransportError"
  by (simp add: attempt_outcome_def unwrapped_def)

text \<open>C38. What a server answers is what the client sees: a payload arrives as it is, and an error body arrives
  unchanged as a terminal tool error, in whatever groups of task groups the transport wraps it; a server that
  dies or answers without a body never looks like a payload.\<close>

theorem tool_result_roundtrip:
  assumes "built_error e"
  shows "attempt_outcome (received (result_of payload)) = Inr payload \<and>
    parse_call_result (error_result e) = Inl e \<and>
    attempt_outcome (Inl (nested n (McpCallFailure e)) :: exc raised + (string \<times> json) list) = Inl (McpCallFailure e) \<and>
    attempt_outcome (received \<lparr>cr_is_error = False, cr_structured = None\<rparr>) =
      Inl (McpCallFailure (broken_contract ''tool result missing structured content''))"
  using error_read[OF assms]
  by (simp add: received_def parse_call_result_def result_of_def error_result_def attempt_outcome_def nested_unwrapped
      nested_unwrapped[where n = 0, simplified] from_option_def)

theorem tool_result_roundtrip_witness:
  "parse_call_result (error_result (broken_contract ''late'')) = Inl (broken_contract ''late'')"
proof -
  have "is_uuid4 NIL_V4" by code_simp
  moreover have "text_ok ''late''"
    by (simp add: text_ok_def Text_def bounded_text_def strip_def lstrip_def rstrip_def is_space_def py_len_def
        is_continuation_def)
  ultimately have "built_error (broken_contract ''late'')"
    by (simp add: built_error_def broken_contract_def valid_ErrorBody_def text_ok_def)
  from tool_result_roundtrip[OF this] show ?thesis by blast
qed

end
