(* ===== verification/App_Shell.thy ===== *)
theory App_Shell
  imports Session_Views Service_Settings Mcp_Wire
begin

text \<open>
  The shell of the orchestration application (\<open>orchestration/orchestration/main.py\<close>): the correlation id of a
  request, how a failure becomes an answer, the alert events of \<open>app_events.py\<close>, and the health view of
  \<open>health.py\<close>. Starting and stopping the application and the request log are outside.
\<close>

section \<open>Correlation\<close>

text \<open>A header that reads as a UUID is echoed, of whatever version; anything else is replaced.\<close>

definition correlation_of :: "uuid \<Rightarrow> string option \<Rightarrow> uuid" where
  "correlation_of fresh header =
     (case parse_uuid (case header of None \<Rightarrow> [] | Some h \<Rightarrow> h) of Some u \<Rightarrow> u | None \<Rightarrow> fresh)"

section \<open>Answers\<close>

text \<open>
  How a route ends, and what the client gets: the route's own answer, an error envelope, or the bare 500 of
  an exception nobody handles. Building an \<open>ErrorBody\<close> validates it, so a body that does not validate never
  becomes an envelope.
\<close>

datatype 'a route_end = RouteAnswer 'a | MalformedRequest | RouteRaised exc

datatype 'a http_answer = RouteOk 'a | ErrorEnvelope nat ErrorBody | BareServerError

definition envelope_of :: "nat \<Rightarrow> ErrorBody \<Rightarrow> 'a http_answer" where
  "envelope_of status e = (if valid_ErrorBody e then ErrorEnvelope status e else BareServerError)"

definition api_error_handler :: "exc \<Rightarrow> 'a http_answer" where
  "api_error_handler e = (case e of ApiError status body \<Rightarrow> envelope_of status body | _ \<Rightarrow> BareServerError)"

definition validation_error_handler :: "uuid \<Rightarrow> 'a http_answer" where
  "validation_error_handler correlation =
     envelope_of 422 (make_error VALIDATION_ERROR ''malformed request'' correlation False None None)"

definition app_answer :: "uuid \<Rightarrow> 'a route_end \<Rightarrow> 'a http_answer" where
  "app_answer correlation ended =
     (case ended of
        RouteAnswer x \<Rightarrow> RouteOk x
      | MalformedRequest \<Rightarrow> validation_error_handler correlation
      | RouteRaised e \<Rightarrow> api_error_handler e)"

text \<open>A request with its two headers: the user check runs first, and the id is echoed on every handled answer.\<close>

definition app_serve ::
    "uuid \<Rightarrow> string option \<Rightarrow> string option \<Rightarrow> (uuid \<Rightarrow> uuid \<Rightarrow> 'a route_end) \<Rightarrow> 'a http_answer \<times> uuid" where
  "app_serve fresh correlation_header user_header route =
     (let correlation = correlation_of fresh correlation_header in
      (app_answer correlation
         (case require_user_id user_header correlation of Inl e \<Rightarrow> RouteRaised e | Inr user \<Rightarrow> route user correlation),
       correlation))"

section \<open>Alerts\<close>

text \<open>
  \<open>AGENT_CALL_FAILED\<close>, which the source also lists, is not an error code of the taxonomy.
\<close>

definition retry_exhausted_code :: "error_code \<Rightarrow> bool" where
  "retry_exhausted_code c = (c = UPSTREAM_UNAVAILABLE \<or> c = RENDER_FAILED)"

definition alert_event_for :: "ErrorBody \<Rightarrow> string option" where
  "alert_event_for e =
     (if eb_code e = DELEGATION_VALIDATION then Some ''delegation_validation_failed''
      else if retry_exhausted_code (eb_code e) \<and> eb_retryable e then Some ''retry_exhausted'' else None)"

record alert =
  al_event :: string
  al_code :: error_code
  al_message :: string
  al_agent :: "string option"
  al_correlation :: uuid
  al_user :: "string option"

definition log_alert_event :: "ErrorBody \<Rightarrow> uuid \<Rightarrow> string option \<Rightarrow> alert list" where
  "log_alert_event e correlation user =
     (case alert_event_for e of
        None \<Rightarrow> []
      | Some event \<Rightarrow>
          [\<lparr>al_event = event, al_code = eb_code e, al_message = eb_message e, al_agent = eb_agent e,
            al_correlation = correlation, al_user = user\<rparr>])"

section \<open>Health\<close>

record HealthDependency =
  hd_name :: string
  hd_reachable :: bool

record HealthResponse =
  hr_ok :: bool
  hr_dependencies :: "HealthDependency list"

definition dependencies_state :: "(string \<times> bool) list \<Rightarrow> HealthResponse" where
  "dependencies_state probes =
     \<lparr>hr_ok = list_all snd probes, hr_dependencies = map (\<lambda>(n, b). \<lparr>hd_name = n, hd_reachable = b\<rparr>) probes\<rparr>"

text \<open>No pool, or a pool whose \<open>select 1\<close> fails, is an unreachable database.\<close>

definition database_reachable :: "bool option \<Rightarrow> bool" where
  "database_reachable pool = (pool = Some True)"

definition health :: "(exc raised + unit) \<Rightarrow> (exc raised + unit) \<Rightarrow> (exc raised + unit) \<Rightarrow> bool option \<Rightarrow> HealthResponse" where
  "health story artifact report pool =
     (let state = dependencies_state [(''story'', probe story), (''artifact'', probe artifact), (''report'', probe report)];
          reachable = database_reachable pool in
      \<lparr>hr_ok = (hr_ok state \<and> reachable),
       hr_dependencies = hr_dependencies state @ [\<lparr>hd_name = ''database'', hd_reachable = reachable\<rparr>]\<rparr>)"

text \<open>The audience of a tool server's token is its root address, without the \<open>/mcp\<close> route.\<close>

definition removesuffix :: "string \<Rightarrow> string \<Rightarrow> string" where
  "removesuffix suffix s = (if starts_with (rev suffix) (rev s) then take (length s - length suffix) s else s)"

definition mcp_audience :: "Settings \<Rightarrow> string \<Rightarrow> string option" where
  "mcp_audience s url = (if st_mcp_id_token_auth s then Some (removesuffix ''/mcp'' url) else None)"

section \<open>What the client sees of a failure\<close>

lemma health_ok: "hr_ok (health s a r pool) = list_all hd_reachable (hr_dependencies (health s a r pool))"
  by (simp add: health_def dependencies_state_def Let_def)

definition accepted_header :: "string option \<Rightarrow> bool" where
  "accepted_header header =
     (case parse_uuid (case header of None \<Rightarrow> [] | Some h \<Rightarrow> h) of Some u \<Rightarrow> is_uuid4 u | None \<Rightarrow> True)"

lemma accepted_correlation: "is_uuid4 fresh \<Longrightarrow> is_uuid4 (correlation_of fresh header) = accepted_header header"
  by (simp add: correlation_of_def accepted_header_def split: option.split)

lemma bad_request_valid:
  "text_ok message \<Longrightarrow> valid_ErrorBody (make_error VALIDATION_ERROR message correlation False None None) = is_uuid4 correlation"
  by (simp add: valid_ErrorBody_def make_error_def text_ok_def)

text \<open>C40. A client that sends a correlation id of another UUID version gets no structured error at all. With a
  header that is absent, unreadable or a version 4 UUID, a malformed request and a request without a user are
  answered 422 with an envelope carrying the request's id; with any other UUID both become the bare server
  error, and no failure that a route reports under that id reaches the client as an envelope.\<close>

theorem foreign_correlation_masks_errors:
  assumes "is_uuid4 fresh"
  shows "let correlation = correlation_of fresh header in
    app_answer correlation (MalformedRequest :: 'a route_end) =
      (if accepted_header header
       then ErrorEnvelope 422 (make_error VALIDATION_ERROR ''malformed request'' correlation False None None)
       else BareServerError) \<and>
    app_serve fresh header None (route :: uuid \<Rightarrow> uuid \<Rightarrow> 'a route_end) =
      (if accepted_header header
       then ErrorEnvelope 422 (make_error VALIDATION_ERROR ''X-User-Id must be a UUID v4'' correlation False None None)
       else BareServerError, correlation) \<and>
    (\<not> accepted_header header \<longrightarrow>
       (\<forall>status e. eb_correlation e = correlation \<longrightarrow>
          app_answer correlation (RouteRaised (ApiError status e) :: 'a route_end) = BareServerError))"
proof -
  define c where "c = correlation_of fresh header"
  have accepted: "is_uuid4 c = accepted_header header" unfolding c_def by (rule accepted_correlation[OF assms])
  have "text_ok ''malformed request''" "text_ok ''X-User-Id must be a UUID v4''" by code_simp+
  note valid = this[THEN bad_request_valid]
  have "parse_uuid [] = None" by code_simp
  then have user: "require_user_id None c = Inl (bad_request ''X-User-Id must be a UUID v4'' c)"
    by (simp add: require_user_id_def)
  have "app_answer c (MalformedRequest :: 'a route_end) =
      (if accepted_header header
       then ErrorEnvelope 422 (make_error VALIDATION_ERROR ''malformed request'' c False None None) else BareServerError)"
    unfolding app_answer_def validation_error_handler_def envelope_of_def route_end.case valid(1) accepted ..
  moreover have "app_serve fresh header None route =
      (if accepted_header header
       then ErrorEnvelope 422 (make_error VALIDATION_ERROR ''X-User-Id must be a UUID v4'' c False None None)
       else BareServerError, c)"
    unfolding app_serve_def Let_def c_def[symmetric] user sum.case app_answer_def route_end.case api_error_handler_def
      bad_request_def exc.case envelope_of_def valid(2) accepted ..
  moreover have "app_answer c (RouteRaised (ApiError status e) :: 'a route_end) = BareServerError"
    if "\<not> accepted_header header" "eb_correlation e = c" for status e
    using that accepted by (simp add: app_answer_def api_error_handler_def envelope_of_def valid_ErrorBody_def)
  ultimately show ?thesis unfolding Let_def c_def[symmetric] by blast
qed

text \<open>A version 1 UUID.\<close>

theorem foreign_correlation_masks_errors_witness:
  "\<not> accepted_header (Some (uuid_str 0x00000000000010008000000000000000)) \<and>
   app_answer (correlation_of NIL_V4 (Some (uuid_str 0x00000000000010008000000000000000)))
     (MalformedRequest :: unit route_end) = BareServerError"
proof -
  have "\<not> is_uuid4 0x00000000000010008000000000000000" by code_simp
  then have "\<not> accepted_header (Some (uuid_str 0x00000000000010008000000000000000))"
    by (simp add: accepted_header_def parse_uuid_str)
  moreover have nil_v4: "is_uuid4 NIL_V4" by code_simp
  ultimately show ?thesis
    using foreign_correlation_masks_errors[OF nil_v4, of "Some (uuid_str 0x00000000000010008000000000000000)"]
    by (auto simp: Let_def)
qed

end
