(* ===== verification/Cloud_Sql.thy ===== *)
theory Cloud_Sql
  imports Web_Front App_Shell
begin

text \<open>
  Reaching the database with the attached service account: the record pool of the orchestration service
  (\<open>orchestration/orchestration/cloudsql_db.py\<close>), and the session service and token-carrying clients of the
  agents on Agent Engine (\<open>shared/agent_kit/agent_kit/ae_runtime.py\<close>). Credentials, the metadata server, the
  connector, the driver and the session service behind it are parameters; what is modelled is how an address
  is read, which login is used, and that what was opened is closed.
\<close>

section \<open>Addresses\<close>

text \<open>
  What the two parsers use of \<open>urllib.parse.urlsplit\<close>: the scheme, the network location and the path.
  Leading control characters and every tab and line break are dropped; \<open>netloc_ok\<close> is the library's check of a
  bracketed or non-ASCII location.
\<close>

definition is_ascii_letter :: "char \<Rightarrow> bool" where
  "is_ascii_letter c = (is_lower c \<or> is_upper c)"

definition scheme_char :: "char \<Rightarrow> bool" where
  "scheme_char c = (is_ascii_letter c \<or> is_digit c \<or> c \<in> set ''+-.'')"

definition url_clean :: "string \<Rightarrow> string" where
  "url_clean url =
     filter (\<lambda>c. of_char c \<notin> {9, 10, 13 :: nat}) (dropWhile (\<lambda>c. of_char c \<le> (32 :: nat)) url)"

definition split_scheme :: "string \<Rightarrow> string \<times> string" where
  "split_scheme url =
     (let name = takeWhile (\<lambda>c. c \<noteq> CHR '':'') url; rest = dropWhile (\<lambda>c. c \<noteq> CHR '':'') url in
      if name \<noteq> [] \<and> rest \<noteq> [] \<and> is_ascii_letter (hd name) \<and> list_all scheme_char name
      then (lower name, tl rest) else ([], url))"

definition split_netloc :: "string \<Rightarrow> string \<times> string" where
  "split_netloc url =
     (if starts_with ''//'' url
      then (takeWhile (\<lambda>c. c \<notin> set ''/?#'') (drop 2 url), dropWhile (\<lambda>c. c \<notin> set ''/?#'') (drop 2 url))
      else ([], url))"

record url_parts =
  url_scheme :: string
  url_netloc :: string
  url_path :: string

definition urlsplit :: "(string \<Rightarrow> bool) \<Rightarrow> string \<Rightarrow> url_parts option" where
  "urlsplit netloc_ok url =
     (case split_scheme (url_clean url) of (scheme, rest) \<Rightarrow>
      case split_netloc rest of (netloc, tail) \<Rightarrow>
        if netloc \<noteq> [] \<and> \<not> netloc_ok netloc then None
        else Some \<lparr>url_scheme = scheme, url_netloc = netloc, url_path = takeWhile (\<lambda>c. c \<notin> set ''?#'') tail\<rparr>)"

definition CLOUDSQL_IAM_SCHEME :: string where "CLOUDSQL_IAM_SCHEME = ''cloudsql-iam''"

datatype sql_error = InvalidUrl | UnsupportedScheme string | NetlocGiven | BadSegments | UnresolvedUser | CloudFailure

definition connection_of :: "url_parts \<Rightarrow> sql_error + string \<times> string" where
  "connection_of parts =
     (case filter (\<lambda>s. s \<noteq> []) (split_on (CHR ''/'') (url_path parts)) of
        [connection, database] \<Rightarrow> Inr (connection, database)
      | _ \<Rightarrow> Inl BadSegments)"

definition agent_sql_uri :: "(string \<Rightarrow> bool) \<Rightarrow> string \<Rightarrow> sql_error + string \<times> string" where
  "agent_sql_uri netloc_ok uri =
     (case urlsplit netloc_ok uri of
        None \<Rightarrow> Inl InvalidUrl
      | Some parts \<Rightarrow>
          if url_scheme parts \<noteq> CLOUDSQL_IAM_SCHEME then Inl (UnsupportedScheme (url_scheme parts))
          else connection_of parts)"

definition record_sql_uri :: "(string \<Rightarrow> bool) \<Rightarrow> string \<Rightarrow> sql_error + string \<times> string" where
  "record_sql_uri netloc_ok uri =
     (case urlsplit netloc_ok uri of
        None \<Rightarrow> Inl InvalidUrl
      | Some parts \<Rightarrow>
          if url_scheme parts \<noteq> CLOUDSQL_IAM_SCHEME then Inl (UnsupportedScheme (url_scheme parts))
          else if url_netloc parts \<noteq> [] then Inl NetlocGiven
          else connection_of parts)"

section \<open>The login\<close>

text \<open>
  The service-account address the credentials report, the environment, and the metadata server's answer (None
  when it cannot be reached).
\<close>

definition iam_login :: "string option \<Rightarrow> environ \<Rightarrow> string option \<Rightarrow> string option" where
  "iam_login email env metadata =
     (let reported = (case email of None \<Rightarrow> [] | Some e \<Rightarrow> e);
          explicit = getenv env ''CLOUDSQL_IAM_USER'' in
      if reported \<noteq> [] \<and> reported \<noteq> ''default'' then Some reported
      else if explicit \<noteq> [] then Some explicit
      else map_option strip metadata)"

definition resolve_cloudsql_iam_user :: "string option \<Rightarrow> environ \<Rightarrow> string option \<Rightarrow> sql_error + string" where
  "resolve_cloudsql_iam_user email env metadata =
     (case iam_login email env metadata of
        None \<Rightarrow> Inl CloudFailure | Some user \<Rightarrow> Inr (removesuffix ''.gserviceaccount.com'' user))"

definition resolve_iam_user :: "string option \<Rightarrow> environ \<Rightarrow> string option \<Rightarrow> sql_error + string" where
  "resolve_iam_user email env metadata =
     (case iam_login email env metadata of
        None \<Rightarrow> Inl CloudFailure
      | Some login \<Rightarrow>
          let user = removesuffix ''.gserviceaccount.com'' login in
          if user = [] then Inl UnresolvedUser else Inr user)"

section \<open>What is opened and closed\<close>

datatype resource = Connector | RecordPool | Engine
datatype resource_event = Opened resource | Closed resource

text \<open>
  The cloud at the time of one use: the credentials (None when there are none), and which steps succeed.
  \<open>sq_connects\<close> says whether a pool can be built on a connection name, a database and a login, \<open>sq_operation\<close>
  how the delegated operation ends when a connection would be dialled with the given arguments.
\<close>

record ('op, 'r) sql_env =
  sq_netloc_ok :: "string \<Rightarrow> bool"
  sq_credentials :: "string option option"
  sq_environ :: environ
  sq_metadata :: "string option"
  sq_connector :: bool
  sq_connects :: "string \<times> string \<times> string \<Rightarrow> bool"
  sq_pool_closes :: bool
  sq_connector_closes :: bool
  sq_engine :: bool
  sq_operation :: "(sql_error + string \<times> string \<times> string) \<Rightarrow> 'op \<Rightarrow> 'r option"
  sq_engine_disposes :: bool

type_synonym cloud_pool = "string \<times> string \<times> string"

definition open_cloudsql_pool :: "('op, 'r) sql_env \<Rightarrow> string \<Rightarrow> (sql_error + cloud_pool) \<times> resource_event list" where
  "open_cloudsql_pool env uri =
     (case record_sql_uri (sq_netloc_ok env) uri of
        Inl e \<Rightarrow> (Inl e, [])
      | Inr (connection, database) \<Rightarrow>
          case sq_credentials env of
            None \<Rightarrow> (Inl CloudFailure, [])
          | Some email \<Rightarrow>
              case resolve_iam_user email (sq_environ env) (sq_metadata env) of
                Inl e \<Rightarrow> (Inl e, [])
              | Inr user \<Rightarrow>
                  if \<not> sq_connector env then (Inl CloudFailure, [])
                  else if sq_connects env (connection, database, user)
                  then (Inr (connection, database, user), [Opened Connector, Opened RecordPool])
                  else (Inl CloudFailure, [Opened Connector, Closed Connector]))"

text \<open>\<open>close\<close> and \<open>terminate\<close>: whether they return, and what they closed. The connector comes after the pool
  whatever the pool did.\<close>

definition pool_close :: "('op, 'r) sql_env \<Rightarrow> bool \<times> resource_event list" where
  "pool_close env =
     (sq_pool_closes env \<and> sq_connector_closes env, [Closed RecordPool, Closed Connector])"

datatype session_op = CreateSession | GetSession | ListSessions | DeleteSession | AppendEvent

text \<open>One delegated operation: a connector and an engine of its own, disposed of in turn.\<close>

definition call_session ::
    "(session_op, 'r) sql_env \<Rightarrow> string \<times> string \<Rightarrow> session_op \<Rightarrow> 'r option \<times> resource_event list" where
  "call_session env place op =
     (let dial = (case sq_credentials env of
          None \<Rightarrow> Inl CloudFailure
        | Some email \<Rightarrow>
            map_sum id (\<lambda>user. (fst place, snd place, user))
              (resolve_cloudsql_iam_user email (sq_environ env) (sq_metadata env))) in
      if \<not> sq_connector env then (None, [])
      else if \<not> sq_engine env then (None, [Opened Connector])
      else let outcome = sq_operation env dial op in
        if \<not> sq_engine_disposes env then (None, [Opened Connector, Opened Engine, Closed Engine])
        else (if sq_connector_closes env then outcome else None,
              [Opened Connector, Opened Engine, Closed Engine, Closed Connector]))"

definition cloudsql_iam_session_service ::
    "(session_op, 'r) sql_env \<Rightarrow> string \<Rightarrow> sql_error + (session_op \<Rightarrow> 'r option \<times> resource_event list)" where
  "cloudsql_iam_session_service env uri =
     map_sum id (\<lambda>place. call_session env place) (agent_sql_uri (sq_netloc_ok env) uri)"

section \<open>Tokens on every request\<close>

text \<open>
  The cached credentials of a client, a token with the time it expires at, and what one request does with
  them: mint for the first, refresh an expired one. None when the metadata server fails; the cache then stays.
\<close>

type_synonym id_credentials = "(string \<times> int) option"

definition auth_flow ::
    "(string \<Rightarrow> (string \<times> int) option) \<Rightarrow> string \<Rightarrow> int \<Rightarrow> id_credentials \<Rightarrow> string option \<times> id_credentials" where
  "auth_flow fetch audience moment cached =
     (let fresh = (case fetch audience of
          None \<Rightarrow> (None, cached)
        | Some (token, expiry) \<Rightarrow> (Some (bearer token), Some (token, expiry))) in
      case cached of
        None \<Rightarrow> fresh
      | Some (token, expiry) \<Rightarrow> if expiry \<le> moment then fresh else (Some (bearer token), cached))"

definition audience_for :: "string \<Rightarrow> string" where
  "audience_for url = removesuffix ''/mcp'' url"

section \<open>The two parsers and the two logins agree\<close>

lemma sql_uris_agree:
  "record_sql_uri ok uri = Inr r \<longleftrightarrow>
     agent_sql_uri ok uri = Inr r \<and> (\<forall>parts. urlsplit ok uri = Some parts \<longrightarrow> url_netloc parts = [])"
  by (auto simp: record_sql_uri_def agent_sql_uri_def split: option.splits if_splits)

lemma iam_users_agree:
  "resolve_iam_user email env metadata =
     bind_sum (resolve_cloudsql_iam_user email env metadata) (\<lambda>user. if user = [] then Inl UnresolvedUser else Inr user)"
  by (simp add: resolve_iam_user_def resolve_cloudsql_iam_user_def sum_simps Let_def split: option.split)

text \<open>An address written as documented is read back, by both.\<close>

definition visible :: "char \<Rightarrow> bool" where
  "visible c = ((32 :: nat) < of_char c)"

definition path_part :: "string \<Rightarrow> bool" where
  "path_part s = (s \<noteq> [] \<and> list_all visible s \<and> list_all (\<lambda>c. c \<notin> set ''/?#'') s)"

lemma visible_kept: "visible c \<Longrightarrow> of_char c \<notin> {9, 10, 13 :: nat} \<and> \<not> of_char c \<le> (32 :: nat)"
  unfolding visible_def by auto

lemma url_clean_visible:
  assumes "list_all visible s"
  shows "url_clean s = s"
proof -
  have "visible c" if "c \<in> set s" for c using assms that by (simp add: list_all_iff)
  note kept = visible_kept[OF this]
  have "dropWhile (\<lambda>c. of_char c \<le> (32 :: nat)) s = s"
    unfolding dropWhile_eq_self_iff using kept hd_in_set by blast
  moreover have "filter (\<lambda>c. of_char c \<notin> {9, 10, 13 :: nat}) s = s"
    by (rule filter_True) (use kept in blast)
  ultimately show ?thesis by (simp only: url_clean_def)
qed

lemma path_part_kept: "path_part s \<Longrightarrow> takeWhile (\<lambda>c. c \<notin> set ''?#'') (s @ r) = s @ takeWhile (\<lambda>c. c \<notin> set ''?#'') r"
  by (rule takeWhile_append2) (auto simp: path_part_def list_all_iff)

lemma sql_uri_read:
  assumes "path_part connection" "path_part database"
  shows "urlsplit ok (''cloudsql-iam:///'' @ connection @ ''/'' @ database) =
    Some \<lparr>url_scheme = ''cloudsql-iam'', url_netloc = [], url_path = ''/'' @ connection @ ''/'' @ database\<rparr>"
proof -
  let ?rest = "connection @ ''/'' @ database"
  have "url_clean (''cloudsql-iam:///'' @ ?rest) = ''cloudsql-iam:///'' @ ?rest"
  proof (rule url_clean_visible)
    have "list_all visible ''cloudsql-iam:///''" "list_all visible ''/''" by code_simp+
    then show "list_all visible (''cloudsql-iam:///'' @ ?rest)"
      using assms unfolding path_part_def list_all_append by blast
  qed
  moreover have "split_scheme (''cloudsql-iam:///'' @ r) = (''cloudsql-iam'', ''///'' @ r)" for r
    by (simp add: split_scheme_def Let_def) code_simp
  moreover have "split_netloc (''///'' @ ?rest) = ([], ''/'' @ ?rest)"
    by (simp add: split_netloc_def)
  moreover have "takeWhile (\<lambda>c. c \<notin> set ''?#'') (''/'' @ ?rest) = ''/'' @ ?rest"
    using path_part_kept[OF assms(1), of "''/'' @ database"] path_part_kept[OF assms(2), of "[]"] by simp
  ultimately show ?thesis by (simp add: urlsplit_def)
qed

lemma sql_uri_roundtrip:
  assumes "path_part connection" "path_part database"
  shows "record_sql_uri ok (''cloudsql-iam:///'' @ connection @ ''/'' @ database) = Inr (connection, database)"
proof -
  have no_slash: "CHR ''/'' \<notin> set connection" "CHR ''/'' \<notin> set database" "connection \<noteq> []" "database \<noteq> []"
    using assms by (auto simp: path_part_def list_all_iff)
  have "split_on (CHR ''/'') (''/'' @ connection @ ''/'' @ database) = [[], connection, database]"
    using split_on_piece[OF no_slash(1), of database] split_on_plain[OF no_slash(2)] by simp
  then show ?thesis
    unfolding record_sql_uri_def sql_uri_read[OF assms]
    using no_slash(3,4) by (simp add: CLOUDSQL_IAM_SCHEME_def connection_of_def)
qed

section \<open>Nothing is left open\<close>

definition still_open :: "resource \<Rightarrow> resource_event list \<Rightarrow> bool" where
  "still_open r evs = (count_list evs (Closed r) < count_list evs (Opened r))"

text \<open>The record pool never leaks its connector. Opening either fails with everything closed again, or
  hands out a pool dialled with the connection name, database and login read from the address and the
  credentials, whose login is not empty; closing such a pool closes the pool and the connector whichever of
  the two raises. The address must name no network location.\<close>

theorem pool_never_leaks:
  "case open_cloudsql_pool env uri of
     (Inl e, evs) \<Rightarrow> \<forall>r. \<not> still_open r evs
   | (Inr (connection, database, user), evs) \<Rightarrow>
       still_open Connector evs \<and> still_open RecordPool evs \<and>
       (\<forall>r. \<not> still_open r (evs @ snd (pool_close env))) \<and> user \<noteq> [] \<and>
       agent_sql_uri (sq_netloc_ok env) uri = Inr (connection, database) \<and>
       (\<exists>email. sq_credentials env = Some email \<and>
          resolve_cloudsql_iam_user email (sq_environ env) (sq_metadata env) = Inr user)"
proof -
  have all: "(\<forall>r. P r) \<longleftrightarrow> P Connector \<and> P RecordPool \<and> P Engine" for P
    by (metis resource.exhaust)
  show ?thesis
    by (auto simp: open_cloudsql_pool_def pool_close_def still_open_def all sql_uris_agree iam_users_agree
        sum_simps split: sum.splits option.splits if_splits)
qed

text \<open>
  The agents' session service closes its connector after every operation, except when the engine cannot be
  built or disposing of it raises: then the connector stays open.
\<close>

lemma session_call_leak:
  "still_open Connector (snd (call_session env place op)) \<longleftrightarrow>
     sq_connector env \<and> (\<not> sq_engine env \<or> \<not> sq_engine_disposes env)"
  by (simp add: call_session_def still_open_def Let_def)

end
