(* ===== verification/Llm_Output.thy ===== *)
theory Llm_Output
  imports Facilitator_Adapter Fence Cursors
begin

text \<open>
  The output schemas the agents' models are held to (\<open>shared/agent_kit/agent_kit/llm_output.py\<close>): mirrors of
  the shared models with plain types. Each mirror is a record with the source's fields; \<open>strict_\<dots>\<close> reads a
  mirror with the shared model of the same field names, as the adapters do with a reply; \<open>mirror_\<dots>\<close> is the
  mirror of a shared value. The text between the two is JSON with the same keys and is left out; a moment is
  written by \<open>isoformat\<close> and read by \<open>fromisoformat\<close>.
\<close>

section \<open>Mirrors\<close>

record MirrorFinding =
  mf_id :: string
  mf_title :: string
  mf_description :: string
  mf_severity :: string
  mf_category :: string
  mf_suggestion :: "string option"
  mf_references_po_question :: bool

record ServingSafeReviewReport =
  mr_perspective :: string
  mr_story_id :: string
  mr_summary :: string
  mr_findings :: "MirrorFinding list"
  mr_risks :: "string list"
  mr_questions_for_po :: "string list"
  mr_based_on_extra_context :: "string option"
  mr_previous_review_version :: "int option"

record MirrorArtifactReference =
  ma_artifact_id :: string
  ma_story_run_id :: string
  ma_type :: string
  ma_perspective :: "string option"
  ma_version :: int
  ma_created_at :: string
  ma_content_type :: string
  ma_checksum_sha256 :: string
  ma_is_latest :: bool

record MirrorConflictItem =
  mc_id :: string
  mc_description :: string
  mc_business_refs :: "string list"
  mc_engineering_refs :: "string list"
  mc_needs_po_clarification :: bool

text \<open>The one constraint the mirrors keep.\<close>

definition valid_MirrorConflictItem :: "MirrorConflictItem \<Rightarrow> bool" where
  "valid_MirrorConflictItem c = (1 \<le> length (mc_business_refs c) \<and> 1 \<le> length (mc_engineering_refs c))"

record MirrorDelegationDecision =
  md_invoke :: string
  md_extra_context :: "string option"
  md_reuse_previous :: bool
  md_open_issues :: "string list"
  md_readiness :: string

record MirrorResolutionDraft =
  mx_issue :: string
  mx_disposition :: string
  mx_explanation :: string

record MirrorIssueDraft =
  mi_issue :: string
  mi_title :: string
  mi_description :: string

record ServingSafeFacilitatorTurnOutput =
  mt_reply :: string
  mt_delegation :: MirrorDelegationDecision
  mt_resolutions :: "MirrorResolutionDraft list"
  mt_new_issues :: "MirrorIssueDraft list"

record MirrorSynthesisInputs =
  ms_business :: MirrorArtifactReference
  ms_engineering :: MirrorArtifactReference

record ServingSafeSynthesisReport =
  my_story_id :: string
  my_summary :: string
  my_merged_findings :: "MirrorFinding list"
  my_conflicts :: "MirrorConflictItem list"
  my_questions_for_po :: "string list"
  my_resolved_from_previous :: "string list"
  my_inputs :: MirrorSynthesisInputs

section \<open>Reading a mirror with the shared model\<close>

text \<open>A literal by its wire name, an optional value, a list, and the check of the whole model.\<close>

definition named :: "('a \<Rightarrow> string) \<Rightarrow> 'a list \<Rightarrow> string \<Rightarrow> 'a option" where
  "named name xs s = find (\<lambda>x. name x = s) xs"

definition read_opt :: "('a \<Rightarrow> 'b option) \<Rightarrow> 'a option \<Rightarrow> 'b option option" where
  "read_opt f x = (case x of None \<Rightarrow> Some None | Some y \<Rightarrow> map_option Some (f y))"

definition read_list :: "('a \<Rightarrow> 'b option) \<Rightarrow> 'a list \<Rightarrow> 'b list option" where
  "read_list f xs = those (map f xs)"

definition checked :: "('a \<Rightarrow> bool) \<Rightarrow> 'a \<Rightarrow> 'a option" where
  "checked p x = (if p x then Some x else None)"

fun invoke_name :: "invoke \<Rightarrow> string" where
  "invoke_name InvokeNone = ''none''"
| "invoke_name InvokeBusiness = ''business''"
| "invoke_name InvokeEngineering = ''engineering''"
| "invoke_name InvokeBoth = ''both''"

fun readiness_name :: "readiness \<Rightarrow> string" where
  "readiness_name NeedsWork = ''needs_work''"
| "readiness_name ReviewRequested = ''review_requested''"
| "readiness_name Ready = ''ready''"

fun disposition_name :: "disposition \<Rightarrow> string" where
  "disposition_name Resolved = ''resolved''"
| "disposition_name Accepted = ''accepted''"
| "disposition_name Unresolved = ''unresolved''"
| "disposition_name Reopened = ''reopened''"

fun content_type_name :: "content_type \<Rightarrow> string" where
  "content_type_name ApplicationJson = ''application/json''"
| "content_type_name TextMarkdown = ''text/markdown''"
| "content_type_name ApplicationPdf = ''application/pdf''"

definition strict_finding :: "MirrorFinding \<Rightarrow> Finding option" where
  "strict_finding m =
     Option.bind (named severity_name [Info, Minor, Major, Blocker] (mf_severity m)) (\<lambda>severity.
     Option.bind (ShortText (mf_title m)) (\<lambda>title.
     Option.bind (Text (mf_description m)) (\<lambda>description.
     Option.bind (read_opt Text (mf_suggestion m)) (\<lambda>suggestion.
     checked valid_Finding
       \<lparr>fd_id = mf_id m, fd_title = title, fd_description = description, fd_severity = severity,
        fd_category = mf_category m, fd_suggestion = suggestion,
        fd_references_po_question = mf_references_po_question m\<rparr>))))"

definition strict_review :: "ServingSafeReviewReport \<Rightarrow> ReviewReport option" where
  "strict_review m =
     Option.bind (named perspective_name [Business, Engineering] (mr_perspective m)) (\<lambda>perspective.
     Option.bind (Text (mr_summary m)) (\<lambda>summary.
     Option.bind (read_list strict_finding (mr_findings m)) (\<lambda>findings.
     Option.bind (read_list Text (mr_risks m)) (\<lambda>risks.
     Option.bind (read_list Text (mr_questions_for_po m)) (\<lambda>questions.
     Option.bind (read_opt Text (mr_based_on_extra_context m)) (\<lambda>context.
     checked valid_ReviewReport
       \<lparr>rr_perspective = perspective, rr_story_id = mr_story_id m, rr_summary = summary, rr_findings = findings,
        rr_risks = risks, rr_questions_for_po = questions, rr_based_on_extra_context = context,
        rr_previous_review_version = mr_previous_review_version m\<rparr>))))))"

definition strict_reference :: "iso_reader \<Rightarrow> MirrorArtifactReference \<Rightarrow> ArtifactReference option" where
  "strict_reference other m =
     Option.bind (named artifact_type_name
         [StoryArtifact, ReviewBusiness, ReviewEngineering, SynthesisArtifact, FinalizedReviewArtifact, ReportMd, ReportPdf]
         (ma_type m)) (\<lambda>type.
     Option.bind (read_opt (named perspective_name [Business, Engineering]) (ma_perspective m)) (\<lambda>perspective.
     Option.bind (fromisoformat other (ma_created_at m)) (\<lambda>(created, aware).
     Option.bind (named content_type_name [ApplicationJson, TextMarkdown, ApplicationPdf] (ma_content_type m)) (\<lambda>content.
     if \<not> aware \<or> ma_version m < 1 then None
     else checked valid_ArtifactReference
       \<lparr>ar_artifact_id = ma_artifact_id m, ar_story_run_id = ma_story_run_id m, ar_type = type,
        ar_perspective = perspective, ar_version = nat (ma_version m), ar_created_at = created,
        ar_content_type = content, ar_checksum_sha256 = ma_checksum_sha256 m, ar_is_latest = ma_is_latest m\<rparr>))))"

definition strict_conflict :: "MirrorConflictItem \<Rightarrow> ConflictItem option" where
  "strict_conflict m =
     Option.bind (Text (mc_description m)) (\<lambda>description.
     Option.bind (read_list ShortText (mc_business_refs m)) (\<lambda>business.
     Option.bind (read_list ShortText (mc_engineering_refs m)) (\<lambda>engineering.
     checked valid_ConflictItem
       \<lparr>ci_id = mc_id m, ci_description = description, ci_business_refs = business, ci_engineering_refs = engineering,
        ci_needs_po_clarification = mc_needs_po_clarification m\<rparr>)))"

definition strict_synthesis :: "iso_reader \<Rightarrow> ServingSafeSynthesisReport \<Rightarrow> SynthesisReport option" where
  "strict_synthesis other m =
     Option.bind (Text (my_summary m)) (\<lambda>summary.
     Option.bind (read_list strict_finding (my_merged_findings m)) (\<lambda>findings.
     Option.bind (read_list strict_conflict (my_conflicts m)) (\<lambda>conflicts.
     Option.bind (read_list Text (my_questions_for_po m)) (\<lambda>questions.
     Option.bind (read_list ShortText (my_resolved_from_previous m)) (\<lambda>resolved.
     Option.bind (strict_reference other (ms_business (my_inputs m))) (\<lambda>business.
     Option.bind (strict_reference other (ms_engineering (my_inputs m))) (\<lambda>engineering.
     checked valid_SynthesisReport
       \<lparr>sr_story_id = my_story_id m, sr_summary = summary, sr_merged_findings = findings, sr_conflicts = conflicts,
        sr_questions_for_po = questions, sr_resolved_from_previous = resolved,
        sr_inputs = [(Business, business), (Engineering, engineering)]\<rparr>)))))))"

definition strict_delegation :: "MirrorDelegationDecision \<Rightarrow> DelegationDecision option" where
  "strict_delegation m =
     Option.bind (named invoke_name [InvokeNone, InvokeBusiness, InvokeEngineering, InvokeBoth] (md_invoke m)) (\<lambda>called.
     Option.bind (read_opt Text (md_extra_context m)) (\<lambda>context.
     Option.bind (read_list Text (md_open_issues m)) (\<lambda>issues.
     Option.bind (named readiness_name [NeedsWork, ReviewRequested, Ready] (md_readiness m)) (\<lambda>readiness.
     checked valid_DelegationDecision
       \<lparr>dd_invoke = called, dd_extra_context = context, dd_reuse_previous = md_reuse_previous m,
        dd_open_issues = issues, dd_readiness = readiness\<rparr>))))"

definition strict_resolution :: "MirrorResolutionDraft \<Rightarrow> ResolutionDraft option" where
  "strict_resolution m =
     Option.bind (Text (mx_issue m)) (\<lambda>issue.
     Option.bind (named disposition_name [Resolved, Accepted, Unresolved, Reopened] (mx_disposition m)) (\<lambda>disposition.
     Option.bind (Text (mx_explanation m)) (\<lambda>explanation.
     Some \<lparr>rd_issue = issue, rd_disposition = disposition, rd_explanation = explanation\<rparr>)))"

definition strict_issue :: "MirrorIssueDraft \<Rightarrow> IssueDraft option" where
  "strict_issue m =
     Option.bind (Text (mi_issue m)) (\<lambda>issue.
     Option.bind (Text (mi_title m)) (\<lambda>title.
     Option.bind (Text (mi_description m)) (\<lambda>description.
     Some \<lparr>id_issue = issue, id_title = title, id_description = description\<rparr>)))"

definition strict_turn :: "ServingSafeFacilitatorTurnOutput \<Rightarrow> FacilitatorTurnOutput option" where
  "strict_turn m =
     Option.bind (Text (mt_reply m)) (\<lambda>reply.
     Option.bind (strict_delegation (mt_delegation m)) (\<lambda>delegation.
     Option.bind (read_list strict_resolution (mt_resolutions m)) (\<lambda>resolutions.
     Option.bind (read_list strict_issue (mt_new_issues m)) (\<lambda>issues.
     checked valid_FacilitatorTurnOutput
       \<lparr>fo_reply = reply, fo_delegation = delegation, fo_resolutions = resolutions, fo_new_issues = issues\<rparr>))))"

section \<open>The mirror of a shared value\<close>

definition mirror_finding :: "Finding \<Rightarrow> MirrorFinding" where
  "mirror_finding f =
     \<lparr>mf_id = fd_id f, mf_title = fd_title f, mf_description = fd_description f,
      mf_severity = severity_name (fd_severity f), mf_category = fd_category f, mf_suggestion = fd_suggestion f,
      mf_references_po_question = fd_references_po_question f\<rparr>"

definition mirror_review :: "ReviewReport \<Rightarrow> ServingSafeReviewReport" where
  "mirror_review r =
     \<lparr>mr_perspective = perspective_name (rr_perspective r), mr_story_id = rr_story_id r, mr_summary = rr_summary r,
      mr_findings = map mirror_finding (rr_findings r), mr_risks = rr_risks r,
      mr_questions_for_po = rr_questions_for_po r, mr_based_on_extra_context = rr_based_on_extra_context r,
      mr_previous_review_version = rr_previous_review_version r\<rparr>"

definition mirror_reference :: "ArtifactReference \<Rightarrow> MirrorArtifactReference" where
  "mirror_reference a =
     \<lparr>ma_artifact_id = ar_artifact_id a, ma_story_run_id = ar_story_run_id a,
      ma_type = artifact_type_name (ar_type a), ma_perspective = map_option perspective_name (ar_perspective a),
      ma_version = int (ar_version a), ma_created_at = isoformat (ar_created_at a),
      ma_content_type = content_type_name (ar_content_type a), ma_checksum_sha256 = ar_checksum_sha256 a,
      ma_is_latest = ar_is_latest a\<rparr>"

definition mirror_conflict :: "ConflictItem \<Rightarrow> MirrorConflictItem" where
  "mirror_conflict c =
     \<lparr>mc_id = ci_id c, mc_description = ci_description c, mc_business_refs = ci_business_refs c,
      mc_engineering_refs = ci_engineering_refs c, mc_needs_po_clarification = ci_needs_po_clarification c\<rparr>"

text \<open>A report that lacks an input has no mirror; a valid one has both.\<close>

definition mirror_synthesis :: "SynthesisReport \<Rightarrow> ServingSafeSynthesisReport option" where
  "mirror_synthesis r =
     Option.bind (map_of (sr_inputs r) Business) (\<lambda>business.
     Option.bind (map_of (sr_inputs r) Engineering) (\<lambda>engineering.
     Some \<lparr>my_story_id = sr_story_id r, my_summary = sr_summary r,
       my_merged_findings = map mirror_finding (sr_merged_findings r),
       my_conflicts = map mirror_conflict (sr_conflicts r), my_questions_for_po = sr_questions_for_po r,
       my_resolved_from_previous = sr_resolved_from_previous r,
       my_inputs = \<lparr>ms_business = mirror_reference business, ms_engineering = mirror_reference engineering\<rparr>\<rparr>))"

definition mirror_delegation :: "DelegationDecision \<Rightarrow> MirrorDelegationDecision" where
  "mirror_delegation d =
     \<lparr>md_invoke = invoke_name (dd_invoke d), md_extra_context = dd_extra_context d,
      md_reuse_previous = dd_reuse_previous d, md_open_issues = dd_open_issues d,
      md_readiness = readiness_name (dd_readiness d)\<rparr>"

definition mirror_turn :: "FacilitatorTurnOutput \<Rightarrow> ServingSafeFacilitatorTurnOutput" where
  "mirror_turn t =
     \<lparr>mt_reply = fo_reply t, mt_delegation = mirror_delegation (fo_delegation t),
      mt_resolutions = map (\<lambda>r. \<lparr>mx_issue = rd_issue r, mx_disposition = disposition_name (rd_disposition r),
        mx_explanation = rd_explanation r\<rparr>) (fo_resolutions t),
      mt_new_issues = map (\<lambda>d. \<lparr>mi_issue = id_issue d, mi_title = id_title d, mi_description = id_description d\<rparr>)
        (fo_new_issues t)\<rparr>"

section \<open>Reading back\<close>

named_theorems mirror_simps \<open>reading a mirror back\<close>

lemma severity_read [mirror_simps]: "named severity_name [Info, Minor, Major, Blocker] (severity_name s) = Some s"
  by (cases s) (simp_all add: named_def)

lemma perspective_read [mirror_simps]: "named perspective_name [Business, Engineering] (perspective_name p) = Some p"
  by (cases p) (simp_all add: named_def)

lemma invoke_read [mirror_simps]:
  "named invoke_name [InvokeNone, InvokeBusiness, InvokeEngineering, InvokeBoth] (invoke_name i) = Some i"
  by (cases i) (simp_all add: named_def)

lemma readiness_read [mirror_simps]: "named readiness_name [NeedsWork, ReviewRequested, Ready] (readiness_name q) = Some q"
  by (cases q) (simp_all add: named_def)

lemma disposition_read [mirror_simps]:
  "named disposition_name [Resolved, Accepted, Unresolved, Reopened] (disposition_name d) = Some d"
  by (cases d) (simp_all add: named_def)

lemma content_type_read [mirror_simps]:
  "named content_type_name [ApplicationJson, TextMarkdown, ApplicationPdf] (content_type_name c) = Some c"
  by (cases c) (simp_all add: named_def)

lemma type_read [mirror_simps]:
  "named artifact_type_name
     [StoryArtifact, ReviewBusiness, ReviewEngineering, SynthesisArtifact, FinalizedReviewArtifact, ReportMd, ReportPdf]
     (artifact_type_name t) = Some t"
  by (cases t) (simp_all add: named_def)

lemma text_read [mirror_simps]: "text_ok x \<Longrightarrow> Text x = Some x" "short_text_ok x \<Longrightarrow> ShortText x = Some x"
  by (simp_all add: text_ok_def short_text_ok_def)

lemma list_read: "list_all (\<lambda>x. f (g x) = Some x) xs \<Longrightarrow> read_list f (map g xs) = Some xs"
  unfolding read_list_def by (induction xs) simp_all

lemma texts_read [mirror_simps]:
  "list_all text_ok xs \<Longrightarrow> read_list Text xs = Some xs"
  "list_all short_text_ok xs \<Longrightarrow> read_list ShortText xs = Some xs"
  using list_read[of Text id xs] list_read[of ShortText id xs]
  by (simp_all add: text_ok_def short_text_ok_def list_all_iff)

lemma opt_read [mirror_simps]: "opt_ok text_ok x \<Longrightarrow> read_opt Text x = Some x"
  by (cases x) (simp_all add: read_opt_def opt_ok_def text_ok_def)

lemma perspective_opt_read [mirror_simps]:
  "read_opt (named perspective_name [Business, Engineering]) (map_option perspective_name x) = Some x"
  by (cases x) (simp_all add: read_opt_def perspective_read)

lemma finding_read: "valid_Finding f \<Longrightarrow> strict_finding (mirror_finding f) = Some f"
  by (simp add: valid_Finding_def strict_finding_def mirror_finding_def mirror_simps checked_def)

lemma findings_read [mirror_simps]:
  "list_all valid_Finding fs \<Longrightarrow> read_list strict_finding (map mirror_finding fs) = Some fs"
  by (rule list_read) (auto simp: list_all_iff finding_read)

lemma conflict_read: "valid_ConflictItem c \<Longrightarrow> strict_conflict (mirror_conflict c) = Some c"
  by (simp add: valid_ConflictItem_def strict_conflict_def mirror_conflict_def mirror_simps checked_def)

lemma conflicts_read [mirror_simps]:
  "list_all valid_ConflictItem cs \<Longrightarrow> read_list strict_conflict (map mirror_conflict cs) = Some cs"
  by (rule list_read) (auto simp: list_all_iff conflict_read)

lemma reference_read [mirror_simps]:
  "valid_ArtifactReference a \<Longrightarrow> in_years (ar_created_at a) \<Longrightarrow> strict_reference other (mirror_reference a) = Some a"
  by (simp add: valid_ArtifactReference_def strict_reference_def mirror_reference_def mirror_simps checked_def
      fromisoformat_def read_isoformat_of)

lemma review_read: "valid_ReviewReport r \<Longrightarrow> strict_review (mirror_review r) = Some r"
  by (simp add: valid_ReviewReport_def strict_review_def mirror_review_def mirror_simps checked_def
      finding_prefix_matches_perspective_def)

lemma delegation_read [mirror_simps]: "valid_DelegationDecision d \<Longrightarrow> strict_delegation (mirror_delegation d) = Some d"
  by (simp add: valid_DelegationDecision_def strict_delegation_def mirror_delegation_def mirror_simps checked_def
      validate_combination_def)

lemma resolutions_read [mirror_simps]:
  "list_all valid_ResolutionDraft rs \<Longrightarrow> read_list strict_resolution
     (map (\<lambda>r. \<lparr>mx_issue = rd_issue r, mx_disposition = disposition_name (rd_disposition r),
        mx_explanation = rd_explanation r\<rparr>) rs) = Some rs"
  by (rule list_read) (simp add: list_all_iff valid_ResolutionDraft_def strict_resolution_def mirror_simps)

lemma issues_read [mirror_simps]:
  "list_all valid_IssueDraft ds \<Longrightarrow> read_list strict_issue
     (map (\<lambda>d. \<lparr>mi_issue = id_issue d, mi_title = id_title d, mi_description = id_description d\<rparr>) ds) = Some ds"
  by (rule list_read) (simp add: list_all_iff valid_IssueDraft_def strict_issue_def mirror_simps)

lemma turn_read: "valid_FacilitatorTurnOutput t \<Longrightarrow> strict_turn (mirror_turn t) = Some t"
  by (simp add: valid_FacilitatorTurnOutput_def strict_turn_def mirror_turn_def mirror_simps checked_def
      resolutions_are_final_def new_issues_are_open_def)

text \<open>The inputs come back in the fixed order of the mirror; as dictionaries they are the same.\<close>

lemma paired_inputs:
  assumes "valid_SynthesisReport r"
  obtains b e where "sr_inputs r = [(Business, b), (Engineering, e)] \<or> sr_inputs r = [(Engineering, e), (Business, b)]"
    "valid_ArtifactReference b" "valid_ArtifactReference e"
    "valid_SynthesisReport (r\<lparr>sr_inputs := [(Business, b), (Engineering, e)]\<rparr>)"
proof -
  obtain x y where xy: "sr_inputs r = [x, y]"
    using assms unfolding valid_SynthesisReport_def by (auto simp: length_Suc_conv numeral_2_eq_2)
  obtain p a q c where pq: "x = (p, a)" "y = (q, c)" by (cases x, cases y)
  have keys: "{p, q} = {Business, Engineering}"
    using assms unfolding valid_SynthesisReport_def validate_paired_inputs_def xy pq by (simp add: dict_keys_def)
  have refs: "valid_ArtifactReference a" "valid_ArtifactReference c"
    using assms unfolding valid_SynthesisReport_def xy pq by (simp_all add: dict_values_def)
  from keys consider "p = Business" "q = Engineering" | "p = Engineering" "q = Business"
    by (cases p; cases q) auto
  then show ?thesis
  proof cases
    case 1
    then have "r\<lparr>sr_inputs := [(Business, a), (Engineering, c)]\<rparr> = r" using xy pq by (cases r) simp
    with assms have "valid_SynthesisReport (r\<lparr>sr_inputs := [(Business, a), (Engineering, c)]\<rparr>)" by metis
    then show ?thesis using that[of a c] 1 xy pq refs by simp
  next
    case 2
    have "valid_SynthesisReport (r\<lparr>sr_inputs := [(Business, c), (Engineering, a)]\<rparr>)"
      using assms 2 unfolding valid_SynthesisReport_def validate_paired_inputs_def xy pq
      by (auto simp: dict_keys_def dict_values_def split: if_splits)
    then show ?thesis using that[of c a] 2 xy pq refs by simp
  qed
qed

lemma synthesis_read:
  assumes "valid_SynthesisReport r" "\<And>a. a \<in> set (dict_values (sr_inputs r)) \<Longrightarrow> in_years (ar_created_at a)"
  shows "\<exists>m r'. mirror_synthesis r = Some m \<and> list_all valid_MirrorConflictItem (my_conflicts m) \<and>
    strict_synthesis other m = Some r' \<and> map_of (sr_inputs r') = map_of (sr_inputs r) \<and>
    r' = r\<lparr>sr_inputs := sr_inputs r'\<rparr>"
proof -
  obtain b e where inputs: "sr_inputs r = [(Business, b), (Engineering, e)] \<or> sr_inputs r = [(Engineering, e), (Business, b)]"
    and refs: "valid_ArtifactReference b" "valid_ArtifactReference e"
    and valid: "valid_SynthesisReport (r\<lparr>sr_inputs := [(Business, b), (Engineering, e)]\<rparr>)"
    by (rule paired_inputs[OF assms(1)])
  let ?r = "r\<lparr>sr_inputs := [(Business, b), (Engineering, e)]\<rparr>"
  have years: "in_years (ar_created_at b)" "in_years (ar_created_at e)"
    using inputs assms(2) by (auto simp: dict_values_def)
  have found: "map_of (sr_inputs r) Business = Some b" "map_of (sr_inputs r) Engineering = Some e"
    using inputs by auto
  have parts: "text_ok (sr_summary r)" "list_all valid_Finding (sr_merged_findings r)"
    "list_all valid_ConflictItem (sr_conflicts r)" "list_all text_ok (sr_questions_for_po r)"
    "list_all short_text_ok (sr_resolved_from_previous r)"
    using assms(1) unfolding valid_SynthesisReport_def by simp_all
  obtain m where m: "mirror_synthesis r = Some m" by (simp add: mirror_synthesis_def found)
  have conflicts: "list_all valid_MirrorConflictItem (my_conflicts m)"
    using m parts(3) by (auto simp: mirror_synthesis_def found list_all_iff valid_MirrorConflictItem_def
        valid_ConflictItem_def mirror_conflict_def)
  have rebuilt: "\<lparr>sr_story_id = sr_story_id r, sr_summary = sr_summary r, sr_merged_findings = sr_merged_findings r,
      sr_conflicts = sr_conflicts r, sr_questions_for_po = sr_questions_for_po r,
      sr_resolved_from_previous = sr_resolved_from_previous r, sr_inputs = [(Business, b), (Engineering, e)]\<rparr> = ?r"
    by (cases r) simp
  have "strict_synthesis other m = Some ?r"
    using m[symmetric]
    by (simp add: mirror_synthesis_def found strict_synthesis_def mirror_simps parts refs years checked_def rebuilt valid)
  moreover have "map_of (sr_inputs ?r) = map_of (sr_inputs r)" using inputs by auto
  ultimately show ?thesis using m conflicts by fastforce
qed

lemma read_is_valid:
  "strict_review m = Some r \<Longrightarrow> valid_ReviewReport r" "strict_turn n = Some t \<Longrightarrow> valid_FacilitatorTurnOutput t"
  "strict_synthesis other k = Some s \<Longrightarrow> valid_SynthesisReport s"
  by (auto simp: strict_review_def strict_turn_def strict_synthesis_def checked_def bind_eq_Some_conv split: if_splits)

text \<open>The output schemas neither exclude a good answer nor let a bad one through. Every review report, turn
  output and synthesis report that the shared models accept can be written in the schema the model is held to,
  and reading that text with the shared model gives the same value back (the two synthesis inputs as a
  dictionary); and whatever is read from any answer in the schema is a value the shared model accepts.\<close>

theorem mirrors_complete_and_safe:
  assumes "valid_ReviewReport r" "valid_FacilitatorTurnOutput t" "valid_SynthesisReport s"
    "\<And>a. a \<in> set (dict_values (sr_inputs s)) \<Longrightarrow> in_years (ar_created_at a)"
  shows "strict_review (mirror_review r) = Some r \<and> strict_turn (mirror_turn t) = Some t \<and>
    (\<exists>m s'. mirror_synthesis s = Some m \<and> list_all valid_MirrorConflictItem (my_conflicts m) \<and>
       strict_synthesis other m = Some s' \<and> map_of (sr_inputs s') = map_of (sr_inputs s) \<and>
       s' = s\<lparr>sr_inputs := sr_inputs s'\<rparr>) \<and>
    list_all valid_ReviewReport (List.map_filter strict_review answers) \<and>
    list_all valid_FacilitatorTurnOutput (List.map_filter strict_turn turns) \<and>
    list_all valid_SynthesisReport (List.map_filter (strict_synthesis other) reports)"
  using review_read[OF assms(1)] turn_read[OF assms(2)] synthesis_read[OF assms(3,4), of other]
    read_is_valid
  by (auto simp: list_all_iff map_filter_def)

theorem mirrors_complete_and_safe_witness:
  "strict_review (mirror_review (demo_report Info)) = Some (demo_report Info) \<and>
   strict_turn (mirror_turn demo_output) = Some demo_output \<and> mirror_synthesis demo_synthesis \<noteq> None"
proof -
  have "text_ok ''s''" "text_ok ''retention period missing''" "short_text_ok ''audit log''"
    by (simp_all add: text_ok_def short_text_ok_def Text_def ShortText_def bounded_text_def strip_def lstrip_def
        rstrip_def is_space_def py_len_def is_continuation_def)
  moreover have "category_ok ''scope''" "numbered_id ''BE'' ''B-1''"
    by (simp_all add: category_ok_def numbered_id_def is_lower_def is_digit_def)
  ultimately have r: "valid_ReviewReport (demo_report Info)"
    by (simp add: valid_ReviewReport_def demo_report_def demo_finding_def valid_Finding_def opt_ok_def demo_words
        finding_prefix_matches_perspective_def)
  have s: "valid_SynthesisReport demo_synthesis"
    using demo_request_valid by (simp add: valid_FacilitatorRequest_def demo_request_def)
  have years: "in_years (ar_created_at a)" if "a \<in> set (dict_values (sr_inputs demo_synthesis))" for a
  proof -
    have "ar_created_at a = 0" using that by (auto simp: demo_synthesis_def dict_values_def demo_ref_def)
    moreover have "in_years 0" by code_simp
    ultimately show ?thesis by simp
  qed
  from mirrors_complete_and_safe[OF r demo_output_valid s years] show ?thesis by (metis option.distinct(1))
qed

end
