(* ===== verification/Spec2Isabelle.thy ===== *)
theory Spec2Isabelle
  imports Turn_Rules Artifact_Laws Session_Laws Paging Agent_Transport Agent_Engine Compaction Export_Run Signed_Links
    Cloud_Sql Llm_Output
begin

text \<open>
  Story review: a verification development.

  The program. A product owner lets two reviewer agents and a facilitator agent review a backlog story. The
  orchestration service (\<open>orchestration/\<close>) owns sessions and story runs in Postgres and drives everything: it
  calls three tool servers over MCP (\<open>mcp_servers/story\<close>, \<open>artifact\<close>, \<open>report\<close>) and four agents, either over HTTP
  adapters (\<open>shared/agent_kit\<close>) or on Agent Engine (\<open>ae_client.py\<close>). Session creation (flow 1) claims the
  idempotency key, opens a run, lets both reviewers and the synthesis work and stores their artifacts. A dialogue
  turn (flow 2) takes the session lease, asks the facilitator, runs the delegated reviews and then continues,
  parks or finalizes. Finalization (flow 3) builds the final review from the turn records and has it rendered.
  Every handler may die at any point and be retried under the same key; any number of handlers run at once. The
  web front (\<open>webui/\<close>) proxies the browser to the orchestration service; the dataset tools (\<open>dataset/\<close>) export
  and load the backlog the story server serves.

  Conventions. Paths are relative to the source tree. A definition has the name of the code it models (a
  leading underscore dropped, a class prefix on fields, a suffix where a name clashes). A class is a \<open>record\<close> with
  a predicate \<open>valid_<Class>\<close> for its validators, a literal union a \<open>datatype\<close>, a raise a branch of a sum or
  option. Strings are UTF-8 bytes (\<open>py_len\<close> counts code points), a dictionary is an association list in
  insertion order, an instant is a number of microseconds, a UUID is its 128 bits.

  Foundations. \<open>Prelude\<close> (strings, dictionaries, state-and-exception computations and their triples), \<open>Basics\<close>
  (sums, splitting, decimal numbers), \<open>Prog\<close> (handlers as programs of atomic actions; a lone run, the states a crash
  could leave, the rely-guarantee judgement \<open>obeys\<close>, and the pools of the locale \<open>interleaving\<close>), \<open>Frames\<close>
  (programs all of whose actions stay inside a relation), \<open>Lone_Runs\<close> (triples of a run that may stop anywhere),
  \<open>Idempotent_Store\<close> (the locale of a store that is safe to retry), \<open>Ids\<close> and \<open>Uuid_Text\<close> (writing and reading
  UUIDs), \<open>Calendar\<close> and \<open>Cursors\<close> (timestamps, base 64, list cursors), \<open>Json\<close>.

  Data model, \<open>shared/review_schemas/review_schemas/\<close>. \<open>Schema_Base\<close> (\<open>base.py\<close>, \<open>errors.py\<close>), \<open>Schema_Review\<close>
  (\<open>review.py\<close>, \<open>synthesis.py\<close>, \<open>facilitator.py\<close>), \<open>Schema_Records\<close> (\<open>records.py\<close>, \<open>mcp.py\<close>, \<open>judge.py\<close>),
  \<open>Resolutions\<close> (the latest-wins aggregation), \<open>Api_Models\<close> (\<open>api.py\<close> and the mapping of failures to API errors),
  \<open>Llm_Output\<close> (\<open>agent_kit/llm_output.py\<close>: the schemas the models are held to admit every valid answer, and
  what is read from one is valid).

  Stores. \<open>Artifact_Store\<close> models \<open>GcsArtifactService\<close>, \<open>Artifact_Laws\<close> its invariant and guarantees: retry after a
  crash, idempotency, immutability, and contiguous versions for the single writer \<open>_new_reference\<close> assumes
  (\<open>art_reach\<close>: saves follow one another); between racing writers (\<open>art_race\<close>) versions stay without a gap but two
  may share one. \<open>Report_Render\<close> and \<open>Report_Store\<close> model the renderer and
  \<open>ReportStore\<close>: both renderings show everything, one report per format in every store a report server can
  reach (\<open>rep_reach\<close>), retry after a crash. Both stores interpret
  \<open>idempotent_store\<close>. A bucket access consumes one unit of a budget and the process dies at 0, so a statement over
  every budget covers a crash at every access.

  Orchestration. \<open>World\<close> holds the tables of \<open>deploy/cloud-sql/migrations\<close> with their constraints and
  \<open>records_store.py\<close>; \<open>Lease\<close> and \<open>Idempotency\<close> their modules; \<open>Services\<close> the MCP client, lineage and the
  server ends; \<open>Flow_Create\<close>, \<open>Turn_Execution\<close>, \<open>Turn_Flow\<close>, \<open>Finalization\<close> the three flows; \<open>Session_Endings\<close>
  and \<open>Session_Views\<close> the other endpoints; \<open>Fence\<close> the reviewer output fence; \<open>Turn_Rules\<close> both validators of
  facilitator turns, proved equal; \<open>App_Shell\<close> the correlation id, exception handlers, alerts and health;
  \<open>Signed_Links\<close> the download links and keyless signing; \<open>Service_Settings\<close> the settings of every service;
  \<open>Cloud_Sql\<close> the database pool behind a service account. What holds of them together: \<open>Api_Steps\<close> shows once, in
  the locales \<open>service_steps\<close> and \<open>api_steps\<close>, that each handler stays inside a relation its atomic actions stay
  inside; \<open>Histories\<close> interprets them for the history relation and the invariant of the tables; \<open>Interleavings\<close>
  draws the consequences for every pool of concurrent, crashing handlers: one active run per story, what
  is kept of rows, turns and stored objects, an ended session frees its story. \<open>Lifecycle\<close> is the abstract machine of a session (active,
  parked, finalizing, completed, with its turn count) and the refinement: a turn request, stopped anywhere, moves
  the stored session along it. \<open>Session_Laws\<close> covers replay, refusal, abandoning and the release of the lease,
  \<open>Paging\<close> the client that reads all pages.

  Agents. \<open>Agent_Adapters\<close> and \<open>Facilitator_Adapter\<close> model the HTTP shells of \<open>agent_kit\<close>, \<open>Compaction\<close> the context
  policy. \<open>Turn_Attempts\<close> takes a facilitator turn apart into its steps, shows that uninterrupted they are \<open>turn\<close>, and
  lets the steps of several handlers interleave: a client that gives up does not stop its handler. \<open>Agent_Transport\<close>
  models the HTTP clients of \<open>agent_clients.py\<close>: its locale \<open>repeatable\<close> states what a repeated
  request relies on, and the adapter with all its handlers discharges it. \<open>Agent_Engine\<close> models \<open>ae_client.py\<close>: the
  attempt chain, recovery from recorded events and the corrective loop.

  Tool servers and tools. \<open>Mcp_Ingress\<close> (token middleware, caller lists, dispatch), \<open>Mcp_Wire\<close> (results and
  errors between a server and \<open>mcp_client.py\<close>), \<open>Story_Prepare\<close> and \<open>Story_Server\<close> (flattening, preparation, the two
  backlog sources), \<open>Dataset\<close> (expected files and loader), \<open>Ado_Export\<close> and \<open>Export_Run\<close>
  (cleaning, story ids, a whole export), \<open>Web_Front\<close> (proxy and ID tokens).

  Bounds. Every definition terminates. Retries are the source's: three attempts of a short call and two of a
  facilitator call, two corrective prompts (\<open>CORRECTIVE_MAX\<close>), three rounds of the lease loop, a lease of six
  minutes, at most ten facilitator turns before a session parks. \<open>Paging\<close> gives the reading client one step of fuel
  per page, and one page per session of the user is shown to be enough. An Agent Engine turn makes at most four
  exchanges per attempt and ten more, which is proved, not assumed.

  Parameters, the code that is not in the tree or that no function can describe: the models' runs, reading JSON
  text into a value, the HTML tokenizer, the PDF engine, the ISO 8601 forms other than \<open>isoformat\<close>'s own,
  SHA-256, \<open>uuid4\<close> and \<open>uuid5\<close>, the token verifier and the metadata server, V4 signatures, the clocks, the Azure REST
  answers, and what the network loses on each exchange. They are fields of environment records, so every theorem
  holds for all of them; a theorem that needs a law of one (distinct UUIDs, say) names it as a hypothesis and has
  a witness at a concrete environment. PostgreSQL runs a statement or transaction as one atomic action.

  Not modelled: log formatting (\<open>structured_logging.py\<close>), which never changes control flow; assembling the ADK
  agents and registering services (\<open>agents/*/agent.py\<close>, the builders of \<open>ae_runtime.py\<close> and
  \<open>facilitator_adapter.py\<close>), which only call constructors of the library; application start-up, fetching
  and reading the provenance files in the export script, deployment and smoke scripts and the connectivity spikes, which are I/O;
  the streamable-HTTP transport. The concurrent reviewers of flow 1 answer in a fixed order (they share no state).
  Model runs of overlapping facilitator attempts interleave at whole runs. Case mapping and whitespace are ASCII.
\<close>

end
